(* ===== verification/Prelude.thy ===== *)
theory Prelude
  imports Main "HOL-Library.Word"
begin

text \<open>
  Shared vocabulary of the development: bytes, outcomes of Go code that may panic,
  Go byte slices with length and capacity, the target architecture, and the generic
  list lemmas the components share.

  A Go expression either yields a value or panics; \<open>'a outcome\<close> makes both explicit.
  \<open>NoFuel\<close> is used only by the interpreter of generated code, for a call depth that
  ran out of fuel (a real program would still be running).
\<close>

unbundle bit_operations_syntax

named_theorems codec_simps \<open>equations of the wire primitives\<close>
named_theorems outcome_simps \<open>equations of the outcome type\<close>

type_synonym byte = "8 word"
type_synonym bytes = "8 word list"
type_synonym u16 = "16 word"
type_synonym u32 = "32 word"
type_synonym u64 = "64 word"

subsection \<open>Outcomes\<close>

datatype panic =
    PIndex          \<comment> \<open>index out of range\<close>
  | PSlice          \<comment> \<open>slice bounds out of range\<close>
  | PNil            \<comment> \<open>nil pointer dereference\<close>
  | PMake           \<comment> \<open>make with a length out of range\<close>
  | PMsg string     \<comment> \<open>explicit panic(msg)\<close>
  | PStuck          \<comment> \<open>ill-typed access; Go's type checker excludes it\<close>

datatype 'a outcome = Ok 'a | Panic panic | NoFuel

definition obind :: "'a outcome \<Rightarrow> ('a \<Rightarrow> 'b outcome) \<Rightarrow> 'b outcome" where
  "obind r f = (case r of Ok x \<Rightarrow> f x | Panic p \<Rightarrow> Panic p | NoFuel \<Rightarrow> NoFuel)"

lemma obind_simps [simp, outcome_simps]:
  "obind (Ok x) f = f x"
  "obind (Panic p) f = Panic p"
  "obind NoFuel f = NoFuel"
  by (simp_all add: obind_def)

lemma obind_eq_Ok: "obind r f = Ok y \<longleftrightarrow> (\<exists>x. r = Ok x \<and> f x = Ok y)"
  by (cases r) auto

subsection \<open>Writing a run of bytes into a buffer\<close>

text \<open>\<open>splice p xs b\<close> is \<open>b\<close> with \<open>xs\<close> written at offset \<open>p\<close>.\<close>

definition splice :: "nat \<Rightarrow> 'a list \<Rightarrow> 'a list \<Rightarrow> 'a list" where
  "splice p xs b = take p b @ xs @ drop (p + length xs) b"

lemma length_splice [simp]: "p + length xs \<le> length b \<Longrightarrow> length (splice p xs b) = length b"
  by (simp add: splice_def)

lemma splice_Nil [simp]: "splice p [] b = b"
  by (simp add: splice_def)

lemma splice_splice:
  assumes "p + length xs + length ys \<le> length b"
  shows "splice (p + length xs) ys (splice p xs b) = splice p (xs @ ys) b"
  using assms by (simp add: splice_def add.assoc add.commute [of "length ys"])

lemma splice_single: "p < length b \<Longrightarrow> splice p [x] b = b[p := x]"
  by (simp add: splice_def upd_conv_take_nth_drop)

lemma splice_whole: "length xs = length b \<Longrightarrow> splice 0 xs b = xs"
  by (simp add: splice_def)

lemma splice_prefix: "length xs \<le> length b \<Longrightarrow> take (length xs) (splice 0 xs b) = xs"
  by (simp add: splice_def)

lemma splice_drop:
  "p \<le> length b \<Longrightarrow> take p b @ splice 0 xs (drop p b) = splice p xs b"
  by (simp add: splice_def add.commute)

subsection \<open>Byte slices with length and capacity\<close>

text \<open>
  A Go \<open>[]byte\<close> that is appended to: its elements, the spare elements between length
  and capacity, and whether some append has moved it to a fresh array.  How much a
  growing append over-allocates is the runtime's choice, the parameter \<open>gr\<close>.
\<close>

record gbuf =
  gdat :: bytes
  gspare :: bytes
  gnew :: bool

type_synonym growth = "nat \<Rightarrow> nat"

definition gappend :: "growth \<Rightarrow> gbuf \<Rightarrow> bytes \<Rightarrow> gbuf" where
  "gappend gr b xs =
     (if length xs \<le> length (gspare b)
      then \<lparr>gdat = gdat b @ xs, gspare = drop (length xs) (gspare b), gnew = gnew b\<rparr>
      else \<lparr>gdat = gdat b @ xs,
            gspare = replicate (gr (length (gdat b) + length xs)) 0, gnew = True\<rparr>)"

text \<open>
  \<open>extends b xs b'\<close>: \<open>b'\<close> is \<open>b\<close> with \<open>xs\<close> appended by some sequence of appends,
  and in place whenever the capacity of \<open>b\<close> allowed it.
\<close>

definition extends :: "gbuf \<Rightarrow> bytes \<Rightarrow> gbuf \<Rightarrow> bool" where
  "extends b xs b' \<longleftrightarrow> gdat b' = gdat b @ xs \<and>
     (if length xs \<le> length (gspare b)
      then gspare b' = drop (length xs) (gspare b) \<and> gnew b' = gnew b
      else gnew b')"

lemma extends_gappend [simp, intro]: "extends b xs (gappend gr b xs)"
  by (simp add: extends_def gappend_def)

lemma extends_Nil [simp]: "extends b [] b"
  by (simp add: extends_def)

lemma extends_trans [trans]:
  assumes "extends b xs b'" and "extends b' ys b''"
  shows "extends b (xs @ ys) b''"
  using assms by (auto simp: extends_def add.commute split: if_splits)

lemma extends_gdat: "extends b xs b' \<Longrightarrow> gdat b' = gdat b @ xs"
  by (simp add: extends_def)

lemma extends_reuse:
  "extends b xs b' \<Longrightarrow> length xs \<le> length (gspare b) \<Longrightarrow> gnew b' = gnew b"
  by (simp add: extends_def)

end
