(* ===== verification/Primitives.thy ===== *)
theory Primitives
  imports Prelude
begin

text \<open>
  The wire primitives of \<open>codec/primitives.go\<close> and \<open>codec/float.go\<close>: fixed-width
  little-endian readers and writers, the LEB128 varint codec, the append family, the
  zigzag transform, the zero-copy string conversions and the float bit casts.
  A write into a slice that is too short panics, as Go's bounds check does.
\<close>

subsection \<open>Fixed-width writers\<close>

definition PutU16 :: "bytes \<Rightarrow> u16 \<Rightarrow> bytes outcome" where
  "PutU16 b v =
     (if length b \<le> 1 then Panic PIndex
      else Ok (b[0 := ucast v, 1 := ucast (drop_bit 8 v)]))"

definition PutU32 :: "bytes \<Rightarrow> u32 \<Rightarrow> bytes outcome" where
  "PutU32 b v =
     (if length b \<le> 3 then Panic PIndex
      else Ok (b[0 := ucast v, 1 := ucast (drop_bit 8 v),
                 2 := ucast (drop_bit 16 v), 3 := ucast (drop_bit 24 v)]))"

definition PutU64 :: "bytes \<Rightarrow> u64 \<Rightarrow> bytes outcome" where
  "PutU64 b v =
     (if length b \<le> 7 then Panic PIndex
      else Ok (b[0 := ucast v, 1 := ucast (drop_bit 8 v),
                 2 := ucast (drop_bit 16 v), 3 := ucast (drop_bit 24 v),
                 4 := ucast (drop_bit 32 v), 5 := ucast (drop_bit 40 v),
                 6 := ucast (drop_bit 48 v), 7 := ucast (drop_bit 56 v)]))"

subsection \<open>Fixed-width readers\<close>

definition U16 :: "bytes \<Rightarrow> u16 outcome" where
  "U16 b =
     (if length b \<le> 1 then Panic PIndex
      else Ok (ucast (b ! 0) OR push_bit 8 (ucast (b ! 1))))"

definition U32 :: "bytes \<Rightarrow> u32 outcome" where
  "U32 b =
     (if length b \<le> 3 then Panic PIndex
      else Ok (ucast (b ! 0) OR push_bit 8 (ucast (b ! 1))
               OR push_bit 16 (ucast (b ! 2)) OR push_bit 24 (ucast (b ! 3))))"

definition U64 :: "bytes \<Rightarrow> u64 outcome" where
  "U64 b =
     (if length b \<le> 7 then Panic PIndex
      else Ok (ucast (b ! 0) OR push_bit 8 (ucast (b ! 1))
               OR push_bit 16 (ucast (b ! 2)) OR push_bit 24 (ucast (b ! 3))
               OR push_bit 32 (ucast (b ! 4)) OR push_bit 40 (ucast (b ! 5))
               OR push_bit 48 (ucast (b ! 6)) OR push_bit 56 (ucast (b ! 7))))"

subsection \<open>Varints\<close>

text \<open>
  The loop of \<open>PutUvarint\<close>, from offset \<open>i\<close>: seven bits per round, the continuation
  bit set on all but the last byte.  The shift right makes the value smaller, so the
  loop ends.
\<close>

lemma drop_bit_7_less: "(0x80 :: u64) \<le> v \<Longrightarrow> unat (drop_bit 7 v) < unat v"
proof -
  assume a: "(0x80 :: u64) \<le> v"
  then have "128 \<le> unat v" by (simp add: word_le_nat_alt)
  moreover have "unat (drop_bit 7 v) = unat v div 128"
    unfolding unat_drop_bit_eq by (simp add: drop_bit_eq_div)
  ultimately show ?thesis by simp
qed

function PutUvarint_loop :: "bytes \<Rightarrow> u64 \<Rightarrow> nat \<Rightarrow> (bytes \<times> nat) outcome" where
  "PutUvarint_loop b v i =
     (if 0x80 \<le> v
      then if i < length b
           then PutUvarint_loop (b[i := ucast v OR 0x80]) (drop_bit 7 v) (i + 1)
           else Panic PIndex
      else if i < length b then Ok (b[i := ucast v], i + 1) else Panic PIndex)"
  by pat_completeness auto
termination
  by (relation "measure (\<lambda>(b, v, i). unat v)") (simp_all add: drop_bit_7_less)

declare PutUvarint_loop.simps [simp del]

definition PutUvarint :: "bytes \<Rightarrow> u64 \<Rightarrow> (bytes \<times> nat) outcome" where
  "PutUvarint b v = PutUvarint_loop b v 0"

text \<open>
  The loop of \<open>Uvarint\<close> over the bytes still to read: index \<open>i\<close>, accumulated value
  \<open>x\<close>, shift \<open>s\<close>.  A negative count signals overflow, zero a truncated input.
\<close>

fun Uvarint_loop :: "bytes \<Rightarrow> nat \<Rightarrow> u64 \<Rightarrow> nat \<Rightarrow> u64 \<times> int" where
  "Uvarint_loop [] i x s = (0, 0)"
| "Uvarint_loop (c # cs) i x s =
     (if c < 0x80
      then if i > 9 \<or> (i = 9 \<and> c > 1) then (0, - (int i + 1))
           else (x OR push_bit s (ucast c), int i + 1)
      else Uvarint_loop cs (i + 1) (x OR push_bit s (ucast (c AND 0x7f))) (s + 7))"

definition Uvarint :: "bytes \<Rightarrow> u64 \<times> int" where
  "Uvarint b = Uvarint_loop b 0 0 0"

text \<open>\<open>bits.Len64\<close>: the number of bits of the value, 0 for 0.\<close>

fun Len64_nat :: "nat \<Rightarrow> nat" where
  "Len64_nat n = (if n = 0 then 0 else Len64_nat (n div 2) + 1)"

declare Len64_nat.simps [simp del]

definition Len64 :: "u64 \<Rightarrow> nat" where
  "Len64 v = Len64_nat (unat v)"

definition UvarintSize :: "u64 \<Rightarrow> nat" where
  "UvarintSize v = (Len64 (v OR 1) + 6) div 7"

subsection \<open>The append family\<close>

definition AppendU16 :: "growth \<Rightarrow> gbuf \<Rightarrow> u16 \<Rightarrow> gbuf" where
  "AppendU16 gr b v = gappend gr b [ucast v, ucast (drop_bit 8 v)]"

definition AppendU32 :: "growth \<Rightarrow> gbuf \<Rightarrow> u32 \<Rightarrow> gbuf" where
  "AppendU32 gr b v =
     gappend gr b [ucast v, ucast (drop_bit 8 v), ucast (drop_bit 16 v), ucast (drop_bit 24 v)]"

definition AppendU64 :: "growth \<Rightarrow> gbuf \<Rightarrow> u64 \<Rightarrow> gbuf" where
  "AppendU64 gr b v =
     gappend gr b
       [ucast v, ucast (drop_bit 8 v), ucast (drop_bit 16 v), ucast (drop_bit 24 v),
        ucast (drop_bit 32 v), ucast (drop_bit 40 v), ucast (drop_bit 48 v),
        ucast (drop_bit 56 v)]"

function AppendUvarint :: "growth \<Rightarrow> gbuf \<Rightarrow> u64 \<Rightarrow> gbuf" where
  "AppendUvarint gr b v =
     (if 0x80 \<le> v
      then AppendUvarint gr (gappend gr b [ucast v OR 0x80]) (drop_bit 7 v)
      else gappend gr b [ucast v])"
  by pat_completeness auto
termination
  by (relation "measure (\<lambda>(gr, b, v). unat v)") (simp_all add: drop_bit_7_less)

declare AppendUvarint.simps [simp del]

subsection \<open>Zigzag\<close>

definition Zig :: "u64 \<Rightarrow> u64" where
  "Zig v = push_bit 1 v XOR signed_drop_bit 63 v"

definition Zag :: "u64 \<Rightarrow> u64" where
  "Zag v = drop_bit 1 v XOR (- (v AND 1))"

subsection \<open>Zero-copy conversions and float bit casts\<close>

text \<open>
  A byte region as a string or a \<open>[]byte\<close> header sees it: the bytes, and whether the
  memory is the value's own or a window at some offset of the input buffer.
  \<open>B2S\<close> and \<open>S2B\<close> keep the region, which is what zero-copy means.
\<close>

datatype origin = Own | Input nat

record gview =
  vorg :: origin
  vdat :: bytes

definition B2S :: "gview \<Rightarrow> gview" where
  "B2S b = b"

definition S2B :: "gview \<Rightarrow> gview" where
  "S2B s = s"

text \<open>
  Floats are carried as their IEEE 754 bit pattern, which is exactly what
  \<open>math.Float64bits\<close> and \<open>math.Float64frombits\<close> convert to and from.
\<close>

type_synonym float64 = u64
type_synonym float32 = u32

definition F64bits :: "float64 \<Rightarrow> u64" where
  "F64bits f = f"

definition Bitsf64 :: "u64 \<Rightarrow> float64" where
  "Bitsf64 u = u"

definition F32bits :: "float32 \<Rightarrow> u32" where
  "F32bits f = f"

definition Bitsf32 :: "u32 \<Rightarrow> float32" where
  "Bitsf32 u = u"

subsection \<open>Reference encodings\<close>

text \<open>What the writers promise: the little-endian bytes of a word and its LEB128 bytes.\<close>

definition le_bytes :: "nat \<Rightarrow> 'a::len word \<Rightarrow> bytes" where
  "le_bytes n v = map (\<lambda>k. ucast (drop_bit (8 * k) v)) [0..<n]"

function uvarint_bytes :: "u64 \<Rightarrow> bytes" where
  "uvarint_bytes v =
     (if 0x80 \<le> v then (ucast v OR 0x80) # uvarint_bytes (drop_bit 7 v) else [ucast v])"
  by pat_completeness auto
termination
  by (relation "measure unat") (simp_all add: drop_bit_7_less)

declare uvarint_bytes.simps [simp del]

lemma length_le_bytes [simp]: "length (le_bytes n v) = n"
  by (simp add: le_bytes_def)

lemma le_bytes_nat:
  "le_bytes 2 v = [ucast v, ucast (drop_bit 8 v)]"
  "le_bytes 4 v = [ucast v, ucast (drop_bit 8 v), ucast (drop_bit 16 v), ucast (drop_bit 24 v)]"
  "le_bytes 8 v = [ucast v, ucast (drop_bit 8 v), ucast (drop_bit 16 v), ucast (drop_bit 24 v),
     ucast (drop_bit 32 v), ucast (drop_bit 40 v), ucast (drop_bit 48 v), ucast (drop_bit 56 v)]"
  by (simp_all add: le_bytes_def upt_rec)

subsection \<open>Laws of the fixed-width primitives and of zigzag\<close>

lemma length_ge_2E:
  assumes "2 \<le> length b" obtains a0 a1 r where "b = a0 # a1 # r"
  using assms by (auto simp: numeral_eq_Suc Suc_le_length_iff)
lemma length_ge_4E:
  assumes "4 \<le> length b" obtains a0 a1 a2 a3 r where "b = a0 # a1 # a2 # a3 # r"
  using assms by (auto simp: numeral_eq_Suc Suc_le_length_iff)
lemma length_ge_8E:
  assumes "8 \<le> length b"
  obtains a0 a1 a2 a3 a4 a5 a6 a7 r where "b = a0 # a1 # a2 # a3 # a4 # a5 # a6 # a7 # r"
  using assms by (auto simp: numeral_eq_Suc Suc_le_length_iff)

lemma PutU16_ok: "2 \<le> length b \<Longrightarrow> PutU16 b v = Ok (splice 0 (le_bytes 2 v) b)"
  by (erule length_ge_2E) (simp add: PutU16_def le_bytes_nat splice_def)
lemma PutU32_ok: "4 \<le> length b \<Longrightarrow> PutU32 b v = Ok (splice 0 (le_bytes 4 v) b)"
  by (erule length_ge_4E) (simp add: PutU32_def le_bytes_nat splice_def)
lemma PutU64_ok: "8 \<le> length b \<Longrightarrow> PutU64 b v = Ok (splice 0 (le_bytes 8 v) b)"
  by (erule length_ge_8E) (simp add: PutU64_def le_bytes_nat splice_def)

lemma U16_le: "U16 (le_bytes 2 v @ r) = Ok v"
  apply (simp add: U16_def le_bytes_nat)
  apply (rule bit_word_eqI)
  apply (auto simp: bit_simps nth_append less_Suc_eq_le)
  done
lemma U32_le: "U32 (le_bytes 4 v @ r) = Ok v"
proof -
  have "bit (ucast (ucast v :: byte) OR push_bit 8 (ucast (ucast (drop_bit 8 v) :: byte)) OR
          push_bit 16 (ucast (ucast (drop_bit 16 v) :: byte)) OR
          push_bit 24 (ucast (ucast (drop_bit 24 v) :: byte)) :: u32) n = bit v n" if "n < 32" for n
  proof -
    from that have "n < 8 \<or> 8 \<le> n \<and> n < 16 \<or> 16 \<le> n \<and> n < 24 \<or> 24 \<le> n \<and> n < 32" by arith
    then show ?thesis by (elim disjE conjE) (simp_all add: bit_simps less_diff_conv2)
  qed
  from bit_word_eqI [of _ v, simplified, OF this] show ?thesis by (simp add: U32_def le_bytes_nat)
qed


lemma U64_le: "U64 (le_bytes 8 v @ r) = Ok v"
proof -
  have "bit (ucast (ucast v :: byte) OR push_bit 8 (ucast (ucast (drop_bit 8 v) :: byte)) OR
          push_bit 16 (ucast (ucast (drop_bit 16 v) :: byte)) OR
          push_bit 24 (ucast (ucast (drop_bit 24 v) :: byte)) OR
          push_bit 32 (ucast (ucast (drop_bit 32 v) :: byte)) OR
          push_bit 40 (ucast (ucast (drop_bit 40 v) :: byte)) OR
          push_bit 48 (ucast (ucast (drop_bit 48 v) :: byte)) OR
          push_bit 56 (ucast (ucast (drop_bit 56 v) :: byte)) :: u64) n = bit v n" if "n < 64" for n
  proof -
    from that have "n < 8 \<or> 8 \<le> n \<and> n < 16 \<or> 16 \<le> n \<and> n < 24 \<or> 24 \<le> n \<and> n < 32
        \<or> 32 \<le> n \<and> n < 40 \<or> 40 \<le> n \<and> n < 48 \<or> 48 \<le> n \<and> n < 56 \<or> 56 \<le> n \<and> n < 64" by arith
    then show ?thesis by (elim disjE conjE) (simp_all add: bit_simps less_diff_conv2)
  qed
  from bit_word_eqI [of _ v, simplified, OF this] show ?thesis by (simp add: U64_def le_bytes_nat)
qed

lemma bit_Zig: "bit (Zig v) n \<longleftrightarrow> n < 64 \<and> ((0 < n \<and> bit v (n - 1)) \<noteq> bit v 63)"
proof (cases "n < 64")
  case True
  then show ?thesis unfolding Zig_def bit_xor_iff bit_push_bit_iff bit_signed_drop_bit_iff
    by (cases n) auto
next
  case False then show ?thesis using bit_imp_le_length [of "Zig v" n] by auto
qed
lemma Zig_lsb: "Zig v AND 1 = (if bit v 63 then 1 else 0)"
  by (rule bit_word_eqI) (auto simp: bit_Zig bit_and_iff bit_1_iff)


lemma Zag_Zig: "Zag (Zig v) = v"
proof (rule bit_word_eqI)
  fix n assume "n < LENGTH(64)"
  then have "n < 63 \<or> n = 63" by auto
  then show "bit (Zag (Zig v)) n \<longleftrightarrow> bit v n"
    by (elim disjE) (auto simp: Zag_def Zig_lsb bit_xor_iff bit_drop_bit_eq bit_Zig)
qed
lemma bit_Zag: "bit (Zag v) n \<longleftrightarrow> n < 64 \<and> ((n < 63 \<and> bit v (n + 1)) \<noteq> bit v 0)"
proof -
  have "v AND 1 = (if bit v 0 then 1 else 0)"
    by (simp add: and_one_eq mod_2_eq_odd bit_0)
  then show ?thesis using bit_imp_le_length [of v "Suc n"] bit_imp_le_length [of "Zag v" n]
    by (auto simp: Zag_def bit_xor_iff bit_drop_bit_eq)
qed
lemma Zig_Zag: "Zig (Zag v) = v"
proof (rule bit_word_eqI)
  fix n assume "n < LENGTH(64)"
  then show "bit (Zig (Zag v)) n \<longleftrightarrow> bit v n"
    by (cases n) (auto simp: bit_Zig bit_Zag)
qed

lemma ucast_low7: "ucast (ucast (v::u64) AND (0x7f::byte)) = take_bit 7 v"
proof -
  have "(0x7f::byte) = mask 7" by (simp add: mask_eq_exp_minus_1)
  then show ?thesis
  apply (simp only: flip: take_bit_eq_mask) 
  apply (rule bit_word_eqI) by (auto simp: bit_simps)
qed
lemma cont_low7: "((b::byte) OR 0x80) AND 0x7f = b AND 0x7f"
  by (simp add: bit.conj_disj_distrib2)
lemma cont_ge: "\<not> ((b::byte) OR 0x80) < 0x80"
  using le_word_or1 [of "0x80" b] by (simp add: not_less or.commute)
lemma uvarint_join: "push_bit s (take_bit 7 v) OR push_bit (s + 7) (drop_bit 7 v) = push_bit s (v::u64)"
proof -
  have "take_bit 7 v OR push_bit 7 (drop_bit 7 v) = v"
    by (rule bit_word_eqI, case_tac "n < 7") (simp_all add: bit_simps)
  then have "push_bit s (take_bit 7 v OR push_bit 7 (drop_bit 7 v)) = push_bit s v" by simp
  then show ?thesis by (simp only: push_bit_or push_bit_push_bit add.commute)
qed

subsection \<open>Laws of the varint codec\<close>

lemma uvarint_bytes_ne [simp]: "uvarint_bytes v \<noteq> []"
  by (subst uvarint_bytes.simps) simp

lemma unat_lt: "unat (v::u64) < 2 ^ 64"
  by (rule order_less_le_trans [OF unsigned_less]) simp

lemma unat_ge_80: "(0x80 :: u64) \<le> v \<longleftrightarrow> 128 \<le> unat v"
  by (simp add: word_le_nat_alt)

lemma PutUvarint_loop_ok:
  "i + length (uvarint_bytes v) \<le> length b \<Longrightarrow>
   PutUvarint_loop b v i = Ok (splice i (uvarint_bytes v) b, i + length (uvarint_bytes v))"
proof (induction b v i rule: PutUvarint_loop.induct)
  case (1 b v i)
  show ?case
  proof (cases "0x80 \<le> v")
    case True
    let ?w = "drop_bit 7 v" and ?c = "ucast v OR 0x80 :: byte"
    have u: "uvarint_bytes v = ?c # uvarint_bytes ?w"
      using True by (subst uvarint_bytes.simps) simp
    with "1.prems" have i: "i < length b" and le: "i + 1 + length (uvarint_bytes ?w) \<le> length b"
      by simp_all
    have "splice (i + 1) (uvarint_bytes ?w) (b[i := ?c]) = splice i (uvarint_bytes v) b"
      using splice_splice [of i "[?c]" "uvarint_bytes ?w" b] le i
      by (simp add: u splice_single)
    then show ?thesis
      using "1.IH" [OF True i] True i le u by (subst PutUvarint_loop.simps) simp
  next
    case False
    then have u: "uvarint_bytes v = [ucast v]" by (subst uvarint_bytes.simps) simp
    with False "1.prems" show ?thesis
      by (subst PutUvarint_loop.simps) (simp add: splice_single)
  qed
qed

lemma PutUvarint_loop_panic:
  "length b < i + length (uvarint_bytes v) \<Longrightarrow> PutUvarint_loop b v i = Panic PIndex"
proof (induction b v i rule: PutUvarint_loop.induct)
  case (1 b v i)
  have u: "uvarint_bytes v =
     (if 0x80 \<le> v then (ucast v OR 0x80) # uvarint_bytes (drop_bit 7 v) else [ucast v])"
    by (rule uvarint_bytes.simps)
  show ?case
    using "1.IH" "1.prems" by (subst PutUvarint_loop.simps) (auto simp: u split: if_splits)
qed

lemma PutUvarint_ok [codec_simps]:
  "length (uvarint_bytes v) \<le> length b \<Longrightarrow>
   PutUvarint b v = Ok (splice 0 (uvarint_bytes v) b, length (uvarint_bytes v))"
  by (simp add: PutUvarint_def PutUvarint_loop_ok)

lemma Uvarint_loop_ok:
  "i \<le> 9 \<Longrightarrow> s = 7 * i \<Longrightarrow> unat v < 2 ^ (64 - s) \<Longrightarrow>
   Uvarint_loop (uvarint_bytes v @ r) i x s =
     (x OR push_bit s v, int i + int (length (uvarint_bytes v)))"
proof (induction v arbitrary: i x s rule: uvarint_bytes.induct)
  case (1 v)
  show ?case
  proof (cases "0x80 \<le> v")
    case True
    let ?w = "drop_bit 7 v" and ?c = "ucast v OR 0x80 :: byte"
    have u: "uvarint_bytes v = ?c # uvarint_bytes ?w"
      using True by (subst uvarint_bytes.simps) simp
    have v128: "128 \<le> unat v" using True by (simp add: unat_ge_80)
    have i8: "i \<le> 8"
    proof (rule ccontr)
      assume "\<not> i \<le> 8" with "1.prems" have "i = 9" by simp
      with "1.prems" v128 show False by simp
    qed
    have w: "unat ?w = unat v div 128"
      unfolding unat_drop_bit_eq by (simp add: drop_bit_eq_div)
    have "(2::nat) ^ (64 - s) = 2 ^ (64 - (s + 7)) * 128"
    proof -
      have "64 - s = (64 - (s + 7)) + 7" using i8 "1.prems"(2) by simp
      then have "(2::nat) ^ (64 - s) = 2 ^ (64 - (s + 7)) * 2 ^ 7" by (simp only: power_add)
      then show ?thesis by simp
    qed
    with "1.prems"(3) have b: "unat ?w < 2 ^ (64 - (s + 7))"
      by (simp add: w less_mult_imp_div_less)
    have "Uvarint_loop (uvarint_bytes v @ r) i x s =
        Uvarint_loop (uvarint_bytes ?w @ r) (i + 1) (x OR push_bit s (take_bit 7 v)) (s + 7)"
      using cont_ge [of "ucast v"] by (simp add: u cont_low7 ucast_low7)
    also have "\<dots> = ((x OR push_bit s (take_bit 7 v)) OR push_bit (s + 7) ?w,
        int (i + 1) + int (length (uvarint_bytes ?w)))"
      using i8 "1.prems"(2) b by (intro "1.IH" True) simp_all
    also have "(x OR push_bit s (take_bit 7 v)) OR push_bit (s + 7) ?w = x OR push_bit s v"
      by (simp only: or.assoc uvarint_join)
    finally show ?thesis by (simp add: u)
  next
    case False
    then have u: "uvarint_bytes v = [ucast v]" by (subst uvarint_bytes.simps) simp
    have v: "unat v < 128" using False by (simp add: unat_ge_80)
    have c: "unat (ucast v :: byte) = unat v"
      using v by (simp add: unsigned_ucast_eq take_bit_nat_eq_self)
    have lt: "(ucast v :: byte) < 0x80" using v c by (simp add: word_less_nat_alt)
    have "\<not> (i = 9 \<and> (ucast v :: byte) > 1)"
      using "1.prems" c by (auto simp: word_less_nat_alt)
    moreover have "ucast (ucast v :: byte) = v"
      using v by (intro word_unat_eq_iff [THEN iffD2]) (simp add: unsigned_ucast_eq unsigned_take_bit_eq take_bit_nat_eq_self)
    ultimately show ?thesis using lt "1.prems"(1) by (simp add: u)
  qed
qed

lemma Uvarint_ok [codec_simps]:
  "Uvarint (uvarint_bytes v @ r) = (v, int (length (uvarint_bytes v)))"
  using Uvarint_loop_ok [of 0 0 v r 0] unat_lt [of v] by (simp add: Uvarint_def)

lemma Len64_nat_le: "m < 2 ^ k \<Longrightarrow> Len64_nat m \<le> k"
proof (induction k arbitrary: m)
  case 0 then show ?case by (simp add: Len64_nat.simps)
next
  case (Suc k)
  then have "m div 2 < 2 ^ k" by auto
  with Suc.IH show ?case by (subst Len64_nat.simps) simp
qed

lemma Len64_nat_pos: "0 < m \<Longrightarrow> Len64_nat m = Suc (Len64_nat (m div 2))"
  by (subst Len64_nat.simps) simp

lemma Len64_nat_shift7: "64 \<le> m \<Longrightarrow> Len64_nat m = 7 + Len64_nat (m div 128)"
  by (simp add: Len64_nat_pos div_mult2_eq [symmetric])

lemma Len64_or_1: "Len64 (v OR 1) = Suc (Len64_nat (unat v div 2))"
proof -
  have o: "unat (v OR 1) = unat v OR 1" by (simp only: unsigned_or_eq unsigned_1)
  have "unat (v OR 1) div 2 = unat v div 2"
    unfolding o by (simp add: or_Suc_0_eq)
  moreover have "0 < unat (v OR 1)"
    unfolding o by (cases "unat v") (simp_all add: or_Suc_0_eq)
  ultimately show ?thesis by (simp add: Len64_def Len64_nat_pos)
qed

lemma UvarintSize_eq: "UvarintSize v = Len64_nat (unat v div 2) div 7 + 1"
  by (simp add: UvarintSize_def Len64_or_1)

lemma unat_drop_7: "unat (drop_bit 7 (v::u64)) = unat v div 128"
  unfolding unat_drop_bit_eq by (simp add: drop_bit_eq_div)

lemma length_uvarint_bytes [codec_simps]: "length (uvarint_bytes v) = UvarintSize v"
proof (induction v rule: uvarint_bytes.induct)
  case (1 v)
  show ?case
  proof (cases "0x80 \<le> v")
    case True
    then have m: "64 \<le> unat v div 2" by (simp add: unat_ge_80)
    have "length (uvarint_bytes v) = Suc (UvarintSize (drop_bit 7 v))"
      using True "1.IH" by (subst uvarint_bytes.simps) simp
    also have "\<dots> = UvarintSize v"
      using Len64_nat_shift7 [OF m] by (simp add: UvarintSize_eq unat_drop_7 div_mult2_eq [symmetric])
    finally show ?thesis .
  next
    case False
    then have "unat v div 2 < 2 ^ 6" by (simp add: unat_ge_80)
    from Len64_nat_le [OF this] False show ?thesis
      by (subst uvarint_bytes.simps) (simp add: UvarintSize_eq)
  qed
qed

lemma UvarintSize_bounds: "1 \<le> UvarintSize v" "UvarintSize v \<le> 10"
proof -
  have "unat v div 2 < 2 ^ 63" using unat_lt [of v] by simp
  from Len64_nat_le [OF this] show "1 \<le> UvarintSize v" "UvarintSize v \<le> 10"
    by (simp_all add: UvarintSize_eq)
qed

lemma AppendUvarint_extends [codec_simps]: "extends b (uvarint_bytes v) (AppendUvarint gr b v)"
proof (induction gr b v rule: AppendUvarint.induct)
  case (1 gr b v)
  show ?case
  proof (cases "0x80 \<le> v")
    case True
    have "extends b ([ucast v OR 0x80] @ uvarint_bytes (drop_bit 7 v)) (AppendUvarint gr b v)"
      using True extends_trans [OF extends_gappend "1.IH" [OF True]]
      by (subst AppendUvarint.simps) simp
    with True show ?thesis by (subst uvarint_bytes.simps) simp
  next
    case False
    then show ?thesis by (subst uvarint_bytes.simps, subst AppendUvarint.simps) simp
  qed
qed

lemma Uvarint_loop_ext:
  "snd (Uvarint_loop b i x s) \<noteq> 0 \<Longrightarrow> Uvarint_loop (b @ r) i x s = Uvarint_loop b i x s"
  by (induction b i x s rule: Uvarint_loop.induct) auto

lemma Uvarint_ext: "snd (Uvarint b) \<noteq> 0 \<Longrightarrow> Uvarint (b @ r) = Uvarint b"
  by (simp add: Uvarint_def Uvarint_loop_ext)

lemma Uvarint_loop_bounds:
  "snd (Uvarint_loop b i x s) \<le> int i + int (length b) \<and>
   (0 < snd (Uvarint_loop b i x s) \<longrightarrow> int i < snd (Uvarint_loop b i x s) \<and> snd (Uvarint_loop b i x s) \<le> 10)"
  by (induction b i x s rule: Uvarint_loop.induct) (auto simp del: of_nat_Suc)

lemma Uvarint_bounds:
  "snd (Uvarint b) \<le> int (length b)"
  "0 < snd (Uvarint b) \<Longrightarrow> snd (Uvarint b) \<le> 10"
  using Uvarint_loop_bounds [of b 0 0 0] by (simp_all add: Uvarint_def)

lemma Uvarint_error_value: "snd (Uvarint_loop b i x s) \<le> 0 \<Longrightarrow> fst (Uvarint_loop b i x s) = 0"
  by (induction b i x s rule: Uvarint_loop.induct) auto


lemma signed_drop_63: "signed_drop_bit 63 (v::u64) = (if bit v 63 then -1 else 0)"
proof (rule bit_word_eqI)
  fix n assume "n < LENGTH(64)"
  then show "bit (signed_drop_bit 63 v) n = bit (if bit v 63 then - 1 else 0 :: u64) n"
    by (cases n) (auto simp: bit_signed_drop_bit_iff)
qed
lemma Zig_value:
  "uint (Zig v) = (if 0 \<le> sint v then 2 * sint v else - 2 * sint v - 1)"
proof -
  have b: "- (2 ^ 63) \<le> sint v" "sint v < 2 ^ 63"
    using sint_greater_eq [of v] sint_less [of v] by simp_all
  have neg: "bit v 63 \<longleftrightarrow> sint v < 0" 
    by (simp add: bit_last_iff [where 'a = 64, simplified])
  show ?thesis
  proof (cases "0 \<le> sint v")
    case True
    then have "Zig v = word_of_int (2 * sint v)"
      using neg by (simp add: Zig_def signed_drop_63)
    then have "uint (Zig v) = take_bit 64 (2 * sint v)" by (simp only: uint_word_of_int_eq) simp
    then show ?thesis using True b by (simp add: take_bit_int_eq_self)
  next
    case False
    then have "Zig v = NOT (2 * v)"
      using neg by (simp add: Zig_def signed_drop_63)
    also have "\<dots> = word_of_int (- 2 * sint v - 1)"
      by (simp add: not_eq_complement)
    finally have "uint (Zig v) = take_bit 64 (- 2 * sint v - 1)" by (simp only: uint_word_of_int_eq) simp
    then show ?thesis using False b by (simp add: take_bit_int_eq_self)
  qed
qed
lemma Uvarint_truncated_nil:
  "k < length (uvarint_bytes v) \<Longrightarrow> Uvarint_loop (take k (uvarint_bytes v)) i x s = (0, 0)"
proof (induction v arbitrary: k i x s rule: uvarint_bytes.induct)
  case (1 v)
  show ?case
  proof (cases "0x80 \<le> v \<and> k \<noteq> 0")
    case True
    then obtain k' where k: "k = Suc k'" by (cases k) auto
    have u: "uvarint_bytes v = (ucast v OR 0x80) # uvarint_bytes (drop_bit 7 v)"
      using True by (subst uvarint_bytes.simps) simp
    with "1.prems" k have "k' < length (uvarint_bytes (drop_bit 7 v))" by simp
    from "1.IH" [OF _ this] True show ?thesis
      using cont_ge [of "ucast v"] by (simp add: u k)
  next
    case False
    with "1.prems" have "k = 0" by (subst (asm) uvarint_bytes.simps) (auto split: if_splits)
    then show ?thesis by simp
  qed
qed

subsection \<open>Properties\<close>

text \<open>C35: each fixed-width writer fills exactly its width at the front of the buffer and
  leaves the rest alone, and the matching reader recovers the value, at 16, 32 and 64 bits.\<close>

theorem fixed_width_roundtrip:
  "(2 \<le> length b \<longrightarrow> (\<exists>b'. PutU16 b v = Ok b' \<and> U16 b' = Ok v \<and> length b' = length b \<and> drop 2 b' = drop 2 b))
   \<and> (4 \<le> length b \<longrightarrow> (\<exists>b'. PutU32 b w = Ok b' \<and> U32 b' = Ok w \<and> length b' = length b \<and> drop 4 b' = drop 4 b))
   \<and> (8 \<le> length b \<longrightarrow> (\<exists>b'. PutU64 b x = Ok b' \<and> U64 b' = Ok x \<and> length b' = length b \<and> drop 8 b' = drop 8 b))"
  by (auto simp: PutU16_ok PutU32_ok PutU64_ok splice_def numeral_2_eq_2 [symmetric] U16_le U32_le U64_le)

theorem fixed_width_roundtrip_witness:
  "\<exists>b'. PutU64 [0,0,0,0,0,0,0,0,9] 0x0102030405060708 = Ok b' \<and> U64 b' = Ok 0x0102030405060708"
  using fixed_width_roundtrip [of "[0,0,0,0,0,0,0,0,9]" 1 1 "0x0102030405060708"] by auto

text \<open>C36: on a large enough buffer \<open>PutUvarint\<close> writes the LEB128 bytes of the value, and
  \<open>Uvarint\<close> reads back the value and exactly the bytes written, whatever follows them; on a
  smaller buffer the writer panics.  \<open>UvarintSize\<close> is the exact byte count.\<close>

theorem uvarint_roundtrip:
  "PutUvarint b v =
     (if UvarintSize v \<le> length b
      then Ok (uvarint_bytes v @ drop (UvarintSize v) b, UvarintSize v) else Panic PIndex)
   \<and> Uvarint (uvarint_bytes v @ r) = (v, int (UvarintSize v))
   \<and> length (uvarint_bytes v) = UvarintSize v"
  using PutUvarint_loop_panic [of b 0 v]
  by (simp add: PutUvarint_def PutUvarint_loop_ok Uvarint_ok splice_def
        length_uvarint_bytes [symmetric] not_le)

text \<open>C37: a varint takes between 1 and 10 bytes, and every strict prefix of an encoding is
  reported as truncated (count 0), never as a value or as an overflow.\<close>

theorem uvarint_truncated:
  "k < UvarintSize v \<Longrightarrow>
   Uvarint (take k (uvarint_bytes v)) = (0, 0) \<and> 1 \<le> UvarintSize v \<and> UvarintSize v \<le> 10"
  by (simp add: Uvarint_def Uvarint_truncated_nil length_uvarint_bytes UvarintSize_bounds)

theorem uvarint_truncated_witness:
  "Uvarint (take 1 (uvarint_bytes 300)) = (0, 0) \<and> UvarintSize 300 = 2"
proof -
  have s: "UvarintSize 300 = 2" by (simp add: UvarintSize_def Len64_def Len64_nat.simps)
  then show ?thesis using uvarint_truncated [of 1 300] by simp
qed

text \<open>C38: on arbitrary input \<open>Uvarint\<close> never claims more bytes than there are nor more than
  ten, its error results carry the value 0, and a result other than \<open>truncated\<close> does not
  change when more input follows.\<close>

theorem uvarint_robust:
  "snd (Uvarint b) \<le> int (length b) \<and> snd (Uvarint b) \<le> 10
   \<and> (snd (Uvarint b) \<le> 0 \<longrightarrow> fst (Uvarint b) = 0)
   \<and> (snd (Uvarint b) \<noteq> 0 \<longrightarrow> Uvarint (b @ r) = Uvarint b)"
  using Uvarint_bounds [of b] Uvarint_ext [of b r] Uvarint_error_value [of b 0 0 0]
  by (cases "0 < snd (Uvarint b)") (simp_all add: Uvarint_def)

theorem uvarint_robust_witness:
  "snd (Uvarint [0x80,0x80,0x80,0x80,0x80,0x80,0x80,0x80,0x80,0x02]) = -10
   \<and> Uvarint ([0x80,0x80,0x80,0x80,0x80,0x80,0x80,0x80,0x80,0x02] @ [7]) = (0, -10)"
  using uvarint_robust [of "[0x80,0x80,0x80,0x80,0x80,0x80,0x80,0x80,0x80,0x02]" "[7]"]
  by (simp add: Uvarint_def)

text \<open>C39: the append family writes the same bytes as the put family, in place when the
  capacity allows it.\<close>

theorem append_matches_put:
  "extends b (le_bytes 2 v) (AppendU16 gr b v) \<and> PutU16 (replicate 2 0) v = Ok (le_bytes 2 v)
   \<and> extends b (le_bytes 4 w) (AppendU32 gr b w) \<and> PutU32 (replicate 4 0) w = Ok (le_bytes 4 w)
   \<and> extends b (le_bytes 8 x) (AppendU64 gr b x) \<and> PutU64 (replicate 8 0) x = Ok (le_bytes 8 x)
   \<and> extends b (uvarint_bytes x) (AppendUvarint gr b x)
   \<and> PutUvarint (replicate (UvarintSize x) 0) x = Ok (uvarint_bytes x, UvarintSize x)"
  by (simp add: AppendU16_def AppendU32_def AppendU64_def AppendUvarint_extends
        PutU16_ok PutU32_ok PutU64_ok PutUvarint_ok splice_whole length_uvarint_bytes
        le_bytes_nat [symmetric])

text \<open>C40: zigzag is a bijection that sends the non-negative numbers to the even values and
  the negative ones to the odd values, in order of magnitude.\<close>

theorem zigzag:
  "Zag (Zig v) = v \<and> Zig (Zag w) = w
   \<and> uint (Zig v) = (if 0 \<le> sint v then 2 * sint v else - 2 * sint v - 1)"
  by (simp only: Zag_Zig Zig_Zag Zig_value)

end
