(* ===== verification/GoTypes.thy ===== *)
theory GoTypes
  imports Primitives
begin

text \<open>
  The view the generator has of Go's types (\<open>go/types\<close>), the generator's settings
  (\<open>type generator\<close> of \<open>cmd/goserdegen/main.go\<close>) and its classification predicates
  (\<open>supported\<close>, \<open>fieldsOf\<close>, \<open>fixedSize\<close>, \<open>memCopyable\<close>, \<open>isFixedWidth\<close>, \<open>blittable\<close>,
  \<open>blitElem\<close> and their helpers of \<open>cmd/goserdegen/emit.go\<close>).

  A named type carries its name (package path and identifier) and its underlying type; an
  alias (\<open>type A = T\<close>) likewise, but it is not a \<open>*types.Named\<close>.  The fields of a named
  struct are looked up by its name, so recursive structs are finite terms.  A non-struct
  type that contains itself (\<open>type T []T\<close>) has no such term and is outside the model.
\<close>

subsection \<open>Types\<close>

type_synonym tname = "string \<times> string"

datatype bkind =
    KBool | KInt | KInt8 | KInt16 | KInt32 | KInt64
  | KUint | KUint8 | KUint16 | KUint32 | KUint64 | KUintptr
  | KFloat32 | KFloat64 | KComplex64 | KComplex128 | KString | KUnsafePointer

datatype gotype =
    TBasic bkind
  | TSlice gotype
  | TArray nat gotype
  | TPointer gotype
  | TMap gotype gotype
  | TStruct
  | TInterface
  | TChan
  | TFunc
  | TNamed tname gotype
  | TAlias tname gotype

fun underlying :: "gotype \<Rightarrow> gotype" where
  "underlying (TNamed n u) = underlying u"
| "underlying (TAlias n u) = underlying u"
| "underlying t = t"

lemma size_underlying: "size (underlying t) \<le> size t"
  by (induction t) auto

lemma underlying_idem [simp]: "underlying (underlying t) = underlying t"
  by (induction t) auto

lemma underlying_size_less [termination_simp]:
  "underlying t = TSlice e \<Longrightarrow> size e < size t"
  "underlying t = TArray n e \<Longrightarrow> size e < size t"
  "underlying t = TPointer e \<Longrightarrow> size e < size t"
  "underlying t = TMap k e \<Longrightarrow> size k < size t"
  "underlying t = TMap k e \<Longrightarrow> size e < size t"
  using size_underlying [of t] by auto

text \<open>A struct field: its name, its tag as \<open>reflect.StructTag\<close> splits it into key/value
  pairs, and its type.\<close>

record sfield =
  sfName :: string
  sfTag :: "(string \<times> string) list"
  sfType :: gotype

text \<open>\<open>Exported\<close>: the name begins with an upper-case letter (ASCII identifiers).\<close>

definition Exported :: "sfield \<Rightarrow> bool" where
  "Exported f = (case sfName f of [] \<Rightarrow> False | c # _ \<Rightarrow> (65::nat) \<le> of_char c \<and> of_char c \<le> (90::nat))"

definition tagGet :: "sfield \<Rightarrow> string \<Rightarrow> string" where
  "tagGet f key = (case map_of (sfTag f) key of None \<Rightarrow> [] | Some v \<Rightarrow> v)"

subsection \<open>The generator's settings\<close>

text \<open>
  The \<open>generator\<close> struct: the part that is fixed before emission starts.  The two flags
  that emission sets and the temporary counter are \<open>gstate\<close> below.  \<open>structs\<close> is the
  type-checked package's answer to "which fields does this struct have".
\<close>

record generator =
  pkgName :: string
  codecPkg :: string
  codecQual :: string
  safe :: bool
  pkg :: string
  targets :: "tname list"
  owned :: "tname list"
  unions :: "(tname \<times> tname list) list"
  structs :: "tname \<Rightarrow> sfield list"

definition structTagKey :: string where "structTagKey = ''goserde''"
definition tagSkip :: string where "tagSkip = ''-''"

record field =
  fldName :: string
  fldTyp :: gotype

datatype gerror =
    UnsupportedBasic bkind
  | NestedNotTarget tname
  | AnonymousStruct
  | InterfaceNotUnion gotype
  | UnsupportedType gotype
  | FieldError string string gerror

definition isTime :: "gotype \<Rightarrow> bool" where
  "isTime t = (case t of TNamed n _ \<Rightarrow> fst n = ''time'' \<and> snd n = ''Time'' | _ \<Rightarrow> False)"

definition isTarget :: "generator \<Rightarrow> tname \<Rightarrow> bool" where
  "isTarget g n = List.member (targets g) n"

definition unionMembersOf :: "generator \<Rightarrow> gotype \<Rightarrow> tname list option" where
  "unionMembersOf g t = (case t of TNamed n _ \<Rightarrow> map_of (unions g) n | _ \<Rightarrow> None)"

definition supportedBasic :: "bkind \<Rightarrow> bool" where
  "supportedBasic k = (case k of
     KBool \<Rightarrow> True | KUint8 \<Rightarrow> True | KUint16 \<Rightarrow> True | KUint32 \<Rightarrow> True | KUint64 \<Rightarrow> True
   | KInt8 \<Rightarrow> True | KInt16 \<Rightarrow> True | KInt32 \<Rightarrow> True | KInt64 \<Rightarrow> True
   | KUint \<Rightarrow> True | KInt \<Rightarrow> True | KFloat32 \<Rightarrow> True | KFloat64 \<Rightarrow> True | KString \<Rightarrow> True
   | _ \<Rightarrow> False)"

text \<open>\<open>supported\<close> returns the error, or nothing for a type the generator handles.\<close>

fun supported :: "generator \<Rightarrow> gotype \<Rightarrow> gerror option" where
  "supported g t =
     (if isTime t then None
      else case underlying t of
        TBasic k \<Rightarrow> if supportedBasic k then None else Some (UnsupportedBasic k)
      | TSlice e \<Rightarrow> supported g e
      | TArray n e \<Rightarrow> supported g e
      | TPointer e \<Rightarrow> supported g e
      | TMap k e \<Rightarrow> (case supported g k of Some err \<Rightarrow> Some err | None \<Rightarrow> supported g e)
      | TStruct \<Rightarrow>
          (case t of
             TNamed n _ \<Rightarrow> if isTarget g n then None else Some (NestedNotTarget n)
           | _ \<Rightarrow> Some AnonymousStruct)
      | TInterface \<Rightarrow>
          (case unionMembersOf g t of Some _ \<Rightarrow> None | None \<Rightarrow> Some (InterfaceNotUnion t))
      | _ \<Rightarrow> Some (UnsupportedType t))"

declare supported.simps [simp del]

text \<open>\<open>fieldsOf\<close>: the loop over the declared fields, in order; the first unsupported one
  is the error.\<close>

fun fieldsLoop :: "generator \<Rightarrow> tname \<Rightarrow> sfield list \<Rightarrow> gerror + field list" where
  "fieldsLoop g n [] = Inr []"
| "fieldsLoop g n (f # fs) =
     (if \<not> Exported f then fieldsLoop g n fs
      else if tagGet f structTagKey = tagSkip then fieldsLoop g n fs
      else case supported g (sfType f) of
             Some err \<Rightarrow> Inl (FieldError (snd n) (sfName f) err)
           | None \<Rightarrow>
               (case fieldsLoop g n fs of
                  Inl err \<Rightarrow> Inl err
                | Inr r \<Rightarrow> Inr (\<lparr>fldName = sfName f, fldTyp = sfType f\<rparr> # r)))"

definition fieldsOf :: "generator \<Rightarrow> tname \<Rightarrow> gerror + field list" where
  "fieldsOf g n = fieldsLoop g n (structs g n)"

subsection \<open>Classification of types\<close>

text \<open>\<open>isBytes\<close> and \<open>isByteArray\<close> look at the element type of the slice or array: a
  literal \<open>byte\<close>, not a named variant of it.\<close>

definition isBytes :: "gotype \<Rightarrow> bool" where
  "isBytes e = (case e of TBasic k \<Rightarrow> k = KUint8 | _ \<Rightarrow> False)"

definition isByteArray :: "gotype \<Rightarrow> bool" where
  "isByteArray e = (case e of TBasic k \<Rightarrow> k = KUint8 | _ \<Rightarrow> False)"

definition basicFixedSize :: "bkind \<Rightarrow> nat option" where
  "basicFixedSize k = (case k of
     KBool \<Rightarrow> Some 1 | KUint8 \<Rightarrow> Some 1 | KInt8 \<Rightarrow> Some 1
   | KUint16 \<Rightarrow> Some 2 | KInt16 \<Rightarrow> Some 2
   | KUint32 \<Rightarrow> Some 4 | KInt32 \<Rightarrow> Some 4 | KFloat32 \<Rightarrow> Some 4
   | KUint64 \<Rightarrow> Some 8 | KInt64 \<Rightarrow> Some 8 | KUint \<Rightarrow> Some 8 | KInt \<Rightarrow> Some 8 | KFloat64 \<Rightarrow> Some 8
   | _ \<Rightarrow> None)"

fun fixedSize :: "gotype \<Rightarrow> nat option" where
  "fixedSize t =
     (if isTime t then Some 8
      else case underlying t of
        TBasic k \<Rightarrow> basicFixedSize k
      | TArray n e \<Rightarrow> (case fixedSize e of Some esz \<Rightarrow> Some (n * esz) | None \<Rightarrow> None)
      | _ \<Rightarrow> None)"

declare fixedSize.simps [simp del]

definition basicMemCopyable :: "bkind \<Rightarrow> bool" where
  "basicMemCopyable k = (case k of
     KBool \<Rightarrow> True | KUint8 \<Rightarrow> True | KInt8 \<Rightarrow> True | KUint16 \<Rightarrow> True | KInt16 \<Rightarrow> True
   | KUint32 \<Rightarrow> True | KInt32 \<Rightarrow> True | KFloat32 \<Rightarrow> True
   | KUint64 \<Rightarrow> True | KInt64 \<Rightarrow> True | KFloat64 \<Rightarrow> True
   | _ \<Rightarrow> False)"

fun memCopyable :: "gotype \<Rightarrow> bool" where
  "memCopyable t =
     (if isTime t then False
      else case underlying t of
        TBasic k \<Rightarrow> basicMemCopyable k
      | TArray n e \<Rightarrow> memCopyable e
      | _ \<Rightarrow> False)"

declare memCopyable.simps [simp del]

definition basicFixedWidth :: "bkind \<Rightarrow> bool" where
  "basicFixedWidth k = (case k of
     KBool \<Rightarrow> True | KUint8 \<Rightarrow> True | KInt8 \<Rightarrow> True | KUint16 \<Rightarrow> True | KInt16 \<Rightarrow> True
   | KUint32 \<Rightarrow> True | KInt32 \<Rightarrow> True | KFloat32 \<Rightarrow> True
   | KUint64 \<Rightarrow> True | KInt64 \<Rightarrow> True | KUint \<Rightarrow> True | KInt \<Rightarrow> True | KFloat64 \<Rightarrow> True
   | _ \<Rightarrow> False)"

fun isFixedWidth :: "gotype \<Rightarrow> bool" where
  "isFixedWidth t =
     (if isTime t then False
      else case underlying t of
        TBasic k \<Rightarrow> basicFixedWidth k
      | TArray n e \<Rightarrow> isFixedWidth e
      | _ \<Rightarrow> False)"

declare isFixedWidth.simps [simp del]

definition blittable :: "generator \<Rightarrow> tname \<Rightarrow> field list \<Rightarrow> bool" where
  "blittable g n fs =
     (if fs = [] \<or> length fs \<noteq> length (structs g n) then False
      else list_all (\<lambda>f. isFixedWidth (fldTyp f)) fs)"

definition blitElem :: "generator \<Rightarrow> gotype \<Rightarrow> bool" where
  "blitElem g t =
     (if safe g \<or> isTime t then False
      else case t of
        TNamed n u \<Rightarrow>
          if underlying u \<noteq> TStruct \<or> \<not> isTarget g n then False
          else if List.member (owned g) n then False
          else (case fieldsOf g n of Inl err \<Rightarrow> False | Inr fs \<Rightarrow> blittable g n fs)
      | _ \<Rightarrow> False)"

definition indexElems :: "gotype \<Rightarrow> bool" where
  "indexElems t = (case underlying t of TStruct \<Rightarrow> True | TArray n e \<Rightarrow> True | _ \<Rightarrow> False)"

function uvarintLen_loop :: "nat \<Rightarrow> u64 \<Rightarrow> nat" where
  "uvarintLen_loop n x = (if 0x80 \<le> x then uvarintLen_loop (n + 1) (drop_bit 7 x) else n)"
  by pat_completeness auto
termination by (relation "measure (\<lambda>(n, x). unat x)") (simp_all add: drop_bit_7_less)

declare uvarintLen_loop.simps [simp del]

definition uvarintLen :: "u64 \<Rightarrow> nat" where
  "uvarintLen x = uvarintLen_loop 1 x"

end
