(* ===== verification/GoIR.thy ===== *)
theory GoIR
  imports GoTypes
begin

text \<open>
  The Go code the generator emits, as a syntax tree.  Each constructor stands for one
  emitted fragment; the comment beside it is the text \<open>emitf\<close> writes.  \<open>i\<close>, \<open>b\<close>, \<open>s\<close>,
  \<open>nn\<close>, \<open>cc\<close> are the fixed local names of the generated methods, \<open>r\<close> is the receiver.
  Where Go infers a static type that the text does not name (\<open>unsafe.Sizeof(x[0])\<close>, the
  static receiver type of a method call), the tree carries that type.
\<close>

subsection \<open>Names and references\<close>

text \<open>The temporaries: \<open>e%d\<close> (\<open>freshVar\<close>), \<open>j%d\<close> (\<open>freshIdx\<close>), and the \<open>v\<close> that a type
  switch binds.\<close>

datatype var = VE nat | VJ nat | VV

text \<open>A reference is the \<open>ref\<close> string of the emitter: \<open>r.F\<close>, \<open>e1\<close>, \<open>ref[j1]\<close>, \<open>(*ref)\<close>.\<close>

datatype ref = RField string | RVar var | RIdx ref var | RDeref ref

text \<open>A method receiver expression: \<open>x\<close> for a pointer-valued \<open>x\<close>, or \<open>(&ref)\<close>.\<close>

datatype recv = RecvPtr ref | RecvAddr ref

subsection \<open>Expressions\<close>

datatype iexp =
    INum nat                     \<comment> \<open>a literal\<close>
  | ILen ref                     \<comment> \<open>len(ref)\<close>
  | IUvarintSize iexp            \<comment> \<open>codec.UvarintSize(uint64(e))\<close>
  | IAdd iexp iexp
  | IMul iexp iexp
  | ISizeofElem gotype ref       \<comment> \<open>int(unsafe.Sizeof(ref[0]))\<close>
  | ISizeof gotype ref           \<comment> \<open>int(unsafe.Sizeof(ref))\<close>
  | IIntNN                       \<comment> \<open>int(nn)\<close>
  | IVar var                     \<comment> \<open>an int temporary\<close>
  | ISize recv tname             \<comment> \<open>recv.Size()\<close>

datatype wexp =
    WConv ref                    \<comment> \<open>uintN(ref)\<close>
  | WF32bits ref                 \<comment> \<open>codec.F32bits(ref)\<close>
  | WF64bits ref                 \<comment> \<open>codec.F64bits(ref)\<close>
  | WUnixNano ref                \<comment> \<open>uint64(ref.UnixNano())\<close>

datatype bexp =
    BNum nat                     \<comment> \<open>0 or 1\<close>
  | BConv ref                    \<comment> \<open>byte(ref)\<close>

text \<open>The source of a \<open>copy\<close> or of an \<open>append(b, src...)\<close>.\<close>

datatype bsrc =
    SrcStr ref                   \<comment> \<open>codec.S2B(ref), or the string itself\<close>
  | SrcBytes ref                 \<comment> \<open>ref, a []byte\<close>
  | SrcArr ref                   \<comment> \<open>ref[:], a byte array\<close>
  | SrcMem gotype ref iexp       \<comment> \<open>unsafe.Slice((*byte)(unsafe.Pointer(&ref[0])), n)\<close>

text \<open>The right-hand sides of decoding assignments.\<close>

datatype dexp =
    DTime                        \<comment> \<open>time.Unix(0, int64(codec.U64(b[i:]))).UTC()\<close>
  | DBool                        \<comment> \<open>b[i] != 0\<close>
  | DByte gotype                 \<comment> \<open>T(b[i])\<close>
  | DU16 gotype                  \<comment> \<open>T(codec.U16(b[i:]))\<close>
  | DU32 gotype                  \<comment> \<open>T(codec.U32(b[i:]))\<close>
  | DU64 gotype                  \<comment> \<open>T(codec.U64(b[i:]))\<close>
  | DF32                         \<comment> \<open>codec.Bitsf32(codec.U32(b[i:]))\<close>
  | DF64                         \<comment> \<open>codec.Bitsf64(codec.U64(b[i:]))\<close>
  | DStrCopy                     \<comment> \<open>string(b[i : i+int(nn)])\<close>
  | DStrAlias                    \<comment> \<open>codec.B2S(b[i : i+int(nn)])\<close>
  | DBytesCopy ref               \<comment> \<open>append(ref[:0], b[i:i+int(nn)]...)\<close>
  | DBytesAlias                  \<comment> \<open>b[i : i+int(nn)]\<close>
  | DNil gotype                  \<comment> \<open>nil\<close>
  | DIface var tname             \<comment> \<open>x, a *M converted to the interface\<close>

subsection \<open>Statements\<close>

text \<open>The straight-line statements of \<open>Marshal\<close>.\<close>

datatype mstmt =
    SPut16 wexp                            \<comment> \<open>codec.PutU16(b[i:], e)\<close>
  | SPut32 wexp
  | SPut64 wexp
  | SSetByte bexp                          \<comment> \<open>b[i] = e\<close>
  | SPutUvarint iexp                       \<comment> \<open>i += codec.PutUvarint(b[i:], uint64(e))\<close>
  | SCopy bsrc                             \<comment> \<open>i += copy(b[i:], src)\<close>
  | SMarshal recv tname                    \<comment> \<open>i += recv.Marshal(b[i:])\<close>
  | SIncI nat                              \<comment> \<open>i += n, or i++\<close>

text \<open>The straight-line statements of \<open>Append\<close>.\<close>

datatype astmt =
    SApp16 wexp                            \<comment> \<open>b = codec.AppendU16(b, e)\<close>
  | SApp32 wexp
  | SApp64 wexp
  | SAppByte bexp                          \<comment> \<open>b = append(b, e)\<close>
  | SAppUvarint iexp                       \<comment> \<open>b = codec.AppendUvarint(b, uint64(e))\<close>
  | SApp bsrc                              \<comment> \<open>b = append(b, src...)\<close>
  | SAppend recv tname                     \<comment> \<open>b = recv.Append(b)\<close>

text \<open>The straight-line statements of \<open>Unmarshal\<close>: guards and cursor movements, then
  assignments into the destination.\<close>

datatype gstmt =
    SGuardN nat                            \<comment> \<open>if len(b)-i < n { return i, codec.ErrShortBuffer }\<close>
  | SGuardLen                              \<comment> \<open>if uint64(len(b)-i) < nn { return i, codec.ErrShortBuffer }\<close>
  | SUvarint                               \<comment> \<open>nn, cc = codec.Uvarint(b[i:])\<close>
  | SGuardVarint                           \<comment> \<open>if cc <= 0 { return i, codec.ErrShortBuffer }\<close>
  | SIncCC                                 \<comment> \<open>i += cc\<close>
  | SIncE iexp                             \<comment> \<open>i += e\<close>

datatype ustmt =
    SAssign ref dexp                       \<comment> \<open>ref = e\<close>
  | SReuseOrMake ref gotype
      \<comment> \<open>if cap(ref) >= int(nn) { ref = ref[:nn] } else { ref = make([]T, nn) }\<close>
  | SReuseOrMakeMap ref gotype var
      \<comment> \<open>if ref != nil { clear(ref) } else { ref = make(map[K]V, cnt) }\<close>
  | SNewIfNil ref gotype                   \<comment> \<open>if ref == nil { ref = new(T) }\<close>
  | SCopyArr ref nat                       \<comment> \<open>copy(ref[:], b[i:i+n])\<close>
  | SCopyMem gotype ref iexp
      \<comment> \<open>copy(unsafe.Slice((*byte)(unsafe.Pointer(&ref[0])), n), b[i:i+n])\<close>
  | SLetInt var iexp                       \<comment> \<open>x := e\<close>
  | SLetNN var                             \<comment> \<open>x := nn\<close>
  | SVar var gotype                        \<comment> \<open>var x T\<close>
  | SMapSet gotype ref var var             \<comment> \<open>ref[k] = v, for a ref of the given map type\<close>
  | SUnmarshalSafe recv tname
      \<comment> \<open>nnn, err := recv.Unmarshal(b[i:]); if err != nil { return i, err }; i += nnn\<close>
  | SUnmarshalFast recv tname              \<comment> \<open>nnn, _ := recv.Unmarshal(b[i:]); i += nnn\<close>
  | STypeAssert var ref tname              \<comment> \<open>x, _ := ref.(*M)\<close>

text \<open>All statements: the straight-line ones and the control structure.\<close>

datatype stmt =
    SAddS iexp                             \<comment> \<open>s += e\<close>
  | SUse var                               \<comment> \<open>_ = x\<close>
  | SM mstmt
  | SA astmt
  | SG gstmt
  | SU ustmt
  | SForIdx var ref "stmt list"            \<comment> \<open>for j := range ref { .. }\<close>
  | SForVal var ref "stmt list"            \<comment> \<open>for _, e := range ref { .. }\<close>
  | SForN var nat "stmt list"              \<comment> \<open>for j := 0; j < N; j++ { .. }\<close>
  | SForMap var var ref "stmt list"        \<comment> \<open>for k, v := range ref { .. }\<close>
  | SForCnt var var "stmt list"            \<comment> \<open>for j := uint64(0); j < cnt; j++ { .. }\<close>
  | SIfNotNil ref "stmt list" "stmt list"  \<comment> \<open>if ref != nil { .. } else { .. }\<close>
  | SIfTrue ref "stmt list" "stmt list"    \<comment> \<open>if ref { .. } else { .. }\<close>
  | SIfNonEmpty ref "stmt list"            \<comment> \<open>if len(ref) > 0 { .. }\<close>
  | SIfNN0 "stmt list" "stmt list"         \<comment> \<open>if nn == 0 { .. } else { .. }\<close>
  | SIfFlag "stmt list" "stmt list"        \<comment> \<open>if b[i] != 0 { .. } else { .. }\<close>
  | STypeSwitch ref "(tname \<times> stmt list) list" "stmt list" string
      \<comment> \<open>switch v := ref.(type) { case *M: .. case nil: .. default: panic(msg) }\<close>
  | SSwitchNN "(nat \<times> stmt list) list"
      \<comment> \<open>switch nn { case k: .. default: return i, codec.ErrUnknownUnionTag }\<close>

type_synonym block = "stmt list"

subsection \<open>Generated codecs and files\<close>

text \<open>
  A generated method: the statements between the fixed prologue and \<open>return\<close>, or the
  one-copy body of a blittable struct (with a length guard in \<open>Unmarshal\<close> when the flag
  is set).
\<close>

datatype gomethod = MBody block | MBlit tname bool

record codec =
  cSize :: gomethod
  cMarshal :: gomethod
  cAppend :: gomethod
  cUnmarshal :: gomethod

record genfile =
  gfPackage :: string
  gfCodecPkg :: string
  gfImportTime :: bool
  gfImportUnsafe :: bool
  gfCodecs :: "(tname \<times> codec) list"

end
