(* ===== verification/Emit.thy ===== *)
theory Emit
  imports GoIR
begin

text \<open>
  The emitter of \<open>cmd/goserdegen/emit.go\<close>: for a field of a given type, the code of
  \<open>Size\<close>, \<open>Marshal\<close>, \<open>Append\<close> and \<open>Unmarshal\<close>, and \<open>generate\<close>, which puts the codecs of
  all targets together.  The generator's mutable fields and the global \<open>varCounter\<close> are
  threaded explicitly.
\<close>

record gstate =
  varCounter :: nat
  usedTime :: bool
  usedUnsafe :: bool

text \<open>The state when the program starts.\<close>

definition emit0 :: gstate where
  "emit0 = \<lparr>varCounter = 0, usedTime = False, usedUnsafe = False\<rparr>"

definition freshVar :: "gstate \<Rightarrow> var \<times> gstate" where
  "freshVar s = (let c = varCounter s + 1 in (VE c, s\<lparr>varCounter := c\<rparr>))"

definition freshIdx :: "gstate \<Rightarrow> var \<times> gstate" where
  "freshIdx s = (let c = varCounter s + 1 in (VJ c, s\<lparr>varCounter := c\<rparr>))"

definition addrOf :: "ref \<Rightarrow> recv" where
  "addrOf r = (case r of RDeref x \<Rightarrow> RecvPtr x | _ \<Rightarrow> RecvAddr r)"

definition byteCount :: "nat \<Rightarrow> iexp \<Rightarrow> iexp" where
  "byteCount esz c = (if esz = 1 then c else IMul (INum esz) c)"

definition unionPanic :: "gotype \<Rightarrow> string" where
  "unionPanic t = ''goserde: value is not a registered member of union '' @
     (case t of TNamed n _ \<Rightarrow> snd n | _ \<Rightarrow> [])"

text \<open>The members of a union paired with their wire tags, \<open>idx+1\<close>.\<close>

definition taggedMembers :: "generator \<Rightarrow> gotype \<Rightarrow> (nat \<times> tname) list" where
  "taggedMembers g t =
     (case unionMembersOf g t of None \<Rightarrow> [] | Some ms \<Rightarrow> enumerate 1 ms)"

subsection \<open>Size\<close>

definition sizeBasic :: "ref \<Rightarrow> bkind \<Rightarrow> block" where
  "sizeBasic ref k = (case k of
     KBool \<Rightarrow> [SAddS (INum 1)] | KUint8 \<Rightarrow> [SAddS (INum 1)] | KInt8 \<Rightarrow> [SAddS (INum 1)]
   | KUint16 \<Rightarrow> [SAddS (INum 2)] | KInt16 \<Rightarrow> [SAddS (INum 2)]
   | KUint32 \<Rightarrow> [SAddS (INum 4)] | KInt32 \<Rightarrow> [SAddS (INum 4)] | KFloat32 \<Rightarrow> [SAddS (INum 4)]
   | KUint64 \<Rightarrow> [SAddS (INum 8)] | KInt64 \<Rightarrow> [SAddS (INum 8)] | KUint \<Rightarrow> [SAddS (INum 8)]
   | KInt \<Rightarrow> [SAddS (INum 8)] | KFloat64 \<Rightarrow> [SAddS (INum 8)]
   | KString \<Rightarrow> [SAddS (IAdd (IUvarintSize (ILen ref)) (ILen ref))]
   | _ \<Rightarrow> [])"

fun sizeExpr :: "generator \<Rightarrow> ref \<Rightarrow> gotype \<Rightarrow> gstate \<Rightarrow> block \<times> gstate" where
  "sizeExpr g ref t s =
     (if isTime t then ([SAddS (INum 8)], s\<lparr>usedTime := True\<rparr>)
      else case underlying t of
        TBasic k \<Rightarrow> (sizeBasic ref k, s)
      | TSlice e \<Rightarrow>
          (let pre = SAddS (IUvarintSize (ILen ref)) in
           if isBytes e then ([pre, SAddS (ILen ref)], s)
           else case fixedSize e of
             Some esz \<Rightarrow> ([pre, SAddS (IMul (INum esz) (ILen ref))], s)
           | None \<Rightarrow>
               if blitElem g e
               then ([pre, SAddS (IMul (ISizeofElem e ref) (ILen ref))], s\<lparr>usedUnsafe := True\<rparr>)
               else if indexElems e
               then (let (iv, s1) = freshIdx s;
                         (body, s2) = sizeExpr g (RIdx ref iv) e s1
                     in ([pre, SForIdx iv ref body], s2))
               else (let (iv, s1) = freshVar s;
                         (body, s2) = sizeExpr g (RVar iv) e s1
                     in ([pre, SForVal iv ref body], s2)))
      | TArray n e \<Rightarrow>
          (case fixedSize e of
             Some esz \<Rightarrow> ([SAddS (INum (n * esz))], s)
           | None \<Rightarrow>
               if blitElem g e then ([SAddS (ISizeof t ref)], s\<lparr>usedUnsafe := True\<rparr>)
               else (let (iv, s1) = freshIdx s;
                         (body, s2) = sizeExpr g (RIdx ref iv) e s1
                     in ([SForN iv n body], s2)))
      | TPointer e \<Rightarrow>
          (let (body, s1) = sizeExpr g (RDeref ref) e s
           in ([SAddS (INum 1), SIfNotNil ref body []], s1))
      | TMap k e \<Rightarrow>
          (let (kv, s1) = freshVar s; (vv, s2) = freshVar s1;
               (kb, s3) = sizeExpr g (RVar kv) k s2;
               (vb, s4) = sizeExpr g (RVar vv) e s3
           in ([SAddS (IUvarintSize (ILen ref)),
                SForMap kv vv ref ([SUse kv, SUse vv] @ kb @ vb)], s4))
      | TStruct \<Rightarrow>
          (case t of
             TNamed n _ \<Rightarrow> ([SAddS (ISize (addrOf ref) n)], s)
           | _ \<Rightarrow> ([], s))
      | TInterface \<Rightarrow>
          ([STypeSwitch ref
              (map (\<lambda>(k, m). (m, [SAddS (IAdd (INum (uvarintLen (of_nat k)))
                                        (ISize (RecvPtr (RVar VV)) m))]))
                 (taggedMembers g t))
              [SAddS (INum (uvarintLen 0))]
              (unionPanic t)], s)
      | _ \<Rightarrow> ([], s))"

declare sizeExpr.simps [simp del]

text \<open>Emission over the fields of a struct, in declaration order.\<close>

fun emitFields :: "(ref \<Rightarrow> gotype \<Rightarrow> gstate \<Rightarrow> block \<times> gstate) \<Rightarrow> field list \<Rightarrow> gstate \<Rightarrow> block \<times> gstate"
where
  "emitFields ex [] s = ([], s)"
| "emitFields ex (f # fs) s =
     (let (b1, s1) = ex (RField (fldName f)) (fldTyp f) s;
          (b2, s2) = emitFields ex fs s1
      in (b1 @ b2, s2))"

definition emitSize :: "generator \<Rightarrow> field list \<Rightarrow> gstate \<Rightarrow> gomethod \<times> gstate" where
  "emitSize g fs s = (let (b, s1) = emitFields (sizeExpr g) fs s in (MBody b, s1))"

subsection \<open>Marshal\<close>

definition marshalBasic :: "ref \<Rightarrow> bkind \<Rightarrow> block" where
  "marshalBasic ref k = (case k of
     KBool \<Rightarrow> [SIfTrue ref [SM (SSetByte (BNum 1))] [SM (SSetByte (BNum 0))], SM (SIncI 1)]
   | KUint8 \<Rightarrow> [SM (SSetByte (BConv ref)), SM (SIncI 1)]
   | KInt8 \<Rightarrow> [SM (SSetByte (BConv ref)), SM (SIncI 1)]
   | KUint16 \<Rightarrow> [SM (SPut16 (WConv ref)), SM (SIncI 2)]
   | KInt16 \<Rightarrow> [SM (SPut16 (WConv ref)), SM (SIncI 2)]
   | KUint32 \<Rightarrow> [SM (SPut32 (WConv ref)), SM (SIncI 4)]
   | KInt32 \<Rightarrow> [SM (SPut32 (WConv ref)), SM (SIncI 4)]
   | KFloat32 \<Rightarrow> [SM (SPut32 (WF32bits ref)), SM (SIncI 4)]
   | KUint64 \<Rightarrow> [SM (SPut64 (WConv ref)), SM (SIncI 8)]
   | KUint \<Rightarrow> [SM (SPut64 (WConv ref)), SM (SIncI 8)]
   | KInt64 \<Rightarrow> [SM (SPut64 (WConv ref)), SM (SIncI 8)]
   | KInt \<Rightarrow> [SM (SPut64 (WConv ref)), SM (SIncI 8)]
   | KFloat64 \<Rightarrow> [SM (SPut64 (WF64bits ref)), SM (SIncI 8)]
   | KString \<Rightarrow> [SM (SPutUvarint (ILen ref)), SM (SCopy (SrcStr ref))]
   | _ \<Rightarrow> [])"

fun marshalExpr :: "generator \<Rightarrow> ref \<Rightarrow> gotype \<Rightarrow> gstate \<Rightarrow> block \<times> gstate" where
  "marshalExpr g ref t s =
     (if isTime t then ([SM (SPut64 (WUnixNano ref)), SM (SIncI 8)], s\<lparr>usedTime := True\<rparr>)
      else case underlying t of
        TBasic k \<Rightarrow> (marshalBasic ref k, s)
      | TSlice e \<Rightarrow>
          (let pre = SM (SPutUvarint (ILen ref)) in
           if isBytes e then ([pre, SM (SCopy (SrcBytes ref))], s)
           else if \<not> safe g \<and> memCopyable e
           then (let esz = (case fixedSize e of Some z \<Rightarrow> z | None \<Rightarrow> 0)
                 in ([pre, SIfNonEmpty ref [SM (SCopy (SrcMem e ref (byteCount esz (ILen ref))))]],
                     s\<lparr>usedUnsafe := True\<rparr>))
           else if blitElem g e
           then ([pre, SIfNonEmpty ref
                    [SM (SCopy (SrcMem e ref (IMul (ISizeofElem e ref) (ILen ref))))]],
                 s\<lparr>usedUnsafe := True\<rparr>)
           else if indexElems e
           then (let (iv, s1) = freshIdx s;
                     (body, s2) = marshalExpr g (RIdx ref iv) e s1
                 in ([pre, SForIdx iv ref body], s2))
           else (let (iv, s1) = freshVar s;
                     (body, s2) = marshalExpr g (RVar iv) e s1
                 in ([pre, SForVal iv ref body], s2)))
      | TArray n e \<Rightarrow>
          (if isByteArray e then ([SM (SCopy (SrcArr ref))], s)
           else if \<not> safe g \<and> n > 0 \<and> memCopyable e
           then (let esz = (case fixedSize e of Some z \<Rightarrow> z | None \<Rightarrow> 0)
                 in ([SM (SCopy (SrcMem e ref (INum (n * esz))))], s\<lparr>usedUnsafe := True\<rparr>))
           else if n > 0 \<and> blitElem g e
           then ([SM (SCopy (SrcMem e ref (ISizeof t ref)))], s\<lparr>usedUnsafe := True\<rparr>)
           else (let (iv, s1) = freshIdx s;
                     (body, s2) = marshalExpr g (RIdx ref iv) e s1
                 in ([SForN iv n body], s2)))
      | TPointer e \<Rightarrow>
          (let (body, s1) = marshalExpr g (RDeref ref) e s
           in ([SIfNotNil ref ([SM (SSetByte (BNum 1)), SM (SIncI 1)] @ body)
                  [SM (SSetByte (BNum 0)), SM (SIncI 1)]], s1))
      | TMap k e \<Rightarrow>
          (let (kv, s1) = freshVar s; (vv, s2) = freshVar s1;
               (kb, s3) = marshalExpr g (RVar kv) k s2;
               (vb, s4) = marshalExpr g (RVar vv) e s3
           in ([SM (SPutUvarint (ILen ref)), SForMap kv vv ref (kb @ vb)], s4))
      | TStruct \<Rightarrow>
          (case t of
             TNamed n _ \<Rightarrow> ([SM (SMarshal (addrOf ref) n)], s)
           | _ \<Rightarrow> ([], s))
      | TInterface \<Rightarrow>
          ([STypeSwitch ref
              (map (\<lambda>(k, m). (m, [SM (SPutUvarint (INum k)), SM (SMarshal (RecvPtr (RVar VV)) m)]))
                 (taggedMembers g t))
              [SM (SPutUvarint (INum 0))]
              (unionPanic t)], s)
      | _ \<Rightarrow> ([], s))"

declare marshalExpr.simps [simp del]

definition emitMarshal :: "generator \<Rightarrow> field list \<Rightarrow> gstate \<Rightarrow> gomethod \<times> gstate" where
  "emitMarshal g fs s = (let (b, s1) = emitFields (marshalExpr g) fs s in (MBody b, s1))"

subsection \<open>Append\<close>

definition appendBasic :: "ref \<Rightarrow> bkind \<Rightarrow> block" where
  "appendBasic ref k = (case k of
     KBool \<Rightarrow> [SIfTrue ref [SA (SAppByte (BNum 1))] [SA (SAppByte (BNum 0))]]
   | KUint8 \<Rightarrow> [SA (SAppByte (BConv ref))]
   | KInt8 \<Rightarrow> [SA (SAppByte (BConv ref))]
   | KUint16 \<Rightarrow> [SA (SApp16 (WConv ref))]
   | KInt16 \<Rightarrow> [SA (SApp16 (WConv ref))]
   | KUint32 \<Rightarrow> [SA (SApp32 (WConv ref))]
   | KInt32 \<Rightarrow> [SA (SApp32 (WConv ref))]
   | KFloat32 \<Rightarrow> [SA (SApp32 (WF32bits ref))]
   | KUint64 \<Rightarrow> [SA (SApp64 (WConv ref))]
   | KUint \<Rightarrow> [SA (SApp64 (WConv ref))]
   | KInt64 \<Rightarrow> [SA (SApp64 (WConv ref))]
   | KInt \<Rightarrow> [SA (SApp64 (WConv ref))]
   | KFloat64 \<Rightarrow> [SA (SApp64 (WF64bits ref))]
   | KString \<Rightarrow> [SA (SAppUvarint (ILen ref)), SA (SApp (SrcStr ref))]
   | _ \<Rightarrow> [])"

fun appendExpr :: "generator \<Rightarrow> ref \<Rightarrow> gotype \<Rightarrow> gstate \<Rightarrow> block \<times> gstate" where
  "appendExpr g ref t s =
     (if isTime t then ([SA (SApp64 (WUnixNano ref))], s\<lparr>usedTime := True\<rparr>)
      else case underlying t of
        TBasic k \<Rightarrow> (appendBasic ref k, s)
      | TSlice e \<Rightarrow>
          (let pre = SA (SAppUvarint (ILen ref)) in
           if isBytes e then ([pre, SA (SApp (SrcBytes ref))], s)
           else if \<not> safe g \<and> memCopyable e
           then (let esz = (case fixedSize e of Some z \<Rightarrow> z | None \<Rightarrow> 0)
                 in ([pre, SIfNonEmpty ref [SA (SApp (SrcMem e ref (byteCount esz (ILen ref))))]],
                     s\<lparr>usedUnsafe := True\<rparr>))
           else if blitElem g e
           then ([pre, SIfNonEmpty ref
                    [SA (SApp (SrcMem e ref (IMul (ISizeofElem e ref) (ILen ref))))]],
                 s\<lparr>usedUnsafe := True\<rparr>)
           else if indexElems e
           then (let (iv, s1) = freshIdx s;
                     (body, s2) = appendExpr g (RIdx ref iv) e s1
                 in ([pre, SForIdx iv ref body], s2))
           else (let (iv, s1) = freshVar s;
                     (body, s2) = appendExpr g (RVar iv) e s1
                 in ([pre, SForVal iv ref body], s2)))
      | TArray n e \<Rightarrow>
          (if isByteArray e then ([SA (SApp (SrcArr ref))], s)
           else if \<not> safe g \<and> n > 0 \<and> memCopyable e
           then (let esz = (case fixedSize e of Some z \<Rightarrow> z | None \<Rightarrow> 0)
                 in ([SA (SApp (SrcMem e ref (INum (n * esz))))], s\<lparr>usedUnsafe := True\<rparr>))
           else if n > 0 \<and> blitElem g e
           then ([SA (SApp (SrcMem e ref (ISizeof t ref)))], s\<lparr>usedUnsafe := True\<rparr>)
           else (let (iv, s1) = freshIdx s;
                     (body, s2) = appendExpr g (RIdx ref iv) e s1
                 in ([SForN iv n body], s2)))
      | TPointer e \<Rightarrow>
          (let (body, s1) = appendExpr g (RDeref ref) e s
           in ([SIfNotNil ref ([SA (SAppByte (BNum 1))] @ body) [SA (SAppByte (BNum 0))]], s1))
      | TMap k e \<Rightarrow>
          (let (kv, s1) = freshVar s; (vv, s2) = freshVar s1;
               (kb, s3) = appendExpr g (RVar kv) k s2;
               (vb, s4) = appendExpr g (RVar vv) e s3
           in ([SA (SAppUvarint (ILen ref)), SForMap kv vv ref (kb @ vb)], s4))
      | TStruct \<Rightarrow>
          (case t of
             TNamed n _ \<Rightarrow> ([SA (SAppend (addrOf ref) n)], s)
           | _ \<Rightarrow> ([], s))
      | TInterface \<Rightarrow>
          ([STypeSwitch ref
              (map (\<lambda>(k, m). (m, [SA (SAppUvarint (INum k)), SA (SAppend (RecvPtr (RVar VV)) m)]))
                 (taggedMembers g t))
              [SA (SAppUvarint (INum 0))]
              (unionPanic t)], s)
      | _ \<Rightarrow> ([], s))"

declare appendExpr.simps [simp del]

definition emitAppend :: "generator \<Rightarrow> field list \<Rightarrow> gstate \<Rightarrow> gomethod \<times> gstate" where
  "emitAppend g fs s = (let (b, s1) = emitFields (appendExpr g) fs s in (MBody b, s1))"

subsection \<open>Unmarshal\<close>

definition guardN :: "generator \<Rightarrow> nat \<Rightarrow> block" where
  "guardN g n = (if \<not> safe g then [] else [SG (SGuardN n)])"

definition guardLen :: "generator \<Rightarrow> block" where
  "guardLen g = (if \<not> safe g then [] else [SG SGuardLen])"

definition emitVarint :: "generator \<Rightarrow> block" where
  "emitVarint g = [SG SUvarint] @ (if safe g then [SG SGuardVarint] else []) @ [SG SIncCC]"

definition unmarshalBasic :: "generator \<Rightarrow> ref \<Rightarrow> gotype \<Rightarrow> bkind \<Rightarrow> block" where
  "unmarshalBasic g ref t k = (case k of
     KBool \<Rightarrow> guardN g 1 @ [SU (SAssign ref DBool), SM (SIncI 1)]
   | KUint8 \<Rightarrow> guardN g 1 @ [SU (SAssign ref (DByte t)), SM (SIncI 1)]
   | KInt8 \<Rightarrow> guardN g 1 @ [SU (SAssign ref (DByte t)), SM (SIncI 1)]
   | KUint16 \<Rightarrow> guardN g 2 @ [SU (SAssign ref (DU16 t)), SM (SIncI 2)]
   | KInt16 \<Rightarrow> guardN g 2 @ [SU (SAssign ref (DU16 t)), SM (SIncI 2)]
   | KUint32 \<Rightarrow> guardN g 4 @ [SU (SAssign ref (DU32 t)), SM (SIncI 4)]
   | KInt32 \<Rightarrow> guardN g 4 @ [SU (SAssign ref (DU32 t)), SM (SIncI 4)]
   | KFloat32 \<Rightarrow> guardN g 4 @ [SU (SAssign ref DF32), SM (SIncI 4)]
   | KUint64 \<Rightarrow> guardN g 8 @ [SU (SAssign ref (DU64 t)), SM (SIncI 8)]
   | KUint \<Rightarrow> guardN g 8 @ [SU (SAssign ref (DU64 t)), SM (SIncI 8)]
   | KInt64 \<Rightarrow> guardN g 8 @ [SU (SAssign ref (DU64 t)), SM (SIncI 8)]
   | KInt \<Rightarrow> guardN g 8 @ [SU (SAssign ref (DU64 t)), SM (SIncI 8)]
   | KFloat64 \<Rightarrow> guardN g 8 @ [SU (SAssign ref DF64), SM (SIncI 8)]
   | KString \<Rightarrow> emitVarint g @ guardLen g @
       [SU (SAssign ref (if safe g then DStrCopy else DStrAlias)), SG (SIncE IIntNN)]
   | _ \<Rightarrow> [])"

text \<open>The cases of a union's tag switch; each member takes a fresh temporary, in order.\<close>

fun unmarshalMembers :: "generator \<Rightarrow> ref \<Rightarrow> (nat \<times> tname) list \<Rightarrow> gstate \<Rightarrow> (nat \<times> block) list \<times> gstate"
where
  "unmarshalMembers g ref [] s = ([], s)"
| "unmarshalMembers g ref ((k, m) # ms) s =
     (let (v, s1) = freshIdx s;
          (rest, s2) = unmarshalMembers g ref ms s1
      in ((k, [SU (STypeAssert v ref m),
               SU (SNewIfNil (RVar v) (TNamed m TStruct)),
               (if safe g then SU (SUnmarshalSafe (RecvPtr (RVar v)) m)
                else SU (SUnmarshalFast (RecvPtr (RVar v)) m)),
               SU (SAssign ref (DIface v m))]) # rest, s2))"

fun unmarshalExpr :: "generator \<Rightarrow> ref \<Rightarrow> gotype \<Rightarrow> gstate \<Rightarrow> block \<times> gstate" where
  "unmarshalExpr g ref t s =
     (if isTime t then (guardN g 8 @ [SU (SAssign ref DTime), SM (SIncI 8)], s\<lparr>usedTime := True\<rparr>)
      else case underlying t of
        TBasic k \<Rightarrow> (unmarshalBasic g ref t k, s)
      | TSlice e \<Rightarrow>
          (if isBytes e
           then (emitVarint g @
                 [SIfNN0 [SU (SAssign ref (DNil t))]
                    (guardLen g @
                     [SU (SAssign ref (if safe g then DBytesCopy ref else DBytesAlias)), SG (SIncE IIntNN)])],
                 s)
           else if \<not> safe g \<and> memCopyable e
           then (let esz = (case fixedSize e of Some z \<Rightarrow> z | None \<Rightarrow> 0);
                     n = byteCount esz IIntNN
                 in (emitVarint g @
                     [SIfNN0 [SU (SAssign ref (DNil t))]
                        (guardLen g @ [SU (SReuseOrMake ref t), SU (SCopyMem e ref n), SG (SIncE n)])],
                     s\<lparr>usedUnsafe := True\<rparr>))
           else if blitElem g e
           then (let (tv, s1) = freshIdx (s\<lparr>usedUnsafe := True\<rparr>)
                 in (emitVarint g @
                     [SIfNN0 [SU (SAssign ref (DNil t))]
                        (guardLen g @
                         [SU (SReuseOrMake ref t),
                          SU (SLetInt tv (IMul (ISizeofElem e ref) IIntNN)),
                          SU (SCopyMem e ref (IVar tv)), SG (SIncE (IVar tv))])],
                     s1))
           else (let (iv, s1) = freshIdx s;
                     (body, s2) = unmarshalExpr g (RIdx ref iv) e s1
                 in (emitVarint g @
                     [SIfNN0 [SU (SAssign ref (DNil t))]
                        (guardLen g @ [SU (SReuseOrMake ref t), SForIdx iv ref body])],
                     s2)))
      | TArray n e \<Rightarrow>
          (if isByteArray e then (guardN g n @ [SU (SCopyArr ref n), SM (SIncI n)], s)
           else if \<not> safe g \<and> n > 0 \<and> memCopyable e
           then (let total = n * (case fixedSize e of Some z \<Rightarrow> z | None \<Rightarrow> 0)
                 in ([SU (SCopyMem e ref (INum total)), SM (SIncI total)], s\<lparr>usedUnsafe := True\<rparr>))
           else if n > 0 \<and> blitElem g e
           then (let (tv, s1) = freshIdx (s\<lparr>usedUnsafe := True\<rparr>)
                 in ([SU (SLetInt tv (ISizeof t ref)), SU (SCopyMem e ref (IVar tv)), SG (SIncE (IVar tv))], s1))
           else (let (iv, s1) = freshIdx s;
                     (body, s2) = unmarshalExpr g (RIdx ref iv) e s1
                 in ([SForN iv n body], s2)))
      | TPointer e \<Rightarrow>
          (let (body, s1) = unmarshalExpr g (RDeref ref) e s
           in (guardN g 1 @
               [SIfFlag ([SM (SIncI 1), SU (SNewIfNil ref e)] @ body) [SM (SIncI 1), SU (SAssign ref (DNil t))]], s1))
      | TMap k e \<Rightarrow>
          (let (cnt, s1) = freshIdx s; (iv, s2) = freshIdx s1;
               (kt, s3) = freshIdx s2; (vt, s4) = freshIdx s3;
               (kb, s5) = unmarshalExpr g (RVar kt) k s4;
               (vb, s6) = unmarshalExpr g (RVar vt) e s5
           in (emitVarint g @
               [SIfNN0 [SU (SAssign ref (DNil t))]
                  (guardLen g @
                   [SU (SLetNN cnt), SU (SReuseOrMakeMap ref t cnt),
                    SForCnt iv cnt ([SU (SVar kt k), SU (SVar vt e)] @ kb @ vb @ [SU (SMapSet t ref kt vt)])])],
               s6))
      | TStruct \<Rightarrow>
          (case t of
             TNamed n _ \<Rightarrow>
               ([if safe g then SU (SUnmarshalSafe (addrOf ref) n) else SU (SUnmarshalFast (addrOf ref) n)], s)
           | _ \<Rightarrow> ([], s))
      | TInterface \<Rightarrow>
          (let (cases, s1) = unmarshalMembers g ref (taggedMembers g t) s
           in (emitVarint g @ [SSwitchNN ((0, [SU (SAssign ref (DNil t))]) # cases)], s1))
      | _ \<Rightarrow> ([], s))"

declare unmarshalExpr.simps [simp del]

definition emitUnmarshal :: "generator \<Rightarrow> field list \<Rightarrow> gstate \<Rightarrow> gomethod \<times> gstate" where
  "emitUnmarshal g fs s = (let (b, s1) = emitFields (unmarshalExpr g) fs s in (MBody b, s1))"

subsection \<open>Blittable structs\<close>

definition emitBlitSize :: "tname \<Rightarrow> gomethod" where
  "emitBlitSize n = MBlit n False"

definition emitBlitMarshal :: "tname \<Rightarrow> gomethod" where
  "emitBlitMarshal n = MBlit n False"

definition emitBlitAppend :: "tname \<Rightarrow> gomethod" where
  "emitBlitAppend n = MBlit n False"

definition emitBlitUnmarshal :: "generator \<Rightarrow> tname \<Rightarrow> gomethod" where
  "emitBlitUnmarshal g n = MBlit n (safe g)"

subsection \<open>generate\<close>

definition emitCodec :: "generator \<Rightarrow> tname \<Rightarrow> field list \<Rightarrow> gstate \<Rightarrow> codec \<times> gstate" where
  "emitCodec g n fs s =
     (if \<not> safe g \<and> blittable g n fs
      then (\<lparr>cSize = emitBlitSize n, cMarshal = emitBlitMarshal n, cAppend = emitBlitAppend n,
             cUnmarshal = emitBlitUnmarshal g n\<rparr>, s\<lparr>usedUnsafe := True\<rparr>)
      else (let (a, s1) = emitSize g fs s; (b, s2) = emitMarshal g fs s1;
                (c, s3) = emitAppend g fs s2; (d, s4) = emitUnmarshal g fs s3
            in (\<lparr>cSize = a, cMarshal = b, cAppend = c, cUnmarshal = d\<rparr>, s4)))"

fun generateLoop :: "generator \<Rightarrow> tname list \<Rightarrow> gstate \<Rightarrow> gerror + ((tname \<times> codec) list \<times> gstate)"
where
  "generateLoop g [] s = Inr ([], s)"
| "generateLoop g (n # ns) s =
     (if List.member (owned g) n then generateLoop g ns s
      else case fieldsOf g n of
        Inl err \<Rightarrow> Inl err
      | Inr fs \<Rightarrow>
          (let (c, s1) = emitCodec g n fs s in
           case generateLoop g ns s1 of
             Inl err \<Rightarrow> Inl err
           | Inr (cs, s2) \<Rightarrow> Inr ((n, c) # cs, s2)))"

definition generate :: "generator \<Rightarrow> gstate \<Rightarrow> gerror + genfile" where
  "generate g s =
     (case generateLoop g (targets g) s of
        Inl err \<Rightarrow> Inl err
      | Inr (cs, s1) \<Rightarrow>
          Inr \<lparr>gfPackage = pkgName g, gfCodecPkg = codecPkg g, gfImportTime = usedTime s1,
               gfImportUnsafe = usedUnsafe s1, gfCodecs = cs\<rparr>)"

end
