(* ===== verification/Loader.thy ===== *)
theory Loader
  imports Emit "HOL-Library.AList" "HOL-Library.List_Lexorder" "HOL-Library.Char_ord"
begin

text \<open>
  The command line and the package loader, \<open>cmd/goserdegen/main.go\<close>: flags, the check of
  \<open>-out\<close>, the scan of the package for markers and union directives, the choice of the
  targets, the resolution of unions, the user-owned codecs, and \<open>run\<close>, which writes the
  generated file.  The file system, the Go parser, the type checker and the build metadata are
  the parameter \<open>world\<close>.  Text is ASCII; error and progress texts are values.
\<close>

subsection \<open>Strings\<close>

text \<open>The functions of \<open>strings\<close>, \<open>unicode\<close> and \<open>path/filepath\<close> (Unix) that the loader uses.\<close>

definition HasPrefix :: "string \<Rightarrow> string \<Rightarrow> bool" where
  "HasPrefix s p \<longleftrightarrow> take (length p) s = p"

definition HasSuffix :: "string \<Rightarrow> string \<Rightarrow> bool" where
  "HasSuffix s p \<longleftrightarrow> length p \<le> length s \<and> drop (length s - length p) s = p"

definition TrimPrefix :: "string \<Rightarrow> string \<Rightarrow> string" where
  "TrimPrefix s p = (if HasPrefix s p then drop (length p) s else s)"

definition CutPrefix :: "string \<Rightarrow> string \<Rightarrow> string option" where
  "CutPrefix s p = (if HasPrefix s p then Some (drop (length p) s) else None)"

fun Contains :: "string \<Rightarrow> string \<Rightarrow> bool" where
  "Contains [] p \<longleftrightarrow> HasPrefix [] p"
| "Contains (c # s) p \<longleftrightarrow> HasPrefix (c # s) p \<or> Contains s p"

definition isSpace :: "char \<Rightarrow> bool" where
  "isSpace c \<longleftrightarrow> of_char c \<in> {9::nat, 10, 11, 12, 13, 32}"

definition TrimSpace :: "string \<Rightarrow> string" where
  "TrimSpace s = rev (dropWhile isSpace (rev (dropWhile isSpace s)))"

text \<open>\<open>Fields\<close>: the maximal runs of characters that are not space.\<close>

fun fieldsFrom :: "string \<Rightarrow> string \<Rightarrow> string list" where
  "fieldsFrom w [] = (if w = [] then [] else [w])"
| "fieldsFrom w (c # s) =
     (if isSpace c then (if w = [] then fieldsFrom [] s else w # fieldsFrom [] s)
      else fieldsFrom (w @ [c]) s)"

definition Fields :: "string \<Rightarrow> string list" where
  "Fields s = fieldsFrom [] s"

definition slash :: char where "slash = CHR 0x2F"

definition Base :: "string \<Rightarrow> string" where
  "Base p = (if p = [] then ''.''
     else let b = rev (takeWhile (\<lambda>c. c \<noteq> slash) (dropWhile (\<lambda>c. c = slash) (rev p)))
          in if b = [] then [slash] else b)"

fun LastIndexSlash :: "string \<Rightarrow> nat option" where
  "LastIndexSlash [] = None"
| "LastIndexSlash (c # s) =
     (case LastIndexSlash s of Some i \<Rightarrow> Some (Suc i)
      | None \<Rightarrow> if c = slash then Some 0 else None)"

subsection \<open>The parsed and the type-checked package\<close>

text \<open>What the loader reads of a syntax tree: the raw comment lines of a declaration and of
  its specifications, the name a type specification declares and whether its type
  expression is an interface.\<close>

type_synonym comments = "string list option"

record typespec =
  tsDoc :: comments
  tsName :: string
  tsInterface :: bool

datatype godecl = TypeDecl comments "typespec list" | OtherDecl

record astfile =
  afName :: string
  afDecls :: "godecl list"

text \<open>The checked package: its scope in the order of \<open>Names\<close>, with the type of each object;
  the methods declared on a named type, the fields of a struct, and \<open>types.Implements\<close> of a
  pointer to the one and the other.\<close>

record tpkg =
  tpScope :: "(string \<times> gotype) list"
  tpMethods :: "tname \<Rightarrow> string list"
  tpStructs :: "tname \<Rightarrow> sfield list"
  tpImplements :: "tname \<Rightarrow> tname \<Rightarrow> bool"

record dirent =
  deName :: string
  deIsDir :: bool

text \<open>\<open>rangeOrder\<close> is the order in which a \<open>range\<close> visits the union directives, a Go map.\<close>

type_synonym udecls = "(string \<times> string list) list"

record world =
  ReadDir :: "string \<Rightarrow> string + dirent list"
  ParseFile :: "string \<Rightarrow> string \<Rightarrow> string + astfile"
  TypeCheck :: "string \<Rightarrow> astfile list \<Rightarrow> string + tpkg"
  BuildInfo :: "string option"
  WriteFile :: "string \<Rightarrow> string \<Rightarrow> string option"
  rangeOrder :: "udecls \<Rightarrow> udecls"

subsection \<open>Markers and directives\<close>

definition marker :: string where "marker = ''goserde:generate''"
definition unionMarker :: string where "unionMarker = ''goserde:union''"

definition commentHasMarker :: "comments \<Rightarrow> bool" where
  "commentHasMarker cg = (case cg of
     None \<Rightarrow> False | Some l \<Rightarrow> list_ex (\<lambda>c. Contains c marker) l)"

text \<open>The directive on one comment line; \<open>unionMembers\<close> takes the first line that has one.\<close>

definition lineMembers :: "string \<Rightarrow> string list option" where
  "lineMembers c = map_option Fields (CutPrefix (TrimSpace (TrimPrefix c ''//'')) unionMarker)"

fun firstMembers :: "string list \<Rightarrow> string list option" where
  "firstMembers [] = None"
| "firstMembers (c # l) = (case lineMembers c of Some ms \<Rightarrow> Some ms | None \<Rightarrow> firstMembers l)"

definition unionMembers :: "comments \<Rightarrow> string list option" where
  "unionMembers cg = (case cg of None \<Rightarrow> None | Some l \<Rightarrow> firstMembers l)"

definition collectMarked :: "astfile \<Rightarrow> string list \<Rightarrow> string list" where
  "collectMarked f marked = fold (\<lambda>d m. case d of
       OtherDecl \<Rightarrow> m
     | TypeDecl doc specs \<Rightarrow>
         fold (\<lambda>ts m. if commentHasMarker doc \<or> commentHasMarker (tsDoc ts) then tsName ts # m else m)
           specs m)
     (afDecls f) marked"

definition specUnion :: "comments \<Rightarrow> typespec \<Rightarrow> udecls \<Rightarrow> udecls" where
  "specUnion doc ts us =
     (if \<not> tsInterface ts then us
      else let members = (case unionMembers doc of None \<Rightarrow> unionMembers (tsDoc ts) | Some ms \<Rightarrow> Some ms)
           in case members of None \<Rightarrow> us | Some ms \<Rightarrow> AList.update (tsName ts) ms us)"

definition collectUnions :: "astfile \<Rightarrow> udecls \<Rightarrow> udecls" where
  "collectUnions f decls0 = fold (\<lambda>d us. case d of
       OtherDecl \<Rightarrow> us | TypeDecl doc specs \<Rightarrow> fold (specUnion doc) specs us)
     (afDecls f) decls0"

subsection \<open>Loading\<close>

datatype loadError =
    ReadDirError string
  | ParseError string
  | NoPackage string
  | TypeCheckError string
  | NotStruct string
  | NoTargets
  | UnknownUnion string
  | UnionNotNamed string
  | UnionNotInterface string
  | UnionNoMembers string
  | UnknownMember string string
  | MemberNotTarget string string
  | MemberNotImplements string string
  | PartialCodec string "string list"

record parsed =
  psFiles :: "astfile list"
  psMarked :: "string list"
  psUnions :: udecls
  psName :: string

definition noFiles :: parsed where
  "noFiles = \<lparr>psFiles = [], psMarked = [], psUnions = [], psName = []\<rparr>"

text \<open>The entries that \<open>load\<close> does not parse: directories, other files, tests and the out file.\<close>

definition ignored :: "string \<Rightarrow> dirent \<Rightarrow> bool" where
  "ignored out e \<longleftrightarrow> deIsDir e \<or> \<not> HasSuffix (deName e) ''.go''
     \<or> HasSuffix (deName e) ''_test.go'' \<or> deName e = out"

fun parseEntries :: "world \<Rightarrow> string \<Rightarrow> string \<Rightarrow> dirent list \<Rightarrow> parsed \<Rightarrow> loadError + parsed" where
  "parseEntries w dir out [] p = Inr p"
| "parseEntries w dir out (e # es) p =
     (if ignored out e then parseEntries w dir out es p
      else case ParseFile w dir (deName e) of
        Inl err \<Rightarrow> Inl (ParseError err)
      | Inr f \<Rightarrow>
          parseEntries w dir out es
            \<lparr>psFiles = psFiles p @ [f], psMarked = collectMarked f (psMarked p),
             psUnions = collectUnions f (psUnions p),
             psName = (if psName p = [] then afName f else psName p)\<rparr>)"

fun collectTargets :: "string list \<Rightarrow> (string \<times> gotype) list \<Rightarrow> loadError + tname list" where
  "collectTargets marked [] = Inr []"
| "collectTargets marked ((name, t) # sc) =
     (if \<not> List.member marked name then collectTargets marked sc
      else case t of
        TNamed n u \<Rightarrow>
          (if underlying t \<noteq> TStruct then Inl (NotStruct name)
           else (case collectTargets marked sc of Inl err \<Rightarrow> Inl err | Inr ns \<Rightarrow> Inr (n # ns)))
      | _ \<Rightarrow> collectTargets marked sc)"

text \<open>The members of one union, in directive order.\<close>

fun resolveMembers :: "generator \<Rightarrow> tpkg \<Rightarrow> string \<Rightarrow> tname \<Rightarrow> string list \<Rightarrow> loadError + tname list" where
  "resolveMembers g tp ifaceName iface [] = Inr []"
| "resolveMembers g tp ifaceName iface (name # names) =
     (case map_of (tpScope tp) name of
        None \<Rightarrow> Inl (UnknownMember ifaceName name)
      | Some (TNamed m u) \<Rightarrow>
          (if \<not> isTarget g m then Inl (MemberNotTarget ifaceName name)
           else if \<not> tpImplements tp m iface then Inl (MemberNotImplements ifaceName name)
           else (case resolveMembers g tp ifaceName iface names of
                   Inl err \<Rightarrow> Inl err | Inr ms \<Rightarrow> Inr (m # ms)))
      | Some _ \<Rightarrow> Inl (MemberNotTarget ifaceName name))"

definition resolveUnion :: "generator \<Rightarrow> tpkg \<Rightarrow> string \<times> string list \<Rightarrow> loadError + (tname \<times> tname list)" where
  "resolveUnion g tp d = (case map_of (tpScope tp) (fst d) of
     None \<Rightarrow> Inl (UnknownUnion (fst d))
   | Some (TNamed iface u) \<Rightarrow>
       (if underlying u \<noteq> TInterface then Inl (UnionNotInterface (fst d))
        else if snd d = [] then Inl (UnionNoMembers (fst d))
        else (case resolveMembers g tp (fst d) iface (snd d) of
                Inl err \<Rightarrow> Inl err | Inr ms \<Rightarrow> Inr (iface, ms)))
   | Some _ \<Rightarrow> Inl (UnionNotNamed (fst d)))"

fun resolveLoop :: "generator \<Rightarrow> tpkg \<Rightarrow> udecls \<Rightarrow> (tname \<times> tname list) list
    \<Rightarrow> loadError + (tname \<times> tname list) list" where
  "resolveLoop g tp [] us = Inr us"
| "resolveLoop g tp (d # ds) us =
     (case resolveUnion g tp d of
        Inl err \<Rightarrow> Inl err
      | Inr (iface, ms) \<Rightarrow> resolveLoop g tp ds (AList.update iface ms us))"

definition resolveUnions :: "generator \<Rightarrow> tpkg \<Rightarrow> udecls \<Rightarrow> loadError + generator" where
  "resolveUnions g tp decls =
     (case resolveLoop g tp decls [] of Inl err \<Rightarrow> Inl err | Inr us \<Rightarrow> Inr (g\<lparr>unions := us\<rparr>))"

definition codecMethodNames :: "string list" where
  "codecMethodNames = [''Append'', ''Marshal'', ''Size'', ''Unmarshal'']"

fun ownedLoop :: "tpkg \<Rightarrow> tname list \<Rightarrow> loadError + tname list" where
  "ownedLoop tp [] = Inr []"
| "ownedLoop tp (t # ts) =
     (let have = filter (List.member codecMethodNames) (tpMethods tp t) in
      if length have = 0 then ownedLoop tp ts
      else if length have = length codecMethodNames
      then (case ownedLoop tp ts of Inl err \<Rightarrow> Inl err | Inr os \<Rightarrow> Inr (t # os))
      else Inl (PartialCodec (snd t) (sort have)))"

definition detectOwned :: "tpkg \<Rightarrow> generator \<Rightarrow> loadError + generator" where
  "detectOwned tp g = (case ownedLoop tp (targets g) of
     Inl err \<Rightarrow> Inl err | Inr os \<Rightarrow> Inr (g\<lparr>owned := os\<rparr>))"

definition ownedNames :: "generator \<Rightarrow> string list" where
  "ownedNames g = sort (map snd (owned g))"

definition codecQualOf :: "string \<Rightarrow> string" where
  "codecQualOf path = (case LastIndexSlash path of
     Some i \<Rightarrow> drop (i + 1) path | None \<Rightarrow> path)"

text \<open>The generator before unions and owned codecs are known.\<close>

definition newGenerator :: "parsed \<Rightarrow> tpkg \<Rightarrow> string \<Rightarrow> bool \<Rightarrow> tname list \<Rightarrow> generator" where
  "newGenerator p tp path sf ns =
     \<lparr>pkgName = psName p, codecPkg = path, codecQual = codecQualOf path, safe = sf, pkg = psName p,
      targets = sort_key snd ns, owned = [], unions = [], structs = tpStructs tp\<rparr>"

definition load :: "world \<Rightarrow> string \<Rightarrow> string \<Rightarrow> string \<Rightarrow> bool \<Rightarrow> loadError + generator" where
  "load w dir out path sf =
     (case ReadDir w dir of
        Inl err \<Rightarrow> Inl (ReadDirError err)
      | Inr entries \<Rightarrow>
     (case parseEntries w dir out entries noFiles of
        Inl err \<Rightarrow> Inl err
      | Inr p \<Rightarrow>
      if psFiles p = [] then Inl (NoPackage dir)
      else
     (case TypeCheck w (psName p) (psFiles p) of
        Inl err \<Rightarrow> Inl (TypeCheckError err)
      | Inr tp \<Rightarrow>
     (case collectTargets (psMarked p) (tpScope tp) of
        Inl err \<Rightarrow> Inl err
      | Inr ns \<Rightarrow>
      if ns = [] then Inl NoTargets
      else
     (case resolveUnions (newGenerator p tp path sf ns) tp (rangeOrder w (psUnions p)) of
        Inl err \<Rightarrow> Inl err
      | Inr g \<Rightarrow> detectOwned tp g)))))"

subsection \<open>The command line\<close>

definition defaultCodecPkg :: string where
  "defaultCodecPkg = ''github.com/tochemey/goserde/codec''"

definition codecPkgPath :: "world \<Rightarrow> string" where
  "codecPkgPath w = (case BuildInfo w of
     Some path \<Rightarrow> if path \<noteq> [] then path @ ''/codec'' else defaultCodecPkg
   | None \<Rightarrow> defaultCodecPkg)"

datatype outError = NotBare string | NotGoFile string | IsTestFile string

definition validateOut :: "string \<Rightarrow> outError option" where
  "validateOut out =
     (if out = [] \<or> out \<noteq> Base out then Some (NotBare out)
      else if \<not> HasSuffix out ''.go'' \<or> out = ''.go'' then Some (NotGoFile out)
      else if HasSuffix out ''_test.go'' then Some (IsTestFile out)
      else None)"

record flags =
  fDir :: string
  fOut :: string
  fSafe :: bool
  fVersion :: bool

definition defaultFlags :: flags where
  "defaultFlags = \<lparr>fDir = ''.'', fOut = ''goserde_gen.go'', fSafe = False, fVersion = False\<rparr>"

datatype flagError =
    BadSyntax string | NotDefined string | HelpRequested | NeedsArgument string
  | BadBoolean string string

definition ParseBool :: "string \<Rightarrow> bool option" where
  "ParseBool s =
     (if s \<in> {''1'', ''t'', ''T'', ''TRUE'', ''true'', ''True''} then Some True
      else if s \<in> {''0'', ''f'', ''F'', ''FALSE'', ''false'', ''False''} then Some False
      else None)"

text \<open>\<open>name=value\<close> split at the first \<open>=\<close>; a name is not empty here.\<close>

definition splitFlag :: "string \<Rightarrow> string \<times> string option" where
  "splitFlag s = (let n = takeWhile (\<lambda>c. c \<noteq> CHR 0x3D) s in
     (n, if length n < length s then Some (drop (length n + 1) s) else None))"

definition setBool :: "string \<Rightarrow> string option \<Rightarrow> (bool \<Rightarrow> flags) \<Rightarrow> flagError + flags" where
  "setBool name v upd = (case v of None \<Rightarrow> Inr (upd True)
     | Some s \<Rightarrow> (case ParseBool s of Some b \<Rightarrow> Inr (upd b) | None \<Rightarrow> Inl (BadBoolean name s)))"

text \<open>\<open>FlagSet.Parse\<close> with the four flags of \<open>run\<close>: it stops at the first argument that is not
  a flag, and ignores what follows.\<close>

fun parseFlags :: "string list \<Rightarrow> flags \<Rightarrow> flagError + flags" where
  "parseFlags [] f = Inr f"
| "parseFlags (s # args) f =
     (if length s < 2 \<or> hd s \<noteq> CHR 0x2D then Inr f
      else if s = ''--'' then Inr f
      else
        let nm = (if s ! 1 = CHR 0x2D then drop 2 s else drop 1 s) in
        if nm = [] \<or> hd nm = CHR 0x2D \<or> hd nm = CHR 0x3D then Inl (BadSyntax s)
        else
          let (name, v) = splitFlag nm in
          if name = ''safe'' then
            (case setBool name v (\<lambda>b. f\<lparr>fSafe := b\<rparr>) of Inl e \<Rightarrow> Inl e | Inr f' \<Rightarrow> parseFlags args f')
          else if name = ''version'' then
            (case setBool name v (\<lambda>b. f\<lparr>fVersion := b\<rparr>) of Inl e \<Rightarrow> Inl e | Inr f' \<Rightarrow> parseFlags args f')
          else if name = ''dir'' \<or> name = ''out'' then
            (let upd = (\<lambda>x. if name = ''dir'' then f\<lparr>fDir := x\<rparr> else f\<lparr>fOut := x\<rparr>) in
             case v of
               Some x \<Rightarrow> parseFlags args (upd x)
             | None \<Rightarrow> (case args of [] \<Rightarrow> Inl (NeedsArgument name) | x # args' \<Rightarrow> parseFlags args' (upd x)))
          else if name = ''help'' \<or> name = ''h'' then Inl HelpRequested
          else Inl (NotDefined name))"

subsection \<open>run and main\<close>

definition version :: string where "version = ''v0.2.0''"

datatype runError =
    FlagErr flagError | OutErr outError | LoadErr loadError | GenErr gerror | WriteErr string

datatype progress =
    Version string
  | Skipping string
  | Wrote string string nat

text \<open>What a run does: the error it returns, the lines it prints, the file it writes.\<close>

record effects =
  rErr :: "runError option"
  rOut :: "progress list"
  rFile :: "(string \<times> string \<times> genfile) option"

definition failed :: "runError \<Rightarrow> effects" where
  "failed e = \<lparr>rErr = Some e, rOut = [], rFile = None\<rparr>"

definition run :: "world \<Rightarrow> string list \<Rightarrow> effects" where
  "run w args =
     (case parseFlags (tl args) defaultFlags of
        Inl e \<Rightarrow> failed (FlagErr e)
      | Inr f \<Rightarrow>
      if fVersion f then \<lparr>rErr = None, rOut = [Version version], rFile = None\<rparr>
      else
     (case validateOut (fOut f) of
        Some e \<Rightarrow> failed (OutErr e)
      | None \<Rightarrow>
     (case load w (fDir f) (fOut f) (codecPkgPath w) (fSafe f) of
        Inl e \<Rightarrow> failed (LoadErr e)
      | Inr g \<Rightarrow>
     (case generate g emit0 of
        Inl e \<Rightarrow> failed (GenErr e)
      | Inr gf \<Rightarrow>
     (case WriteFile w (fDir f) (fOut f) of
        Some e \<Rightarrow> failed (WriteErr e)
      | None \<Rightarrow>
        \<lparr>rErr = None,
         rOut = map Skipping (ownedNames g)
                @ [Wrote (fDir f) (fOut f) (length (targets g) - length (owned g))],
         rFile = Some (fDir f, fOut f, gf)\<rparr>)))))"

text \<open>\<open>main\<close>: the exit code.\<close>

definition main :: "world \<Rightarrow> string list \<Rightarrow> effects \<times> nat" where
  "main w args = (let r = run w args in (r, if rErr r = None then 0 else 1))"

end
