(* ===== verification/GoSem.thy ===== *)
theory GoSem
  imports Emit
begin

text \<open>
  What the emitted Go code does: Go values, the memory image of fixed-width values, zero
  values, map keys, and an interpreter for the syntax of theory \<open>GoIR\<close>.  This is a model of
  the Go language as far as the generated code uses it, not of the repository.

  A value owns its parts, as a tree: pointers, slices and maps reached from a value are not
  shared with other values.  Strings and slices remember whether their bytes are their own
  or a window of the input buffer (\<open>origin\<close>), slices keep the elements between length and
  capacity, and the order of a map's entries is the order a range loop visits them.
\<close>

subsection \<open>Values and architectures\<close>

datatype val =
    VBool bool
  | V8 byte | V16 u16 | V32 u32 | V64 u64      \<comment> \<open>integers and float bit patterns by width\<close>
  | VStr origin bytes
  | VTime int int string                       \<comment> \<open>Unix seconds, nanoseconds, location\<close>
  | VNilSlice
  | VSlice origin "val list" "val list"        \<comment> \<open>elements, spare elements up to the capacity\<close>
  | VArr "val list"
  | VPtr "val option"
  | VNilMap
  | VMap "(val \<times> val) list"
  | VStruct "(string \<times> val) list"
  | VNilIface
  | VIface tname "val option"                  \<comment> \<open>an interface holding a pointer to the named struct\<close>
  | VInt int                                   \<comment> \<open>an int temporary of generated code\<close>
  | VOpaque                                    \<comment> \<open>channels, functions and other unsupported values\<close>

text \<open>
  The target architecture: the byte width of \<open>int\<close>, \<open>uint\<close> and pointers (4 or 8), the
  largest alignment, the byte order, and what padding bytes hold.
\<close>

record arch =
  wsize :: nat
  maxAlign :: nat
  little :: bool
  padByte :: "nat \<Rightarrow> byte"

definition amd64 :: arch where
  "amd64 = \<lparr>wsize = 8, maxAlign = 8, little = True, padByte = (\<lambda>_. 0)\<rparr>"

datatype cerr = ErrShortBuffer | ErrUnknownUnionTag | ErrOther string

record ctx =
  cGen :: generator
  cArch :: arch
  cGrow :: growth
  cDepth :: nat     \<comment> \<open>bound on by-value struct nesting, for zero values\<close>

text \<open>The conversion \<open>int(x)\<close> of a \<open>uint64\<close>: truncate to the width of \<open>int\<close>, read signed.\<close>

definition goInt :: "arch \<Rightarrow> u64 \<Rightarrow> int" where
  "goInt A x = signed_take_bit (8 * wsize A - 1) (uint x)"

subsection \<open>time.Time\<close>

definition unixNano :: "int \<Rightarrow> int \<Rightarrow> u64" where
  "unixNano sec ns = word_of_int (sec * 1000000000 + ns)"

definition timeUnixUTC :: "u64 \<Rightarrow> val" where
  "timeUnixUTC w = VTime (sint w div 1000000000) (sint w mod 1000000000) ''UTC''"

subsection \<open>Memory images of fixed-width values\<close>

definition archBytes :: "arch \<Rightarrow> bytes \<Rightarrow> bytes" where
  "archBytes A bs = (if little A then bs else rev bs)"

definition basicMem :: "arch \<Rightarrow> bkind \<Rightarrow> nat" where
  "basicMem A k = (case k of
     KInt \<Rightarrow> wsize A | KUint \<Rightarrow> wsize A
   | _ \<Rightarrow> (case basicFixedSize k of Some n \<Rightarrow> n | None \<Rightarrow> 0))"

fun fwSize :: "arch \<Rightarrow> gotype \<Rightarrow> nat" where
  "fwSize A t = (case underlying t of
     TBasic k \<Rightarrow> basicMem A k | TArray n e \<Rightarrow> n * fwSize A e | _ \<Rightarrow> 0)"

fun fwAlign :: "arch \<Rightarrow> gotype \<Rightarrow> nat" where
  "fwAlign A t = (case underlying t of
     TBasic k \<Rightarrow> max 1 (min (basicMem A k) (maxAlign A)) | TArray n e \<Rightarrow> fwAlign A e | _ \<Rightarrow> 1)"

declare fwSize.simps [simp del] fwAlign.simps [simp del]

definition elemType :: "gotype \<Rightarrow> gotype" where
  "elemType t = (case underlying t of TSlice e \<Rightarrow> e | TArray n e \<Rightarrow> e | TPointer e \<Rightarrow> e
                 | TMap k e \<Rightarrow> e | _ \<Rightarrow> t)"

definition keyType :: "gotype \<Rightarrow> gotype" where
  "keyType t = (case underlying t of TMap k e \<Rightarrow> k | _ \<Rightarrow> t)"

text \<open>\<open>memImage A t v\<close>: the bytes of the fixed-width value \<open>v\<close> of type \<open>t\<close> in memory.\<close>

fun memImage :: "arch \<Rightarrow> gotype \<Rightarrow> val \<Rightarrow> bytes" where
  "memImage A t (VBool b) = [if b then 1 else 0]"
| "memImage A t (V8 w) = [w]"
| "memImage A t (V16 w) = archBytes A (le_bytes 2 w)"
| "memImage A t (V32 w) = archBytes A (le_bytes 4 w)"
| "memImage A t (V64 w) = archBytes A (le_bytes (fwSize A t) w)"
| "memImage A t (VArr xs) = concat (map (memImage A (elemType t)) xs)"
| "memImage A t _ = []"

definition word_of_le :: "bytes \<Rightarrow> 'a::len word" where
  "word_of_le bs = word_of_nat (foldr (\<lambda>b n. unat b + 256 * n) bs 0)"

text \<open>\<open>memRead A t bs\<close>: the value of type \<open>t\<close> whose memory starts with \<open>bs\<close>; an \<open>int\<close> is
  sign-extended, a \<open>uint\<close> zero-extended to the 64 bits values are carried at.\<close>

definition basicRead :: "arch \<Rightarrow> bkind \<Rightarrow> bytes \<Rightarrow> val" where
  "basicRead A k bs =
     (let m = basicMem A k; w = archBytes A (take m bs) in
      case k of
        KBool \<Rightarrow> VBool (w \<noteq> [0])
      | KInt \<Rightarrow> V64 (word_of_int (signed_take_bit (8 * m - 1) (uint (word_of_le w :: u64))))
      | _ \<Rightarrow> (if m = 1 then V8 (word_of_le w) else if m = 2 then V16 (word_of_le w)
              else if m = 4 \<and> k \<noteq> KUint then V32 (word_of_le w) else V64 (word_of_le w)))"

fun memRead :: "arch \<Rightarrow> gotype \<Rightarrow> bytes \<Rightarrow> val" where
  "memRead A t bs = (case underlying t of
     TBasic k \<Rightarrow> basicRead A k bs
   | TArray n e \<Rightarrow> VArr (map (\<lambda>i. memRead A e (drop (i * fwSize A e) bs)) [0..<n])
   | _ \<Rightarrow> VOpaque)"

declare memRead.simps [simp del]

subsection \<open>Struct layout\<close>

definition alignUp :: "nat \<Rightarrow> nat \<Rightarrow> nat" where
  "alignUp off a = (off + a - 1) div a * a"

definition padding :: "arch \<Rightarrow> nat \<Rightarrow> nat \<Rightarrow> bytes" where
  "padding A from to = map (padByte A) [from..<to]"

text \<open>Offsets of the fields from \<open>off\<close> on, and the offset after the last one.\<close>

fun fieldOffsets :: "arch \<Rightarrow> nat \<Rightarrow> gotype list \<Rightarrow> nat list" where
  "fieldOffsets A off [] = []"
| "fieldOffsets A off (t # ts) =
     (let o1 = alignUp off (fwAlign A t) in o1 # fieldOffsets A (o1 + fwSize A t) ts)"

fun fieldsEnd :: "arch \<Rightarrow> nat \<Rightarrow> gotype list \<Rightarrow> nat" where
  "fieldsEnd A off [] = off"
| "fieldsEnd A off (t # ts) = fieldsEnd A (alignUp off (fwAlign A t) + fwSize A t) ts"

text \<open>Go rounds the size up to the alignment, after one extra byte where the last field has
  size zero (so that its address stays inside the struct).\<close>

definition structAlign :: "arch \<Rightarrow> gotype list \<Rightarrow> nat" where
  "structAlign A ts = fold (\<lambda>t m. max (fwAlign A t) m) ts 1"

definition structSize :: "arch \<Rightarrow> gotype list \<Rightarrow> nat" where
  "structSize A ts =
     (let e = fieldsEnd A 0 ts;
          e1 = (if ts \<noteq> [] \<and> fwSize A (last ts) = 0 \<and> e > 0 then e + 1 else e)
      in alignUp e1 (structAlign A ts))"

fun fieldsImage :: "arch \<Rightarrow> nat \<Rightarrow> gotype list \<Rightarrow> val list \<Rightarrow> bytes" where
  "fieldsImage A off (t # ts) (v # vs) =
     (let o1 = alignUp off (fwAlign A t)
      in padding A off o1 @ memImage A t v @ fieldsImage A (o1 + fwSize A t) ts vs)"
| "fieldsImage A off _ _ = []"

definition structTypes :: "generator \<Rightarrow> tname \<Rightarrow> gotype list" where
  "structTypes g n = map sfType (structs g n)"

definition structImage :: "generator \<Rightarrow> arch \<Rightarrow> tname \<Rightarrow> val \<Rightarrow> bytes" where
  "structImage g A n v =
     (case v of
        VStruct fs \<Rightarrow>
          (let ts = structTypes g n
           in fieldsImage A 0 ts (map snd fs) @ padding A (fieldsEnd A 0 ts) (structSize A ts))
      | _ \<Rightarrow> [])"

definition structRead :: "generator \<Rightarrow> arch \<Rightarrow> tname \<Rightarrow> bytes \<Rightarrow> val" where
  "structRead g A n bs =
     VStruct (map2 (\<lambda>f off. (sfName f, memRead A (sfType f) (drop off bs)))
                (structs g n) (fieldOffsets A 0 (structTypes g n)))"

text \<open>The elements that bulk copies move: fixed-width values or blittable structs.\<close>

definition isStructType :: "gotype \<Rightarrow> bool" where
  "isStructType t = (underlying t = TStruct)"

definition tnameOf :: "gotype \<Rightarrow> tname" where
  "tnameOf t = (case t of TNamed n _ \<Rightarrow> n | _ \<Rightarrow> ([], []))"

definition elemSize :: "generator \<Rightarrow> arch \<Rightarrow> gotype \<Rightarrow> nat" where
  "elemSize g A t =
     (if isStructType t then structSize A (structTypes g (tnameOf t)) else fwSize A t)"

definition elemImage :: "generator \<Rightarrow> arch \<Rightarrow> gotype \<Rightarrow> val \<Rightarrow> bytes" where
  "elemImage g A t v = (if isStructType t then structImage g A (tnameOf t) v else memImage A t v)"

definition elemRead :: "generator \<Rightarrow> arch \<Rightarrow> gotype \<Rightarrow> bytes \<Rightarrow> val" where
  "elemRead g A t bs = (if isStructType t then structRead g A (tnameOf t) bs else memRead A t bs)"

text \<open>Overwriting the first bytes of the memory of some elements.\<close>

definition elemsSet :: "generator \<Rightarrow> arch \<Rightarrow> gotype \<Rightarrow> val list \<Rightarrow> bytes \<Rightarrow> val list" where
  "elemsSet g A e xs src =
     (let old = concat (map (elemImage g A e) xs);
          new = take (length old) (src @ drop (length src) old)
      in map (\<lambda>k. elemRead g A e (drop (k * elemSize g A e) new)) [0..<length xs])"

subsection \<open>Zero values\<close>

fun zero :: "generator \<Rightarrow> nat \<Rightarrow> gotype \<Rightarrow> val" where
  "zero g d t =
     (if isTime t then VTime (-62135596800) 0 ''UTC''
      else case underlying t of
        TBasic k \<Rightarrow>
          (case k of
             KBool \<Rightarrow> VBool False
           | KString \<Rightarrow> VStr Own []
           | _ \<Rightarrow> (case basicFixedSize k of
                      Some n \<Rightarrow> (if n = 1 then V8 0 else if n = 2 then V16 0
                                  else if n = 4 then V32 0 else V64 0)
                    | None \<Rightarrow> VOpaque))
      | TSlice e \<Rightarrow> VNilSlice
      | TArray n e \<Rightarrow> VArr (replicate n (zero g d e))
      | TPointer e \<Rightarrow> VPtr None
      | TMap k e \<Rightarrow> VNilMap
      | TInterface \<Rightarrow> VNilIface
      | TStruct \<Rightarrow>
          (case t of
             TNamed n _ \<Rightarrow>
               (case d of 0 \<Rightarrow> VOpaque
                | Suc d' \<Rightarrow> VStruct (map (\<lambda>f. (sfName f, zero g d' (sfType f))) (structs g n)))
           | _ \<Rightarrow> VOpaque)
      | _ \<Rightarrow> VOpaque)"

declare zero.simps [simp del]

end
