(* ===== verification/GoExec.thy ===== *)
theory GoExec
  imports GoSem
begin

text \<open>
  The interpreter of generated code: references, expressions, statements, methods.  A
  statement takes the state of a method activation to the next one, returns early with an
  error, panics, or runs out of call depth.  Calls go through a method environment, so the
  meaning of a statement is structural; \<open>methods\<close> ties the knot with a bound on the depth of
  nested calls, and takes the user-owned codecs from a parameter.
\<close>

subsection \<open>The state of an activation\<close>

text \<open>
  \<open>sS\<close> is \<open>s\<close> of \<open>Size\<close>; \<open>sB\<close> is \<open>b\<close> of \<open>Marshal\<close> and \<open>Unmarshal\<close> up to its length,
  \<open>sSpare\<close> what lies between its length and capacity, \<open>sBase\<close> its offset in the buffer of
  the outermost call; \<open>sOut\<close> is \<open>b\<close> of \<open>Append\<close>.
\<close>

record st =
  sRecv :: val
  sVars :: "var \<Rightarrow> val option"
  sS :: int
  sB :: bytes
  sSpare :: bytes
  sBase :: nat
  sI :: int
  sOut :: gbuf
  sNN :: u64
  sCC :: int

datatype flow = Next st | Return st cerr | Crash panic | OutOfFuel

definition fbind :: "'a outcome \<Rightarrow> ('a \<Rightarrow> flow) \<Rightarrow> flow" where
  "fbind r f = (case r of Ok x \<Rightarrow> f x | Panic p \<Rightarrow> Crash p | NoFuel \<Rightarrow> OutOfFuel)"

definition fthen :: "flow \<Rightarrow> (st \<Rightarrow> flow) \<Rightarrow> flow" where
  "fthen r f = (case r of Next s \<Rightarrow> f s | _ \<Rightarrow> r)"

lemma fbind_simps [simp]:
  "fbind (Ok x) f = f x" "fbind (Panic p) f = Crash p" "fbind NoFuel f = OutOfFuel"
  by (simp_all add: fbind_def)

lemma fthen_simps [simp]:
  "fthen (Next s) f = f s" "fthen (Return s e) f = Return s e"
  "fthen (Crash p) f = Crash p" "fthen OutOfFuel f = OutOfFuel"
  by (simp_all add: fthen_def)

text \<open>The methods a piece of code may call, by receiver type.\<close>

record menv =
  mSize :: "tname \<Rightarrow> val \<Rightarrow> int outcome"
  mMarshal :: "tname \<Rightarrow> val \<Rightarrow> bytes \<Rightarrow> (bytes \<times> int) outcome"
  mAppend :: "tname \<Rightarrow> val \<Rightarrow> gbuf \<Rightarrow> gbuf outcome"
  mUnmarshal :: "tname \<Rightarrow> val \<Rightarrow> bytes \<Rightarrow> bytes \<Rightarrow> nat \<Rightarrow> (val \<times> int \<times> cerr option) outcome"

subsection \<open>References\<close>

definition idx :: "val \<Rightarrow> int \<Rightarrow> val outcome" where
  "idx c k = (case c of
     VSlice o' xs ys \<Rightarrow> if 0 \<le> k \<and> nat k < length xs then Ok (xs ! nat k) else Panic PIndex
   | VNilSlice \<Rightarrow> Panic PIndex
   | VArr xs \<Rightarrow> if 0 \<le> k \<and> nat k < length xs then Ok (xs ! nat k) else Panic PIndex
   | _ \<Rightarrow> Panic PStuck)"

definition deref :: "val \<Rightarrow> val outcome" where
  "deref p = (case p of VPtr (Some v) \<Rightarrow> Ok v | VPtr None \<Rightarrow> Panic PNil | _ \<Rightarrow> Panic PStuck)"

definition intVar :: "st \<Rightarrow> var \<Rightarrow> int outcome" where
  "intVar s x = (case sVars s x of Some (VInt k) \<Rightarrow> Ok k | _ \<Rightarrow> Panic PStuck)"

fun rd :: "st \<Rightarrow> ref \<Rightarrow> val outcome" where
  "rd s (RField f) = (case sRecv s of
      VStruct fs \<Rightarrow> (case map_of fs f of Some v \<Rightarrow> Ok v | None \<Rightarrow> Panic PStuck)
    | _ \<Rightarrow> Panic PStuck)"
| "rd s (RVar x) = (case sVars s x of Some v \<Rightarrow> Ok v | None \<Rightarrow> Panic PStuck)"
| "rd s (RIdx r j) = obind (rd s r) (\<lambda>c. obind (intVar s j) (\<lambda>k. idx c k))"
| "rd s (RDeref r) = obind (rd s r) deref"

fun setAssoc :: "(string \<times> val) list \<Rightarrow> string \<Rightarrow> val \<Rightarrow> (string \<times> val) list" where
  "setAssoc [] f v = []"
| "setAssoc ((n, w) # fs) f v = (if n = f then (n, v) # fs else (n, w) # setAssoc fs f v)"

definition setField :: "val \<Rightarrow> string \<Rightarrow> val \<Rightarrow> val" where
  "setField r f v = (case r of VStruct fs \<Rightarrow> VStruct (setAssoc fs f v) | _ \<Rightarrow> r)"

definition setIdx :: "val \<Rightarrow> nat \<Rightarrow> val \<Rightarrow> val" where
  "setIdx c k v = (case c of
     VSlice o' xs ys \<Rightarrow> VSlice o' (xs[k := v]) ys | VArr xs \<Rightarrow> VArr (xs[k := v]) | _ \<Rightarrow> c)"

text \<open>Storing through a reference: the path must be readable, as in Go.\<close>

fun wr :: "st \<Rightarrow> ref \<Rightarrow> val \<Rightarrow> st outcome" where
  "wr s (RField f) v = obind (rd s (RField f)) (\<lambda>_. Ok (s\<lparr>sRecv := setField (sRecv s) f v\<rparr>))"
| "wr s (RVar x) v = obind (rd s (RVar x)) (\<lambda>_. Ok (s\<lparr>sVars := (sVars s)(x := Some v)\<rparr>))"
| "wr s (RIdx r j) v = obind (rd s (RIdx r j)) (\<lambda>_. obind (rd s r) (\<lambda>c. obind (intVar s j)
     (\<lambda>k. wr s r (setIdx c (nat k) v))))"
| "wr s (RDeref r) v = obind (rd s (RDeref r)) (\<lambda>_. wr s r (VPtr (Some v)))"

text \<open>The location a method receiver denotes.\<close>

fun recvLoc :: "recv \<Rightarrow> ref" where
  "recvLoc (RecvPtr x) = RDeref x"
| "recvLoc (RecvAddr r) = r"

subsection \<open>Expressions\<close>

definition goLen :: "val \<Rightarrow> int outcome" where
  "goLen v = (case v of
     VStr o' b \<Rightarrow> Ok (int (length b))
   | VNilSlice \<Rightarrow> Ok 0 | VSlice o' xs ys \<Rightarrow> Ok (int (length xs))
   | VNilMap \<Rightarrow> Ok 0 | VMap kvs \<Rightarrow> Ok (int (length kvs))
   | _ \<Rightarrow> Panic PStuck)"

text \<open>
  Lengths and their multiples are mathematical integers: they measure objects that exist
  in memory.  Only \<open>int(nn)\<close>, which comes from the input, is truncated to the width of int.
\<close>

fun ieval :: "ctx \<Rightarrow> menv \<Rightarrow> st \<Rightarrow> iexp \<Rightarrow> int outcome" where
  "ieval c M s (INum n) = Ok (int n)"
| "ieval c M s (ILen r) = obind (rd s r) goLen"
| "ieval c M s (IUvarintSize e) =
     obind (ieval c M s e) (\<lambda>n. Ok (int (UvarintSize (word_of_int n))))"
| "ieval c M s (IAdd a b) = obind (ieval c M s a) (\<lambda>x. obind (ieval c M s b) (\<lambda>y. Ok (x + y)))"
| "ieval c M s (IMul a b) = obind (ieval c M s a) (\<lambda>x. obind (ieval c M s b) (\<lambda>y. Ok (x * y)))"
| "ieval c M s (ISizeofElem t r) = Ok (int (elemSize (cGen c) (cArch c) t))"
| "ieval c M s (ISizeof t r) =
     (case underlying t of
        TArray n e \<Rightarrow> Ok (int (n * elemSize (cGen c) (cArch c) e)) | _ \<Rightarrow> Panic PStuck)"
| "ieval c M s IIntNN = Ok (goInt (cArch c) (sNN s))"
| "ieval c M s (IVar x) = intVar s x"
| "ieval c M s (ISize rc n) = obind (rd s (recvLoc rc)) (mSize M n)"

definition word16 :: "val \<Rightarrow> u16 outcome" where
  "word16 v = (case v of V16 w \<Rightarrow> Ok w | _ \<Rightarrow> Panic PStuck)"
definition word32 :: "val \<Rightarrow> u32 outcome" where
  "word32 v = (case v of V32 w \<Rightarrow> Ok w | _ \<Rightarrow> Panic PStuck)"
definition word64 :: "val \<Rightarrow> u64 outcome" where
  "word64 v = (case v of V64 w \<Rightarrow> Ok w | _ \<Rightarrow> Panic PStuck)"

definition weval16 :: "st \<Rightarrow> wexp \<Rightarrow> u16 outcome" where
  "weval16 s e = (case e of WConv r \<Rightarrow> obind (rd s r) word16 | _ \<Rightarrow> Panic PStuck)"

definition weval32 :: "st \<Rightarrow> wexp \<Rightarrow> u32 outcome" where
  "weval32 s e = (case e of
     WConv r \<Rightarrow> obind (rd s r) word32
   | WF32bits r \<Rightarrow> obind (obind (rd s r) word32) (\<lambda>f. Ok (F32bits f))
   | _ \<Rightarrow> Panic PStuck)"

definition weval64 :: "st \<Rightarrow> wexp \<Rightarrow> u64 outcome" where
  "weval64 s e = (case e of
     WConv r \<Rightarrow> obind (rd s r) word64
   | WF64bits r \<Rightarrow> obind (obind (rd s r) word64) (\<lambda>f. Ok (F64bits f))
   | WUnixNano r \<Rightarrow>
       obind (rd s r) (\<lambda>v. case v of VTime sec ns l \<Rightarrow> Ok (unixNano sec ns) | _ \<Rightarrow> Panic PStuck)
   | _ \<Rightarrow> Panic PStuck)"

definition beval :: "st \<Rightarrow> bexp \<Rightarrow> byte outcome" where
  "beval s e = (case e of
     BNum n \<Rightarrow> Ok (of_nat n)
   | BConv r \<Rightarrow> obind (rd s r) (\<lambda>v. case v of V8 w \<Rightarrow> Ok w | _ \<Rightarrow> Panic PStuck))"

definition bytesOf :: "val list \<Rightarrow> bytes" where
  "bytesOf xs = map (\<lambda>v. case v of V8 w \<Rightarrow> w | _ \<Rightarrow> 0) xs"

definition elemsOf :: "val \<Rightarrow> val list outcome" where
  "elemsOf v = (case v of
     VNilSlice \<Rightarrow> Ok [] | VSlice o' xs ys \<Rightarrow> Ok xs | VArr xs \<Rightarrow> Ok xs | _ \<Rightarrow> Panic PStuck)"

definition srcEval :: "ctx \<Rightarrow> menv \<Rightarrow> st \<Rightarrow> bsrc \<Rightarrow> bytes outcome" where
  "srcEval c M s e = (case e of
     SrcStr r \<Rightarrow> obind (rd s r) (\<lambda>v. case v of
        VStr o' b \<Rightarrow> Ok (vdat (S2B \<lparr>vorg = o', vdat = b\<rparr>)) | _ \<Rightarrow> Panic PStuck)
   | SrcBytes r \<Rightarrow> obind (obind (rd s r) elemsOf) (\<lambda>xs. Ok (bytesOf xs))
   | SrcArr r \<Rightarrow> obind (obind (rd s r) elemsOf) (\<lambda>xs. Ok (bytesOf xs))
   | SrcMem t r e \<Rightarrow> obind (obind (rd s r) elemsOf) (\<lambda>xs.
        if xs = [] then Panic PIndex
        else obind (ieval c M s e) (\<lambda>n.
          let m = concat (map (elemImage (cGen c) (cArch c) t) xs)
          in if 0 \<le> n \<and> nat n \<le> length m then Ok (take (nat n) m) else Panic PStuck)))"

subsection \<open>Straight-line statements\<close>

text \<open>\<open>tailFrom s\<close> is \<open>b[i:]\<close>; \<open>putTail\<close> stores its new contents.\<close>

definition tailFrom :: "st \<Rightarrow> bytes outcome" where
  "tailFrom s = (if 0 \<le> sI s \<and> sI s \<le> int (length (sB s)) then Ok (drop (nat (sI s)) (sB s))
                 else Panic PSlice)"

definition putTail :: "st \<Rightarrow> bytes \<Rightarrow> st" where
  "putTail s t = s\<lparr>sB := take (nat (sI s)) (sB s) @ t\<rparr>"

definition incI :: "st \<Rightarrow> int \<Rightarrow> st" where
  "incI s n = s\<lparr>sI := sI s + n\<rparr>"

fun mexec :: "ctx \<Rightarrow> menv \<Rightarrow> mstmt \<Rightarrow> st \<Rightarrow> flow" where
  "mexec c M (SPut16 e) s = fbind (tailFrom s) (\<lambda>t. fbind (weval16 s e) (\<lambda>w.
     fbind (PutU16 t w) (\<lambda>t'. Next (putTail s t'))))"
| "mexec c M (SPut32 e) s = fbind (tailFrom s) (\<lambda>t. fbind (weval32 s e) (\<lambda>w.
     fbind (PutU32 t w) (\<lambda>t'. Next (putTail s t'))))"
| "mexec c M (SPut64 e) s = fbind (tailFrom s) (\<lambda>t. fbind (weval64 s e) (\<lambda>w.
     fbind (PutU64 t w) (\<lambda>t'. Next (putTail s t'))))"
| "mexec c M (SSetByte e) s = fbind (beval s e) (\<lambda>w.
     if 0 \<le> sI s \<and> sI s < int (length (sB s))
     then Next (s\<lparr>sB := (sB s)[nat (sI s) := w]\<rparr>) else Crash PIndex)"
| "mexec c M (SPutUvarint e) s = fbind (tailFrom s) (\<lambda>t. fbind (ieval c M s e) (\<lambda>n.
     fbind (PutUvarint t (word_of_int n)) (\<lambda>(t', k). Next (incI (putTail s t') (int k)))))"
| "mexec c M (SCopy e) s = fbind (tailFrom s) (\<lambda>t. fbind (srcEval c M s e) (\<lambda>src.
     let k = min (length t) (length src)
     in Next (incI (putTail s (splice 0 (take k src) t)) (int k))))"
| "mexec c M (SMarshal rc n) s = fbind (tailFrom s) (\<lambda>t. fbind (rd s (recvLoc rc)) (\<lambda>v.
     fbind (mMarshal M n v t) (\<lambda>(t', k). Next (incI (putTail s t') k))))"
| "mexec c M (SIncI n) s = Next (incI s (int n))"

fun aexec :: "ctx \<Rightarrow> menv \<Rightarrow> astmt \<Rightarrow> st \<Rightarrow> flow" where
  "aexec c M (SApp16 e) s = fbind (weval16 s e) (\<lambda>w. Next (s\<lparr>sOut := AppendU16 (cGrow c) (sOut s) w\<rparr>))"
| "aexec c M (SApp32 e) s = fbind (weval32 s e) (\<lambda>w. Next (s\<lparr>sOut := AppendU32 (cGrow c) (sOut s) w\<rparr>))"
| "aexec c M (SApp64 e) s = fbind (weval64 s e) (\<lambda>w. Next (s\<lparr>sOut := AppendU64 (cGrow c) (sOut s) w\<rparr>))"
| "aexec c M (SAppByte e) s = fbind (beval s e) (\<lambda>w. Next (s\<lparr>sOut := gappend (cGrow c) (sOut s) [w]\<rparr>))"
| "aexec c M (SAppUvarint e) s = fbind (ieval c M s e) (\<lambda>n.
     Next (s\<lparr>sOut := AppendUvarint (cGrow c) (sOut s) (word_of_int n)\<rparr>))"
| "aexec c M (SApp e) s = fbind (srcEval c M s e) (\<lambda>src.
     Next (s\<lparr>sOut := gappend (cGrow c) (sOut s) src\<rparr>))"
| "aexec c M (SAppend rc n) s = fbind (rd s (recvLoc rc)) (\<lambda>v.
     fbind (mAppend M n v (sOut s)) (\<lambda>o'. Next (s\<lparr>sOut := o'\<rparr>)))"

fun gexec :: "ctx \<Rightarrow> menv \<Rightarrow> gstmt \<Rightarrow> st \<Rightarrow> flow" where
  "gexec c M (SGuardN n) s =
     (if int (length (sB s)) - sI s < int n then Return s ErrShortBuffer else Next s)"
| "gexec c M SGuardLen s =
     (if (word_of_int (int (length (sB s)) - sI s) :: u64) < sNN s
      then Return s ErrShortBuffer else Next s)"
| "gexec c M SUvarint s = fbind (tailFrom s) (\<lambda>t.
     Next (s\<lparr>sNN := fst (Uvarint t), sCC := snd (Uvarint t)\<rparr>))"
| "gexec c M SGuardVarint s = (if sCC s \<le> 0 then Return s ErrShortBuffer else Next s)"
| "gexec c M SIncCC s = Next (incI s (sCC s))"
| "gexec c M (SIncE e) s = fbind (ieval c M s e) (\<lambda>n. Next (incI s n))"

text \<open>\<open>window s n\<close> is the slice expression \<open>b[i:i+n]\<close>, bounded by the capacity of \<open>b\<close>.\<close>

definition window :: "st \<Rightarrow> int \<Rightarrow> bytes outcome" where
  "window s n =
     (if 0 \<le> sI s \<and> 0 \<le> n \<and> sI s + n \<le> int (length (sB s) + length (sSpare s))
      then Ok (take (nat n) (drop (nat (sI s)) (sB s @ sSpare s))) else Panic PSlice)"

text \<open>What follows a window, up to the capacity of \<open>b\<close>.\<close>

definition beyond :: "st \<Rightarrow> int \<Rightarrow> bytes" where
  "beyond s n = drop (nat (sI s + n)) (sB s @ sSpare s)"

definition byteAt :: "st \<Rightarrow> byte outcome" where
  "byteAt s = (if 0 \<le> sI s \<and> sI s < int (length (sB s)) then Ok (sB s ! nat (sI s)) else Panic PIndex)"

text \<open>The conversion \<open>T(x)\<close> of a decoded \<open>uint64\<close> to an integer type.\<close>

definition conv64 :: "arch \<Rightarrow> gotype \<Rightarrow> u64 \<Rightarrow> u64" where
  "conv64 A t w = (case underlying t of
     TBasic KInt \<Rightarrow> word_of_int (signed_take_bit (8 * wsize A - 1) (uint w))
   | TBasic KUint \<Rightarrow> take_bit (8 * wsize A) w
   | _ \<Rightarrow> w)"

definition nilOf :: "gotype \<Rightarrow> val" where
  "nilOf t = (case underlying t of
     TSlice e \<Rightarrow> VNilSlice | TMap k e \<Rightarrow> VNilMap | TPointer e \<Rightarrow> VPtr None | _ \<Rightarrow> VNilIface)"

definition deval :: "ctx \<Rightarrow> st \<Rightarrow> dexp \<Rightarrow> val outcome" where
  "deval c s e = (case e of
     DTime \<Rightarrow> obind (obind (tailFrom s) U64) (\<lambda>w. Ok (timeUnixUTC w))
   | DBool \<Rightarrow> obind (byteAt s) (\<lambda>w. Ok (VBool (w \<noteq> 0)))
   | DByte t \<Rightarrow> obind (byteAt s) (\<lambda>w. Ok (V8 w))
   | DU16 t \<Rightarrow> obind (obind (tailFrom s) U16) (\<lambda>w. Ok (V16 w))
   | DU32 t \<Rightarrow> obind (obind (tailFrom s) U32) (\<lambda>w. Ok (V32 w))
   | DU64 t \<Rightarrow> obind (obind (tailFrom s) U64) (\<lambda>w. Ok (V64 (conv64 (cArch c) t w)))
   | DF32 \<Rightarrow> obind (obind (tailFrom s) U32) (\<lambda>w. Ok (V32 (Bitsf32 w)))
   | DF64 \<Rightarrow> obind (obind (tailFrom s) U64) (\<lambda>w. Ok (V64 (Bitsf64 w)))
   | DStrCopy \<Rightarrow> obind (window s (goInt (cArch c) (sNN s))) (\<lambda>b. Ok (VStr Own b))
   | DStrAlias \<Rightarrow> obind (window s (goInt (cArch c) (sNN s))) (\<lambda>b.
        let v = B2S \<lparr>vorg = Input (sBase s + nat (sI s)), vdat = b\<rparr> in Ok (VStr (vorg v) (vdat v)))
   | DBytesCopy r \<Rightarrow> obind (window s (goInt (cArch c) (sNN s))) (\<lambda>b. obind (rd s r) (\<lambda>v.
        case v of
          VSlice o' xs ys \<Rightarrow>
            (if length b \<le> length xs + length ys
             then Ok (VSlice o' (map V8 b) (drop (length b) (xs @ ys)))
             else Ok (VSlice Own (map V8 b) []))
        | VNilSlice \<Rightarrow> Ok (if b = [] then VNilSlice else VSlice Own (map V8 b) [])
        | _ \<Rightarrow> Panic PStuck))
   | DBytesAlias \<Rightarrow> obind (window s (goInt (cArch c) (sNN s))) (\<lambda>b.
        Ok (VSlice (Input (sBase s + nat (sI s))) (map V8 b)
              (map V8 (beyond s (goInt (cArch c) (sNN s))))))
   | DNil t \<Rightarrow> Ok (nilOf t)
   | DIface x m \<Rightarrow> obind (rd s (RVar x)) (\<lambda>v. case v of
        VPtr p \<Rightarrow> Ok (VIface m p) | _ \<Rightarrow> Panic PStuck))"

text \<open>
  Map keys compare with Go's \<open>==\<close>: floats by value (NaN differs from itself, the two zeros
  are equal), pointers by identity, and a decoded key's pointers are fresh, so they are
  equal only when both are nil.
\<close>

definition f32Eq :: "u32 \<Rightarrow> u32 \<Rightarrow> bool" where
  "f32Eq a b =
     (let nan = (\<lambda>w. take_bit 31 w > 0x7F800000); z = (\<lambda>w. take_bit 31 w = 0)
      in \<not> nan a \<and> \<not> nan b \<and> (a = b \<or> (z a \<and> z b)))"

definition f64Eq :: "u64 \<Rightarrow> u64 \<Rightarrow> bool" where
  "f64Eq a b =
     (let nan = (\<lambda>w. take_bit 63 w > 0x7FF0000000000000); z = (\<lambda>w. take_bit 63 w = 0)
      in \<not> nan a \<and> \<not> nan b \<and> (a = b \<or> (z a \<and> z b)))"

fun goEq :: "generator \<Rightarrow> gotype \<Rightarrow> val \<Rightarrow> val \<Rightarrow> bool"
and goEqs :: "generator \<Rightarrow> gotype \<Rightarrow> val list \<Rightarrow> val list \<Rightarrow> bool"
and goEqFs :: "generator \<Rightarrow> gotype list \<Rightarrow> (string \<times> val) list \<Rightarrow> (string \<times> val) list \<Rightarrow> bool" where
  "goEq g t a b = (case a of
     VBool x \<Rightarrow> (case b of VBool y \<Rightarrow> x = y | _ \<Rightarrow> False)
   | V8 x \<Rightarrow> (case b of V8 y \<Rightarrow> x = y | _ \<Rightarrow> False)
   | V16 x \<Rightarrow> (case b of V16 y \<Rightarrow> x = y | _ \<Rightarrow> False)
   | V32 x \<Rightarrow> (case b of
       V32 y \<Rightarrow> if underlying t = TBasic KFloat32 then f32Eq x y else x = y | _ \<Rightarrow> False)
   | V64 x \<Rightarrow> (case b of
       V64 y \<Rightarrow> if underlying t = TBasic KFloat64 then f64Eq x y else x = y | _ \<Rightarrow> False)
   | VStr o1 x \<Rightarrow> (case b of VStr o2 y \<Rightarrow> x = y | _ \<Rightarrow> False)
   | VTime s1 n1 l1 \<Rightarrow>
       (case b of VTime s2 n2 l2 \<Rightarrow> s1 = s2 \<and> n1 = n2 \<and> l1 = l2 | _ \<Rightarrow> False)
   | VArr xs \<Rightarrow> (case b of VArr ys \<Rightarrow> goEqs g (elemType t) xs ys | _ \<Rightarrow> False)
   | VStruct xs \<Rightarrow>
       (case b of VStruct ys \<Rightarrow> goEqFs g (structTypes g (tnameOf t)) xs ys | _ \<Rightarrow> False)
   | VPtr p \<Rightarrow> (case b of VPtr q \<Rightarrow> p = None \<and> q = None | _ \<Rightarrow> False)
   | VNilIface \<Rightarrow> (case b of VNilIface \<Rightarrow> True | _ \<Rightarrow> False)
   | _ \<Rightarrow> False)"
| "goEqs g t [] ys = (ys = [])"
| "goEqs g t (x # xs) ys = (case ys of [] \<Rightarrow> False | y # ys' \<Rightarrow> goEq g t x y \<and> goEqs g t xs ys')"
| "goEqFs g ts [] ys = True"
| "goEqFs g ts (x # xs) ys =
     (case ts of [] \<Rightarrow> True | t # ts' \<Rightarrow>
        (case ys of [] \<Rightarrow> True | y # ys' \<Rightarrow>
           goEq g t (snd x) (snd y) \<and> goEqFs g ts' xs ys'))"

declare goEq.simps [simp del]

text \<open>\<open>m[k] = v\<close>: replace the entry with an equal key, or add one.\<close>

fun mapPut :: "generator \<Rightarrow> gotype \<Rightarrow> (val \<times> val) list \<Rightarrow> val \<Rightarrow> val \<Rightarrow> (val \<times> val) list" where
  "mapPut g kt [] k v = [(k, v)]"
| "mapPut g kt ((k', v') # r) k v =
     (if goEq g kt k' k then (k, v) # r else (k', v') # mapPut g kt r k v)"

fun uexec :: "ctx \<Rightarrow> menv \<Rightarrow> ustmt \<Rightarrow> st \<Rightarrow> flow" where
  "uexec c M (SAssign r e) s = fbind (deval c s e) (\<lambda>v. fbind (wr s r v) Next)"
| "uexec c M (SReuseOrMake r t) s = fbind (rd s r) (\<lambda>v.
     let n = goInt (cArch c) (sNN s); z = zero (cGen c) (cDepth c) (elemType t);
         make = (if uint (sNN s) = n then fbind (wr s r (VSlice Own (replicate (nat n) z) [])) Next
                 else Crash PMake) in
     case v of
       VSlice o' xs ys \<Rightarrow>
         (if n \<le> int (length xs + length ys)
          then (if unat (sNN s) \<le> length xs + length ys
                then (let k = unat (sNN s)
                      in fbind (wr s r (VSlice o' (take k (xs @ ys)) (drop k (xs @ ys)))) Next)
                else Crash PSlice)
          else make)
     | VNilSlice \<Rightarrow>
         (if n \<le> 0
          then (if sNN s = 0 then fbind (wr s r VNilSlice) Next else Crash PSlice)
          else make)
     | _ \<Rightarrow> Crash PStuck)"
| "uexec c M (SReuseOrMakeMap r t x) s = fbind (rd s r) (\<lambda>v.
     case v of
       VMap kvs \<Rightarrow> fbind (wr s r (VMap [])) Next
     | VNilMap \<Rightarrow> fbind (wr s r (VMap [])) Next
     | _ \<Rightarrow> Crash PStuck)"
| "uexec c M (SNewIfNil r t) s = fbind (rd s r) (\<lambda>v.
     case v of
       VPtr (Some w) \<Rightarrow> Next s
     | VPtr None \<Rightarrow> fbind (wr s r (VPtr (Some (zero (cGen c) (cDepth c) t)))) Next
     | _ \<Rightarrow> Crash PStuck)"
| "uexec c M (SCopyArr r n) s = fbind (window s (int n)) (\<lambda>src. fbind (rd s r) (\<lambda>v.
     case v of
       VArr xs \<Rightarrow> fbind (wr s r (VArr (map V8 (take (length xs) src) @ drop (length src) xs))) Next
     | _ \<Rightarrow> Crash PStuck))"
| "uexec c M (SCopyMem e r x) s = fbind (rd s r) (\<lambda>v. fbind (elemsOf v) (\<lambda>xs.
     if xs = [] then Crash PIndex
     else fbind (ieval c M s x) (\<lambda>n. fbind (window s n) (\<lambda>src.
       let xs' = elemsSet (cGen c) (cArch c) e xs src in
       case v of
         VSlice o' _ ys \<Rightarrow> fbind (wr s r (VSlice o' xs' ys)) Next
       | _ \<Rightarrow> fbind (wr s r (VArr xs')) Next))))"
| "uexec c M (SLetInt x e) s = fbind (ieval c M s e) (\<lambda>n.
     Next (s\<lparr>sVars := (sVars s)(x := Some (VInt n))\<rparr>))"
| "uexec c M (SLetNN x) s = Next (s\<lparr>sVars := (sVars s)(x := Some (V64 (sNN s)))\<rparr>)"
| "uexec c M (SVar x t) s =
     Next (s\<lparr>sVars := (sVars s)(x := Some (zero (cGen c) (cDepth c) t))\<rparr>)"
| "uexec c M (SMapSet t r kx vx) s = fbind (rd s r) (\<lambda>m. fbind (rd s (RVar kx)) (\<lambda>k.
     fbind (rd s (RVar vx)) (\<lambda>v.
       case m of
         VMap kvs \<Rightarrow> fbind (wr s r (VMap (mapPut (cGen c) (keyType t) kvs k v))) Next
       | _ \<Rightarrow> Crash PNil)))"
| "uexec c M (SUnmarshalSafe rc n) s = fbind (tailFrom s) (\<lambda>t. fbind (rd s (recvLoc rc)) (\<lambda>d.
     fbind (mUnmarshal M n d t (sSpare s) (sBase s + nat (sI s))) (\<lambda>(d', k, err).
       fbind (wr s (recvLoc rc) d') (\<lambda>s'.
         case err of Some e \<Rightarrow> Return s' e | None \<Rightarrow> Next (incI s' k)))))"
| "uexec c M (SUnmarshalFast rc n) s = fbind (tailFrom s) (\<lambda>t. fbind (rd s (recvLoc rc)) (\<lambda>d.
     fbind (mUnmarshal M n d t (sSpare s) (sBase s + nat (sI s))) (\<lambda>(d', k, err).
       fbind (wr s (recvLoc rc) d') (\<lambda>s'. Next (incI s' k)))))"
| "uexec c M (STypeAssert x r m) s = fbind (rd s r) (\<lambda>v.
     let p = (case v of VIface n p \<Rightarrow> if n = m then p else None | _ \<Rightarrow> None)
     in Next (s\<lparr>sVars := (sVars s)(x := Some (VPtr p))\<rparr>))"

subsection \<open>Statements\<close>

text \<open>A loop over the items a range clause produces.\<close>

fun loopL :: "('a \<Rightarrow> st \<Rightarrow> flow) \<Rightarrow> 'a list \<Rightarrow> st \<Rightarrow> flow" where
  "loopL f [] s = Next s"
| "loopL f (x # xs) s = fthen (f x s) (loopL f xs)"

definition bindV :: "var \<Rightarrow> val \<Rightarrow> st \<Rightarrow> st" where
  "bindV x v s = s\<lparr>sVars := (sVars s)(x := Some v)\<rparr>"

text \<open>\<open>scoped xs s r\<close>: the end of a block that declared \<open>xs\<close> and was entered in \<open>s\<close>.\<close>

definition unbindVs :: "var list \<Rightarrow> st \<Rightarrow> st \<Rightarrow> st" where
  "unbindVs xs s s' = s'\<lparr>sVars := fold (\<lambda>x m. m(x := sVars s x)) xs (sVars s')\<rparr>"

definition scoped :: "var list \<Rightarrow> st \<Rightarrow> flow \<Rightarrow> flow" where
  "scoped xs s r = fthen r (\<lambda>s'. Next (unbindVs xs s s'))"

text \<open>The variables a block declares.\<close>

definition declared :: "stmt \<Rightarrow> var list" where
  "declared x = (case x of
     SU u \<Rightarrow> (case u of SLetInt v e \<Rightarrow> [v] | SLetNN v \<Rightarrow> [v] | SVar v t \<Rightarrow> [v]
                     | STypeAssert v r m \<Rightarrow> [v] | _ \<Rightarrow> [])
   | _ \<Rightarrow> [])"

definition decls :: "block \<Rightarrow> var list" where
  "decls b = concat (map declared b)"

definition rangeLen :: "val \<Rightarrow> nat outcome" where
  "rangeLen v = obind (elemsOf v) (\<lambda>xs. Ok (length xs))"

definition mapEntries :: "val \<Rightarrow> (val \<times> val) list outcome" where
  "mapEntries v = (case v of VNilMap \<Rightarrow> Ok [] | VMap kvs \<Rightarrow> Ok kvs | _ \<Rightarrow> Panic PStuck)"

definition isNilVal :: "val \<Rightarrow> bool outcome" where
  "isNilVal v = (case v of VPtr p \<Rightarrow> Ok (p = None) | _ \<Rightarrow> Panic PStuck)"

definition boolOf :: "val \<Rightarrow> bool outcome" where
  "boolOf v = (case v of VBool b \<Rightarrow> Ok b | _ \<Rightarrow> Panic PStuck)"

type_synonym sem = "ctx \<Rightarrow> menv \<Rightarrow> st \<Rightarrow> flow"

text \<open>A block in braces: run it, then forget what it declared.  A loop body is such a block
  with the loop variables of its iteration bound at its start.\<close>

definition inBlock :: "var list \<Rightarrow> sem \<Rightarrow> sem" where
  "inBlock xs f c M s = scoped xs s (f c M s)"

definition iter1 :: "var \<Rightarrow> var list \<Rightarrow> sem \<Rightarrow> ctx \<Rightarrow> menv \<Rightarrow> val \<Rightarrow> st \<Rightarrow> flow" where
  "iter1 iv xs f c M v s = scoped (iv # xs) s (f c M (bindV iv v s))"

definition iter2 ::
  "var \<Rightarrow> var \<Rightarrow> var list \<Rightarrow> sem \<Rightarrow> ctx \<Rightarrow> menv \<Rightarrow> val \<times> val \<Rightarrow> st \<Rightarrow> flow" where
  "iter2 kv vv xs f c M e s = scoped (kv # vv # xs) s (f c M (bindV vv (snd e) (bindV kv (fst e) s)))"

fun exec :: "stmt \<Rightarrow> sem" and execs :: "stmt list \<Rightarrow> sem" where
  "exec (SAddS e) = (\<lambda>c M s. fbind (ieval c M s e) (\<lambda>n. Next (s\<lparr>sS := sS s + n\<rparr>)))"
| "exec (SUse x) = (\<lambda>c M s. Next s)"
| "exec (SM m) = (\<lambda>c M s. mexec c M m s)"
| "exec (SA a) = (\<lambda>c M s. aexec c M a s)"
| "exec (SG g) = (\<lambda>c M s. gexec c M g s)"
| "exec (SU u) = (\<lambda>c M s. uexec c M u s)"
| "exec (SForIdx iv r body) =
     (let f = iter1 iv (decls body) (execs body) in (\<lambda>c M s.
      fbind (obind (rd s r) rangeLen) (\<lambda>n. loopL (f c M) (map (\<lambda>k. VInt (int k)) [0..<n]) s)))"
| "exec (SForVal iv r body) =
     (let f = iter1 iv (decls body) (execs body) in (\<lambda>c M s.
      fbind (obind (rd s r) elemsOf) (\<lambda>xs. loopL (f c M) xs s)))"
| "exec (SForN iv n body) =
     (let f = iter1 iv (decls body) (execs body) in (\<lambda>c M s.
      loopL (f c M) (map (\<lambda>k. VInt (int k)) [0..<n]) s))"
| "exec (SForMap kv vv r body) =
     (let f = iter2 kv vv (decls body) (execs body) in (\<lambda>c M s.
      fbind (obind (rd s r) mapEntries) (\<lambda>kvs. loopL (f c M) kvs s)))"
| "exec (SForCnt iv cnt body) =
     (let f = iter1 iv (decls body) (execs body) in (\<lambda>c M s.
      fbind (obind (rd s (RVar cnt)) word64) (\<lambda>n.
        loopL (f c M) (map (\<lambda>k. V64 (of_nat k)) [0..<unat n]) s)))"
| "exec (SIfNotNil r a b) =
     (let f = inBlock (decls a) (execs a); h = inBlock (decls b) (execs b)
      in (\<lambda>c M s. fbind (obind (rd s r) isNilVal) (\<lambda>nil. if \<not> nil then f c M s else h c M s)))"
| "exec (SIfTrue r a b) =
     (let f = inBlock (decls a) (execs a); h = inBlock (decls b) (execs b)
      in (\<lambda>c M s. fbind (obind (rd s r) boolOf) (\<lambda>t. if t then f c M s else h c M s)))"
| "exec (SIfNonEmpty r a) =
     (let f = inBlock (decls a) (execs a)
      in (\<lambda>c M s. fbind (obind (rd s r) goLen) (\<lambda>n. if n > 0 then f c M s else Next s)))"
| "exec (SIfNN0 a b) =
     (let f = inBlock (decls a) (execs a); h = inBlock (decls b) (execs b)
      in (\<lambda>c M s. if sNN s = 0 then f c M s else h c M s))"
| "exec (SIfFlag a b) =
     (let f = inBlock (decls a) (execs a); h = inBlock (decls b) (execs b)
      in (\<lambda>c M s. fbind (byteAt s) (\<lambda>w. if w \<noteq> 0 then f c M s else h c M s)))"
| "exec (STypeSwitch r cases nl msg) =
     (let fs = map (\<lambda>(n, b). (n, inBlock (decls b) (execs b))) cases;
          h = inBlock (decls nl) (execs nl)
      in (\<lambda>c M s. fbind (rd s r) (\<lambda>v.
        case v of
          VNilIface \<Rightarrow> h c M s
        | VIface m p \<Rightarrow>
            (case map_of fs m of
               Some f \<Rightarrow> scoped [VV] s (f c M (bindV VV (VPtr p) s))
             | None \<Rightarrow> Crash (PMsg msg))
        | _ \<Rightarrow> Crash PStuck)))"
| "exec (SSwitchNN cases) =
     (let fs = map (\<lambda>(n, b). (of_nat n, inBlock (decls b) (execs b))) cases
      in (\<lambda>c M s.
        case map_of fs (sNN s) of
          Some f \<Rightarrow> f c M s
        | None \<Rightarrow> Return s ErrUnknownUnionTag))"
| "execs [] = (\<lambda>c M s. Next s)"
| "execs (x # xs) = (\<lambda>c M s. fthen (exec x c M s) (execs xs c M))"

definition execB :: "block \<Rightarrow> sem" where
  "execB b = inBlock (decls b) (execs b)"

subsection \<open>Methods\<close>

definition initSt :: "val \<Rightarrow> st" where
  "initSt v = \<lparr>sRecv = v, sVars = (\<lambda>_. None), sS = 0, sB = [], sSpare = [], sBase = 0, sI = 0,
     sOut = \<lparr>gdat = [], gspare = [], gnew = False\<rparr>, sNN = 0, sCC = 0\<rparr>"

definition runSize :: "ctx \<Rightarrow> menv \<Rightarrow> gomethod \<Rightarrow> val \<Rightarrow> int outcome" where
  "runSize c M m v = (case m of
     MBody b \<Rightarrow> (case execs b c M (initSt v) of
        Next s \<Rightarrow> Ok (sS s) | Return s e \<Rightarrow> Panic PStuck | Crash p \<Rightarrow> Panic p | OutOfFuel \<Rightarrow> NoFuel)
   | MBlit n g \<Rightarrow> Ok (int (structSize (cArch c) (structTypes (cGen c) n))))"

definition runMarshal :: "ctx \<Rightarrow> menv \<Rightarrow> gomethod \<Rightarrow> val \<Rightarrow> bytes \<Rightarrow> (bytes \<times> int) outcome" where
  "runMarshal c M m v b = (case m of
     MBody body \<Rightarrow> (case execs body c M ((initSt v)\<lparr>sB := b\<rparr>) of
        Next s \<Rightarrow> Ok (sB s, sI s) | Return s e \<Rightarrow> Panic PStuck | Crash p \<Rightarrow> Panic p
      | OutOfFuel \<Rightarrow> NoFuel)
   | MBlit n g \<Rightarrow>
       (let k = structSize (cArch c) (structTypes (cGen c) n);
            src = structImage (cGen c) (cArch c) n v
        in Ok (splice 0 (take (length b) src) b, int k)))"

definition runAppend :: "ctx \<Rightarrow> menv \<Rightarrow> gomethod \<Rightarrow> val \<Rightarrow> gbuf \<Rightarrow> gbuf outcome" where
  "runAppend c M m v b = (case m of
     MBody body \<Rightarrow> (case execs body c M ((initSt v)\<lparr>sOut := b\<rparr>) of
        Next s \<Rightarrow> Ok (sOut s) | Return s e \<Rightarrow> Panic PStuck | Crash p \<Rightarrow> Panic p
      | OutOfFuel \<Rightarrow> NoFuel)
   | MBlit n g \<Rightarrow> Ok (gappend (cGrow c) b (structImage (cGen c) (cArch c) n v)))"

definition runUnmarshal ::
  "ctx \<Rightarrow> menv \<Rightarrow> gomethod \<Rightarrow> val \<Rightarrow> bytes \<Rightarrow> bytes \<Rightarrow> nat \<Rightarrow> (val \<times> int \<times> cerr option) outcome" where
  "runUnmarshal c M m d b spare base = (case m of
     MBody body \<Rightarrow>
       (case execs body c M ((initSt d)\<lparr>sB := b, sSpare := spare, sBase := base\<rparr>) of
          Next s \<Rightarrow> Ok (sRecv s, sI s, None)
        | Return s e \<Rightarrow> Ok (sRecv s, sI s, Some e)
        | Crash p \<Rightarrow> Panic p
        | OutOfFuel \<Rightarrow> NoFuel)
   | MBlit n guard \<Rightarrow>
       (let k = structSize (cArch c) (structTypes (cGen c) n);
            old = structImage (cGen c) (cArch c) n d;
            src = take k b
        in if guard \<and> length b < k then Ok (d, 0, Some ErrShortBuffer)
           else Ok (structRead (cGen c) (cArch c) n (src @ drop (length src) old), int k, None)))"

definition noFuelEnv :: menv where
  "noFuelEnv = \<lparr>mSize = (\<lambda>n v. NoFuel), mMarshal = (\<lambda>n v b. NoFuel),
     mAppend = (\<lambda>n v b. NoFuel), mUnmarshal = (\<lambda>n d b sp bs. NoFuel)\<rparr>"

text \<open>
  The methods of a package: generated codecs \<open>P\<close>, user-owned codecs \<open>U\<close>, with calls nested
  at most as deep as the last argument.
\<close>

primrec methods :: "ctx \<Rightarrow> (tname \<Rightarrow> codec option) \<Rightarrow> menv \<Rightarrow> nat \<Rightarrow> menv" where
  "methods c P U 0 = noFuelEnv"
| "methods c P U (Suc d) =
     (let M = methods c P U d in
      \<lparr>mSize = (\<lambda>n v. case P n of None \<Rightarrow> mSize U n v | Some cd \<Rightarrow> runSize c M (cSize cd) v),
       mMarshal = (\<lambda>n v b. case P n of None \<Rightarrow> mMarshal U n v b
                    | Some cd \<Rightarrow> runMarshal c M (cMarshal cd) v b),
       mAppend = (\<lambda>n v b. case P n of None \<Rightarrow> mAppend U n v b
                    | Some cd \<Rightarrow> runAppend c M (cAppend cd) v b),
       mUnmarshal = (\<lambda>n v b sp bs. case P n of None \<Rightarrow> mUnmarshal U n v b sp bs
                    | Some cd \<Rightarrow> runUnmarshal c M (cUnmarshal cd) v b sp bs)\<rparr>)"

end
