(* ===== verification/Wire.thy ===== *)
theory Wire
  imports GoExec
begin

text \<open>
  The wire format as a specification, independent of the generated code: for a value of a
  given type, the bytes the README's "Wire format" section describes.  \<open>wt\<close> says which
  values a Go variable of a type can hold; \<open>wire\<close> is the encoding.  Both follow the type,
  and recur on the value.  The format of a user-owned struct is the parameter \<open>ow\<close>.
\<close>

type_synonym uwire = "tname \<Rightarrow> val \<Rightarrow> bytes"

definition archOK :: "arch \<Rightarrow> bool" where
  "archOK A \<longleftrightarrow> wsize A = 4 \<or> wsize A = 8"

text \<open>Lengths fit in an \<open>int\<close>.\<close>

definition lenOK :: "arch \<Rightarrow> nat \<Rightarrow> bool" where
  "lenOK A n \<longleftrightarrow> n < 2 ^ (8 * wsize A - 1)"

definition skipped :: "sfield \<Rightarrow> bool" where
  "skipped f \<longleftrightarrow> \<not> Exported f \<or> tagGet f structTagKey = tagSkip"

text \<open>The tag of a union member: its position in the declaration, from 1.\<close>

definition memberTag :: "generator \<Rightarrow> gotype \<Rightarrow> tname \<Rightarrow> nat option" where
  "memberTag g t m = map_of (map (\<lambda>(k, n). (n, k)) (taggedMembers g t)) m"

text \<open>Structs whose fast-mode codec is the memory copy.\<close>

definition isBlit :: "generator \<Rightarrow> tname \<Rightarrow> bool" where
  "isBlit g n \<longleftrightarrow> \<not> safe g \<and> \<not> List.member (owned g) n \<and>
     (case fieldsOf g n of Inl e \<Rightarrow> False | Inr fs \<Rightarrow> blittable g n fs)"

lemma val_size_less [termination_simp]:
  "x \<in> set xs \<Longrightarrow> size x < Suc (size_list size xs)"
  "x \<in> set xs \<Longrightarrow> size x < Suc (size_list size xs + size_list size ys)"
  "x \<in> set ys \<Longrightarrow> size x < Suc (size_list size xs + size_list size ys)"
  "(a, b) \<in> set ps \<Longrightarrow> size a < Suc (size_list (size_prod size size) ps)"
  "(a, b) \<in> set ps \<Longrightarrow> size b < Suc (size_list (size_prod size size) ps)"
  for x :: val and a b :: val
proof -
  show "x \<in> set xs \<Longrightarrow> size x < Suc (size_list size xs)"
    by (induction xs) auto
  then show "x \<in> set xs \<Longrightarrow> size x < Suc (size_list size xs + size_list size ys)"
    by (meson add_lessD1 less_le_trans not_less_eq trans_le_add1)
  show "x \<in> set ys \<Longrightarrow> size x < Suc (size_list size xs + size_list size ys)"
    by (induction ys) auto
  show "(a, b) \<in> set ps \<Longrightarrow> size a < Suc (size_list (size_prod size size) ps)"
    "(a, b) \<in> set ps \<Longrightarrow> size b < Suc (size_list (size_prod size size) ps)"
    by (induction ps) auto
qed

lemma field_size_less [termination_simp]:
  "(f, s, x) \<in> set (zip gs fs) \<Longrightarrow> size x < Suc (size_list (\<lambda>x. Suc (size (snd x))) fs)"
  "(s, x) \<in> set fs \<Longrightarrow> size x < Suc (size_list (\<lambda>x. Suc (size (snd x))) fs)"
  for x :: val
proof -
  show a: "(s, x) \<in> set fs \<Longrightarrow> size x < Suc (size_list (\<lambda>x. Suc (size (snd x))) fs)"
    by (induction fs) auto
  show "(f, s, x) \<in> set (zip gs fs) \<Longrightarrow> size x < Suc (size_list (\<lambda>x. Suc (size (snd x))) fs)"
    by (induction gs fs rule: list_induct2') auto
qed

subsection \<open>Well-typed values\<close>

text \<open>An \<open>int\<close> and a \<open>uint\<close> are carried extended to 64 bits.\<close>

definition wtBasic :: "arch \<Rightarrow> bkind \<Rightarrow> val \<Rightarrow> bool" where
  "wtBasic A k v = (case k of
     KBool \<Rightarrow> (case v of VBool b \<Rightarrow> True | _ \<Rightarrow> False)
   | KUint8 \<Rightarrow> (case v of V8 w \<Rightarrow> True | _ \<Rightarrow> False)
   | KInt8 \<Rightarrow> (case v of V8 w \<Rightarrow> True | _ \<Rightarrow> False)
   | KUint16 \<Rightarrow> (case v of V16 w \<Rightarrow> True | _ \<Rightarrow> False)
   | KInt16 \<Rightarrow> (case v of V16 w \<Rightarrow> True | _ \<Rightarrow> False)
   | KUint32 \<Rightarrow> (case v of V32 w \<Rightarrow> True | _ \<Rightarrow> False)
   | KInt32 \<Rightarrow> (case v of V32 w \<Rightarrow> True | _ \<Rightarrow> False)
   | KFloat32 \<Rightarrow> (case v of V32 w \<Rightarrow> True | _ \<Rightarrow> False)
   | KUint64 \<Rightarrow> (case v of V64 w \<Rightarrow> True | _ \<Rightarrow> False)
   | KInt64 \<Rightarrow> (case v of V64 w \<Rightarrow> True | _ \<Rightarrow> False)
   | KFloat64 \<Rightarrow> (case v of V64 w \<Rightarrow> True | _ \<Rightarrow> False)
   | KInt \<Rightarrow> (case v of
       V64 w \<Rightarrow> word_of_int (signed_take_bit (8 * wsize A - 1) (uint w)) = w | _ \<Rightarrow> False)
   | KUint \<Rightarrow> (case v of V64 w \<Rightarrow> take_bit (8 * wsize A) w = w | _ \<Rightarrow> False)
   | KString \<Rightarrow> (case v of VStr p b \<Rightarrow> lenOK A (length b) | _ \<Rightarrow> False)
   | _ \<Rightarrow> False)"

fun wt :: "generator \<Rightarrow> arch \<Rightarrow> gotype \<Rightarrow> val \<Rightarrow> bool" where
  "wt g A t v =
     (if isTime t then (case v of VTime s n l \<Rightarrow> 0 \<le> n \<and> n < 1000000000 | _ \<Rightarrow> False)
      else case underlying t of
        TBasic k \<Rightarrow> wtBasic A k v
      | TSlice e \<Rightarrow>
          (case v of
             VNilSlice \<Rightarrow> True
           | VSlice p xs ys \<Rightarrow> lenOK A (length xs + length ys)
               \<and> (\<forall>x \<in> set xs. wt g A e x) \<and> (\<forall>x \<in> set ys. wt g A e x)
           | _ \<Rightarrow> False)
      | TArray n e \<Rightarrow>
          (case v of VArr xs \<Rightarrow> length xs = n \<and> (\<forall>x \<in> set xs. wt g A e x) | _ \<Rightarrow> False)
      | TPointer e \<Rightarrow>
          (case v of VPtr None \<Rightarrow> True | VPtr (Some w) \<Rightarrow> wt g A e w | _ \<Rightarrow> False)
      | TMap k e \<Rightarrow>
          (case v of
             VNilMap \<Rightarrow> True
           | VMap kvs \<Rightarrow> lenOK A (length kvs) \<and> (\<forall>(a, b) \<in> set kvs. wt g A k a \<and> wt g A e b)
           | _ \<Rightarrow> False)
      | TStruct \<Rightarrow>
          (case t of
             TNamed n _ \<Rightarrow>
               (case v of
                  VStruct fs \<Rightarrow> map fst fs = map sfName (structs g n)
                    \<and> (\<forall>(f, x) \<in> set (zip (structs g n) fs). skipped f \<or> wt g A (sfType f) (snd x))
                | _ \<Rightarrow> False)
           | _ \<Rightarrow> False)
      | TInterface \<Rightarrow>
          (case v of
             VNilIface \<Rightarrow> True
           | VIface m (Some w) \<Rightarrow> memberTag g t m \<noteq> None \<and> wt g A (TNamed m TStruct) w
           | _ \<Rightarrow> False)
      | _ \<Rightarrow> False)"

declare wt.simps [simp del]

subsection \<open>The encoding\<close>

text \<open>In fast mode a slice or array of memory-copyable elements is their memory.\<close>

definition bulk :: "generator \<Rightarrow> gotype \<Rightarrow> bool" where
  "bulk g e \<longleftrightarrow> \<not> safe g \<and> memCopyable e"

definition lenPrefix :: "nat \<Rightarrow> bytes" where
  "lenPrefix n = uvarint_bytes (of_nat n)"

definition wireBasic :: "val \<Rightarrow> bytes" where
  "wireBasic v = (case v of
     VBool b \<Rightarrow> [if b then 1 else 0]
   | V8 w \<Rightarrow> [w] | V16 w \<Rightarrow> le_bytes 2 w | V32 w \<Rightarrow> le_bytes 4 w | V64 w \<Rightarrow> le_bytes 8 w
   | VStr p b \<Rightarrow> lenPrefix (length b) @ b
   | _ \<Rightarrow> [])"

fun wire :: "generator \<Rightarrow> arch \<Rightarrow> uwire \<Rightarrow> gotype \<Rightarrow> val \<Rightarrow> bytes" where
  "wire g A ow t v =
     (if isTime t then (case v of VTime s n l \<Rightarrow> le_bytes 8 (unixNano s n) | _ \<Rightarrow> [])
      else case underlying t of
        TBasic k \<Rightarrow> wireBasic v
      | TSlice e \<Rightarrow>
          (case v of
             VSlice p xs ys \<Rightarrow> lenPrefix (length xs) @
               (if bulk g e then concat (map (memImage A e) xs) else concat (map (wire g A ow e) xs))
           | _ \<Rightarrow> lenPrefix 0)
      | TArray n e \<Rightarrow>
          (case v of
             VArr xs \<Rightarrow>
               (if bulk g e then concat (map (memImage A e) xs) else concat (map (wire g A ow e) xs))
           | _ \<Rightarrow> [])
      | TPointer e \<Rightarrow>
          (case v of VPtr (Some w) \<Rightarrow> 1 # wire g A ow e w | _ \<Rightarrow> [0])
      | TMap k e \<Rightarrow>
          (case v of
             VMap kvs \<Rightarrow> lenPrefix (length kvs) @
               concat (map (\<lambda>(a, b). wire g A ow k a @ wire g A ow e b) kvs)
           | _ \<Rightarrow> lenPrefix 0)
      | TStruct \<Rightarrow>
          (case t of
             TNamed n _ \<Rightarrow>
               (if List.member (owned g) n then ow n v
                else if isBlit g n then structImage g A n v
                else case v of
                  VStruct fs \<Rightarrow>
                    concat (map (\<lambda>(f, x). if skipped f then [] else wire g A ow (sfType f) (snd x))
                              (zip (structs g n) fs))
                | _ \<Rightarrow> [])
           | _ \<Rightarrow> [])
      | TInterface \<Rightarrow>
          (case v of
             VIface m (Some w) \<Rightarrow>
               lenPrefix (the (memberTag g t m)) @ wire g A ow (TNamed m TStruct) w
           | _ \<Rightarrow> lenPrefix 0)
      | _ \<Rightarrow> [])"

declare wire.simps [simp del]

text \<open>How deep structs nest in a value: the depth of \<open>Size\<close>/\<open>Marshal\<close>/\<open>Append\<close> calls.\<close>

definition maxl :: "nat list \<Rightarrow> nat" where
  "maxl xs = foldr max xs 0"

lemma maxl_le [simp]: "maxl xs \<le> d \<longleftrightarrow> (\<forall>x \<in> set xs. x \<le> d)"
  unfolding maxl_def by (induction xs) auto

fun sdepth :: "val \<Rightarrow> nat" where
  "sdepth v = (case v of
     VSlice p xs ys \<Rightarrow> maxl (map sdepth xs)
   | VArr xs \<Rightarrow> maxl (map sdepth xs)
   | VPtr (Some w) \<Rightarrow> sdepth w
   | VMap kvs \<Rightarrow> maxl (map (\<lambda>(a, b). max (sdepth a) (sdepth b)) kvs)
   | VStruct fs \<Rightarrow> Suc (maxl (map (\<lambda>x. sdepth (snd x)) fs))
   | VIface m (Some w) \<Rightarrow> sdepth w
   | _ \<Rightarrow> 0)"

declare sdepth.simps [simp del]

lemma sdepth_simps [simp]:
  "sdepth (VSlice p xs ys) = maxl (map sdepth xs)"
  "sdepth (VArr xs) = maxl (map sdepth xs)"
  "sdepth (VPtr (Some w)) = sdepth w"
  "sdepth (VMap kvs) = maxl (map (\<lambda>(a, b). max (sdepth a) (sdepth b)) kvs)"
  "sdepth (VStruct fs) = Suc (maxl (map (\<lambda>x. sdepth (snd x)) fs))"
  "sdepth (VIface m (Some w)) = sdepth w"
  by (subst sdepth.simps, simp)+

lemma maxl_ge: "x \<in> set xs \<Longrightarrow> x \<le> maxl xs"
  using maxl_le [of xs "maxl xs"] by simp

end
