(* ===== verification/Layout.thy ===== *)
theory Layout
  imports Wire
begin

text \<open>
  Facts about the generator's classification predicates and the memory of the values they
  accept: sizes of encodings and of memory images, struct layout, and the selected fields.
\<close>

subsection \<open>Fields\<close>

lemma fieldsLoop_Inr:
  "fieldsLoop g n sf = Inr fs \<Longrightarrow>
     fs = map (\<lambda>f. \<lparr>fldName = sfName f, fldTyp = sfType f\<rparr>) (filter (\<lambda>f. \<not> skipped f) sf)
     \<and> (\<forall>f \<in> set sf. skipped f \<or> supported g (sfType f) = None)"
  by (induction g n sf arbitrary: fs rule: fieldsLoop.induct)
    (auto simp: skipped_def split: if_splits option.splits sum.splits)

lemma fieldsLoop_total:
  "(\<forall>f \<in> set sf. skipped f \<or> supported g (sfType f) = None) \<Longrightarrow> \<exists>fs. fieldsLoop g n sf = Inr fs"
  by (induction g n sf rule: fieldsLoop.induct)
    (auto simp: skipped_def split: if_splits option.splits sum.splits)

lemma isBlit_fields:
  assumes "isBlit g n"
  shows "\<not> safe g" "\<not> List.member (owned g) n" "structs g n \<noteq> []"
    and "f \<in> set (structs g n) \<Longrightarrow> \<not> skipped f \<and> isFixedWidth (sfType f)"
proof -
  obtain fs where fs: "fieldsOf g n = Inr fs" "blittable g n fs"
    using assms by (auto simp: isBlit_def split: sum.splits)
  show "\<not> safe g" "\<not> List.member (owned g) n" "structs g n \<noteq> []"
    using assms fs by (auto simp: isBlit_def blittable_def)
  have m: "fs = map (\<lambda>f. \<lparr>fldName = sfName f, fldTyp = sfType f\<rparr>) (filter (\<lambda>f. \<not> skipped f) (structs g n))"
    using fs(1) fieldsLoop_Inr by (auto simp: fieldsOf_def)
  then have "length (filter (\<lambda>f. \<not> skipped f) (structs g n)) = length (structs g n)"
    using fs(2) by (auto simp: blittable_def split: if_splits)
  then have "filter (\<lambda>f. \<not> skipped f) (structs g n) = structs g n"
    by (metis filter_True length_filter_less nat_neq_iff)
  then show "f \<in> set (structs g n) \<Longrightarrow> \<not> skipped f \<and> isFixedWidth (sfType f)"
    using m fs(2) by (auto simp: blittable_def list_all_iff filter_id_conv split: if_splits)
qed

subsection \<open>Sizes of fixed-width encodings and images\<close>

lemma memCopyable_fixedSize: "memCopyable t \<Longrightarrow> fixedSize t = Some (fwSize A t)"
proof (induction t rule: memCopyable.induct)
  case (1 t)
  then show ?case
    by (cases "underlying t")
      (auto simp: memCopyable.simps [of t] fixedSize.simps [of t] fwSize.simps [of A t]
        basicMemCopyable_def basicMem_def basicFixedSize_def split: if_splits bkind.splits)
qed

lemma memCopyable_isFixedWidth: "memCopyable t \<Longrightarrow> isFixedWidth t"
proof (induction t rule: memCopyable.induct)
  case (1 t)
  then show ?case
    by (cases "underlying t")
      (auto simp: memCopyable.simps [of t] isFixedWidth.simps [of t]
        basicMemCopyable_def basicFixedWidth_def split: if_splits bkind.splits)
qed

lemma length_concat_const:
  "(\<And>x. x \<in> set xs \<Longrightarrow> length (f x) = k) \<Longrightarrow> length (concat (map f xs)) = length xs * k"
  by (induction xs) auto

lemma elemType_array [simp]: "underlying t = TArray n e \<Longrightarrow> elemType t = e"
  and elemType_slice [simp]: "underlying t = TSlice e \<Longrightarrow> elemType t = e"
  by (simp_all add: elemType_def)

lemma length_memImage:
  "isFixedWidth t \<Longrightarrow> wt g A t v \<Longrightarrow> length (memImage A t v) = fwSize A t"
proof (induction t arbitrary: v rule: isFixedWidth.induct)
  case (1 t)
  show ?case
  proof (cases "underlying t")
    case (TBasic k)
    then show ?thesis using 1(2,3)
      by (cases v; cases k)
        (auto simp: isFixedWidth.simps [of t] wt.simps [of g A t] wtBasic_def fwSize.simps [of A t]
          basicMem_def basicFixedSize_def basicFixedWidth_def archBytes_def split: if_splits)
  next
    case (TArray n e)
    have nt: "\<not> isTime t" and e: "isFixedWidth e"
      using 1(2) TArray by (auto simp: isFixedWidth.simps [of t] split: if_splits)
    obtain xs where v: "v = VArr xs" "length xs = n" "\<forall>x \<in> set xs. wt g A e x"
      using 1(3) nt TArray by (auto simp: wt.simps [of g A t] split: val.splits)
    have "length (concat (map (memImage A e) xs)) = length xs * fwSize A e"
      using 1(1) [OF nt TArray e] v(3) by (intro length_concat_const) auto
    then show ?thesis using v TArray by (simp add: fwSize.simps [of A t])
  qed (use 1(2) in \<open>auto simp: isFixedWidth.simps [of t] split: if_splits\<close>)
qed

lemma length_wireBasic:
  "basicFixedSize k = Some n \<Longrightarrow> wtBasic A k v \<Longrightarrow> length (wireBasic v) = n"
  by (cases v; cases k) (auto simp: wtBasic_def basicFixedSize_def wireBasic_def)

lemma length_wire_fixed:
  "fixedSize t = Some n \<Longrightarrow> wt g A t v \<Longrightarrow> length (wire g A ow t v) = n"
proof (induction t arbitrary: n v rule: fixedSize.induct)
  case (1 t)
  show ?case
  proof (cases "isTime t")
    case True
    then show ?thesis using 1(2,3)
      by (auto simp: fixedSize.simps [of t] wt.simps [of g A t] wire.simps [of g A ow t] split: val.splits)
  next
    case nt: False
    show ?thesis
    proof (cases "underlying t")
      case (TBasic k)
      then show ?thesis using 1(2,3) nt length_wireBasic
        by (auto simp: fixedSize.simps [of t] wt.simps [of g A t] wire.simps [of g A ow t])
    next
      case (TArray m e)
      obtain k where k: "fixedSize e = Some k" "n = m * k"
        using 1(2) nt TArray by (auto simp: fixedSize.simps [of t] split: option.splits)
      obtain xs where v: "v = VArr xs" "length xs = m" "\<forall>x \<in> set xs. wt g A e x"
        using 1(3) nt TArray by (auto simp: wt.simps [of g A t] split: val.splits)
      show ?thesis
      proof (cases "bulk g e")
        case True
        then have "fwSize A e = k" "isFixedWidth e"
          using k memCopyable_fixedSize [of e A] memCopyable_isFixedWidth [of e] by (auto simp: bulk_def)
        then have "length (concat (map (memImage A e) xs)) = length xs * k"
          using v(3) length_memImage [of e g A] by (intro length_concat_const) auto
        then show ?thesis using True v k nt TArray by (simp add: wire.simps [of g A ow t])
      next
        case False
        have "length (concat (map (wire g A ow e) xs)) = length xs * k"
          using 1(1) [OF nt TArray k(1)] v(3) by (intro length_concat_const) auto
        then show ?thesis using False v k nt TArray by (simp add: wire.simps [of g A ow t])
      qed
    qed (use 1(2) nt in \<open>auto simp: fixedSize.simps [of t]\<close>)
  qed
qed

subsection \<open>Struct layout\<close>

lemma alignUp_ge: "0 < a \<Longrightarrow> off \<le> alignUp off a"
proof -
  assume a: "0 < a"
  have "(off + a - 1) mod a < a" using a by simp
  moreover have "(off + a - 1) div a * a + (off + a - 1) mod a = off + a - 1"
    by (rule div_mult_mod_eq)
  ultimately show ?thesis unfolding alignUp_def using a by linarith
qed

lemma fwAlign_pos [simp]: "0 < fwAlign A t"
proof (induction A t rule: fwAlign.induct)
  case (1 A t)
  then show ?case by (cases "underlying t") (auto simp: fwAlign.simps [of A t])
qed

lemma structAlign_pos [simp]: "0 < structAlign A ts"
proof -
  have "m > 0 \<Longrightarrow> 0 < fold (\<lambda>t m. max (fwAlign A t) m) ts m" for m
    by (induction ts arbitrary: m) auto
  then show ?thesis by (simp add: structAlign_def)
qed

lemma length_padding [simp]: "length (padding A i j) = j - i"
  by (simp add: padding_def)

lemma fieldsEnd_ge: "off \<le> fieldsEnd A off ts"
proof (induction ts arbitrary: off)
  case (Cons t ts)
  have "off \<le> alignUp off (fwAlign A t) + fwSize A t" using alignUp_ge [of "fwAlign A t" off] by simp
  then show ?case using Cons.IH [of "alignUp off (fwAlign A t) + fwSize A t"] by simp
qed simp

lemma length_fieldsImage:
  assumes "length ts = length vs"
    and "\<And>t v. (t, v) \<in> set (zip ts vs) \<Longrightarrow> length (memImage A t v) = fwSize A t"
  shows "off + length (fieldsImage A off ts vs) = fieldsEnd A off ts"
  using assms
proof (induction ts vs arbitrary: off rule: list_induct2)
  case (Cons t ts v vs)
  let ?o = "alignUp off (fwAlign A t)"
  have "?o + fwSize A t + length (fieldsImage A (?o + fwSize A t) ts vs) = fieldsEnd A (?o + fwSize A t) ts"
    by (rule Cons.IH) (simp add: Cons.prems)
  moreover have "length (memImage A t v) = fwSize A t" by (simp add: Cons.prems)
  ultimately show ?case using alignUp_ge [of "fwAlign A t" off] by (simp add: Let_def)
qed simp

lemma structSize_ge: "fieldsEnd A 0 ts \<le> structSize A ts"
proof -
  let ?e = "if ts \<noteq> [] \<and> fwSize A (last ts) = 0 \<and> fieldsEnd A 0 ts > 0 then fieldsEnd A 0 ts + 1
            else fieldsEnd A 0 ts"
  have "fieldsEnd A 0 ts \<le> ?e" by simp
  also have "\<dots> \<le> alignUp ?e (structAlign A ts)" by (simp add: alignUp_ge)
  finally show ?thesis by (simp add: structSize_def Let_def)
qed

lemma wt_struct:
  assumes "wt g A (TNamed n u) v" and "underlying u = TStruct" and "\<not> isTime (TNamed n u)"
  obtains fs where "v = VStruct fs" "map fst fs = map sfName (structs g n)"
    "\<And>f x. (f, x) \<in> set (zip (structs g n) fs) \<Longrightarrow> skipped f \<or> wt g A (sfType f) (snd x)"
  using assms by (fastforce simp: wt.simps [of g A "TNamed n u"] split: val.splits)

lemma length_structImage:
  assumes "isBlit g n" and "wt g A (TNamed n u) v" and "underlying u = TStruct" "\<not> isTime (TNamed n u)"
  shows "length (structImage g A n v) = structSize A (structTypes g n)"
proof -
  obtain fs where fs: "v = VStruct fs" "map fst fs = map sfName (structs g n)"
    and w: "\<And>f x. (f, x) \<in> set (zip (structs g n) fs) \<Longrightarrow> skipped f \<or> wt g A (sfType f) (snd x)"
    using wt_struct [OF assms(2-4)] by metis
  let ?ts = "structTypes g n"
  have len: "length fs = length (structs g n)" using fs(2) by (metis length_map)
  have "0 + length (fieldsImage A 0 ?ts (map snd fs)) = fieldsEnd A 0 ?ts"
  proof (rule length_fieldsImage)
    fix t v assume "(t, v) \<in> set (zip ?ts (map snd fs))"
    then obtain f x where "(f, x) \<in> set (zip (structs g n) fs)" "t = sfType f" "v = snd x"
      by (auto simp: structTypes_def zip_map_map)
    then show "length (memImage A t v) = fwSize A t"
      using w isBlit_fields(4) [OF assms(1)] length_memImage set_zip_leftD by metis
  qed (simp add: structTypes_def len)
  then show ?thesis using fs(1) structSize_ge [of A ?ts] by (simp add: structImage_def Let_def)
qed

subsection \<open>Unsigned lengths\<close>

lemma uvarintLen_UvarintSize: "uvarintLen x = UvarintSize x"
proof -
  have "uvarintLen_loop n x + 1 = n + length (uvarint_bytes x)" for n
  proof (induction n x rule: uvarintLen_loop.induct)
    case (1 n x)
    then show ?case
      by (simp add: uvarintLen_loop.simps [of n x] uvarint_bytes.simps [of x])
  qed
  from this [of 1] show ?thesis by (simp add: uvarintLen_def length_uvarint_bytes)
qed

end
