(* ===== verification/Views.thy ===== *)
theory Views
  imports GoExec Layout
begin

text \<open>
  What a well-typed value of a supported type looks like and how its encoding splits: one
  lemma per kind of type, used by the proofs about all generated methods.
\<close>

subsection \<open>The settings a generator can have\<close>

text \<open>
  \<open>wfGen\<close>: what the Go type checker and \<open>load\<close> guarantee of a package: no target is
  \<open>time.Time\<close>, union members and user-owned structs are targets, and two exported fields
  of a struct have different names.
\<close>

definition wfGen :: "generator \<Rightarrow> bool" where
  "wfGen g \<longleftrightarrow>
     (\<forall>n \<in> set (targets g). \<not> isTime (TNamed n TStruct))
     \<and> (\<forall>u \<in> set (unions g). \<forall>m \<in> set (snd u). isTarget g m)
     \<and> (\<forall>n \<in> set (owned g). isTarget g n)
     \<and> (\<forall>n \<in> set (targets g).
          distinct (map sfName (filter Exported (structs g n)))
          \<and> (\<forall>f \<in> set (structs g n). \<forall>f' \<in> set (structs g n).
               sfName f = sfName f' \<longrightarrow> Exported f = Exported f'))"

lemma isTarget_set: "isTarget g n \<longleftrightarrow> n \<in> set (targets g)"
  by (simp add: isTarget_def)

lemma isTime_named: "isTime (TNamed n u) = isTime (TNamed n u')"
  by (simp add: isTime_def)

lemma wfGen_notTime: "wfGen g \<Longrightarrow> isTarget g n \<Longrightarrow> \<not> isTime (TNamed n u)"
  using isTime_named [of n u TStruct] unfolding wfGen_def isTarget_set by blast

lemma wt_named_struct: "underlying u = TStruct \<Longrightarrow> wt g A (TNamed n u) v = wt g A (TNamed n TStruct) v"
  using isTime_named [of n u TStruct]
  by (simp add: wt.simps [of g A "TNamed n u"] wt.simps [of g A "TNamed n TStruct"])

lemma wire_named_struct:
  "underlying u = TStruct \<Longrightarrow> wire g A ow (TNamed n u) v = wire g A ow (TNamed n TStruct) v"
  using isTime_named [of n u TStruct]
  by (simp add: wire.simps [of g A ow "TNamed n u"] wire.simps [of g A ow "TNamed n TStruct"])

lemma memberTag_target:
  assumes wf: "wfGen g" and m: "memberTag g t m = Some k"
  shows "isTarget g m" and "(k, m) \<in> set (taggedMembers g t)"
proof -
  have "(m, k) \<in> set (map (\<lambda>(k, n). (n, k)) (taggedMembers g t))"
    using m by (auto simp: memberTag_def dest: map_of_SomeD)
  then show km: "(k, m) \<in> set (taggedMembers g t)" by auto
  then obtain ms where ms: "unionMembersOf g t = Some ms" "m \<in> set ms"
    by (cases "unionMembersOf g t") (auto simp: taggedMembers_def enumerate_eq_zip dest: set_zip_rightD)
  then obtain n where "(n, ms) \<in> set (unions g)"
    by (auto simp: unionMembersOf_def split: gotype.splits dest: map_of_SomeD)
  then show "isTarget g m" using wf ms(2) unfolding wfGen_def by force
qed

subsection \<open>Elements\<close>

definition elemsWire :: "generator \<Rightarrow> arch \<Rightarrow> uwire \<Rightarrow> gotype \<Rightarrow> val list \<Rightarrow> bytes" where
  "elemsWire g A ow e xs =
     (if bulk g e then concat (map (memImage A e) xs) else concat (map (wire g A ow e) xs))"

lemma blitElem_named:
  assumes "blitElem g e"
  obtains n u where "e = TNamed n u" "underlying u = TStruct" "isTarget g n" "isBlit g n"
    "\<not> isTime e"
proof -
  have "\<exists>n u. e = TNamed n u" using assms by (cases e) (simp_all add: blitElem_def split: if_splits)
  then obtain n u where e: "e = TNamed n u" by blast
  then show ?thesis using assms that
    by (auto simp: blitElem_def isBlit_def split: if_splits sum.splits)
qed

lemma blitElem_not_fixed: "blitElem g e \<Longrightarrow> fixedSize e = None \<and> \<not> memCopyable e"
proof -
  assume "blitElem g e"
  then obtain n u where e: "e = TNamed n u" "underlying u = TStruct" "\<not> isTime e"
    by (blast elim: blitElem_named)
  then have "underlying e = TStruct" by simp
  with e(3) show ?thesis by (simp add: fixedSize.simps [of e] memCopyable.simps [of e])
qed

lemma elemsWire_mem:
  assumes "(\<not> safe g \<and> memCopyable e) \<or> blitElem g e" and "\<And>x. x \<in> set xs \<Longrightarrow> wt g A e x"
  shows "elemsWire g A ow e xs = concat (map (elemImage g A e) xs)"
    and "length (elemsWire g A ow e xs) = length xs * elemSize g A e"
proof -
  have "elemsWire g A ow e xs = concat (map (elemImage g A e) xs)
        \<and> (\<forall>x \<in> set xs. length (elemImage g A e x) = elemSize g A e)"
  proof (cases "blitElem g e")
    case True
    then obtain n u where n: "e = TNamed n u" "underlying u = TStruct" "isBlit g n" "\<not> isTime e"
      by (blast elim: blitElem_named)
    have "wire g A ow e = elemImage g A e"
      using n(2-4) isBlit_fields(2) [of g n] unfolding n(1)
      by (intro ext) (simp add: wire.simps [of g A ow "TNamed n u"] elemImage_def isStructType_def tnameOf_def)
    moreover have "length (elemImage g A e x) = elemSize g A e" if "x \<in> set xs" for x
      using length_structImage [of g n A u x] n assms(2) [OF that]
      by (simp add: elemImage_def isStructType_def tnameOf_def elemSize_def)
    ultimately show ?thesis
      using blitElem_not_fixed [OF True] by (simp add: elemsWire_def bulk_def)
  next
    case False
    then have m: "\<not> safe g" "memCopyable e" using assms by auto
    then have "underlying e \<noteq> TStruct" by (auto simp: memCopyable.simps [of e] split: if_splits)
    then have "elemImage g A e = memImage A e" "elemSize g A e = fwSize A e"
      by (auto simp: elemImage_def elemSize_def isStructType_def)
    then show ?thesis
      using m assms(2) length_memImage [OF memCopyable_isFixedWidth [OF m(2)], of g A]
      by (simp add: elemsWire_def bulk_def)
  qed
  then show "elemsWire g A ow e xs = concat (map (elemImage g A e) xs)"
    and "length (elemsWire g A ow e xs) = length xs * elemSize g A e"
    by (auto simp: length_concat_const)
qed

lemma memCopyable_elemSize: "memCopyable e \<Longrightarrow> fixedSize e = Some (elemSize g A e)"
  using memCopyable_fixedSize [of e A]
  by (auto simp: elemSize_def isStructType_def memCopyable.simps [of e] split: if_splits)

lemma length_elemsWire_fixed:
  assumes "fixedSize e = Some k" and "\<And>x. x \<in> set xs \<Longrightarrow> wt g A e x"
  shows "length (elemsWire g A ow e xs) = length xs * k"
proof (cases "bulk g e")
  case True
  then show ?thesis
    using elemsWire_mem(2) [of g e xs A ow] memCopyable_elemSize [of e g A] assms
    by (simp add: bulk_def)
next
  case False
  have "length (concat (map (wire g A ow e) xs)) = length xs * k"
    using assms length_wire_fixed by (intro length_concat_const) auto
  then show ?thesis using False by (simp add: elemsWire_def)
qed

lemma elemsWire_loop: "\<not> (\<not> safe g \<and> memCopyable e) \<Longrightarrow> elemsWire g A ow e xs = concat (map (wire g A ow e) xs)"
  by (auto simp: elemsWire_def bulk_def)

lemma elemsWire_loop': "fixedSize e = None \<Longrightarrow> elemsWire g A ow e xs = concat (map (wire g A ow e) xs)"
  by (rule elemsWire_loop) (auto dest: memCopyable_fixedSize)

lemma elemsWire_bytes:
  assumes "isBytes e" and "\<And>x. x \<in> set xs \<Longrightarrow> wt g A e x"
  shows "elemsWire g A ow e xs = bytesOf xs"
proof -
  have e: "e = TBasic KUint8" using assms(1) by (auto simp: isBytes_def split: gotype.splits)
  let ?b = "\<lambda>x. case x of V8 w \<Rightarrow> w | _ \<Rightarrow> 0"
  have b: "memImage A e x = [?b x] \<and> wire g A ow e x = [?b x]" if "x \<in> set xs" for x
    using assms(2) [OF that]
    by (auto simp: e wt.simps [of g A "TBasic KUint8"] wire.simps [of g A ow "TBasic KUint8"]
        isTime_def wtBasic_def wireBasic_def split: val.splits)
  have "concat (map f xs) = map ?b xs" if "\<And>x. x \<in> set xs \<Longrightarrow> f x = [?b x]" for f
    using that by (induction xs) auto
  then show ?thesis using b by (simp add: elemsWire_def bytesOf_def)
qed

subsection \<open>Views of values by type\<close>

lemma time_view:
  assumes "wt g A t v" "isTime t"
  obtains s n l where "v = VTime s n l" "wire g A ow t v = le_bytes 8 (unixNano s n)"
  using assms by (auto simp: wt.simps [of g A t] wire.simps [of g A ow t] split: val.splits)

lemma basic_view:
  assumes "wt g A t v" "\<not> isTime t" "underlying t = TBasic k"
  shows "wtBasic A k v" "wire g A ow t v = wireBasic v"
  using assms by (simp_all add: wt.simps [of g A t] wire.simps [of g A ow t])

lemma slice_view:
  assumes "wt g A t v" "\<not> isTime t" "underlying t = TSlice e"
  obtains xs where "elemsOf v = Ok xs" "goLen v = Ok (int (length xs))"
    "\<And>x. x \<in> set xs \<Longrightarrow> wt g A e x" "\<And>x. x \<in> set xs \<Longrightarrow> sdepth x \<le> sdepth v"
    "wire g A ow t v = lenPrefix (length xs) @ elemsWire g A ow e xs"
proof -
  consider "v = VNilSlice" | p xs ys where "v = VSlice p xs ys" "\<forall>x \<in> set xs. wt g A e x"
    using assms by (auto simp: wt.simps [of g A t] split: val.splits)
  then show ?thesis
  proof cases
    case 1
    then show ?thesis using that [of "[]"] assms
      by (simp add: elemsOf_def goLen_def wire.simps [of g A ow t] elemsWire_def)
  next
    case 2
    then show ?thesis using that [of xs] assms
      by (simp add: maxl_ge elemsOf_def goLen_def wire.simps [of g A ow t] elemsWire_def)
  qed
qed

lemma array_view:
  assumes "wt g A t v" "\<not> isTime t" "underlying t = TArray n e"
  obtains xs where "v = VArr xs" "elemsOf v = Ok xs" "length xs = n"
    "\<And>x. x \<in> set xs \<Longrightarrow> wt g A e x" "\<And>x. x \<in> set xs \<Longrightarrow> sdepth x \<le> sdepth v"
    "wire g A ow t v = elemsWire g A ow e xs"
proof -
  obtain xs where v: "v = VArr xs" "length xs = n" "\<forall>x \<in> set xs. wt g A e x"
    using assms by (auto simp: wt.simps [of g A t] split: val.splits)
  then show ?thesis using that [of xs] assms
    by (simp add: maxl_ge elemsOf_def wire.simps [of g A ow t] elemsWire_def)
qed

lemma pointer_view:
  assumes "wt g A t v" "\<not> isTime t" "underlying t = TPointer e"
  obtains (nil) "v = VPtr None" "wire g A ow t v = [0]"
  | (val) w where "v = VPtr (Some w)" "wt g A e w" "sdepth w = sdepth v"
      "wire g A ow t v = [1] @ wire g A ow e w"
  using assms
  by (auto simp: wt.simps [of g A t] wire.simps [of g A ow t]
      split: val.splits option.splits)

lemma map_view:
  assumes "wt g A t v" "\<not> isTime t" "underlying t = TMap k e"
  obtains kvs where "mapEntries v = Ok kvs" "goLen v = Ok (int (length kvs))"
    "\<And>a b. (a, b) \<in> set kvs \<Longrightarrow> wt g A k a \<and> wt g A e b \<and> sdepth a \<le> sdepth v \<and> sdepth b \<le> sdepth v"
    "wire g A ow t v = lenPrefix (length kvs) @
       concat (map (\<lambda>(a, b). wire g A ow k a @ wire g A ow e b) kvs)"
proof -
  consider "v = VNilMap" | kvs where "v = VMap kvs" "\<forall>(a, b) \<in> set kvs. wt g A k a \<and> wt g A e b"
    using assms by (auto simp: wt.simps [of g A t] split: val.splits)
  then show ?thesis
  proof cases
    case 1
    then show ?thesis using that [of "[]"] assms
      by (simp add: mapEntries_def goLen_def wire.simps [of g A ow t])
  next
    case 2
    have "\<forall>(a, b) \<in> set kvs. sdepth a \<le> sdepth v \<and> sdepth b \<le> sdepth v"
      using maxl_le [of "map (\<lambda>(a, b). max (sdepth a) (sdepth b)) kvs" "sdepth v"] 2 by auto
    then show ?thesis using that [of kvs] assms 2
      by (fastforce simp: mapEntries_def goLen_def wire.simps [of g A ow t])
  qed
qed

lemma iface_view:
  assumes "wt g A t v" "\<not> isTime t" "underlying t = TInterface"
  obtains (nil) "v = VNilIface" "wire g A ow t v = lenPrefix 0"
  | (val) m w k where "v = VIface m (Some w)" "memberTag g t m = Some k"
      "wt g A (TNamed m TStruct) w" "sdepth w = sdepth v"
      "wire g A ow t v = lenPrefix k @ wire g A ow (TNamed m TStruct) w"
  using assms
  by (auto simp: wt.simps [of g A t] wire.simps [of g A ow t]
      split: val.splits option.splits)

lemma supported_struct:
  assumes "supported g t = None" "\<not> isTime t" "underlying t = TStruct"
  obtains n u where "t = TNamed n u" "underlying u = TStruct" "isTarget g n"
proof -
  have "supported g t = (case t of TNamed n _ \<Rightarrow> if isTarget g n then None else Some (NestedNotTarget n)
                         | _ \<Rightarrow> Some AnonymousStruct)"
    using assms(2,3) by (simp add: supported.simps [of g t])
  then show ?thesis using assms that by (cases t) (auto split: if_splits)
qed

lemma word_of_int_nat [simp]: "(word_of_int (int n) :: 'a::len word) = of_nat n"
  by simp

lemma length_lenPrefix: "length (lenPrefix n) = UvarintSize (of_nat n)"
  by (simp add: lenPrefix_def length_uvarint_bytes)

end
