(* ===== verification/Writer.thy ===== *)
theory Writer
  imports Views
begin

text \<open>
  What the three encoding methods have in common: each statement of \<open>Size\<close>, \<open>Marshal\<close> and
  \<open>Append\<close> emits some bytes, by counting them, storing them at the cursor or appending
  them.  The locale \<open>writer\<close> states the laws of such an emission; its lemmas give the
  emission of sequences, blocks, loops and type switches, once for all three methods.
\<close>

subsection \<open>States that agree on what references read\<close>

definition agree :: "st \<Rightarrow> st \<Rightarrow> bool" where
  "agree s s' \<longleftrightarrow> sRecv s' = sRecv s \<and> sVars s' = sVars s"

lemma agree_refl [simp]: "agree s s"
  by (simp add: agree_def)

lemma agree_trans: "agree s s' \<Longrightarrow> agree s' s'' \<Longrightarrow> agree s s''"
  by (simp add: agree_def)

lemma rd_agree: "agree s s' \<Longrightarrow> rd s' r = rd s r"
  by (induction r) (auto simp: agree_def intVar_def)

fun refVars :: "ref \<Rightarrow> var set" where
  "refVars (RField f) = {}"
| "refVars (RVar x) = {x}"
| "refVars (RIdx r j) = insert j (refVars r)"
| "refVars (RDeref r) = refVars r"

lemma bindV_sel [simp]: "sVars (bindV x v s) = (sVars s)(x \<mapsto> v)" "sRecv (bindV x v s) = sRecv s"
  by (simp_all add: bindV_def)

lemma rd_bindV: "x \<notin> refVars r \<Longrightarrow> rd (bindV x v s) r = rd s r"
  by (induction r) (auto simp: intVar_def)

lemma rd_bindV_same [simp]: "rd (bindV x v s) (RVar x) = Ok v"
  by (simp add: bindV_def)

text \<open>Temporaries are numbered; a reference made before the counter reached \<open>n\<close> uses only
  smaller numbers.\<close>

fun varNo :: "var \<Rightarrow> nat" where
  "varNo (VE n) = n" | "varNo (VJ n) = n" | "varNo VV = 0"

definition below :: "ref \<Rightarrow> nat \<Rightarrow> bool" where
  "below r n \<longleftrightarrow> (\<forall>x \<in> refVars r. varNo x \<le> n)"

lemma below_simps [simp]:
  "below (RField f) n" "below (RVar x) n \<longleftrightarrow> varNo x \<le> n"
  "below (RIdx r j) n \<longleftrightarrow> varNo j \<le> n \<and> below r n" "below (RDeref r) n \<longleftrightarrow> below r n"
  by (auto simp: below_def)

lemma below_mono: "below r m \<Longrightarrow> m \<le> n \<Longrightarrow> below r n"
  by (auto simp: below_def)

lemma below_fresh: "below r n \<Longrightarrow> n < varNo x \<Longrightarrow> x \<notin> refVars r"
  by (auto simp: below_def)

lemma recvLoc_addrOf [simp]: "recvLoc (addrOf r) = r"
  by (cases r) (simp_all add: addrOf_def)

lemma execs_append: "execs (a @ b) c M s = fthen (execs a c M s) (execs b c M)"
  by (induction a arbitrary: s) (auto simp: fthen_def split: flow.splits)

lemma idx_elemsOf: "elemsOf v = Ok xs \<Longrightarrow> k < length xs \<Longrightarrow> idx v (int k) = Ok (xs ! k)"
  by (auto simp: elemsOf_def idx_def split: val.splits)

lemma fold_restore: "fold (\<lambda>x m. m(x := f x)) xs m y = (if y \<in> set xs then f y else m y)"
  by (induction xs arbitrary: m) auto

lemma unbindVs_vars:
  "(\<And>x. x \<notin> set xs \<Longrightarrow> sVars s1 x = sVars s x) \<Longrightarrow> unbindVs xs s s1 = s1\<lparr>sVars := sVars s\<rparr>"
  by (auto simp: unbindVs_def fold_restore intro!: arg_cong [where f = "\<lambda>m. s1\<lparr>sVars := m\<rparr>"])

lemma map_of_members:
  "map_of (map (\<lambda>(k, n). (n, h k n)) L) m =
     map_option (\<lambda>k. h k m) (map_of (map (\<lambda>(k, n). (n, k)) L) m)"
  by (induction L) auto

subsection \<open>The laws of emission\<close>

text \<open>\<open>emitting room emits bs s r\<close>: run from \<open>s\<close>, with room for \<open>bs\<close>, the flow \<open>r\<close> goes on
  and has emitted exactly \<open>bs\<close>.\<close>

definition emitting ::
  "(nat \<Rightarrow> st \<Rightarrow> bool) \<Rightarrow> (bytes \<Rightarrow> st \<Rightarrow> st \<Rightarrow> bool) \<Rightarrow> bytes \<Rightarrow> st \<Rightarrow> flow \<Rightarrow> bool" where
  "emitting room emits bs s r \<longleftrightarrow> (room (length bs) s \<longrightarrow> (\<exists>s'. r = Next s' \<and> emits bs s s'))"

text \<open>\<open>exprOK W c M ow d ex t\<close>: the code \<open>ex\<close> emits for type \<open>t\<close> emits the encoding of every
  value of \<open>t\<close>, and numbers its temporaries upwards.\<close>

definition exprOK ::
  "(bytes \<Rightarrow> st \<Rightarrow> flow \<Rightarrow> bool) \<Rightarrow> ctx \<Rightarrow> menv \<Rightarrow> uwire \<Rightarrow> nat
   \<Rightarrow> (ref \<Rightarrow> gotype \<Rightarrow> gstate \<Rightarrow> block \<times> gstate) \<Rightarrow> gotype \<Rightarrow> bool" where
  "exprOK W c M ow d ex t \<longleftrightarrow>
     (\<forall>ref es s v. rd s ref = Ok v \<longrightarrow> wt (cGen c) (cArch c) t v \<longrightarrow> sdepth v \<le> d
        \<longrightarrow> below ref (varCounter es)
        \<longrightarrow> W (wire (cGen c) (cArch c) ow t v) s (execs (fst (ex ref t es)) c M s))
     \<and> (\<forall>ref es. varCounter es \<le> varCounter (snd (ex ref t es)))"

lemma exprOK_I:
  assumes "\<And>ref es s v. rd s ref = Ok v \<Longrightarrow> wt (cGen c) (cArch c) t v \<Longrightarrow> sdepth v \<le> d
      \<Longrightarrow> below ref (varCounter es)
      \<Longrightarrow> W (wire (cGen c) (cArch c) ow t v) s (execs (fst (ex ref t es)) c M s)"
    and "\<And>ref es. varCounter es \<le> varCounter (snd (ex ref t es))"
  shows "exprOK W c M ow d ex t"
  using assms by (simp add: exprOK_def)

lemma exprOK_run:
  "exprOK W c M ow d ex t \<Longrightarrow> rd s ref = Ok v \<Longrightarrow> wt (cGen c) (cArch c) t v \<Longrightarrow> sdepth v \<le> d
     \<Longrightarrow> below ref (varCounter es)
     \<Longrightarrow> W (wire (cGen c) (cArch c) ow t v) s (execs (fst (ex ref t es)) c M s)"
  and exprOK_mono: "exprOK W c M ow d ex t \<Longrightarrow> varCounter es \<le> varCounter (snd (ex ref t es))"
  by (auto simp: exprOK_def)

locale writer =
  fixes room :: "nat \<Rightarrow> st \<Rightarrow> bool" and emits :: "bytes \<Rightarrow> st \<Rightarrow> st \<Rightarrow> bool"
  assumes emits_Nil: "room 0 s \<Longrightarrow> emits [] s s"
    and emits_trans: "emits xs s s1 \<Longrightarrow> emits ys s1 s2 \<Longrightarrow> emits (xs @ ys) s s2"
    and room_less: "room (m + n) s \<Longrightarrow> room m s"
    and room_after: "room (length xs + n) s \<Longrightarrow> emits xs s s1 \<Longrightarrow> room n s1"
    and emits_agree: "emits xs s s1 \<Longrightarrow> agree s s1"
    and emits_vars: "emits xs (s\<lparr>sVars := vs\<rparr>) s1 \<Longrightarrow> emits xs s (s1\<lparr>sVars := sVars s\<rparr>)"
    and room_vars: "room n (s\<lparr>sVars := vs\<rparr>) = room n s"
begin

abbreviation W :: "bytes \<Rightarrow> st \<Rightarrow> flow \<Rightarrow> bool" where
  "W \<equiv> emitting room emits"

lemma W_skip: "W [] s (Next s)"
  by (simp add: emitting_def emits_Nil)

lemma W_seq:
  assumes "W xs s r" and "\<And>s'. agree s s' \<Longrightarrow> W ys s' (f s')"
  shows "W (xs @ ys) s (fthen r f)"
  unfolding emitting_def
proof
  assume room: "room (length (xs @ ys)) s"
  then obtain s1 where s1: "r = Next s1" "emits xs s s1"
    using assms(1) room_less [of "length xs" "length ys" s] by (auto simp: emitting_def)
  then obtain s2 where "f s1 = Next s2" "emits ys s1 s2"
    using assms(2) [of s1] room room_after [of xs "length ys" s s1] emits_agree
    by (auto simp: emitting_def)
  then show "\<exists>s'. fthen r f = Next s' \<and> emits (xs @ ys) s s'"
    using s1 emits_trans by auto
qed

lemma W_execs_Nil: "W [] s (execs [] c M s)"
  by (simp add: W_skip)

lemma W_execs_Cons:
  assumes "W xs s (exec a c M s)" and "\<And>s'. agree s s' \<Longrightarrow> W ys s' (execs b c M s')"
  shows "W (xs @ ys) s (execs (a # b) c M s)"
  using W_seq [OF assms] by simp

lemma W_execs_single: "W xs s (exec a c M s) \<Longrightarrow> W xs s (execs [a] c M s)"
  using W_execs_Cons [of xs s a c M "[]" "[]"] W_execs_Nil by simp

lemma W_execs_append:
  assumes "W xs s (execs a c M s)" and "\<And>s'. agree s s' \<Longrightarrow> W ys s' (execs b c M s')"
  shows "W (xs @ ys) s (execs (a @ b) c M s)"
  using W_seq [OF assms] by (simp add: execs_append)

lemma W_scoped:
  assumes "W bs (s\<lparr>sVars := vs\<rparr>) r" and "\<And>x. x \<notin> set xs \<Longrightarrow> vs x = sVars s x"
  shows "W bs s (scoped xs s r)"
  unfolding emitting_def
proof
  assume "room (length bs) s"
  then obtain s1 where s1: "r = Next s1" "emits bs (s\<lparr>sVars := vs\<rparr>) s1"
    using assms(1) by (auto simp: emitting_def room_vars)
  then have "unbindVs xs s s1 = s1\<lparr>sVars := sVars s\<rparr>"
    using emits_agree [OF s1(2)] assms(2) by (intro unbindVs_vars) (auto simp: agree_def)
  then show "\<exists>s'. scoped xs s r = Next s' \<and> emits bs s s'"
    using s1 emits_vars by (auto simp: scoped_def)
qed

lemma W_block: "W bs s (execs b c M s) \<Longrightarrow> W bs s (inBlock xs (execs b) c M s)"
  unfolding inBlock_def by (rule W_scoped [where vs = "sVars s"]) simp_all

lemma W_iter1:
  "W bs (bindV iv v s) (execs body c M (bindV iv v s))
     \<Longrightarrow> W bs s (iter1 iv (decls body) (execs body) c M v s)"
  unfolding iter1_def bindV_def
  by (rule W_scoped [where vs = "(sVars s)(iv \<mapsto> v)"]) simp_all

lemma W_iter2:
  "W bs (bindV vv b (bindV kv a s)) (execs body c M (bindV vv b (bindV kv a s)))
     \<Longrightarrow> W bs s (iter2 kv vv (decls body) (execs body) c M (a, b) s)"
  unfolding iter2_def bindV_def
  by (rule W_scoped [where vs = "(sVars s)(kv \<mapsto> a, vv \<mapsto> b)"]) simp_all

lemma W_loop:
  assumes "\<And>x s'. x \<in> set L \<Longrightarrow> agree s s' \<Longrightarrow> W (h x) s' (f x s')"
  shows "W (concat (map h L)) s (loopL f L s)"
  using assms
proof (induction L arbitrary: s)
  case (Cons x L)
  then show ?case by (auto intro!: W_seq Cons.IH dest: agree_trans)
qed (simp add: W_skip)

text \<open>Loops over the elements of a slice or array, with the two ways the emitter binds the
  element: by index and by value.\<close>

lemma W_loop_nth:
  assumes "\<And>k s'. k < length xs \<Longrightarrow> agree s s' \<Longrightarrow> W (h (xs ! k)) s' (f (VInt (int k)) s')"
  shows "W (concat (map h xs)) s (loopL f (map (\<lambda>k. VInt (int k)) [0..<length xs]) s)"
proof -
  have m: "loopL f (map p ks) s = loopL (\<lambda>k. f (p k)) ks s" for p :: "nat \<Rightarrow> val" and ks s
    by (induction ks arbitrary: s) (auto simp: fthen_def split: flow.splits)
  have "map h xs = map (\<lambda>k. h (xs ! k)) [0..<length xs]"
    by (metis (no_types, lifting) length_map map_map map_nth o_apply map_cong)
  then show ?thesis using assms by (auto simp: m intro!: W_loop)
qed

lemma W_elem_idx:
  assumes ok: "exprOK W c M ow d ex e" and r: "rd s ref = Ok v" and v: "elemsOf v = Ok xs"
    and k: "k < length xs" and x: "wt (cGen c) (cArch c) e (xs ! k)" "sdepth (xs ! k) \<le> d"
    and b: "below ref (varCounter es)"
    and body: "body = fst (ex (RIdx ref (fst (freshIdx es))) e (snd (freshIdx es)))"
  shows "W (wire (cGen c) (cArch c) ow e (xs ! k)) s
           (iter1 (fst (freshIdx es)) (decls body) (execs body) c M (VInt (int k)) s)"
proof -
  let ?j = "fst (freshIdx es)" and ?es = "snd (freshIdx es)"
  have j: "varNo ?j = Suc (varCounter es)" "varCounter ?es = Suc (varCounter es)"
    by (simp_all add: freshIdx_def Let_def)
  have "rd (bindV ?j (VInt (int k)) s) ref = Ok v"
    using r b j by (simp add: rd_bindV below_fresh)
  then have "rd (bindV ?j (VInt (int k)) s) (RIdx ref ?j) = Ok (xs ! k)"
    using idx_elemsOf [OF v k] by (simp add: intVar_def bindV_def)
  moreover have "below (RIdx ref ?j) (varCounter ?es)"
    using b j by (auto intro: below_mono)
  ultimately show ?thesis
    unfolding body using x by (intro W_iter1 exprOK_run [OF ok])
qed

lemma W_forIdx:
  assumes ok: "exprOK W c M ow d ex e" and r: "rd s ref = Ok v" and v: "elemsOf v = Ok xs"
    and x: "\<And>x. x \<in> set xs \<Longrightarrow> wt (cGen c) (cArch c) e x \<and> sdepth x \<le> d"
    and b: "below ref (varCounter es)"
    and body: "body = fst (ex (RIdx ref (fst (freshIdx es))) e (snd (freshIdx es)))"
  shows "W (concat (map (wire (cGen c) (cArch c) ow e) xs)) s
           (exec (SForIdx (fst (freshIdx es)) ref body) c M s)"
    and "W (concat (map (wire (cGen c) (cArch c) ow e) xs)) s
           (exec (SForN (fst (freshIdx es)) (length xs) body) c M s)"
proof -
  let ?f = "iter1 (fst (freshIdx es)) (decls body) (execs body) c M"
  have l: "W (concat (map (wire (cGen c) (cArch c) ow e) xs)) s
             (loopL ?f (map (\<lambda>k. VInt (int k)) [0..<length xs]) s)"
  proof (rule W_loop_nth)
    fix k s' assume k: "k < length xs" and a: "agree s s'"
    have "xs ! k \<in> set xs" using k by simp
    then show "W (wire (cGen c) (cArch c) ow e (xs ! k)) s' (?f (VInt (int k)) s')"
      using W_elem_idx [OF ok _ v k _ _ b body, of s'] x r rd_agree [OF a] by simp
  qed
  then show "W (concat (map (wire (cGen c) (cArch c) ow e) xs)) s
               (exec (SForIdx (fst (freshIdx es)) ref body) c M s)"
    using r v by (simp add: rangeLen_def Let_def)
  show "W (concat (map (wire (cGen c) (cArch c) ow e) xs)) s
          (exec (SForN (fst (freshIdx es)) (length xs) body) c M s)"
    using l by (simp add: Let_def)
qed

lemma W_forVal:
  assumes ok: "exprOK W c M ow d ex e" and r: "rd s ref = Ok v" and v: "elemsOf v = Ok xs"
    and x: "\<And>x. x \<in> set xs \<Longrightarrow> wt (cGen c) (cArch c) e x \<and> sdepth x \<le> d"
    and body: "body = fst (ex (RVar (fst (freshVar es))) e (snd (freshVar es)))"
  shows "W (concat (map (wire (cGen c) (cArch c) ow e) xs)) s
           (exec (SForVal (fst (freshVar es)) ref body) c M s)"
proof -
  have "W (concat (map (wire (cGen c) (cArch c) ow e) xs)) s
          (loopL (iter1 (fst (freshVar es)) (decls body) (execs body) c M) xs s)"
    using x by (intro W_loop W_iter1) (auto simp: body freshVar_def Let_def intro!: exprOK_run [OF ok])
  then show ?thesis using r v by (simp add: Let_def)
qed

lemma W_forMap:
  assumes okk: "exprOK W c M ow d ex k" and oke: "exprOK W c M ow d ex e"
    and r: "obind (rd s ref) mapEntries = Ok kvs"
    and x: "\<And>a b. (a, b) \<in> set kvs \<Longrightarrow> wt (cGen c) (cArch c) k a \<and> wt (cGen c) (cArch c) e b
              \<and> sdepth a \<le> d \<and> sdepth b \<le> d"
    and vars: "kv = fst (freshVar es)" "vv = fst (freshVar (snd (freshVar es)))"
    and kb: "kb = ex (RVar kv) k (snd (freshVar (snd (freshVar es))))"
    and vb: "vb = ex (RVar vv) e (snd kb)"
    and pre: "\<And>s. execs pre c M s = Next s"
  shows "W (concat (map (\<lambda>(a, b). wire (cGen c) (cArch c) ow k a @ wire (cGen c) (cArch c) ow e b) kvs)) s
           (exec (SForMap kv vv ref (pre @ fst kb @ fst vb)) c M s)"
proof -
  let ?g = "cGen c" and ?A = "cArch c" and ?body = "pre @ fst kb @ fst vb"
  have n: "kv = VE (Suc (varCounter es))" "vv = VE (Suc (Suc (varCounter es)))"
    by (simp_all add: vars freshVar_def Let_def)
  have mono: "varNo vv \<le> varCounter (snd kb)"
    using exprOK_mono [OF okk, of "snd (freshVar (snd (freshVar es)))" "RVar kv"]
    by (simp add: kb n freshVar_def Let_def)
  have it: "W (wire ?g ?A ow k a @ wire ?g ?A ow e b) s'
              (iter2 kv vv (decls ?body) (execs ?body) c M (a, b) s')"
    if m: "(a, b) \<in> set kvs" for a b s'
  proof (rule W_iter2)
    let ?s = "bindV vv b (bindV kv a s')"
    have rk: "rd ?s (RVar kv) = Ok a" and rv: "rd ?s (RVar vv) = Ok b" by (simp_all add: n bindV_def)
    have "W (wire ?g ?A ow k a @ wire ?g ?A ow e b) ?s (execs (fst kb @ fst vb) c M ?s)"
    proof (rule W_execs_append)
      show "W (wire ?g ?A ow k a) ?s (execs (fst kb) c M ?s)"
        unfolding kb using x [OF m] rk by (intro exprOK_run [OF okk]) (simp_all add: n freshVar_def Let_def)
      show "W (wire ?g ?A ow e b) s2 (execs (fst vb) c M s2)" if "agree ?s s2" for s2
        unfolding vb using x [OF m] mono rv [folded rd_agree [OF that]]
        by (intro exprOK_run [OF oke]) simp_all
    qed
    then show "W (wire ?g ?A ow k a @ wire ?g ?A ow e b) ?s (execs ?body c M ?s)"
      by (simp add: execs_append pre)
  qed
  have "W (concat (map (\<lambda>(a, b). wire ?g ?A ow k a @ wire ?g ?A ow e b) kvs)) s
          (loopL (iter2 kv vv (decls ?body) (execs ?body) c M) kvs s)"
    using it by (intro W_loop) auto
  then show ?thesis
    using r by (simp add: Let_def)
qed

text \<open>A type switch runs the case of the dynamic type, with \<open>v\<close> bound to the pointer.\<close>

lemma W_switch:
  assumes r: "rd s ref = Ok (VIface m p)" and k: "memberTag (cGen c) t m = Some k"
    and cases: "cases = map (\<lambda>(k, m). (m, h k m)) (taggedMembers (cGen c) t)"
    and body: "W bs (bindV VV (VPtr p) s) (execs (h k m) c M (bindV VV (VPtr p) s))"
  shows "W bs s (exec (STypeSwitch ref cases nl msg) c M s)"
proof -
  have h: "map_of cases m = Some (h k m)"
    using k by (simp add: cases memberTag_def map_of_members [where h = h])
  have "map_of (map (\<lambda>(n, b). (n, inBlock (decls b) (execs b))) cases) m
          = Some (inBlock (decls (h k m)) (execs (h k m)))"
    using h by (simp add: map_of_map)
  moreover have "W bs s (scoped [VV] s
      (inBlock (decls (h k m)) (execs (h k m)) c M (bindV VV (VPtr p) s)))"
    unfolding bindV_def
    by (rule W_scoped [where vs = "(sVars s)(VV \<mapsto> VPtr p)"])
      (use W_block [OF body [unfolded bindV_def]] in simp_all)
  ultimately show ?thesis using r by (simp add: Let_def)
qed

lemma W_switch_nil:
  assumes "rd s ref = Ok VNilIface" and "W bs s (execs nl c M s)"
  shows "W bs s (exec (STypeSwitch ref cases nl msg) c M s)"
  using assms by (simp add: Let_def W_block)

lemma W_ifNotNil:
  assumes "rd s ref = Ok (VPtr p)"
    and "p = None \<Longrightarrow> W bs s (execs b c M s)" and "p \<noteq> None \<Longrightarrow> W bs s (execs a c M s)"
  shows "W bs s (exec (SIfNotNil ref a b) c M s)"
proof (cases p)
  case None
  then show ?thesis using assms(1) W_block [OF assms(2)] by (simp add: isNilVal_def Let_def)
next
  case (Some w)
  then show ?thesis using assms(1) W_block [OF assms(3)] by (simp add: isNilVal_def Let_def)
qed

lemma W_ifTrue:
  assumes "rd s ref = Ok (VBool t)" and "W bs s (execs (if t then a else b) c M s)"
  shows "W bs s (exec (SIfTrue ref a b) c M s)"
  using assms by (cases t) (auto simp: boolOf_def Let_def intro: W_block)

lemma W_ifNonEmpty:
  assumes "obind (rd s ref) goLen = Ok n"
    and "0 < n \<Longrightarrow> W bs s (execs a c M s)" and "\<not> 0 < n \<Longrightarrow> bs = []"
  shows "W bs s (exec (SIfNonEmpty ref a) c M s)"
  using assms by (cases "0 < n") (auto simp: Let_def intro: W_block W_skip)

end

end
