(* ===== verification/EncContract.thy ===== *)
theory EncContract
  imports Writer
begin

text \<open>
  The contract the encoding methods of a package keep towards each other, and the values of
  the expressions that emitted encoding code uses.
\<close>

subsection \<open>The contract of the called methods\<close>

text \<open>\<open>encOK c ow M d\<close>: on values whose structs nest at most \<open>d\<close> deep, the methods \<open>M\<close>
  of every target size, write and append its encoding.\<close>

definition sizeOK :: "ctx \<Rightarrow> uwire \<Rightarrow> menv \<Rightarrow> tname \<Rightarrow> val \<Rightarrow> bool" where
  "sizeOK c ow M n v \<longleftrightarrow>
     mSize M n v = Ok (int (length (wire (cGen c) (cArch c) ow (TNamed n TStruct) v)))"

definition marshalOK :: "ctx \<Rightarrow> uwire \<Rightarrow> menv \<Rightarrow> tname \<Rightarrow> val \<Rightarrow> bool" where
  "marshalOK c ow M n v \<longleftrightarrow>
     (let w = wire (cGen c) (cArch c) ow (TNamed n TStruct) v in
      \<forall>b. length w \<le> length b \<longrightarrow> mMarshal M n v b = Ok (splice 0 w b, int (length w)))"

definition appendOK :: "ctx \<Rightarrow> uwire \<Rightarrow> menv \<Rightarrow> tname \<Rightarrow> val \<Rightarrow> bool" where
  "appendOK c ow M n v \<longleftrightarrow>
     (\<forall>b. \<exists>b'. mAppend M n v b = Ok b' \<and> extends b (wire (cGen c) (cArch c) ow (TNamed n TStruct) v) b')"

definition encOK :: "ctx \<Rightarrow> uwire \<Rightarrow> menv \<Rightarrow> nat \<Rightarrow> bool" where
  "encOK c ow M d \<longleftrightarrow>
     (\<forall>n v. isTarget (cGen c) n \<longrightarrow> wt (cGen c) (cArch c) (TNamed n TStruct) v \<longrightarrow> sdepth v \<le> d
        \<longrightarrow> sizeOK c ow M n v \<and> marshalOK c ow M n v \<and> appendOK c ow M n v)"

lemma encOK_D:
  assumes "encOK c ow M d" "isTarget (cGen c) n" "wt (cGen c) (cArch c) (TNamed n TStruct) v" "sdepth v \<le> d"
  shows "sizeOK c ow M n v" "marshalOK c ow M n v" "appendOK c ow M n v"
  using assms unfolding encOK_def by blast+

lemma encOK_struct:
  assumes "encOK c ow M d" and "supported (cGen c) t = None" "\<not> isTime t" "underlying t = TStruct"
    and "wt (cGen c) (cArch c) t v" "sdepth v \<le> d"
  obtains n u where "t = TNamed n u" "sizeOK c ow M n v" "marshalOK c ow M n v" "appendOK c ow M n v"
    "wire (cGen c) (cArch c) ow t v = wire (cGen c) (cArch c) ow (TNamed n TStruct) v"
proof -
  obtain n u where n: "t = TNamed n u" "underlying u = TStruct" "isTarget (cGen c) n"
    using supported_struct assms(2-4) by metis
  then show ?thesis
    using encOK_D [OF assms(1) n(3)] assms(5,6) wt_named_struct [OF n(2)] wire_named_struct [OF n(2)]
    by (intro that [of n u]) simp_all
qed

text \<open>A union member is a target, so its methods keep the contract too.\<close>

lemma encOK_member:
  assumes "encOK c ow M d" and "wfGen (cGen c)" and "memberTag (cGen c) t m = Some k"
    and "wt (cGen c) (cArch c) (TNamed m TStruct) w" "sdepth w \<le> d"
  shows "sizeOK c ow M m w" "marshalOK c ow M m w" "appendOK c ow M m w"
  using encOK_D [OF assms(1) memberTag_target(1) [OF assms(2,3)] assms(4,5)] by simp_all

subsection \<open>Values of emitted expressions\<close>

lemma srcEval_str: "rd s r = Ok (VStr p b) \<Longrightarrow> srcEval c M s (SrcStr r) = Ok b"
  by (simp add: srcEval_def S2B_def)

lemma srcEval_bytes:
  "rd s r = Ok v \<Longrightarrow> elemsOf v = Ok xs \<Longrightarrow> srcEval c M s (SrcBytes r) = Ok (bytesOf xs)"
  "rd s r = Ok v \<Longrightarrow> elemsOf v = Ok xs \<Longrightarrow> srcEval c M s (SrcArr r) = Ok (bytesOf xs)"
  by (simp_all add: srcEval_def)

lemma srcEval_mem:
  assumes "rd s r = Ok v" "elemsOf v = Ok xs" "xs \<noteq> []"
    and "ieval c M s n = Ok (int (length m))" "m = concat (map (elemImage (cGen c) (cArch c) e) xs)"
  shows "srcEval c M s (SrcMem e r n) = Ok m"
  using assms by (simp add: srcEval_def Let_def)

lemma ieval_byteCount:
  "ieval c M s e = Ok (int n) \<Longrightarrow> ieval c M s (byteCount k e) = Ok (int (n * k))"
  by (simp add: byteCount_def mult.commute)

text \<open>The lengths of the memory that the fast paths copy.\<close>

lemma fixedSize_elemSize:
  "memCopyable e \<Longrightarrow> (case fixedSize e of Some z \<Rightarrow> z | None \<Rightarrow> 0) = elemSize g A e"
  by (simp add: memCopyable_elemSize [of e g A])

end
