(* ===== verification/EncSize.thy ===== *)
theory EncSize
  imports EncContract
begin

text \<open>
  The \<open>Size\<close> method: the emitted code adds up the length of the encoding.
\<close>

subsection \<open>Size as a writer\<close>

definition sizeRoom :: "nat \<Rightarrow> st \<Rightarrow> bool" where
  "sizeRoom n s = True"

definition sizeEmits :: "bytes \<Rightarrow> st \<Rightarrow> st \<Rightarrow> bool" where
  "sizeEmits bs s s' \<longleftrightarrow> s' = s\<lparr>sS := sS s + int (length bs)\<rparr>"

interpretation szw: writer sizeRoom sizeEmits
  by unfold_locales (auto simp: sizeRoom_def sizeEmits_def agree_def)

lemma size_add:
  "ieval c M s e = Ok (int (length bs)) \<Longrightarrow> szw.W bs s (exec (SAddS e) c M s)"
  by (simp add: emitting_def sizeEmits_def)

lemma size_next [simp]: "szw.W bs s (Next (s\<lparr>sS := sS s + n\<rparr>)) \<longleftrightarrow> n = int (length bs)"
  by (cases s) (auto simp: emitting_def sizeEmits_def sizeRoom_def)

lemma size_add1: "ieval c M s e = Ok (int (length bs)) \<Longrightarrow> szw.W bs s (execs [SAddS e] c M s)"
  by (intro szw.W_execs_single size_add)

lemma ieval_len: "rd s r = Ok v \<Longrightarrow> goLen v = Ok n \<Longrightarrow> ieval c M s (ILen r) = Ok n"
  by simp

lemma ieval_uvarintSize:
  "rd s r = Ok v \<Longrightarrow> goLen v = Ok (int n)
     \<Longrightarrow> ieval c M s (IUvarintSize (ILen r)) = Ok (int (length (lenPrefix n)))"
  by (simp add: length_lenPrefix)

lemma sizeExpr_mono: "varCounter es \<le> varCounter (snd (sizeExpr g ref t es))"
proof (induction t arbitrary: ref es rule: measure_induct_rule [of size])
  case (less t)
  note IH = less.IH [OF underlying_size_less(1)] less.IH [OF underlying_size_less(2)]
    less.IH [OF underlying_size_less(3)] less.IH [OF underlying_size_less(4)] less.IH [OF underlying_size_less(5)]
  show ?case
    using IH(1) [where es = "snd (freshIdx es)"] IH(1) [where es = "snd (freshVar es)"]
      IH(2) [where es = "snd (freshIdx es)"] IH(3)
    by (cases "underlying t")
      (auto simp: sizeExpr.simps [of g ref t es] Let_def split_beta freshIdx_def freshVar_def
        split: option.splits gotype.splits
        intro: order.trans [OF _ order.trans [OF IH(4) IH(5)]] dest: Suc_leD)
qed


text \<open>A value of a basic type: the emitted statement adds the fixed width, or the length
  prefix and the length of a string.\<close>

lemma sizeBasic_ok:
  assumes "rd s ref = Ok v" and "wtBasic A k v" and "supportedBasic k"
  shows "szw.W (wireBasic v) s (execs (sizeBasic ref k) c M s)"
  using assms
  by (cases k; cases v)
    (auto simp: supportedBasic_def wtBasic_def sizeBasic_def wireBasic_def goLen_def length_lenPrefix)

text \<open>One lemma per kind of type.\<close>

lemmas exprOK_size = exprOK_I [OF _ sizeExpr_mono]

lemma size_time: "isTime t \<Longrightarrow> exprOK szw.W c M ow d (sizeExpr (cGen c)) t"
proof (rule exprOK_size)
  fix ref and es :: gstate and s v
  assume "isTime t" and v: "wt (cGen c) (cArch c) t v"
  then obtain sec n l where "wire (cGen c) (cArch c) ow t v = le_bytes 8 (unixNano sec n)"
    using time_view by metis
  then show "szw.W (wire (cGen c) (cArch c) ow t v) s (execs (fst (sizeExpr (cGen c) ref t es)) c M s)"
    using \<open>isTime t\<close> by (simp add: sizeExpr.simps [of "cGen c" ref t es] size_add1)
qed

lemma size_basic:
  assumes "supportedBasic k" "\<not> isTime t" "underlying t = TBasic k"
  shows "exprOK szw.W c M ow d (sizeExpr (cGen c)) t"
proof (rule exprOK_size)
  fix ref and es :: gstate and s v
  assume rd: "rd s ref = Ok v" and v: "wt (cGen c) (cArch c) t v"
  show "szw.W (wire (cGen c) (cArch c) ow t v) s (execs (fst (sizeExpr (cGen c) ref t es)) c M s)"
    using basic_view [OF v assms(2,3)] assms sizeBasic_ok [OF rd]
    by (simp add: sizeExpr.simps [of "cGen c" ref t es])
qed

lemma size_elems:
  assumes ok: "exprOK szw.W c M ow d (sizeExpr (cGen c)) e"
    and t: "\<not> isTime t" "underlying t = TSlice e"
  shows "exprOK szw.W c M ow d (sizeExpr (cGen c)) t"
proof (rule exprOK_size)
  fix ref and es :: gstate and s v
  let ?g = "cGen c" and ?A = "cArch c"
  assume rd: "rd s ref = Ok v" and v: "wt ?g ?A t v" and d: "sdepth v \<le> d"
    and b: "below ref (varCounter es)"
  note ex = sizeExpr.simps [of ?g ref t es]
  obtain xs where
    xs: "elemsOf v = Ok xs" "goLen v = Ok (int (length xs))" and x: "\<And>x. x \<in> set xs \<Longrightarrow> wt ?g ?A e x"
      "\<And>x. x \<in> set xs \<Longrightarrow> sdepth x \<le> sdepth v"
    and w: "wire ?g ?A ow t v = lenPrefix (length xs) @ elemsWire ?g ?A ow e xs"
    using slice_view [OF v t] by metis
  have x': "\<And>x. x \<in> set xs \<Longrightarrow> wt ?g ?A e x \<and> sdepth x \<le> d" using x d by fastforce
  have pre: "szw.W (lenPrefix (length xs)) s (exec (SAddS (IUvarintSize (ILen ref))) c M s)"
    by (intro size_add ieval_uvarintSize [OF rd xs(2)])
  have go: "szw.W (wire ?g ?A ow t v) s (execs [SAddS (IUvarintSize (ILen ref)), a] c M s)"
    if "\<And>s'. rd s' ref = Ok v \<Longrightarrow> szw.W (elemsWire ?g ?A ow e xs) s' (exec a c M s')" for a
    unfolding w using that rd_agree rd by (intro szw.W_execs_Cons [OF pre] szw.W_execs_single) metis
  consider (bytes) "isBytes e" | (fixed) k where "\<not> isBytes e" "fixedSize e = Some k"
    | (blit) "\<not> isBytes e" "fixedSize e = None" "blitElem ?g e"
    | (idx) "\<not> isBytes e" "fixedSize e = None" "\<not> blitElem ?g e" "indexElems e"
    | (val) "\<not> isBytes e" "fixedSize e = None" "\<not> blitElem ?g e" "\<not> indexElems e"
    by fastforce
  then show "szw.W (wire ?g ?A ow t v) s (execs (fst (sizeExpr ?g ref t es)) c M s)"
  proof cases
    case bytes
    then have "length (elemsWire ?g ?A ow e xs) = length xs"
      using elemsWire_bytes x(1) by (simp add: bytesOf_def)
    then show ?thesis using bytes t xs by (simp add: ex del: execs.simps) (intro go size_add, simp)
  next
    case fixed
    then show ?thesis using t xs length_elemsWire_fixed [OF fixed(2) x(1)]
      by (simp add: ex del: execs.simps) (intro go size_add, simp add: mult.commute)
  next
    case blit
    then show ?thesis using t xs elemsWire_mem(2) [OF _ x(1)]
      by (simp add: ex del: execs.simps) (intro go size_add, simp add: mult.commute)
  next
    case idx
    then show ?thesis using t elemsWire_loop' [OF idx(2)] szw.W_forIdx(1) [OF ok _ xs(1) x' b refl]
      by (simp add: ex Let_def split_beta del: execs.simps exec.simps) (intro go, simp)
  next
    case val
    then show ?thesis using t elemsWire_loop' [OF val(2)] szw.W_forVal [OF ok _ xs(1) x' refl]
      by (simp add: ex Let_def split_beta del: execs.simps exec.simps) (intro go, simp)
  qed
qed

lemma size_array:
  assumes ok: "exprOK szw.W c M ow d (sizeExpr (cGen c)) e"
    and t: "\<not> isTime t" "underlying t = TArray n e"
  shows "exprOK szw.W c M ow d (sizeExpr (cGen c)) t"
proof (rule exprOK_size)
  fix ref and es :: gstate and s v
  let ?g = "cGen c" and ?A = "cArch c"
  assume rd: "rd s ref = Ok v" and v: "wt ?g ?A t v" and d: "sdepth v \<le> d"
    and b: "below ref (varCounter es)"
  note ex = sizeExpr.simps [of ?g ref t es]
  obtain xs where xs: "elemsOf v = Ok xs" "length xs = n" and x: "\<And>x. x \<in> set xs \<Longrightarrow> wt ?g ?A e x"
      "\<And>x. x \<in> set xs \<Longrightarrow> sdepth x \<le> sdepth v"
    and w: "wire ?g ?A ow t v = elemsWire ?g ?A ow e xs"
    using array_view [OF v t] by metis
  have x': "\<And>x. x \<in> set xs \<Longrightarrow> wt ?g ?A e x \<and> sdepth x \<le> d" using x d by fastforce
  consider (fixed) k where "fixedSize e = Some k" | (blit) "fixedSize e = None" "blitElem ?g e"
    | (idx) "fixedSize e = None" "\<not> blitElem ?g e"
    by fastforce
  then show "szw.W (wire ?g ?A ow t v) s (execs (fst (sizeExpr ?g ref t es)) c M s)"
  proof cases
    case fixed
    then show ?thesis using t xs length_elemsWire_fixed [OF fixed x(1)] by (simp add: ex w)
  next
    case blit
    then show ?thesis using t xs elemsWire_mem(2) [OF _ x(1)] by (simp add: ex w)
  next
    case idx
    have "szw.W (wire ?g ?A ow t v) s (exec (SForN (fst (freshIdx es)) n
            (fst (sizeExpr ?g (RIdx ref (fst (freshIdx es))) e (snd (freshIdx es))))) c M s)"
      using szw.W_forIdx(2) [OF ok rd xs(1) x' b refl] elemsWire_loop' [OF idx(1)] xs(2) w by simp
    then show ?thesis using idx t
      by (simp add: ex Let_def split_beta szw.W_execs_single del: execs.simps exec.simps)
  qed
qed

lemma size_pointer:
  assumes ok: "exprOK szw.W c M ow d (sizeExpr (cGen c)) e"
    and t: "\<not> isTime t" "underlying t = TPointer e"
  shows "exprOK szw.W c M ow d (sizeExpr (cGen c)) t"
proof (rule exprOK_size)
  fix ref and es :: gstate and s v
  let ?g = "cGen c" and ?A = "cArch c"
  assume rd: "rd s ref = Ok v" and v: "wt ?g ?A t v" and d: "sdepth v \<le> d"
    and b: "below ref (varCounter es)"
  let ?body = "fst (sizeExpr ?g (RDeref ref) e es)"
  have code: "fst (sizeExpr ?g ref t es) = [SAddS (INum 1), SIfNotNil ref ?body []]"
    using t by (simp add: sizeExpr.simps [of ?g ref t es] split_beta)
  show "szw.W (wire ?g ?A ow t v) s (execs (fst (sizeExpr ?g ref t es)) c M s)"
    using v t
  proof (cases rule: pointer_view [where ow = ow])
    case nil
    have "szw.W ([0] @ []) s (execs (fst (sizeExpr ?g ref t es)) c M s)"
      unfolding code
      by (intro szw.W_execs_Cons size_add szw.W_execs_single szw.W_ifNotNil [where p = None])
        (use rd nil in \<open>auto simp: rd_agree szw.W_skip\<close>)
    then show ?thesis using nil by simp
  next
    case (val w)
    have "szw.W (wire ?g ?A ow e w) s' (execs ?body c M s')" if "agree s s'" for s'
      using val d b rd rd_agree [OF that] by (intro exprOK_run [OF ok]) (simp_all add: deref_def)
    then have "szw.W ([1] @ wire ?g ?A ow e w) s (execs (fst (sizeExpr ?g ref t es)) c M s)"
      unfolding code
      by (intro szw.W_execs_Cons size_add szw.W_execs_single szw.W_ifNotNil [where p = "Some w"])
        (use rd val in \<open>auto simp: rd_agree\<close>)
    then show ?thesis using val by simp
  qed
qed

lemma size_map:
  assumes okk: "exprOK szw.W c M ow d (sizeExpr (cGen c)) k"
    and oke: "exprOK szw.W c M ow d (sizeExpr (cGen c)) e"
    and t: "\<not> isTime t" "underlying t = TMap k e"
  shows "exprOK szw.W c M ow d (sizeExpr (cGen c)) t"
proof (rule exprOK_size)
  fix ref and es :: gstate and s v
  let ?g = "cGen c" and ?A = "cArch c"
  assume rd: "rd s ref = Ok v" and v: "wt ?g ?A t v" and d: "sdepth v \<le> d"
  obtain kvs where kvs: "mapEntries v = Ok kvs" "goLen v = Ok (int (length kvs))"
    and x: "\<And>a b. (a, b) \<in> set kvs \<Longrightarrow> wt ?g ?A k a \<and> wt ?g ?A e b \<and> sdepth a \<le> sdepth v \<and> sdepth b \<le> sdepth v"
    and w: "wire ?g ?A ow t v = lenPrefix (length kvs) @
       concat (map (\<lambda>(a, b). wire ?g ?A ow k a @ wire ?g ?A ow e b) kvs)"
    using map_view [OF v t] by metis
  have x': "\<And>a b. (a, b) \<in> set kvs \<Longrightarrow> wt ?g ?A k a \<and> wt ?g ?A e b \<and> sdepth a \<le> d \<and> sdepth b \<le> d"
    using x d by fastforce
  have pre: "szw.W (lenPrefix (length kvs)) s (exec (SAddS (IUvarintSize (ILen ref))) c M s)"
    by (intro size_add ieval_uvarintSize [OF rd kvs(2)])
  have rd': "obind (rd s' ref) mapEntries = Ok kvs" if "agree s s'" for s'
    using rd kvs rd_agree [OF that] by simp
  show "szw.W (wire ?g ?A ow t v) s (execs (fst (sizeExpr ?g ref t es)) c M s)"
    using t szw.W_forMap [OF okk oke rd' x' refl refl refl refl, of _ "[SUse (fst (freshVar es)),
        SUse (fst (freshVar (snd (freshVar es))))]" es]
    by (simp add: sizeExpr.simps [of ?g ref t es] Let_def split_beta w del: execs.simps exec.simps)
      (intro szw.W_execs_Cons [OF pre] szw.W_execs_single, simp)
qed

lemma size_struct:
  assumes M: "encOK c ow M d" and sup: "supported (cGen c) t = None"
    and t: "\<not> isTime t" "underlying t = TStruct"
  shows "exprOK szw.W c M ow d (sizeExpr (cGen c)) t"
proof (rule exprOK_size)
  fix ref and es :: gstate and s v
  assume rd: "rd s ref = Ok v" and v: "wt (cGen c) (cArch c) t v" "sdepth v \<le> d"
  obtain n u where n: "t = TNamed n u" and ok: "sizeOK c ow M n v"
    "wire (cGen c) (cArch c) ow t v = wire (cGen c) (cArch c) ow (TNamed n TStruct) v"
    using encOK_struct [OF M sup t v] by metis
  have "fst (sizeExpr (cGen c) ref t es) = [SAddS (ISize (addrOf ref) n)]"
    using t unfolding n by (simp add: sizeExpr.simps [of "cGen c" ref "TNamed n u" es])
  then show "szw.W (wire (cGen c) (cArch c) ow t v) s (execs (fst (sizeExpr (cGen c) ref t es)) c M s)"
    using ok rd by (simp add: sizeOK_def)
qed

lemma size_iface:
  assumes wf: "wfGen (cGen c)" and M: "encOK c ow M d"
    and t: "\<not> isTime t" "underlying t = TInterface"
  shows "exprOK szw.W c M ow d (sizeExpr (cGen c)) t"
proof (rule exprOK_size)
  fix ref and es :: gstate and s v
  let ?g = "cGen c" and ?A = "cArch c"
  assume rd: "rd s ref = Ok v" and v: "wt ?g ?A t v" and d: "sdepth v \<le> d"
  let ?h = "\<lambda>k m. [SAddS (IAdd (INum (uvarintLen (of_nat k))) (ISize (RecvPtr (RVar VV)) m))]"
  have code: "fst (sizeExpr ?g ref t es) =
    [STypeSwitch ref (map (\<lambda>(k, m). (m, ?h k m)) (taggedMembers ?g t)) [SAddS (INum (uvarintLen 0))]
       (unionPanic t)]"
    using t by (simp add: sizeExpr.simps [of ?g ref t es])
  show "szw.W (wire ?g ?A ow t v) s (execs (fst (sizeExpr ?g ref t es)) c M s)"
    using v t
  proof (cases rule: iface_view [where ow = ow])
    case nil
    then show ?thesis unfolding code
      by (intro szw.W_execs_single szw.W_switch_nil)
        (use rd in \<open>simp_all add: length_lenPrefix uvarintLen_UvarintSize\<close>)
  next
    case (val m w k)
    have "sizeOK c ow M m w" using encOK_member [OF M wf val(2,3)] val(4) d by simp
    then have "szw.W (wire ?g ?A ow t v) (bindV VV (VPtr (Some w)) s)
        (execs (?h k m) c M (bindV VV (VPtr (Some w)) s))"
      using val(5) by (simp add: deref_def sizeOK_def length_lenPrefix uvarintLen_UvarintSize)
    then show ?thesis unfolding code
      by (rule szw.W_execs_single [OF szw.W_switch [OF rd [unfolded val(1)] val(2) refl]])
  qed
qed

theorem sizeExpr_ok:
  assumes wf: "wfGen (cGen c)" and M: "encOK c ow M d"
  shows "supported (cGen c) t = None \<Longrightarrow> exprOK szw.W c M ow d (sizeExpr (cGen c)) t"
proof (induction t rule: measure_induct_rule [of size])
  case (less t)
  show ?case
  proof (cases "isTime t")
    case False
    note u = underlying_size_less supported.simps [of "cGen c" t]
    show ?thesis
    proof (cases "underlying t")
      case (TBasic k)
      then show ?thesis using less.prems False size_basic by (simp add: u split: if_splits)
    next
      case (TSlice e)
      then show ?thesis using less.prems False by (intro size_elems [OF less.IH]) (auto simp: u)
    next
      case (TArray n e)
      then show ?thesis using less.prems False by (intro size_array [OF less.IH]) (auto simp: u)
    next
      case (TPointer e)
      then show ?thesis using less.prems False by (intro size_pointer [OF less.IH]) (auto simp: u)
    next
      case (TMap k e)
      then show ?thesis using less.prems False
        by (intro size_map [OF less.IH less.IH]) (auto simp: u split: option.splits)
    next
      case TStruct
      then show ?thesis using less.prems False size_struct [OF M] by simp
    next
      case TInterface
      then show ?thesis using less.prems False size_iface [OF wf M] by simp
    qed (use less.prems False in \<open>simp_all add: u\<close>)
  qed (rule size_time)
qed

end
