(* ===== verification/Encoder.thy ===== *)
theory Encoder
  imports EncContract
begin

text \<open>
  \<open>Marshal\<close> and \<open>Append\<close> are emitted by two functions of the same shape that differ in the
  statements which store one item.  Here is that shape, over the store statements as a
  parameter, and its correctness under the laws of the locale \<open>encoder\<close>, which extends
  \<open>writer\<close> by one law per store statement.
\<close>

subsection \<open>The common shape\<close>

record atoms =
  aBool :: "ref \<Rightarrow> block"
  aByte :: "bexp \<Rightarrow> block"
  a16 :: "wexp \<Rightarrow> block"
  a32 :: "wexp \<Rightarrow> block"
  a64 :: "wexp \<Rightarrow> block"
  aUv :: "iexp \<Rightarrow> block"
  aSrc :: "bsrc \<Rightarrow> block"
  aCall :: "recv \<Rightarrow> tname \<Rightarrow> block"

definition encBasic :: "atoms \<Rightarrow> ref \<Rightarrow> bkind \<Rightarrow> block" where
  "encBasic a ref k = (case k of
     KBool \<Rightarrow> aBool a ref
   | KUint8 \<Rightarrow> aByte a (BConv ref) | KInt8 \<Rightarrow> aByte a (BConv ref)
   | KUint16 \<Rightarrow> a16 a (WConv ref) | KInt16 \<Rightarrow> a16 a (WConv ref)
   | KUint32 \<Rightarrow> a32 a (WConv ref) | KInt32 \<Rightarrow> a32 a (WConv ref) | KFloat32 \<Rightarrow> a32 a (WF32bits ref)
   | KUint64 \<Rightarrow> a64 a (WConv ref) | KUint \<Rightarrow> a64 a (WConv ref)
   | KInt64 \<Rightarrow> a64 a (WConv ref) | KInt \<Rightarrow> a64 a (WConv ref) | KFloat64 \<Rightarrow> a64 a (WF64bits ref)
   | KString \<Rightarrow> aUv a (ILen ref) @ aSrc a (SrcStr ref)
   | _ \<Rightarrow> [])"

text \<open>Slices and arrays, given the code for one element.\<close>

definition encSlice ::
  "atoms \<Rightarrow> generator \<Rightarrow> ref \<Rightarrow> gotype \<Rightarrow> (ref \<Rightarrow> gotype \<Rightarrow> gstate \<Rightarrow> block \<times> gstate) \<Rightarrow> gstate \<Rightarrow> block" where
  "encSlice a g ref e ex s =
     aUv a (ILen ref) @
     (if isBytes e then aSrc a (SrcBytes ref)
      else if \<not> safe g \<and> memCopyable e
      then [SIfNonEmpty ref (aSrc a (SrcMem e ref
              (byteCount (case fixedSize e of Some z \<Rightarrow> z | None \<Rightarrow> 0) (ILen ref))))]
      else if blitElem g e
      then [SIfNonEmpty ref (aSrc a (SrcMem e ref (IMul (ISizeofElem e ref) (ILen ref))))]
      else if indexElems e
      then [SForIdx (fst (freshIdx s)) ref
              (fst (ex (RIdx ref (fst (freshIdx s))) e (snd (freshIdx s))))]
      else [SForVal (fst (freshVar s)) ref
              (fst (ex (RVar (fst (freshVar s))) e (snd (freshVar s))))])"

definition encArray ::
  "atoms \<Rightarrow> generator \<Rightarrow> ref \<Rightarrow> gotype \<Rightarrow> nat \<Rightarrow> gotype
   \<Rightarrow> (ref \<Rightarrow> gotype \<Rightarrow> gstate \<Rightarrow> block \<times> gstate) \<Rightarrow> gstate \<Rightarrow> block" where
  "encArray a g ref t n e ex s =
     (if isByteArray e then aSrc a (SrcArr ref)
      else if \<not> safe g \<and> n > 0 \<and> memCopyable e
      then aSrc a (SrcMem e ref (INum (n * (case fixedSize e of Some z \<Rightarrow> z | None \<Rightarrow> 0))))
      else if n > 0 \<and> blitElem g e then aSrc a (SrcMem e ref (ISizeof t ref))
      else [SForN (fst (freshIdx s)) n
              (fst (ex (RIdx ref (fst (freshIdx s))) e (snd (freshIdx s))))])"

definition encMap ::
  "atoms \<Rightarrow> ref \<Rightarrow> gotype \<Rightarrow> gotype \<Rightarrow> (ref \<Rightarrow> gotype \<Rightarrow> gstate \<Rightarrow> block \<times> gstate) \<Rightarrow> gstate \<Rightarrow> block"
where
  "encMap a ref k e ex s =
     (let kv = fst (freshVar s); vv = fst (freshVar (snd (freshVar s)));
          kb = ex (RVar kv) k (snd (freshVar (snd (freshVar s))));
          vb = ex (RVar vv) e (snd kb)
      in aUv a (ILen ref) @ [SForMap kv vv ref (fst kb @ fst vb)])"

definition encUnion :: "atoms \<Rightarrow> generator \<Rightarrow> ref \<Rightarrow> gotype \<Rightarrow> block" where
  "encUnion a g ref t =
     [STypeSwitch ref
        (map (\<lambda>(k, m). (m, aUv a (INum k) @ aCall a (RecvPtr (RVar VV)) m)) (taggedMembers g t))
        (aUv a (INum 0)) (unionPanic t)]"

text \<open>An emission function has the shape when it satisfies these equations.\<close>

definition encShapeAt ::
  "atoms \<Rightarrow> generator \<Rightarrow> (ref \<Rightarrow> gotype \<Rightarrow> gstate \<Rightarrow> block \<times> gstate) \<Rightarrow> ref \<Rightarrow> gotype \<Rightarrow> gstate \<Rightarrow> bool"
where
  "encShapeAt a g ex ref t s \<longleftrightarrow>
     varCounter s \<le> varCounter (snd (ex ref t s))
     \<and> (isTime t \<longrightarrow> fst (ex ref t s) = a64 a (WUnixNano ref))
     \<and> (\<not> isTime t \<longrightarrow> (case underlying t of
          TBasic k \<Rightarrow> fst (ex ref t s) = encBasic a ref k
        | TSlice e \<Rightarrow> fst (ex ref t s) = encSlice a g ref e ex s
        | TArray n e \<Rightarrow> fst (ex ref t s) = encArray a g ref t n e ex s
        | TPointer e \<Rightarrow> fst (ex ref t s) =
            [SIfNotNil ref (aByte a (BNum 1) @ fst (ex (RDeref ref) e s)) (aByte a (BNum 0))]
        | TMap k e \<Rightarrow> fst (ex ref t s) = encMap a ref k e ex s
        | TStruct \<Rightarrow> (\<forall>n u. t = TNamed n u \<longrightarrow> fst (ex ref t s) = aCall a (addrOf ref) n)
        | TInterface \<Rightarrow> fst (ex ref t s) = encUnion a g ref t
        | _ \<Rightarrow> True))"

definition encShape :: "atoms \<Rightarrow> generator \<Rightarrow> (ref \<Rightarrow> gotype \<Rightarrow> gstate \<Rightarrow> block \<times> gstate) \<Rightarrow> bool" where
  "encShape a g ex \<longleftrightarrow> (\<forall>ref t s. encShapeAt a g ex ref t s)"

lemma encShape_at: "encShape a g ex \<Longrightarrow> encShapeAt a g ex ref t s"
  by (simp add: encShape_def)

lemmas encShape_D = encShape_at [unfolded encShapeAt_def]

subsection \<open>The laws of the store statements\<close>

locale encoder = writer room emits
  for room :: "nat \<Rightarrow> st \<Rightarrow> bool" and emits :: "bytes \<Rightarrow> st \<Rightarrow> st \<Rightarrow> bool" +
  fixes a :: atoms and callOK :: "ctx \<Rightarrow> uwire \<Rightarrow> menv \<Rightarrow> tname \<Rightarrow> val \<Rightarrow> bool"
  assumes put_bool: "rd s r = Ok (VBool t) \<Longrightarrow>
      emitting room emits [if t then 1 else 0] s (execs (aBool a r) c M s)"
    and put_byte: "beval s b = Ok w \<Longrightarrow> emitting room emits [w] s (execs (aByte a b) c M s)"
    and put_16: "weval16 s x = Ok w16 \<Longrightarrow> emitting room emits (le_bytes 2 w16) s (execs (a16 a x) c M s)"
    and put_32: "weval32 s x = Ok w32 \<Longrightarrow> emitting room emits (le_bytes 4 w32) s (execs (a32 a x) c M s)"
    and put_64: "weval64 s x = Ok w64 \<Longrightarrow> emitting room emits (le_bytes 8 w64) s (execs (a64 a x) c M s)"
    and put_uvarint: "ieval c M s i = Ok (int n) \<Longrightarrow>
      emitting room emits (lenPrefix n) s (execs (aUv a i) c M s)"
    and put_src: "srcEval c M s q = Ok bs \<Longrightarrow> emitting room emits bs s (execs (aSrc a q) c M s)"
    and put_call: "rd s (recvLoc rc) = Ok v \<Longrightarrow> callOK c ow M m v \<Longrightarrow>
      emitting room emits (wire (cGen c) (cArch c) ow (TNamed m TStruct) v) s (execs (aCall a rc m) c M s)"
    and contract: "encOK c ow M d \<Longrightarrow> isTarget (cGen c) m
      \<Longrightarrow> wt (cGen c) (cArch c) (TNamed m TStruct) v \<Longrightarrow> sdepth v \<le> d \<Longrightarrow> callOK c ow M m v"
begin

lemma shape_I:
  assumes "encShape a (cGen c) ex"
    and "\<And>ref es s v. rd s ref = Ok v \<Longrightarrow> wt (cGen c) (cArch c) t v \<Longrightarrow> sdepth v \<le> d
      \<Longrightarrow> below ref (varCounter es)
      \<Longrightarrow> W (wire (cGen c) (cArch c) ow t v) s (execs (fst (ex ref t es)) c M s)"
  shows "exprOK W c M ow d ex t"
  using assms by (intro exprOK_I) (auto dest: encShape_D)

lemma enc_basic:
  assumes "rd s ref = Ok v" "wtBasic A k v" "supportedBasic k"
  shows "W (wireBasic v) s (execs (encBasic a ref k) c M s)"
proof (cases "k = KString")
  case True
  then obtain p b where v: "v = VStr p b" using assms(2) by (auto simp: wtBasic_def split: val.splits)
  have "W (lenPrefix (length b) @ b) s (execs (aUv a (ILen ref) @ aSrc a (SrcStr ref)) c M s)"
    using assms(1) v
    by (intro W_execs_append put_uvarint put_src srcEval_str) (simp_all add: goLen_def rd_agree)
  then show ?thesis using True v by (simp add: encBasic_def wireBasic_def)
next
  case False
  then show ?thesis using assms
    by (cases k; cases v)
      (auto simp: wtBasic_def supportedBasic_def encBasic_def wireBasic_def weval16_def weval32_def
        weval64_def word16_def word32_def word64_def beval_def F32bits_def F64bits_def
        intro!: put_bool [where t = True, simplified] put_bool [where t = False, simplified] put_byte put_16 put_32 put_64)
qed

lemma enc_mem:
  assumes rd: "rd s ref = Ok v" and xs: "elemsOf v = Ok xs" "xs \<noteq> []"
    and x: "\<And>x. x \<in> set xs \<Longrightarrow> wt (cGen c) (cArch c) e x"
    and fast: "(\<not> safe (cGen c) \<and> memCopyable e) \<or> blitElem (cGen c) e"
    and n: "ieval c M s q = Ok (int (length xs * elemSize (cGen c) (cArch c) e))"
  shows "W (elemsWire (cGen c) (cArch c) ow e xs) s (execs (aSrc a (SrcMem e ref q)) c M s)"
  unfolding elemsWire_mem(1) [OF fast x]
  using elemsWire_mem [OF fast x, where ow = ow] n
  by (intro put_src srcEval_mem [OF rd xs]) simp_all

lemma enc_elems_cases:
  assumes "\<not> isBytes e"
  obtains (copy) "\<not> safe g" "memCopyable e" | (blit) "\<not> (\<not> safe g \<and> memCopyable e)" "blitElem g e"
    | (idx) "\<not> (\<not> safe g \<and> memCopyable e)" "\<not> blitElem g e" "indexElems e"
    | (val) "\<not> (\<not> safe g \<and> memCopyable e)" "\<not> blitElem g e" "\<not> indexElems e"
  by blast

lemma enc_slice:
  assumes shape: "encShape a (cGen c) ex" and ok: "exprOK W c M ow d ex e"
    and t: "\<not> isTime t" "underlying t = TSlice e"
  shows "exprOK W c M ow d ex t"
proof (rule shape_I [OF shape])
  fix ref and es :: gstate and s v
  let ?g = "cGen c" and ?A = "cArch c"
  assume rd: "rd s ref = Ok v" and v: "wt ?g ?A t v" and d: "sdepth v \<le> d"
    and b: "below ref (varCounter es)"
  obtain xs where
    xs: "elemsOf v = Ok xs" "goLen v = Ok (int (length xs))" and x: "\<And>x. x \<in> set xs \<Longrightarrow> wt ?g ?A e x"
      "\<And>x. x \<in> set xs \<Longrightarrow> sdepth x \<le> sdepth v"
    and w: "wire ?g ?A ow t v = lenPrefix (length xs) @ elemsWire ?g ?A ow e xs"
    using slice_view [OF v t] by metis
  have x': "\<And>x. x \<in> set xs \<Longrightarrow> wt ?g ?A e x \<and> sdepth x \<le> d" using x d by fastforce
  have code: "fst (ex ref t es) = encSlice a ?g ref e ex es" using encShape_D [OF shape, where ref = ref and t = t and s = es] t by simp
  have go: "W (wire ?g ?A ow t v) s (execs (aUv a (ILen ref) @ b) c M s)"
    if "\<And>s'. rd s' ref = Ok v \<Longrightarrow> W (elemsWire ?g ?A ow e xs) s' (execs b c M s')" for b
    unfolding w using that rd_agree rd xs
    by (intro W_execs_append put_uvarint) (simp, metis)
  have mem: "W (elemsWire ?g ?A ow e xs) s' (execs [SIfNonEmpty ref (aSrc a (SrcMem e ref q))] c M s')"
    if f: "(\<not> safe ?g \<and> memCopyable e) \<or> blitElem ?g e" and r: "rd s' ref = Ok v"
      and q: "ieval c M s' q = Ok (int (length xs * elemSize ?g ?A e))" for q s'
  proof (intro W_execs_single W_ifNonEmpty)
    show "obind (rd s' ref) goLen = Ok (int (length xs))" using r xs by simp
    show "W (elemsWire ?g ?A ow e xs) s' (execs (aSrc a (SrcMem e ref q)) c M s')" if "0 < int (length xs)"
      using that by (intro enc_mem [OF r xs(1) _ x(1) f q]) auto
  qed (simp add: elemsWire_def)
  show "W (wire ?g ?A ow t v) s (execs (fst (ex ref t es)) c M s)"
  proof (cases "isBytes e")
    case True
    then show ?thesis unfolding code encSlice_def
      using go [of "aSrc a (SrcBytes ref)"] xs elemsWire_bytes [OF True x(1)] srcEval_bytes(1)
      by (simp add: put_src)
  next
    case nb: False
    then show ?thesis
    proof (cases rule: enc_elems_cases [where g = ?g])
      case copy
      then show ?thesis unfolding code encSlice_def
        using nb xs copy fixedSize_elemSize [OF copy(2), of ?g ?A]
        by (auto simp del: of_nat_mult intro!: go mem ieval_byteCount)
    next
      case blit
      then show ?thesis unfolding code encSlice_def
        using nb xs by (auto simp: mult.commute intro!: go mem)
    next
      case idx
      then show ?thesis unfolding code encSlice_def
        using nb elemsWire_loop [OF idx(1)] W_forIdx(1) [OF ok _ xs(1) x' b refl]
        by (auto simp del: exec.simps execs.simps intro!: go W_execs_single)
    next
      case val
      then show ?thesis unfolding code encSlice_def
        using nb elemsWire_loop [OF val(1)] W_forVal [OF ok _ xs(1) x' refl]
        by (auto simp del: exec.simps execs.simps intro!: go W_execs_single)
    qed
  qed
qed

lemma enc_array:
  assumes shape: "encShape a (cGen c) ex" and ok: "exprOK W c M ow d ex e"
    and t: "\<not> isTime t" "underlying t = TArray n e"
  shows "exprOK W c M ow d ex t"
proof (rule shape_I [OF shape])
  fix ref and es :: gstate and s v
  let ?g = "cGen c" and ?A = "cArch c"
  assume rd: "rd s ref = Ok v" and v: "wt ?g ?A t v" and d: "sdepth v \<le> d"
    and b: "below ref (varCounter es)"
  obtain xs where xs: "elemsOf v = Ok xs" "length xs = n" and x: "\<And>x. x \<in> set xs \<Longrightarrow> wt ?g ?A e x"
      "\<And>x. x \<in> set xs \<Longrightarrow> sdepth x \<le> sdepth v"
    and w: "wire ?g ?A ow t v = elemsWire ?g ?A ow e xs"
    using array_view [OF v t] by metis
  have x': "\<And>x. x \<in> set xs \<Longrightarrow> wt ?g ?A e x \<and> sdepth x \<le> d" using x d by fastforce
  have code: "fst (ex ref t es) = encArray a ?g ref t n e ex es" using encShape_D [OF shape, where ref = ref and t = t and s = es] t by simp
  have fast: "W (wire ?g ?A ow t v) s (execs (fst (ex ref t es)) c M s)"
    if "0 < n" "(\<not> safe ?g \<and> memCopyable e) \<or> blitElem ?g e"
      "encArray a ?g ref t n e ex es = aSrc a (SrcMem e ref q)"
      "ieval c M s q = Ok (int (n * elemSize ?g ?A e))" for q
    unfolding code w that(3) using that(1,4) xs by (intro enc_mem [OF rd xs(1) _ x(1) that(2)]) auto
  consider (bytes) "isByteArray e" | (copy) "\<not> isByteArray e" "0 < n" "\<not> safe ?g" "memCopyable e"
    | (blit) "\<not> isByteArray e" "0 < n" "\<not> (\<not> safe ?g \<and> memCopyable e)" "blitElem ?g e"
    | (loop) "\<not> isByteArray e" "n = 0 \<or> \<not> (\<not> safe ?g \<and> memCopyable e)" "n = 0 \<or> \<not> blitElem ?g e"
    by blast
  then show "W (wire ?g ?A ow t v) s (execs (fst (ex ref t es)) c M s)"
  proof cases
    case bytes
    then have "elemsWire ?g ?A ow e xs = bytesOf xs"
      using x(1) by (intro elemsWire_bytes) (auto simp: isBytes_def isByteArray_def)
    then show ?thesis unfolding code encArray_def
      using bytes w srcEval_bytes(2) [OF rd xs(1)] by (simp add: put_src)
  next
    case copy
    then show ?thesis using fixedSize_elemSize [OF copy(4), of ?g ?A]
      by (intro fast [where q = "INum (n * elemSize ?g ?A e)"]) (auto simp: encArray_def)
  next
    case blit
    then show ?thesis using t by (intro fast [where q = "ISizeof t ref"]) (auto simp: encArray_def)
  next
    case loop
    then have "elemsWire ?g ?A ow e xs = concat (map (wire ?g ?A ow e) xs)"
      using elemsWire_loop [of ?g e ?A ow xs] xs by (cases "n = 0") (auto simp: elemsWire_def)
    moreover have "encArray a ?g ref t n e ex es = [SForN (fst (freshIdx es)) n
              (fst (ex (RIdx ref (fst (freshIdx es))) e (snd (freshIdx es))))]"
      using loop by (auto simp: encArray_def)
    ultimately show ?thesis unfolding code w
      using W_forIdx(2) [OF ok rd xs(1) x' b refl] xs(2)
      by (simp add: W_execs_single del: exec.simps execs.simps)
  qed
qed

lemma enc_pointer:
  assumes shape: "encShape a (cGen c) ex" and ok: "exprOK W c M ow d ex e"
    and t: "\<not> isTime t" "underlying t = TPointer e"
  shows "exprOK W c M ow d ex t"
proof (rule shape_I [OF shape])
  fix ref and es :: gstate and s v
  let ?g = "cGen c" and ?A = "cArch c"
  assume rd: "rd s ref = Ok v" and v: "wt ?g ?A t v" and d: "sdepth v \<le> d"
    and b: "below ref (varCounter es)"
  let ?body = "fst (ex (RDeref ref) e es)"
  have code: "fst (ex ref t es) = [SIfNotNil ref (aByte a (BNum 1) @ ?body) (aByte a (BNum 0))]"
    using encShape_D [OF shape, where ref = ref and t = t and s = es] t by simp
  show "W (wire ?g ?A ow t v) s (execs (fst (ex ref t es)) c M s)"
    using v t
  proof (cases rule: pointer_view [where ow = ow])
    case nil
    then show ?thesis unfolding code
      by (intro W_execs_single W_ifNotNil [where p = None]) (use rd in \<open>auto simp: beval_def intro!: put_byte\<close>)
  next
    case (val w)
    have "W (wire ?g ?A ow e w) s' (execs ?body c M s')" if "agree s s'" for s'
      using val d b rd rd_agree [OF that] by (intro exprOK_run [OF ok]) (simp_all add: deref_def)
    then have "W ([1] @ wire ?g ?A ow e w) s (execs (aByte a (BNum 1) @ ?body) c M s)"
      by (intro W_execs_append put_byte) (auto simp: beval_def)
    then show ?thesis unfolding code
      using rd val by (intro W_execs_single W_ifNotNil [where p = "Some w"]) auto
  qed
qed

lemma enc_map:
  assumes shape: "encShape a (cGen c) ex"
    and okk: "exprOK W c M ow d ex k" and oke: "exprOK W c M ow d ex e"
    and t: "\<not> isTime t" "underlying t = TMap k e"
  shows "exprOK W c M ow d ex t"
proof (rule shape_I [OF shape])
  fix ref and es :: gstate and s v
  let ?g = "cGen c" and ?A = "cArch c"
  assume rd: "rd s ref = Ok v" and v: "wt ?g ?A t v" and d: "sdepth v \<le> d"
  obtain kvs where kvs: "mapEntries v = Ok kvs" "goLen v = Ok (int (length kvs))"
    and x: "\<And>a b. (a, b) \<in> set kvs \<Longrightarrow> wt ?g ?A k a \<and> wt ?g ?A e b \<and> sdepth a \<le> sdepth v \<and> sdepth b \<le> sdepth v"
    and w: "wire ?g ?A ow t v = lenPrefix (length kvs) @
       concat (map (\<lambda>(a, b). wire ?g ?A ow k a @ wire ?g ?A ow e b) kvs)"
    using map_view [OF v t] by metis
  have x': "\<And>a b. (a, b) \<in> set kvs \<Longrightarrow> wt ?g ?A k a \<and> wt ?g ?A e b \<and> sdepth a \<le> d \<and> sdepth b \<le> d"
    using x d by fastforce
  have rd': "obind (rd s' ref) mapEntries = Ok kvs" if "agree s s'" for s'
    using rd kvs rd_agree [OF that] by simp
  have code: "fst (ex ref t es) = encMap a ref k e ex es"
    using encShape_D [OF shape, where ref = ref and t = t and s = es] t by simp
  show "W (wire ?g ?A ow t v) s (execs (fst (ex ref t es)) c M s)"
    unfolding code encMap_def w Let_def
    using rd kvs(2) W_forMap [OF okk oke rd' x' refl refl refl refl, of _ "[]" es]
    by (intro W_execs_append put_uvarint W_execs_single) simp_all
qed

lemma enc_struct:
  assumes shape: "encShape a (cGen c) ex" and M: "encOK c ow M d"
    and sup: "supported (cGen c) t = None" and t: "\<not> isTime t" "underlying t = TStruct"
  shows "exprOK W c M ow d ex t"
proof (rule shape_I [OF shape])
  fix ref and es :: gstate and s v
  assume rd: "rd s ref = Ok v" and v: "wt (cGen c) (cArch c) t v" "sdepth v \<le> d"
  obtain n u where n: "t = TNamed n u" "underlying u = TStruct" "isTarget (cGen c) n"
    using supported_struct sup t by metis
  have "callOK c ow M n v"
    using contract [OF M n(3)] v wt_named_struct [OF n(2)] n(1) by metis
  then show "W (wire (cGen c) (cArch c) ow t v) s (execs (fst (ex ref t es)) c M s)"
    using encShape_D [OF shape, where ref = ref and t = t and s = es] t n wire_named_struct [OF n(2)] put_call [of s "addrOf ref" v] rd
    by auto
qed

lemma enc_iface:
  assumes shape: "encShape a (cGen c) ex" and wf: "wfGen (cGen c)" and M: "encOK c ow M d"
    and t: "\<not> isTime t" "underlying t = TInterface"
  shows "exprOK W c M ow d ex t"
proof (rule shape_I [OF shape])
  fix ref and es :: gstate and s v
  let ?g = "cGen c" and ?A = "cArch c"
  assume rd: "rd s ref = Ok v" and v: "wt ?g ?A t v" and d: "sdepth v \<le> d"
  let ?h = "\<lambda>k m. aUv a (INum k) @ aCall a (RecvPtr (RVar VV)) m"
  have code: "fst (ex ref t es) = encUnion a ?g ref t"
    using encShape_D [OF shape, where ref = ref and t = t and s = es] t by simp
  show "W (wire ?g ?A ow t v) s (execs (fst (ex ref t es)) c M s)"
    using v t
  proof (cases rule: iface_view [where ow = ow])
    case nil
    then show ?thesis unfolding code encUnion_def
      by (intro W_execs_single W_switch_nil) (use rd in \<open>simp_all add: put_uvarint\<close>)
  next
    case (val m w k)
    let ?s = "bindV VV (VPtr (Some w)) s"
    have "callOK c ow M m w"
      using contract [OF M memberTag_target(1) [OF wf val(2)] val(3)] val(4) d by simp
    then have "W (wire ?g ?A ow t v) ?s (execs (?h k m) c M ?s)"
      unfolding val(5)
      by (intro W_execs_append put_uvarint put_call) (auto simp: deref_def agree_def)
    then show ?thesis unfolding code encUnion_def
      by (rule W_execs_single [OF W_switch [OF rd [unfolded val(1)] val(2) refl]])
  qed
qed

theorem encExpr_ok:
  assumes shape: "encShape a (cGen c) ex" and wf: "wfGen (cGen c)" and M: "encOK c ow M d"
  shows "supported (cGen c) t = None \<Longrightarrow> exprOK W c M ow d ex t"
proof (induction t rule: measure_induct_rule [of size])
  case (less t)
  note u = underlying_size_less supported.simps [of "cGen c" t]
  show ?case
  proof (cases "isTime t")
    case True
    show ?thesis
    proof (rule shape_I [OF shape])
      fix ref and es :: gstate and s v
      assume rd: "rd s ref = Ok v" and v: "wt (cGen c) (cArch c) t v"
      obtain sec n l where "v = VTime sec n l" "wire (cGen c) (cArch c) ow t v = le_bytes 8 (unixNano sec n)"
        using time_view [OF v True] by metis
      then show "W (wire (cGen c) (cArch c) ow t v) s (execs (fst (ex ref t es)) c M s)"
        using encShape_D [OF shape, where ref = ref and t = t and s = es] True rd by (simp add: put_64 weval64_def)
    qed
  next
    case nt: False
    show ?thesis
    proof (cases "underlying t")
      case (TBasic k)
      then have k: "supportedBasic k" using less.prems nt by (simp add: u split: if_splits)
      show ?thesis
      proof (rule shape_I [OF shape])
        fix ref and es :: gstate and s v
        assume rd: "rd s ref = Ok v" and v: "wt (cGen c) (cArch c) t v"
        show "W (wire (cGen c) (cArch c) ow t v) s (execs (fst (ex ref t es)) c M s)"
          using encShape_D [OF shape, where ref = ref and t = t and s = es] nt TBasic
            basic_view [OF v nt TBasic] enc_basic [OF rd _ k] by simp
      qed
    next
      case (TSlice e)
      then show ?thesis using less.prems nt by (intro enc_slice [OF shape less.IH]) (auto simp: u)
    next
      case (TArray n e)
      then show ?thesis using less.prems nt by (intro enc_array [OF shape less.IH]) (auto simp: u)
    next
      case (TPointer e)
      then show ?thesis using less.prems nt by (intro enc_pointer [OF shape less.IH]) (auto simp: u)
    next
      case (TMap k e)
      then show ?thesis using less.prems nt
        by (intro enc_map [OF shape less.IH less.IH]) (auto simp: u split: option.splits)
    next
      case TStruct
      then show ?thesis using less.prems nt enc_struct [OF shape M] by simp
    next
      case TInterface
      then show ?thesis using less.prems nt enc_iface [OF shape wf M] by simp
    qed (use less.prems nt in \<open>simp_all add: u\<close>)
  qed
qed

end

end
