(* ===== verification/EncPut.thy ===== *)
theory EncPut
  imports Encoder
begin

text \<open>
  \<open>Marshal\<close> and \<open>Append\<close> as encoders: their store statements satisfy the laws of the locale
  \<open>encoder\<close>, and the two emission functions have the common shape.
\<close>

subsection \<open>Marshal\<close>

definition marshalAtoms :: atoms where
  "marshalAtoms = \<lparr>
     aBool = (\<lambda>r. [SIfTrue r [SM (SSetByte (BNum 1))] [SM (SSetByte (BNum 0))], SM (SIncI 1)]),
     aByte = (\<lambda>b. [SM (SSetByte b), SM (SIncI 1)]),
     a16 = (\<lambda>e. [SM (SPut16 e), SM (SIncI 2)]),
     a32 = (\<lambda>e. [SM (SPut32 e), SM (SIncI 4)]),
     a64 = (\<lambda>e. [SM (SPut64 e), SM (SIncI 8)]),
     aUv = (\<lambda>i. [SM (SPutUvarint i)]),
     aSrc = (\<lambda>q. [SM (SCopy q)]),
     aCall = (\<lambda>rc n. [SM (SMarshal rc n)])\<rparr>"

definition marRoom :: "nat \<Rightarrow> st \<Rightarrow> bool" where
  "marRoom n s \<longleftrightarrow> 0 \<le> sI s \<and> sI s + int n \<le> int (length (sB s))"

definition marEmits :: "bytes \<Rightarrow> st \<Rightarrow> st \<Rightarrow> bool" where
  "marEmits bs s s' \<longleftrightarrow> marRoom (length bs) s
     \<and> s' = s\<lparr>sB := splice (nat (sI s)) bs (sB s), sI := sI s + int (length bs)\<rparr>"

lemma marRoom_nat: "marRoom n s \<Longrightarrow> nat (sI s) + n \<le> length (sB s) \<and> int (nat (sI s)) = sI s"
  by (auto simp: marRoom_def)

lemma marRoom_tail:
  "marRoom n s \<Longrightarrow> tailFrom s = Ok (drop (nat (sI s)) (sB s)) \<and> n \<le> length (drop (nat (sI s)) (sB s))"
  by (auto simp: marRoom_def tailFrom_def)

lemma putTail_splice:
  "marRoom (length bs) s \<Longrightarrow>
     putTail s (splice 0 bs (drop (nat (sI s)) (sB s))) = s\<lparr>sB := splice (nat (sI s)) bs (sB s)\<rparr>"
  using marRoom_nat [of "length bs" s] by (simp add: putTail_def splice_drop)

lemma marEmits_run:
  "(marRoom (length bs) s \<Longrightarrow>
      r = Next (incI (putTail s (splice 0 bs (drop (nat (sI s)) (sB s)))) (int (length bs))))
     \<Longrightarrow> emitting marRoom marEmits bs s r"
  by (auto simp: emitting_def marEmits_def putTail_splice incI_def)

text \<open>Storing one byte, then advancing past it.\<close>

lemma mar_setByte:
  assumes "\<And>s'. marRoom 1 s \<Longrightarrow> exec x c M s = Next (s\<lparr>sB := (sB s)[nat (sI s) := w]\<rparr>)"
  shows "emitting marRoom marEmits [w] s (execs [x, SM (SIncI 1)] c M s)"
  unfolding emitting_def
proof
  assume "marRoom (length [w]) s"
  then have r: "marRoom 1 s" "nat (sI s) < length (sB s)" by (auto simp: marRoom_def)
  then show "\<exists>s'. execs [x, SM (SIncI 1)] c M s = Next s' \<and> marEmits [w] s s'"
    using assms by (simp add: incI_def marEmits_def splice_single)
qed

lemma mar_bool:
  assumes "rd s r = Ok (VBool t)"
  shows "emitting marRoom marEmits [if t then 1 else 0] s (execs (aBool marshalAtoms r) c M s)"
proof -
  have "exec (SIfTrue r [SM (SSetByte (BNum 1))] [SM (SSetByte (BNum 0))]) c M s
          = Next (s\<lparr>sB := (sB s)[nat (sI s) := (if t then 1 else 0)]\<rparr>)" if "marRoom 1 s"
    using assms that
    by (auto simp: boolOf_def inBlock_def scoped_def unbindVs_def decls_def declared_def
        beval_def marRoom_def Let_def)
  then show ?thesis unfolding marshalAtoms_def atoms.simps by (rule mar_setByte)
qed

lemma mar_byte:
  "beval s b = Ok w \<Longrightarrow> emitting marRoom marEmits [w] s (execs (aByte marshalAtoms b) c M s)"
  unfolding marshalAtoms_def atoms.simps by (rule mar_setByte) (auto simp: marRoom_def)

lemma mar_words:
  "weval16 s x = Ok w16 \<Longrightarrow> emitting marRoom marEmits (le_bytes 2 w16) s (execs (a16 marshalAtoms x) c M s)"
  "weval32 s x = Ok w32 \<Longrightarrow> emitting marRoom marEmits (le_bytes 4 w32) s (execs (a32 marshalAtoms x) c M s)"
  "weval64 s x = Ok w64 \<Longrightarrow> emitting marRoom marEmits (le_bytes 8 w64) s (execs (a64 marshalAtoms x) c M s)"
  by (rule marEmits_run, drule marRoom_tail,
      simp add: marshalAtoms_def PutU16_ok PutU32_ok PutU64_ok)+

lemma mar_uvarint:
  "ieval c M s i = Ok (int n) \<Longrightarrow>
     emitting marRoom marEmits (lenPrefix n) s (execs (aUv marshalAtoms i) c M s)"
  by (rule marEmits_run, drule marRoom_tail)
    (simp add: marshalAtoms_def lenPrefix_def PutUvarint_ok length_uvarint_bytes)

lemma mar_src:
  "srcEval c M s q = Ok bs \<Longrightarrow> emitting marRoom marEmits bs s (execs (aSrc marshalAtoms q) c M s)"
  by (rule marEmits_run, drule marRoom_tail) (simp add: marshalAtoms_def Let_def min_absorb2)

lemma mar_call:
  assumes "rd s (recvLoc rc) = Ok v" "marshalOK c ow M m v"
  shows "emitting marRoom marEmits (wire (cGen c) (cArch c) ow (TNamed m TStruct) v) s
           (execs (aCall marshalAtoms rc m) c M s)"
proof (rule marEmits_run)
  assume "marRoom (length (wire (cGen c) (cArch c) ow (TNamed m TStruct) v)) s"
  from marRoom_tail [OF this] assms
  show "execs (aCall marshalAtoms rc m) c M s =
      Next (incI (putTail s (splice 0 (wire (cGen c) (cArch c) ow (TNamed m TStruct) v) (drop (nat (sI s)) (sB s))))
        (int (length (wire (cGen c) (cArch c) ow (TNamed m TStruct) v))))"
    by (simp add: marshalAtoms_def marshalOK_def Let_def)
qed

interpretation mar: encoder marRoom marEmits marshalAtoms marshalOK
proof unfold_locales
  fix s :: st
  show "marRoom 0 s \<Longrightarrow> marEmits [] s s" by (simp add: marEmits_def)
next
  fix xs ys s s1 s2
  assume 1: "marEmits xs s s1" and 2: "marEmits ys s1 s2"
  have "sB s1 = splice (nat (sI s)) xs (sB s)" "sI s1 = sI s + int (length xs)"
    using 1 by (simp_all add: marEmits_def)
  moreover have "nat (sI s) + length xs \<le> length (sB s)" "0 \<le> sI s"
    using 1 by (auto simp: marEmits_def marRoom_def)
  moreover have "sI s1 + int (length ys) \<le> int (length (sB s1))"
    using 2 by (auto simp: marEmits_def marRoom_def)
  ultimately show "marEmits (xs @ ys) s s2"
    using 1 2 splice_splice [of "nat (sI s)" xs ys "sB s"]
    by (auto simp: marEmits_def marRoom_def nat_add_distrib)
next
  fix xs :: bytes and n s s1
  assume r: "marRoom (length xs + n) s" and e: "marEmits xs s s1"
  have "nat (sI s) + length xs \<le> length (sB s)" using r by (auto simp: marRoom_def)
  then show "marRoom n s1" using r e by (auto simp: marRoom_def marEmits_def)
next
  fix xs :: bytes and s s1
  assume "marEmits xs s s1"
  then show "agree s s1" by (simp add: marEmits_def agree_def)
next
  fix c :: ctx and ow M d m v
  assume "encOK c ow M d" "isTarget (cGen c) m" "wt (cGen c) (cArch c) (TNamed m TStruct) v" "sdepth v \<le> d"
  then show "marshalOK c ow M m v" by (rule encOK_D(2))
qed (auto simp: marRoom_def marEmits_def intro: mar_bool [where t = True, simplified]
    mar_bool [where t = False, simplified] mar_byte mar_words mar_uvarint mar_src mar_call)

text \<open>The emission function of \<open>Marshal\<close> has the common shape.\<close>

lemma marshalExpr_mono: "varCounter es \<le> varCounter (snd (marshalExpr g ref t es))"
proof (induction t arbitrary: ref es rule: measure_induct_rule [of size])
  case (less t)
  note IH = less.IH [OF underlying_size_less(1)] less.IH [OF underlying_size_less(2)]
    less.IH [OF underlying_size_less(3)] less.IH [OF underlying_size_less(4)] less.IH [OF underlying_size_less(5)]
  show ?case
    using IH(1) [where es = "snd (freshIdx es)"] IH(1) [where es = "snd (freshVar es)"]
      IH(2) [where es = "snd (freshIdx es)"] IH(3)
    by (cases "underlying t")
      (auto simp: marshalExpr.simps [of g ref t es] Let_def split_beta freshIdx_def freshVar_def
        split: option.splits gotype.splits
        intro: order.trans [OF _ order.trans [OF IH(4) IH(5)]] dest: Suc_leD)
qed

lemma marshalExpr_struct:
  "underlying u = TStruct \<Longrightarrow> \<not> isTime (TNamed n u)
     \<Longrightarrow> fst (marshalExpr g ref (TNamed n u) s) = [SM (SMarshal (addrOf ref) n)]"
  by (simp add: marshalExpr.simps [of g ref "TNamed n u" s])

lemma marshal_shape: "encShape marshalAtoms g (marshalExpr g)"
  unfolding encShape_def
proof (intro allI)
  fix ref t s
  show "encShapeAt marshalAtoms g (marshalExpr g) ref t s"
    using marshalExpr_mono [of s g ref t]
    by (cases "underlying t")
      (auto simp: encShapeAt_def marshalExpr_struct marshalExpr.simps [of g ref t s] marshalAtoms_def marshalBasic_def
        encBasic_def encSlice_def encArray_def encMap_def encUnion_def Let_def split_beta
        split: bkind.splits)
qed

lemmas marshalExpr_ok = mar.encExpr_ok [OF marshal_shape]

subsection \<open>Append\<close>

definition appendAtoms :: atoms where
  "appendAtoms = \<lparr>
     aBool = (\<lambda>r. [SIfTrue r [SA (SAppByte (BNum 1))] [SA (SAppByte (BNum 0))]]),
     aByte = (\<lambda>b. [SA (SAppByte b)]),
     a16 = (\<lambda>e. [SA (SApp16 e)]),
     a32 = (\<lambda>e. [SA (SApp32 e)]),
     a64 = (\<lambda>e. [SA (SApp64 e)]),
     aUv = (\<lambda>i. [SA (SAppUvarint i)]),
     aSrc = (\<lambda>q. [SA (SApp q)]),
     aCall = (\<lambda>rc n. [SA (SAppend rc n)])\<rparr>"

definition appRoom :: "nat \<Rightarrow> st \<Rightarrow> bool" where
  "appRoom n s = True"

definition appEmits :: "bytes \<Rightarrow> st \<Rightarrow> st \<Rightarrow> bool" where
  "appEmits bs s s' \<longleftrightarrow> (\<exists>b. s' = s\<lparr>sOut := b\<rparr> \<and> extends (sOut s) bs b)"

lemma app_run:
  "extends (sOut s) bs b \<Longrightarrow> emitting appRoom appEmits bs s (Next (s\<lparr>sOut := b\<rparr>))"
  by (auto simp: emitting_def appEmits_def)

lemma app_bool:
  "rd s r = Ok (VBool t) \<Longrightarrow>
     emitting appRoom appEmits [if t then 1 else 0] s (execs (aBool appendAtoms r) c M s)"
  by (auto simp: appendAtoms_def boolOf_def inBlock_def scoped_def unbindVs_def decls_def
      declared_def beval_def Let_def intro!: app_run)

lemma app_words:
  "weval16 s x = Ok w16 \<Longrightarrow> emitting appRoom appEmits (le_bytes 2 w16) s (execs (a16 appendAtoms x) c M s)"
  "weval32 s x = Ok w32 \<Longrightarrow> emitting appRoom appEmits (le_bytes 4 w32) s (execs (a32 appendAtoms x) c M s)"
  "weval64 s x = Ok w64 \<Longrightarrow> emitting appRoom appEmits (le_bytes 8 w64) s (execs (a64 appendAtoms x) c M s)"
  by (auto simp: appendAtoms_def AppendU16_def AppendU32_def AppendU64_def le_bytes_nat [symmetric]
      intro!: app_run)

lemma app_call:
  assumes "rd s (recvLoc rc) = Ok v" "appendOK c ow M m v"
  shows "emitting appRoom appEmits (wire (cGen c) (cArch c) ow (TNamed m TStruct) v) s
           (execs (aCall appendAtoms rc m) c M s)"
proof -
  obtain b where "mAppend M m v (sOut s) = Ok b"
    "extends (sOut s) (wire (cGen c) (cArch c) ow (TNamed m TStruct) v) b"
    using assms(2) unfolding appendOK_def by blast
  then show ?thesis using assms(1) by (simp add: appendAtoms_def app_run)
qed

interpretation app: encoder appRoom appEmits appendAtoms appendOK
proof unfold_locales
  fix s :: st
  show "appEmits [] s s" by (auto simp: appEmits_def intro!: exI [where x = "sOut s"])
next
  fix xs ys s s1 s2
  assume "appEmits xs s s1" "appEmits ys s1 s2"
  then show "appEmits (xs @ ys) s s2"
    by (auto simp: appEmits_def intro!: exI [where x = "sOut s2"] intro: extends_trans)
next
  fix xs :: bytes and s s1
  assume "appEmits xs s s1"
  then show "agree s s1" by (auto simp: appEmits_def agree_def)
next
  fix c :: ctx and ow M d m v
  assume "encOK c ow M d" "isTarget (cGen c) m" "wt (cGen c) (cArch c) (TNamed m TStruct) v" "sdepth v \<le> d"
  then show "appendOK c ow M m v" by (rule encOK_D(3))
next
  fix c M s i n
  assume "ieval c M s i = Ok (int n)"
  then show "emitting appRoom appEmits (lenPrefix n) s (execs (aUv appendAtoms i) c M s)"
    by (simp add: appendAtoms_def lenPrefix_def app_run AppendUvarint_extends)
qed (auto simp: appRoom_def appEmits_def appendAtoms_def [THEN arg_cong [where f = aByte]]
    appendAtoms_def [THEN arg_cong [where f = aSrc]] intro: app_bool [where t = True, simplified]
    app_bool [where t = False, simplified] app_words app_call app_run)

lemma appendExpr_mono: "varCounter es \<le> varCounter (snd (appendExpr g ref t es))"
proof (induction t arbitrary: ref es rule: measure_induct_rule [of size])
  case (less t)
  note IH = less.IH [OF underlying_size_less(1)] less.IH [OF underlying_size_less(2)]
    less.IH [OF underlying_size_less(3)] less.IH [OF underlying_size_less(4)] less.IH [OF underlying_size_less(5)]
  show ?case
    using IH(1) [where es = "snd (freshIdx es)"] IH(1) [where es = "snd (freshVar es)"]
      IH(2) [where es = "snd (freshIdx es)"] IH(3)
    by (cases "underlying t")
      (auto simp: appendExpr.simps [of g ref t es] Let_def split_beta freshIdx_def freshVar_def
        split: option.splits gotype.splits
        intro: order.trans [OF _ order.trans [OF IH(4) IH(5)]] dest: Suc_leD)
qed

lemma appendExpr_struct:
  "underlying u = TStruct \<Longrightarrow> \<not> isTime (TNamed n u)
     \<Longrightarrow> fst (appendExpr g ref (TNamed n u) s) = [SA (SAppend (addrOf ref) n)]"
  by (simp add: appendExpr.simps [of g ref "TNamed n u" s])

lemma append_shape: "encShape appendAtoms g (appendExpr g)"
  unfolding encShape_def
proof (intro allI)
  fix ref t s
  show "encShapeAt appendAtoms g (appendExpr g) ref t s"
    using appendExpr_mono [of s g ref t]
    by (cases "underlying t")
      (auto simp: encShapeAt_def appendExpr_struct appendExpr.simps [of g ref t s] appendAtoms_def appendBasic_def
        encBasic_def encSlice_def encArray_def encMap_def encUnion_def Let_def split_beta
        split: bkind.splits)
qed

lemmas appendExpr_ok = app.encExpr_ok [OF append_shape]

end
