(* ===== verification/Package.thy ===== *)
theory Package
  imports EncSize EncPut
begin

text \<open>
  The methods of a whole generated package: the codec \<open>generate\<close> emits for each target, run
  by \<open>methods\<close>, keeps the encoding contract.  Nested calls are discharged by induction on
  the depth of calls, fields by induction on the field list.
\<close>

subsection \<open>The codecs of a generated file\<close>

lemma generateLoop_codec:
  "generateLoop g ns s = Inr (cs, s') \<Longrightarrow> n \<in> set ns \<Longrightarrow> \<not> List.member (owned g) n \<Longrightarrow>
     \<exists>fs es. fieldsOf g n = Inr fs \<and> map_of cs n = Some (fst (emitCodec g n fs es))"
  by (induction ns arbitrary: s cs s')
    (auto simp: Let_def split_beta split: if_splits sum.splits)

lemma generateLoop_owned:
  "generateLoop g ns s = Inr (cs, s') \<Longrightarrow> List.member (owned g) n \<Longrightarrow> map_of cs n = None"
  by (induction ns arbitrary: s cs s')
    (auto simp: Let_def split_beta split: if_splits sum.splits)

lemma generate_codec:
  assumes "generate g s = Inr file" "isTarget g n" "\<not> List.member (owned g) n"
  obtains fs es where "fieldsOf g n = Inr fs"
    "map_of (gfCodecs file) n = Some (fst (emitCodec g n fs es))"
proof -
  obtain cs s' where l: "generateLoop g (targets g) s = Inr (cs, s')" "gfCodecs file = cs"
    using assms(1) by (auto simp: generate_def split: sum.splits)
  have "n \<in> set (targets g)" using assms(2) by (simp add: isTarget_def)
  then show ?thesis using generateLoop_codec [OF l(1) _ assms(3)] that l(2) by blast
qed

lemma generate_owned:
  "generate g s = Inr file \<Longrightarrow> List.member (owned g) n \<Longrightarrow> map_of (gfCodecs file) n = None"
  by (auto simp: generate_def dest: generateLoop_owned split: sum.splits)

lemma emitCodec_blit:
  assumes "fieldsOf g n = Inr fs" "\<not> List.member (owned g) n"
  shows "\<not> safe g \<and> blittable g n fs \<longleftrightarrow> isBlit g n"
  using assms by (simp add: isBlit_def)

subsection \<open>The fields of a struct value\<close>

lemma map_of_field:
  assumes "distinct (map sfName (filter Exported sf))"
    and "\<forall>f \<in> set sf. \<forall>f' \<in> set sf. sfName f = sfName f' \<longrightarrow> Exported f = Exported f'"
    and "map fst vs = map sfName sf" and "(f, x) \<in> set (zip sf vs)" "Exported f"
  shows "map_of vs (sfName f) = Some (snd x)"
  using assms
proof (induction sf vs rule: list_induct2')
  case (4 f0 sf x0 vs)
  obtain y where x0: "x0 = (sfName f0, y)" using 4(4) by (cases x0) simp
  have vs: "map fst vs = map sfName sf" using 4(4) by simp
  show ?case
  proof (cases "(f, x) = (f0, x0)")
    case True
    then show ?thesis using x0 by simp
  next
    case False
    then have m: "(f, x) \<in> set (zip sf vs)" using 4(5) by auto
    then have f: "f \<in> set sf" by (rule set_zip_leftD)
    have ne: "sfName f0 \<noteq> sfName f"
    proof
      assume eq: "sfName f0 = sfName f"
      then have "Exported f0" using 4(3,6) f by (meson list.set_intros)
      then have "sfName f0 \<notin> set (map sfName (filter Exported sf))" using 4(2) by simp
      moreover have "sfName f \<in> set (map sfName (filter Exported sf))" using f 4(6) by simp
      ultimately show False using eq by simp
    qed
    have "distinct (map sfName (filter Exported sf))" using 4(2) by (cases "Exported f0") simp_all
    then have "map_of vs (sfName f) = Some (snd x)"
      using 4(3) by (intro "4.IH" vs m 4(6)) (meson list.set_intros)+
    then show ?thesis using x0 ne by simp
  qed
qed simp_all

lemma wfGen_fields:
  assumes "wfGen g" "isTarget g n"
  shows "distinct (map sfName (filter Exported (structs g n)))"
    and "\<forall>f \<in> set (structs g n). \<forall>f' \<in> set (structs g n). sfName f = sfName f' \<longrightarrow> Exported f = Exported f'"
  using assms unfolding wfGen_def isTarget_set by blast+

lemma concat_fields:
  assumes "\<And>f x. (f, x) \<in> set (zip sf vs) \<Longrightarrow> \<not> skipped f \<Longrightarrow> h f x = k (sfType f) (sfName f)"
    and "length sf = length vs"
  shows "concat (map (\<lambda>(f, x). if skipped f then [] else h f x) (zip sf vs))
    = concat (map (\<lambda>f. k (fldTyp f) (fldName f))
        (map (\<lambda>f. \<lparr>fldName = sfName f, fldTyp = sfType f\<rparr>) (filter (\<lambda>f. \<not> skipped f) sf)))"
  using assms(2,1) by (induction sf vs rule: list_induct2) auto

text \<open>What the encoders read of a struct value, field by field.\<close>

lemma struct_fields:
  assumes wf: "wfGen g" and n: "isTarget g n" "\<not> List.member (owned g) n" "\<not> isBlit g n"
    and fs: "fieldsOf g n = Inr fs" and v: "wt g A (TNamed n TStruct) v" "sdepth v \<le> Suc d"
  obtains vs where "v = VStruct vs"
    "\<And>f. f \<in> set fs \<Longrightarrow> supported g (fldTyp f) = None
       \<and> (\<exists>x. map_of vs (fldName f) = Some x \<and> wt g A (fldTyp f) x \<and> sdepth x \<le> d)"
    "wire g A ow (TNamed n TStruct) v
       = concat (map (\<lambda>f. wire g A ow (fldTyp f) (the (map_of vs (fldName f)))) fs)"
proof -
  have nt: "\<not> isTime (TNamed n TStruct)" using wf n(1) by (rule wfGen_notTime)
  obtain vs where vs: "v = VStruct vs" "map fst vs = map sfName (structs g n)"
    and w: "\<And>f x. (f, x) \<in> set (zip (structs g n) vs) \<Longrightarrow> skipped f \<or> wt g A (sfType f) (snd x)"
    using wt_struct [OF v(1) _ nt] by auto
  have len: "length (structs g n) = length vs" using vs(2) by (metis length_map)
  note m = map_of_field [OF wfGen_fields [OF wf n(1)] vs(2)]
  have fs': "fs = map (\<lambda>f. \<lparr>fldName = sfName f, fldTyp = sfType f\<rparr>) (filter (\<lambda>f. \<not> skipped f) (structs g n))"
    and sup: "\<And>f. f \<in> set (structs g n) \<Longrightarrow> skipped f \<or> supported g (sfType f) = None"
    using fieldsLoop_Inr fs by (auto simp: fieldsOf_def)
  show ?thesis
  proof (rule that [OF vs(1)])
    fix f assume "f \<in> set fs"
    then obtain f0 where f0: "f0 \<in> set (structs g n)" "\<not> skipped f0"
      "f = \<lparr>fldName = sfName f0, fldTyp = sfType f0\<rparr>" using fs' by auto
    then obtain x where x: "(f0, x) \<in> set (zip (structs g n) vs)"
      using len by (metis in_set_impl_in_set_zip1)
    then have "snd x \<in> snd ` set vs" by (auto dest: set_zip_rightD)
    then have "sdepth (snd x) \<le> d" using v(2) vs(1) by auto
    then show "supported g (fldTyp f) = None
       \<and> (\<exists>x. map_of vs (fldName f) = Some x \<and> wt g A (fldTyp f) x \<and> sdepth x \<le> d)"
      using f0 w [OF x] m [OF x] sup [OF f0(1)] by (auto simp: skipped_def)
  next
    have "wire g A ow (TNamed n TStruct) v =
      concat (map (\<lambda>(f, x). if skipped f then [] else wire g A ow (sfType f) (snd x)) (zip (structs g n) vs))"
      using nt n vs(1) by (simp add: wire.simps [of g A ow "TNamed n TStruct"])
    also have "\<dots> = concat (map (\<lambda>f. wire g A ow (fldTyp f) (the (map_of vs (fldName f)))) fs)"
      unfolding fs' by (rule concat_fields [OF _ len]) (simp add: m skipped_def)
    finally show "wire g A ow (TNamed n TStruct) v
       = concat (map (\<lambda>f. wire g A ow (fldTyp f) (the (map_of vs (fldName f)))) fs)" .
  qed
qed

context writer
begin

lemma W_fields:
  assumes "\<And>f. f \<in> set fs \<Longrightarrow> exprOK W c M ow d ex (fldTyp f)
       \<and> (\<exists>x. map_of vs (fldName f) = Some x \<and> wt (cGen c) (cArch c) (fldTyp f) x \<and> sdepth x \<le> d)"
    and "sRecv s = VStruct vs"
  shows "W (concat (map (\<lambda>f. wire (cGen c) (cArch c) ow (fldTyp f) (the (map_of vs (fldName f)))) fs)) s
           (execs (fst (emitFields ex fs es)) c M s)"
  using assms
proof (induction fs arbitrary: s es)
  case (Cons f fs)
  obtain x where x: "map_of vs (fldName f) = Some x" "wt (cGen c) (cArch c) (fldTyp f) x" "sdepth x \<le> d"
    and ok: "exprOK W c M ow d ex (fldTyp f)" using Cons.prems(1) [of f] by auto
  have "W (wire (cGen c) (cArch c) ow (fldTyp f) x) s
          (execs (fst (ex (RField (fldName f)) (fldTyp f) es)) c M s)"
    using x Cons.prems(2) by (intro exprOK_run [OF ok]) simp_all
  then show ?case
    using x(1) Cons.prems
    by (auto simp: Let_def split_beta agree_def intro!: W_execs_append Cons.IH)
qed (simp add: W_skip)

end

subsection \<open>The methods of a package keep the contract\<close>

definition ownedOK :: "ctx \<Rightarrow> uwire \<Rightarrow> menv \<Rightarrow> bool" where
  "ownedOK c ow U \<longleftrightarrow>
     (\<forall>n v. List.member (owned (cGen c)) n \<longrightarrow> wt (cGen c) (cArch c) (TNamed n TStruct) v
        \<longrightarrow> sizeOK c ow U n v \<and> marshalOK c ow U n v \<and> appendOK c ow U n v)"

lemma ownedOK_D:
  assumes "ownedOK c ow U" "List.member (owned (cGen c)) n" "wt (cGen c) (cArch c) (TNamed n TStruct) v"
  shows "sizeOK c ow U n v \<and> marshalOK c ow U n v \<and> appendOK c ow U n v"
  using assms unfolding ownedOK_def by blast

text \<open>A struct whose codec is emitted field by field.\<close>

lemma fields_encOK:
  assumes wf: "wfGen (cGen c)" and M: "encOK c ow M d"
    and n: "isTarget (cGen c) n" "\<not> List.member (owned (cGen c)) n" "\<not> isBlit (cGen c) n"
    and fs: "fieldsOf (cGen c) n = Inr fs"
    and v: "wt (cGen c) (cArch c) (TNamed n TStruct) v" "sdepth v \<le> Suc d"
  shows "runSize c M (fst (emitSize (cGen c) fs e1)) v
      = Ok (int (length (wire (cGen c) (cArch c) ow (TNamed n TStruct) v)))"
    and "length (wire (cGen c) (cArch c) ow (TNamed n TStruct) v) \<le> length b \<Longrightarrow>
      runMarshal c M (fst (emitMarshal (cGen c) fs e2)) v b
      = Ok (splice 0 (wire (cGen c) (cArch c) ow (TNamed n TStruct) v) b,
            int (length (wire (cGen c) (cArch c) ow (TNamed n TStruct) v)))"
    and "\<exists>b'. runAppend c M (fst (emitAppend (cGen c) fs e3)) v o' = Ok b'
      \<and> extends o' (wire (cGen c) (cArch c) ow (TNamed n TStruct) v) b'"
proof -
  let ?w = "wire (cGen c) (cArch c) ow (TNamed n TStruct) v"
  obtain vs where vs: "v = VStruct vs"
    and f: "\<And>f. f \<in> set fs \<Longrightarrow> supported (cGen c) (fldTyp f) = None
       \<and> (\<exists>x. map_of vs (fldName f) = Some x \<and> wt (cGen c) (cArch c) (fldTyp f) x \<and> sdepth x \<le> d)"
    and w: "?w = concat (map (\<lambda>f. wire (cGen c) (cArch c) ow (fldTyp f) (the (map_of vs (fldName f)))) fs)"
    by (rule struct_fields [OF wf n fs v, where ow = ow]) (rule that)
  have r: "sRecv (initSt v) = VStruct vs" "sRecv ((initSt v)\<lparr>sB := b\<rparr>) = VStruct vs"
    "sRecv ((initSt v)\<lparr>sOut := o'\<rparr>) = VStruct vs" by (simp_all add: vs initSt_def)
  have "szw.W ?w (initSt v) (execs (fst (emitFields (sizeExpr (cGen c)) fs e1)) c M (initSt v))"
    unfolding w using f sizeExpr_ok [OF wf M] by (intro szw.W_fields [where d = d, OF _ r(1)]) simp
  then show "runSize c M (fst (emitSize (cGen c) fs e1)) v = Ok (int (length ?w))"
    by (auto simp: runSize_def emitSize_def split_beta emitting_def sizeRoom_def sizeEmits_def initSt_def)
  let ?s = "(initSt v)\<lparr>sB := b\<rparr>"
  have "mar.W ?w ?s (execs (fst (emitFields (marshalExpr (cGen c)) fs e2)) c M ?s)"
    unfolding w using f marshalExpr_ok [OF wf M] by (intro mar.W_fields [where d = d, OF _ r(2)]) simp
  then show "runMarshal c M (fst (emitMarshal (cGen c) fs e2)) v b
      = Ok (splice 0 ?w b, int (length ?w))" if "length ?w \<le> length b"
    using that
    by (auto simp: runMarshal_def emitMarshal_def split_beta emitting_def marRoom_def marEmits_def initSt_def)
  let ?s = "(initSt v)\<lparr>sOut := o'\<rparr>"
  have "app.W ?w ?s (execs (fst (emitFields (appendExpr (cGen c)) fs e3)) c M ?s)"
    unfolding w using f appendExpr_ok [OF wf M] by (intro app.W_fields [where d = d, OF _ r(3)]) simp
  then show "\<exists>b'. runAppend c M (fst (emitAppend (cGen c) fs e3)) v o' = Ok b' \<and> extends o' ?w b'"
    by (auto simp: runAppend_def emitAppend_def split_beta emitting_def appRoom_def appEmits_def initSt_def)
qed

text \<open>A struct whose codec is one memory copy.\<close>

lemma blit_encOK:
  assumes wf: "wfGen (cGen c)" and n: "isTarget (cGen c) n" "isBlit (cGen c) n"
    and v: "wt (cGen c) (cArch c) (TNamed n TStruct) v"
  shows "runSize c M (emitBlitSize n) v
      = Ok (int (length (wire (cGen c) (cArch c) ow (TNamed n TStruct) v)))"
    and "length (wire (cGen c) (cArch c) ow (TNamed n TStruct) v) \<le> length b \<Longrightarrow>
      runMarshal c M (emitBlitMarshal n) v b
      = Ok (splice 0 (wire (cGen c) (cArch c) ow (TNamed n TStruct) v) b,
            int (length (wire (cGen c) (cArch c) ow (TNamed n TStruct) v)))"
    and "\<exists>b'. runAppend c M (emitBlitAppend n) v o' = Ok b'
      \<and> extends o' (wire (cGen c) (cArch c) ow (TNamed n TStruct) v) b'"
proof -
  have nt: "\<not> isTime (TNamed n TStruct)" using wf n(1) by (rule wfGen_notTime)
  have w: "wire (cGen c) (cArch c) ow (TNamed n TStruct) v = structImage (cGen c) (cArch c) n v"
    using nt isBlit_fields(2) [OF n(2)] n(2)
    by (simp add: wire.simps [of "cGen c" "cArch c" ow "TNamed n TStruct"])
  have len: "length (structImage (cGen c) (cArch c) n v) = structSize (cArch c) (structTypes (cGen c) n)"
    using length_structImage [OF n(2) v _ nt] by simp
  show "runSize c M (emitBlitSize n) v
      = Ok (int (length (wire (cGen c) (cArch c) ow (TNamed n TStruct) v)))"
    by (simp add: runSize_def emitBlitSize_def w len)
  show "runMarshal c M (emitBlitMarshal n) v b
      = Ok (splice 0 (wire (cGen c) (cArch c) ow (TNamed n TStruct) v) b,
            int (length (wire (cGen c) (cArch c) ow (TNamed n TStruct) v)))"
    if "length (wire (cGen c) (cArch c) ow (TNamed n TStruct) v) \<le> length b"
    using that by (simp add: runMarshal_def emitBlitMarshal_def w len Let_def)
  show "\<exists>b'. runAppend c M (emitBlitAppend n) v o' = Ok b'
      \<and> extends o' (wire (cGen c) (cArch c) ow (TNamed n TStruct) v) b'"
    by (auto simp: runAppend_def emitBlitAppend_def w)
qed

lemma emitCodec_cases:
  assumes "fieldsOf g n = Inr fs" "\<not> List.member (owned g) n"
  obtains (blit) "isBlit g n" "fst (emitCodec g n fs es) = \<lparr>cSize = emitBlitSize n,
      cMarshal = emitBlitMarshal n, cAppend = emitBlitAppend n, cUnmarshal = emitBlitUnmarshal g n\<rparr>"
  | (fields) e1 e2 e3 e4 where "\<not> isBlit g n" "fst (emitCodec g n fs es) = \<lparr>cSize = fst (emitSize g fs e1),
      cMarshal = fst (emitMarshal g fs e2), cAppend = fst (emitAppend g fs e3),
      cUnmarshal = fst (emitUnmarshal g fs e4)\<rparr>"
  using emitCodec_blit [OF assms]
  by (cases "isBlit g n") (auto simp: emitCodec_def Let_def split_beta)

theorem methods_encOK:
  assumes wf: "wfGen (cGen c)" and gen: "generate (cGen c) s0 = Inr file" and U: "ownedOK c ow U"
  shows "encOK c ow (methods c (map_of (gfCodecs file)) U d) d"
proof (induction d)
  case 0
  have "\<not> sdepth v \<le> 0" if "isTarget (cGen c) n" "wt (cGen c) (cArch c) (TNamed n TStruct) v" for n v
    using wt_struct [OF that(2) _ wfGen_notTime [OF wf that(1)]] by fastforce
  then show ?case unfolding encOK_def by blast
next
  case (Suc d)
  let ?M = "methods c (map_of (gfCodecs file)) U d" and ?M' = "methods c (map_of (gfCodecs file)) U (Suc d)"
  have "sizeOK c ow ?M' n v \<and> marshalOK c ow ?M' n v \<and> appendOK c ow ?M' n v"
    if n: "isTarget (cGen c) n" and v: "wt (cGen c) (cArch c) (TNamed n TStruct) v" "sdepth v \<le> Suc d" for n v
  proof (cases "List.member (owned (cGen c)) n")
    case True
    then show ?thesis using ownedOK_D [OF U True v(1)] generate_owned [OF gen True]
      by (simp add: sizeOK_def marshalOK_def appendOK_def Let_def)
  next
    case no: False
    obtain fs es where fs: "fieldsOf (cGen c) n = Inr fs"
      and cd: "map_of (gfCodecs file) n = Some (fst (emitCodec (cGen c) n fs es))"
      using generate_codec [OF gen n no] .
    show ?thesis using fs no
    proof (cases rule: emitCodec_cases [where es = es])
      case blit
      then show ?thesis using blit_encOK [OF wf n blit(1) v(1)] cd
        by (simp add: sizeOK_def marshalOK_def appendOK_def Let_def)
    next
      case (fields e1 e2 e3 e4)
      then show ?thesis using fields_encOK [OF wf Suc n no fields(1) fs v] cd
        by (simp add: sizeOK_def marshalOK_def appendOK_def Let_def)
    qed
  qed
  then show ?case unfolding encOK_def by blast
qed

subsection \<open>The codecs of a file\<close>

lemma generateLoop_names:
  "generateLoop g ns s = Inr (cs, s') \<Longrightarrow> map fst cs = filter (\<lambda>n. \<not> List.member (owned g) n) ns"
  by (induction ns arbitrary: s cs s') (auto simp: Let_def split_beta split: if_splits sum.splits)

lemma generate_names:
  "generate g s = Inr gf \<Longrightarrow> map fst (gfCodecs gf) = filter (\<lambda>n. \<not> List.member (owned g) n) (targets g)"
  by (auto simp: generate_def dest: generateLoop_names split: sum.splits)

end
