(* ===== verification/LoadFacts.thy ===== *)
theory LoadFacts
  imports Loader Package
begin

text \<open>
  What a successful \<open>load\<close> establishes: the loops one by one, what the type checker guarantees
  of the package it returns (\<open>checkOK\<close>, documented behaviour of \<open>go/types\<close>), and the settings
  that result.
\<close>

subsection \<open>Strings\<close>

lemma CutPrefix_append [simp]: "CutPrefix (p @ s) p = Some s"
  by (simp add: CutPrefix_def HasPrefix_def)

lemma HasSuffix_iff: "HasSuffix s p \<longleftrightarrow> (\<exists>q. s = q @ p)"
proof
  assume "HasSuffix s p"
  then show "\<exists>q. s = q @ p"
    by (metis HasSuffix_def append_take_drop_id)
qed (auto simp: HasSuffix_def)

lemma Contains_iff: "Contains s p \<longleftrightarrow> (\<exists>a b. s = a @ p @ b)"
proof (induction s)
  case (Cons c s)
  have "HasPrefix (c # s) p \<longleftrightarrow> (\<exists>b. c # s = p @ b)"
    unfolding HasPrefix_def by (metis append_eq_conv_conj)
  with Cons show ?case
    by (simp add: Cons_eq_append_conv) (metis append_Cons append_Nil list.inject neq_Nil_conv)
qed (auto simp: HasPrefix_def)

lemma Base_bare: "slash \<notin> set p \<Longrightarrow> p \<noteq> [] \<Longrightarrow> Base p = p"
proof -
  assume p: "slash \<notin> set p" "p \<noteq> []"
  then have "dropWhile (\<lambda>c. c = slash) (rev p) = rev p"
    by (metis (mono_tags, lifting) dropWhile_eq_self_iff hd_in_set rev_is_Nil_conv set_rev)
  moreover have "takeWhile (\<lambda>c. c \<noteq> slash) (rev p) = rev p"
    using p by (simp add: takeWhile_eq_all_conv) metis
  ultimately show ?thesis using p unfolding Base_def Let_def by (metis rev_rev_ident)
qed

lemma Base_slash: "slash \<notin> set (Base p) \<or> Base p = [slash]"
proof -
  have "slash \<notin> set (takeWhile (\<lambda>c. c \<noteq> slash) xs)" for xs
    using set_takeWhileD by fastforce
  then show ?thesis by (auto simp: Base_def Let_def slash_def)
qed

lemma Fields_words:
  assumes "\<forall>n \<in> set ns. n \<noteq> [] \<and> (\<forall>c \<in> set n. \<not> isSpace c)"
  shows "Fields (concat (map (\<lambda>n. CHR 0x20 # n) ns)) = ns"
proof -
  have run: "\<forall>c \<in> set n. \<not> isSpace c \<Longrightarrow> fieldsFrom w (n @ s) = fieldsFrom (w @ n) s" for n w s
    by (induction n arbitrary: w) auto
  have sp: "isSpace (CHR 0x20)" by (simp add: isSpace_def)
  have "\<forall>n \<in> set ns. n \<noteq> [] \<and> (\<forall>c \<in> set n. \<not> isSpace c) \<Longrightarrow>
      fieldsFrom w (concat (map (\<lambda>n. CHR 0x20 # n) ns)) = (if w = [] then ns else w # ns)" for w
    by (induction ns arbitrary: w) (auto simp: sp run)
  then show ?thesis using assms by (simp add: Fields_def)
qed

subsection \<open>The loops of load\<close>

lemma collectTargets_set:
  "collectTargets marked sc = Inr ns \<Longrightarrow> n \<in> set ns \<longleftrightarrow>
     (\<exists>name t u. (name, t) \<in> set sc \<and> name \<in> set marked \<and> t = TNamed n u \<and> underlying u = TStruct)"
proof (induction sc arbitrary: ns)
  case (Cons x sc)
  obtain name t where x: "x = (name, t)" by fastforce
  show ?case
  proof (cases "name \<in> set marked \<and> (\<exists>m u. t = TNamed m u)")
    case True
    then obtain m u where t: "name \<in> set marked" "t = TNamed m u" by blast
    then obtain ms where "underlying u = TStruct" "collectTargets marked sc = Inr ms" "ns = m # ms"
      using Cons.prems x by (auto split: if_splits sum.splits)
    then show ?thesis using Cons.IH t x by auto
  next
    case False
    then have "collectTargets marked sc = Inr ns"
      using Cons.prems x by (auto split: if_splits gotype.splits)
    then show ?thesis using Cons.IH False unfolding x by (metis list.set_intros(2) prod.inject set_ConsD)
  qed
qed simp

text \<open>The targets come in the order of the scope, so they are distinct when its names are.\<close>

lemma collectTargets_sub:
  assumes "collectTargets marked sc = Inr ns" and "distinct (map fst sc)"
    and "\<forall>x \<in> set sc. fst x \<in> set marked \<longrightarrow> (\<forall>n u. snd x = TNamed n u \<longrightarrow> n = (pk, fst x))"
  shows "distinct (map snd ns) \<and> (\<forall>n \<in> set ns. fst n = pk \<and> snd n \<in> fst ` set sc)"
  using assms
proof (induction sc arbitrary: ns)
  case (Cons x sc)
  obtain name t where x: "x = (name, t)" by fastforce
  have IH: "distinct (map snd ms) \<and> (\<forall>n \<in> set ms. fst n = pk \<and> snd n \<in> fst ` set sc)"
    if "collectTargets marked sc = Inr ms" for ms
    using Cons.IH [OF that] Cons.prems(2,3) by auto
  show ?case
  proof (cases "name \<in> set marked \<and> (\<exists>m u. t = TNamed m u)")
    case True
    then obtain m u where t: "name \<in> set marked" "t = TNamed m u" by blast
    then obtain ms where "collectTargets marked sc = Inr ms" "ns = m # ms"
      using Cons.prems(1) x by (auto split: if_splits sum.splits)
    moreover have "m = (pk, name)" using Cons.prems(3) x t by (metis fst_conv list.set_intros(1) snd_conv)
    ultimately show ?thesis using IH [of ms] Cons.prems(2) x by auto
  next
    case False
    then have "collectTargets marked sc = Inr ns"
      using Cons.prems(1) x by (auto split: if_splits gotype.splits)
    then show ?thesis using IH [of ns] x by auto
  qed
qed simp

lemma resolveMembers_ok:
  "resolveMembers g tp i iface names = Inr ms \<Longrightarrow>
     (\<forall>m \<in> set ms. isTarget g m \<and> tpImplements tp m iface) \<and>
     list_all2 (\<lambda>name m. \<exists>u. map_of (tpScope tp) name = Some (TNamed m u)) names ms"
  by (induction names arbitrary: ms) (auto split: option.splits gotype.splits if_splits sum.splits)

lemma resolveUnion_ok:
  assumes "resolveUnion g tp d = Inr (iface, ms)"
  shows "\<exists>u. map_of (tpScope tp) (fst d) = Some (TNamed iface u) \<and> underlying u = TInterface"
    and "ms \<noteq> []" and "\<forall>m \<in> set ms. isTarget g m \<and> tpImplements tp m iface"
    and "list_all2 (\<lambda>name m. \<exists>u. map_of (tpScope tp) name = Some (TNamed m u)) (snd d) ms"
proof -
  obtain u where u: "map_of (tpScope tp) (fst d) = Some (TNamed iface u)" "underlying u = TInterface"
      "snd d \<noteq> []" "resolveMembers g tp (fst d) iface (snd d) = Inr ms"
    using assms
    by (auto simp: resolveUnion_def split: option.splits gotype.splits if_splits sum.splits)
  then show "\<exists>u. map_of (tpScope tp) (fst d) = Some (TNamed iface u) \<and> underlying u = TInterface" by auto
  show "\<forall>m \<in> set ms. isTarget g m \<and> tpImplements tp m iface"
    and l: "list_all2 (\<lambda>name m. \<exists>u. map_of (tpScope tp) name = Some (TNamed m u)) (snd d) ms"
    using resolveMembers_ok [OF u(4)] by auto
  show "ms \<noteq> []" using l u(3) by auto
qed

text \<open>The loop over the directives is a fold: it succeeds when each directive resolves.\<close>

lemma resolveLoop_iff:
  "resolveLoop g tp ds us = Inr vs \<longleftrightarrow>
     (\<exists>rs. list_all2 (\<lambda>d r. resolveUnion g tp d = Inr r) ds rs
        \<and> vs = fold (\<lambda>r us. AList.update (fst r) (snd r) us) rs us)"
proof (induction ds arbitrary: us)
  case (Cons d ds)
  show ?case
  proof (cases "resolveUnion g tp d")
    case (Inl e)
    then show ?thesis by (auto simp: list_all2_Cons1)
  next
    case (Inr r)
    then have "resolveLoop g tp (d # ds) us = resolveLoop g tp ds (AList.update (fst r) (snd r) us)"
      by (simp add: split_beta)
    moreover have "(\<exists>rs. list_all2 (\<lambda>d r. resolveUnion g tp d = Inr r) (d # ds) rs \<and> Q rs) \<longleftrightarrow>
        (\<exists>rs. list_all2 (\<lambda>d r. resolveUnion g tp d = Inr r) ds rs \<and> Q (r # rs))" for Q
      unfolding list_all2_Cons1 Inr by blast
    ultimately show ?thesis by (simp add: Cons.IH)
  qed
qed auto

lemma map_of_fold_update:
  "map_of (fold (\<lambda>r us. AList.update (fst r) (snd r) us) rs us) = map_of us ++ map_of (rev rs)"
  by (induction rs arbitrary: us) (auto simp: update_conv' fun_upd_def map_add_def split: option.splits)

lemma set_fold_update:
  "set (fold (\<lambda>r us. AList.update (fst r) (snd r) us) rs us) \<subseteq> set us \<union> set rs"
proof (induction rs arbitrary: us)
  case (Cons r rs)
  have u: "set (AList.update k v us) \<subseteq> insert (k, v) (set us)" for k v
    by (induction us) auto
  have "set (fold (\<lambda>r us. AList.update (fst r) (snd r) us) rs (AList.update (fst r) (snd r) us))
      \<subseteq> set (AList.update (fst r) (snd r) us) \<union> set rs" by (rule Cons.IH)
  also have "\<dots> \<subseteq> set us \<union> set (r # rs)" using u [of "fst r" "snd r"] by auto
  finally show ?case by simp
qed simp

lemma ownedLoop_set:
  "ownedLoop tp ts = Inr os \<Longrightarrow>
     set os \<subseteq> set ts
   \<and> (\<forall>t \<in> set ts. length (filter (List.member codecMethodNames) (tpMethods tp t))
        = (if t \<in> set os then length codecMethodNames else 0))"
proof (induction ts arbitrary: os)
  case (Cons t ts)
  have "length codecMethodNames \<noteq> 0" by (simp add: codecMethodNames_def)
  then show ?case using Cons by (fastforce simp: Let_def split: if_splits sum.splits)
qed simp

subsection \<open>What the type checker guarantees\<close>

text \<open>The names that the type declarations of some files declare.\<close>

definition declTypes :: "astfile \<Rightarrow> string set" where
  "declTypes f = (\<Union>d \<in> set (afDecls f). case d of TypeDecl doc specs \<Rightarrow> tsName ` set specs | OtherDecl \<Rightarrow> {})"

text \<open>
  Documented behaviour of \<open>go/types\<close>: a scope has one object per name; the object of a declared
  type has the defined type (or alias) of that package and name; a type declares a method at
  most once, a struct a field at most once (and exportedness is a matter of the name), the blank
  name \<open>_\<close> apart.
\<close>

definition checkOK :: "string \<Rightarrow> astfile list \<Rightarrow> tpkg \<Rightarrow> bool" where
  "checkOK pk fs tp \<longleftrightarrow>
     distinct (map fst (tpScope tp))
   \<and> (\<forall>x \<in> set (tpScope tp). (\<exists>f \<in> set fs. fst x \<in> declTypes f) \<longrightarrow>
        (\<forall>n u. snd x = TNamed n u \<longrightarrow> n = (pk, fst x)))
   \<and> (\<forall>x \<in> set (tpScope tp). distinct (filter (\<lambda>m. m \<noteq> ''_'') (tpMethods tp (pk, fst x)))
        \<and> distinct (filter (\<lambda>f. f \<noteq> ''_'') (map sfName (tpStructs tp (pk, fst x)))))"

definition checker :: "world \<Rightarrow> bool" where
  "checker w \<longleftrightarrow> (\<forall>pk fs tp. TypeCheck w pk fs = Inr tp \<longrightarrow> checkOK pk fs tp)"

text \<open>Markers and directives come from the type declarations of the parsed files.\<close>

text \<open>The names marked in a file, on the declaration or on the specification.\<close>

definition markedIn :: "astfile \<Rightarrow> string set" where
  "markedIn f = (\<Union>d \<in> set (afDecls f). case d of OtherDecl \<Rightarrow> {} | TypeDecl doc specs \<Rightarrow>
     (\<Union>ts \<in> set specs. if commentHasMarker doc \<or> commentHasMarker (tsDoc ts) then {tsName ts} else {}))"

lemma markedIn_decl: "markedIn f \<subseteq> declTypes f"
  unfolding markedIn_def declTypes_def by (rule UN_mono) (auto split: godecl.splits if_splits)

lemma fold_union:
  "(\<And>x m. h (f x m) = h m \<union> k x) \<Longrightarrow> h (fold f xs m) = h m \<union> (\<Union>x \<in> set xs. k x)"
  by (induction xs arbitrary: m) auto

lemma fold_subset:
  "(\<And>x m. x \<in> set xs \<Longrightarrow> h (f x m) \<subseteq> h m \<union> k x) \<Longrightarrow> h (fold f xs m) \<subseteq> h m \<union> (\<Union>x \<in> set xs. k x)"
proof (induction xs arbitrary: m)
  case (Cons x xs)
  have "h (fold f xs (f x m)) \<subseteq> h (f x m) \<union> (\<Union>x \<in> set xs. k x)"
    by (rule Cons.IH) (use Cons.prems in simp)
  then show ?case using Cons.prems [of x m] by auto
qed simp

lemma collectMarked_set: "set (collectMarked f marked) = set marked \<union> markedIn f"
  unfolding collectMarked_def markedIn_def
proof (rule fold_union [where h = set])
  fix d m
  show "set (case d of OtherDecl \<Rightarrow> m | TypeDecl doc specs \<Rightarrow>
      fold (\<lambda>ts m. if commentHasMarker doc \<or> commentHasMarker (tsDoc ts) then tsName ts # m else m) specs m)
    = set m \<union> (case d of OtherDecl \<Rightarrow> {} | TypeDecl doc specs \<Rightarrow>
      (\<Union>ts \<in> set specs. if commentHasMarker doc \<or> commentHasMarker (tsDoc ts) then {tsName ts} else {}))"
  proof (cases d)
    case (TypeDecl doc specs)
    have "set (fold (\<lambda>ts m. if commentHasMarker doc \<or> commentHasMarker (tsDoc ts) then tsName ts # m else m) specs m)
        = set m \<union> (\<Union>ts \<in> set specs. if commentHasMarker doc \<or> commentHasMarker (tsDoc ts) then {tsName ts} else {})"
      by (rule fold_union [where h = set]) auto
    then show ?thesis using TypeDecl by simp
  qed simp
qed

lemma specUnion_keys: "fst ` set (specUnion doc ts us) \<subseteq> fst ` set us \<union> {tsName ts}"
  by (auto simp: specUnion_def Let_def dom_update split: option.splits)

lemma collectUnions_decl: "fst ` set (collectUnions f us) \<subseteq> fst ` set us \<union> declTypes f"
  unfolding collectUnions_def declTypes_def
proof (rule fold_subset [where h = "\<lambda>us. fst ` set us"])
  fix d us
  show "fst ` set (case d of OtherDecl \<Rightarrow> us | TypeDecl doc specs \<Rightarrow> fold (specUnion doc) specs us)
    \<subseteq> fst ` set us \<union> (case d of TypeDecl doc specs \<Rightarrow> tsName ` set specs | OtherDecl \<Rightarrow> {})"
  proof (cases d)
    case (TypeDecl doc specs)
    have "fst ` set (fold (specUnion doc) specs us) \<subseteq> fst ` set us \<union> (\<Union>ts \<in> set specs. {tsName ts})"
      by (rule fold_subset [where h = "\<lambda>us. fst ` set us"]) (rule specUnion_keys)
    then show ?thesis using TypeDecl by auto
  qed simp
qed

lemma specUnion_distinct: "distinct (map fst us) \<Longrightarrow> distinct (map fst (specUnion doc ts us))"
  by (auto simp: specUnion_def Let_def distinct_update split: option.splits)

lemma collectUnions_distinct:
  "distinct (map fst us) \<Longrightarrow> distinct (map fst (collectUnions f us))"
proof -
  have sp: "distinct (map fst us) \<Longrightarrow> distinct (map fst (fold (specUnion doc) specs us))" for doc specs us
    by (induction specs arbitrary: us) (auto simp: specUnion_distinct)
  have "distinct (map fst us) \<Longrightarrow> distinct (map fst
      (fold (\<lambda>d us. case d of OtherDecl \<Rightarrow> us | TypeDecl doc specs \<Rightarrow> fold (specUnion doc) specs us) ds us))" for ds
    by (induction ds arbitrary: us) (auto simp: sp split: godecl.splits)
  then show "distinct (map fst us) \<Longrightarrow> distinct (map fst (collectUnions f us))"
    by (simp add: collectUnions_def)
qed

text \<open>What holds of the marks and directives collected so far.\<close>

definition parsedOK :: "parsed \<Rightarrow> bool" where
  "parsedOK p \<longleftrightarrow> set (psMarked p) = (\<Union>f \<in> set (psFiles p). markedIn f)
     \<and> fst ` set (psUnions p) \<subseteq> (\<Union>f \<in> set (psFiles p). declTypes f)
     \<and> distinct (map fst (psUnions p))"

lemma parsedOK_step:
  assumes "parsedOK p"
  shows "parsedOK \<lparr>psFiles = psFiles p @ [f], psMarked = collectMarked f (psMarked p),
     psUnions = collectUnions f (psUnions p), psName = nm\<rparr>"
proof -
  have "fst ` set (collectUnions f (psUnions p)) \<subseteq> (\<Union>f \<in> set (psFiles p). declTypes f) \<union> declTypes f"
    using assms unfolding parsedOK_def
    by (elim conjE) (rule subset_trans [OF collectUnions_decl Un_mono [OF _ subset_refl]])
  moreover have "distinct (map fst (collectUnions f (psUnions p)))"
    using assms unfolding parsedOK_def by (elim conjE) (rule collectUnions_distinct)
  moreover have "(\<Union>x \<in> set (psFiles p @ [f]). h x) = (\<Union>x \<in> set (psFiles p). h x) \<union> h f"
    for h :: "astfile \<Rightarrow> string set" by auto
  ultimately show ?thesis using assms unfolding parsedOK_def parsed.simps collectMarked_set by metis
qed

lemma parseEntries_OK: "parseEntries w dir out es p = Inr p' \<Longrightarrow> parsedOK p \<Longrightarrow> parsedOK p'"
  by (induction w dir out es p rule: parseEntries.induct)
    (auto simp: parsedOK_step split: if_splits sum.splits)

lemma parseEntries_files:
  "parseEntries w dir out es p = Inr p' \<Longrightarrow> \<exists>fs. psFiles p' = psFiles p @ fs \<and>
     list_all2 (\<lambda>e f. ParseFile w dir (deName e) = Inr f) (filter (\<lambda>e. \<not> ignored out e) es) fs"
  by (induction w dir out es p rule: parseEntries.induct)
    (fastforce split: if_splits sum.splits)+

lemma noFiles_OK: "parsedOK noFiles"
  by (simp add: parsedOK_def noFiles_def)

subsection \<open>load as a whole\<close>

lemma load_cases:
  assumes "load w dir out path sf = Inr g"
  obtains entries p tp ns us os where
    "ReadDir w dir = Inr entries" "parseEntries w dir out entries noFiles = Inr p" "psFiles p \<noteq> []"
    "TypeCheck w (psName p) (psFiles p) = Inr tp" "collectTargets (psMarked p) (tpScope tp) = Inr ns" "ns \<noteq> []"
    "resolveLoop (newGenerator p tp path sf ns) tp (rangeOrder w (psUnions p)) [] = Inr us"
    "ownedLoop tp (sort_key snd ns) = Inr os"
    "g = (newGenerator p tp path sf ns)\<lparr>unions := us, owned := os\<rparr>"
  using assms
  by (auto simp: load_def resolveUnions_def detectOwned_def newGenerator_def split: sum.splits if_splits)

text \<open>The settings \<open>load\<close> returns, described by the files it parses and the checked package.\<close>

definition loaded :: "world \<Rightarrow> string \<Rightarrow> string \<Rightarrow> generator \<Rightarrow> astfile list \<Rightarrow> tpkg \<Rightarrow> bool" where
  "loaded w dir out g fs tp \<longleftrightarrow>
     (\<exists>es. ReadDir w dir = Inr es \<and>
        list_all2 (\<lambda>e f. ParseFile w dir (deName e) = Inr f) (filter (\<lambda>e. \<not> ignored out e) es) fs)
   \<and> TypeCheck w (pkgName g) fs = Inr tp \<and> structs g = tpStructs tp"

lemma load_facts:
  assumes l: "load w dir out path sf = Inr g" and ck: "checker w"
  obtains fs tp where "loaded w dir out g fs tp" "checkOK (pkgName g) fs tp"
    "sorted (map snd (targets g))" "distinct (map snd (targets g))" "targets g \<noteq> []"
    "\<And>n. n \<in> set (targets g) \<longleftrightarrow> (\<exists>f \<in> set fs. snd n \<in> markedIn f)
        \<and> (\<exists>u. (snd n, TNamed n u) \<in> set (tpScope tp) \<and> underlying u = TStruct)"
    "\<And>n. n \<in> set (targets g) \<Longrightarrow> fst n = pkgName g \<and> snd n \<in> fst ` set (tpScope tp)"
    "\<And>u. u \<in> set (unions g) \<Longrightarrow> snd u \<noteq> [] \<and>
        (\<forall>m \<in> set (snd u). isTarget g m \<and> tpImplements tp m (fst u))"
    "set (owned g) \<subseteq> set (targets g)"
    "\<And>t. t \<in> set (targets g) \<Longrightarrow> length (filter (List.member codecMethodNames) (tpMethods tp t))
        = (if t \<in> set (owned g) then length codecMethodNames else 0)"
    "safe g = sf" "codecPkg g = path"
proof -
  obtain entries p tp ns us os where
    r: "ReadDir w dir = Inr entries" "parseEntries w dir out entries noFiles = Inr p"
    and tc: "TypeCheck w (psName p) (psFiles p) = Inr tp"
    and ns: "collectTargets (psMarked p) (tpScope tp) = Inr ns" "ns \<noteq> []"
    and us: "resolveLoop (newGenerator p tp path sf ns) tp (rangeOrder w (psUnions p)) [] = Inr us"
    and os: "ownedLoop tp (sort_key snd ns) = Inr os"
    and g: "g = (newGenerator p tp path sf ns)\<lparr>unions := us, owned := os\<rparr>"
    using load_cases [OF l] .
  have p: "parsedOK p" using parseEntries_OK [OF r(2) noFiles_OK] .
  have pk: "pkgName g = psName p" "structs g = tpStructs tp" "targets g = sort_key snd ns" "unions g = us"
    "owned g = os" by (simp_all add: g newGenerator_def)
  have c: "checkOK (pkgName g) (psFiles p) tp" using ck tc by (simp add: checker_def pk)
  have scope: "n = (pkgName g, name)" if "(name, TNamed n u) \<in> set (tpScope tp)" "name \<in> set (psMarked p)"
    for name n u
  proof -
    have "set (psMarked p) = (\<Union>f \<in> set (psFiles p). markedIn f)" using p unfolding parsedOK_def by blast
    then have "\<exists>f \<in> set (psFiles p). name \<in> declTypes f" using that(2) markedIn_decl by blast
    then show ?thesis using c that(1) unfolding checkOK_def by fastforce
  qed
  have sub: "distinct (map snd ns) \<and> (\<forall>n \<in> set ns. fst n = pkgName g \<and> snd n \<in> fst ` set (tpScope tp))"
  proof (rule collectTargets_sub [OF ns(1)])
    show "distinct (map fst (tpScope tp))" using c by (simp add: checkOK_def)
    show "\<forall>x \<in> set (tpScope tp). fst x \<in> set (psMarked p) \<longrightarrow>
        (\<forall>n u. snd x = TNamed n u \<longrightarrow> n = (pkgName g, fst x))"
      using scope by (metis prod.collapse)
  qed
  show ?thesis
  proof (rule that)
    have "\<exists>fs. psFiles p = fs \<and> list_all2 (\<lambda>e f. ParseFile w dir (deName e) = Inr f)
        (filter (\<lambda>e. \<not> ignored out e) entries) fs"
      using parseEntries_files [OF r(2)] by (simp add: noFiles_def)
    then show "loaded w dir out g (psFiles p) tp" using r(1) tc by (auto simp: loaded_def pk)
    show "checkOK (pkgName g) (psFiles p) tp" by (rule c)
    show "sorted (map snd (targets g))" by (simp add: pk)
    have "set (map snd (targets g)) = set (map snd ns)" by (simp add: pk)
    then show "distinct (map snd (targets g))"
      using sub by (metis card_distinct distinct_card length_map length_sort pk(3))
    show "targets g \<noteq> []" using ns(2) by (metis length_0_conv length_sort pk(3))
    show "n \<in> set (targets g) \<longleftrightarrow> (\<exists>f \<in> set (psFiles p). snd n \<in> markedIn f)
        \<and> (\<exists>u. (snd n, TNamed n u) \<in> set (tpScope tp) \<and> underlying u = TStruct)" for n
    proof -
      have "n \<in> set (targets g) \<longleftrightarrow> (\<exists>name u. (name, TNamed n u) \<in> set (tpScope tp)
          \<and> name \<in> set (psMarked p) \<and> underlying u = TStruct)"
        using collectTargets_set [OF ns(1), of n] by (auto simp: pk)
      also have "\<dots> \<longleftrightarrow> snd n \<in> set (psMarked p)
          \<and> (\<exists>u. (snd n, TNamed n u) \<in> set (tpScope tp) \<and> underlying u = TStruct)"
        using scope by (metis snd_conv)
      finally show ?thesis using p by (simp add: parsedOK_def)
    qed
    show "fst n = pkgName g \<and> snd n \<in> fst ` set (tpScope tp)" if "n \<in> set (targets g)" for n
      using that sub by (simp add: pk)
    show "snd u \<noteq> [] \<and> (\<forall>m \<in> set (snd u). isTarget g m \<and> tpImplements tp m (fst u))"
      if "u \<in> set (unions g)" for u
    proof -
      obtain rs where rs: "list_all2 (\<lambda>d r. resolveUnion (newGenerator p tp path sf ns) tp d = Inr r)
            (rangeOrder w (psUnions p)) rs"
          "us = fold (\<lambda>r us. AList.update (fst r) (snd r) us) rs []"
        using us unfolding resolveLoop_iff by blast
      then have "u \<in> set rs" using that set_fold_update [of rs "[]"] by (auto simp: pk)
      with rs(1) obtain d where "resolveUnion (newGenerator p tp path sf ns) tp d = Inr (fst u, snd u)"
        by (induction rule: list_all2_induct) auto
      from resolveUnion_ok(2,3) [OF this] show ?thesis by (simp add: isTarget_def g)
    qed
    show "set (owned g) \<subseteq> set (targets g)"
      using ownedLoop_set [OF os] by (auto simp: pk)
    show "length (filter (List.member codecMethodNames) (tpMethods tp t))
        = (if t \<in> set (owned g) then length codecMethodNames else 0)" if "t \<in> set (targets g)" for t
      using ownedLoop_set [OF os] that by (simp add: pk)
    show "safe g = sf" "codecPkg g = path" by (simp_all add: g newGenerator_def)
  qed
qed

end
