(* ===== verification/UnionOrder.thy ===== *)
theory UnionOrder
  imports LoadFacts
begin

text \<open>
  The emitter reads the union registry only by lookup, so two generators whose registries
  have the same lookups generate the same file.
\<close>

definition sameUnions :: "generator \<Rightarrow> generator \<Rightarrow> bool" where
  "sameUnions g h \<longleftrightarrow> h = g\<lparr>unions := unions h\<rparr> \<and> map_of (unions h) = map_of (unions g)"

lemma sameUnions_sel:
  assumes "sameUnions g h"
  shows "targets h = targets g" "owned h = owned g" "structs h = structs g" "safe h = safe g"
    "pkgName h = pkgName g" "codecPkg h = codecPkg g" "unionMembersOf h t = unionMembersOf g t"
    "isTarget h n = isTarget g n" "taggedMembers h t = taggedMembers g t"
proof -
  obtain us where h: "h = g\<lparr>unions := us\<rparr>" "map_of us = map_of (unions g)"
    using assms by (auto simp: sameUnions_def)
  then have u: "unionMembersOf h = unionMembersOf g"
    by (auto simp: unionMembersOf_def fun_eq_iff split: gotype.split)
  show "targets h = targets g" "owned h = owned g" "structs h = structs g" "safe h = safe g"
    "pkgName h = pkgName g" "codecPkg h = codecPkg g" "unionMembersOf h t = unionMembersOf g t"
    "isTarget h n = isTarget g n" "taggedMembers h t = taggedMembers g t"
    by (simp_all add: h u [unfolded h] isTarget_def taggedMembers_def)
qed

lemma supported_same: "sameUnions g h \<Longrightarrow> supported h t = supported g t"
proof (induction g t rule: supported.induct)
  case (1 g t)
  note s = sameUnions_sel [OF 1(6)]
  show ?case
    using 1(1-5) 1(6) by (simp add: supported.simps [of g t] supported.simps [of h t] s
        split: gotype.split option.split)
qed

lemma fieldsLoop_same: "sameUnions g h \<Longrightarrow> fieldsLoop h n fs = fieldsLoop g n fs"
  by (induction fs) (auto simp: supported_same split: option.split sum.split)

lemma fieldsOf_same: "sameUnions g h \<Longrightarrow> fieldsOf h n = fieldsOf g n"
  by (simp add: fieldsOf_def fieldsLoop_same sameUnions_sel)

lemma blittable_same: "sameUnions g h \<Longrightarrow> blittable h n fs = blittable g n fs"
  by (simp add: blittable_def sameUnions_sel)

lemma blitElem_same: "sameUnions g h \<Longrightarrow> blitElem h t = blitElem g t"
  by (simp add: blitElem_def sameUnions_sel fieldsOf_same blittable_same split: gotype.split sum.split)

lemmas same_simps = sameUnions_sel fieldsOf_same blittable_same blitElem_same

lemma sizeExpr_same: "sameUnions g h \<Longrightarrow> sizeExpr h r t s = sizeExpr g r t s"
proof (induction t arbitrary: r s rule: measure_induct_rule [where f = size])
  case (less t)
  note e = sizeExpr.simps [of g r t] sizeExpr.simps [of h r t] same_simps [OF less.prems]
  note IH = less.IH [OF _ less.prems]
  show ?case
    by (cases "underlying t")
      (simp_all add: e IH underlying_size_less [of t] Let_def split_beta split: gotype.split option.split)
qed

lemma marshalExpr_same: "sameUnions g h \<Longrightarrow> marshalExpr h r t s = marshalExpr g r t s"
proof (induction t arbitrary: r s rule: measure_induct_rule [where f = size])
  case (less t)
  note e = marshalExpr.simps [of g r t] marshalExpr.simps [of h r t] same_simps [OF less.prems]
  note IH = less.IH [OF _ less.prems]
  show ?case
    by (cases "underlying t")
      (simp_all add: e IH underlying_size_less [of t] Let_def split_beta split: gotype.split option.split)
qed

lemma appendExpr_same: "sameUnions g h \<Longrightarrow> appendExpr h r t s = appendExpr g r t s"
proof (induction t arbitrary: r s rule: measure_induct_rule [where f = size])
  case (less t)
  note e = appendExpr.simps [of g r t] appendExpr.simps [of h r t] same_simps [OF less.prems]
  note IH = less.IH [OF _ less.prems]
  show ?case
    by (cases "underlying t")
      (simp_all add: e IH underlying_size_less [of t] Let_def split_beta split: gotype.split option.split)
qed

lemma guards_same:
  "sameUnions g h \<Longrightarrow> guardN h n = guardN g n" "sameUnions g h \<Longrightarrow> guardLen h = guardLen g"
  "sameUnions g h \<Longrightarrow> emitVarint h = emitVarint g"
  by (simp_all add: guardN_def guardLen_def emitVarint_def sameUnions_sel)

lemma unmarshalBasic_same: "sameUnions g h \<Longrightarrow> unmarshalBasic h r t k = unmarshalBasic g r t k"
  by (simp add: unmarshalBasic_def guards_same sameUnions_sel split: bkind.split)

lemma unmarshalMembers_same: "sameUnions g h \<Longrightarrow> unmarshalMembers h r ms s = unmarshalMembers g r ms s"
  by (induction ms arbitrary: s) (auto simp: Let_def split_beta sameUnions_sel)

lemma unmarshalExpr_same: "sameUnions g h \<Longrightarrow> unmarshalExpr h r t s = unmarshalExpr g r t s"
proof (induction t arbitrary: r s rule: measure_induct_rule [where f = size])
  case (less t)
  note e = unmarshalExpr.simps [of g r t] unmarshalExpr.simps [of h r t] same_simps [OF less.prems]
    guards_same [OF less.prems] unmarshalBasic_same [OF less.prems] unmarshalMembers_same [OF less.prems]
  note IH = less.IH [OF _ less.prems]
  show ?case
    by (cases "underlying t")
      (simp_all add: e IH underlying_size_less [of t] Let_def split_beta split: gotype.split option.split)
qed

lemma emitCodec_same: "sameUnions g h \<Longrightarrow> emitCodec h n fs s = emitCodec g n fs s"
proof -
  assume a: "sameUnions g h"
  have "sizeExpr h = sizeExpr g" "marshalExpr h = marshalExpr g" "appendExpr h = appendExpr g"
    "unmarshalExpr h = unmarshalExpr g"
    using a by (auto simp: fun_eq_iff sizeExpr_same marshalExpr_same appendExpr_same unmarshalExpr_same)
  then show ?thesis
    using a by (simp add: emitCodec_def emitSize_def emitMarshal_def emitAppend_def emitUnmarshal_def
        emitBlitUnmarshal_def same_simps)
qed

lemma generateLoop_same:
  assumes "sameUnions g h"
  shows "generateLoop h ns s = generateLoop g ns s"
proof (induction ns arbitrary: s)
  case (Cons n ns)
  then show ?case
    by (simp add: same_simps [OF assms] emitCodec_same [OF assms] split_beta split: sum.split)
qed simp

lemma generate_same:
  assumes "sameUnions g h"
  shows "generate h s = generate g s"
  by (simp only: generate_def generateLoop_same [OF assms] sameUnions_sel [OF assms])

end
