(* ===== verification/CodecApi.thy ===== *)
theory CodecApi
  imports Package
begin

text \<open>
  The public helpers of \<open>codec/api.go\<close> over the \<open>Marshaler\<close> and \<open>Unmarshaler\<close> interfaces.  An
  interface value is a value with its method table (\<open>marshaler\<close>, \<open>unmarshaler\<close>); the locales
  state what the interface comments promise, and the helpers are proved once against them.
\<close>

subsection \<open>The interfaces\<close>

record 'a marshaler =
  Size :: "'a \<Rightarrow> int outcome"
  Marshal :: "'a \<Rightarrow> bytes \<Rightarrow> (bytes \<times> int) outcome"
  Append :: "'a \<Rightarrow> gbuf \<Rightarrow> gbuf outcome"

text \<open>\<open>Unmarshal\<close> gets the bytes up to the length of its argument, those between length and
  capacity, and the offset of the argument in the caller's buffer.\<close>

record 'a unmarshaler =
  Unmarshal :: "'a \<Rightarrow> bytes \<Rightarrow> bytes \<Rightarrow> nat \<Rightarrow> ('a \<times> int \<times> cerr option) outcome"

subsection \<open>The helpers\<close>

definition Bytes :: "'a marshaler \<Rightarrow> 'a \<Rightarrow> bytes outcome" where
  "Bytes m x = obind (Size m x) (\<lambda>n.
     if n < 0 then Panic PMake
     else obind (Marshal m x (replicate (nat n) 0)) (\<lambda>(b, k). Ok b))"

text \<open>\<open>buf[:0]\<close> keeps the array and its capacity.\<close>

definition sliceTo0 :: "gbuf \<Rightarrow> gbuf" where
  "sliceTo0 buf = buf\<lparr>gdat := [], gspare := gdat buf @ gspare buf\<rparr>"

definition Into :: "'a marshaler \<Rightarrow> 'a \<Rightarrow> gbuf \<Rightarrow> gbuf outcome" where
  "Into m x buf = Append m x (sliceTo0 buf)"

definition From :: "'a unmarshaler \<Rightarrow> 'a \<Rightarrow> bytes \<Rightarrow> bytes \<Rightarrow> ('a \<times> cerr option) outcome" where
  "From u x b spare = obind (Unmarshal u x b spare 0) (\<lambda>(x', n, err). Ok (x', err))"

subsection \<open>What the interfaces promise\<close>

locale marshaler_spec =
  fixes m :: "'a marshaler" and ok :: "'a \<Rightarrow> bool" and enc :: "'a \<Rightarrow> bytes"
  assumes size_enc: "ok x \<Longrightarrow> Size m x = Ok (int (length (enc x)))"
    and marshal_enc: "ok x \<Longrightarrow> length (enc x) \<le> length b
      \<Longrightarrow> Marshal m x b = Ok (splice 0 (enc x) b, int (length (enc x)))"
    and append_enc: "ok x \<Longrightarrow> \<exists>buf'. Append m x buf = Ok buf' \<and> extends buf (enc x) buf'"
begin

lemma Bytes_enc: "ok x \<Longrightarrow> Bytes m x = Ok (enc x)"
  by (simp add: Bytes_def size_enc marshal_enc splice_whole)

lemma Into_enc:
  assumes "ok x"
  obtains b' where "Into m x buf = Ok b'" "gdat b' = enc x"
    "length (enc x) \<le> length (gdat buf) + length (gspare buf) \<Longrightarrow> gnew b' = gnew buf"
proof -
  obtain b' where b': "Append m x (sliceTo0 buf) = Ok b'" "extends (sliceTo0 buf) (enc x) b'"
    using append_enc assms by blast
  then show ?thesis
    by (intro that [of b']) (auto simp: Into_def sliceTo0_def extends_def)
qed

lemma Bytes_Into: "ok x \<Longrightarrow> \<exists>b'. Into m x buf = Ok b' \<and> Bytes m x = Ok (gdat b')"
  using Into_enc [of x buf] Bytes_enc [of x] by metis

end

locale codec_spec = marshaler_spec m ok enc
  for m :: "'a marshaler" and ok and enc +
  fixes u :: "'a unmarshaler" and dest :: "'a \<Rightarrow> bool" and same :: "'a \<Rightarrow> 'a \<Rightarrow> bool"
  assumes unmarshal_enc: "ok x \<Longrightarrow> dest d
      \<Longrightarrow> \<exists>x'. Unmarshal u d (enc x) spare base = Ok (x', int (length (enc x)), None) \<and> same x x'"
begin

lemma From_Bytes:
  assumes "ok x" "dest d"
  shows "\<exists>b x'. Bytes m x = Ok b \<and> From u d b [] = Ok (x', None) \<and> same x x'"
  using unmarshal_enc [OF assms, of "[]" 0] Bytes_enc [OF assms(1)] by (auto simp: From_def)

lemma From_Into:
  assumes "ok x" "dest d"
  shows "\<exists>b' x'. Into m x buf = Ok b' \<and> From u d (gdat b') (gspare b') = Ok (x', None) \<and> same x x'"
proof -
  obtain b' where "Into m x buf = Ok b'" "gdat b' = enc x" using Into_enc [OF assms(1)] by metis
  then show ?thesis
    using unmarshal_enc [OF assms, of "gspare b'" 0] by (auto simp: From_def)
qed

end

subsection \<open>Generated codecs are marshalers\<close>

definition genMarshaler :: "menv \<Rightarrow> tname \<Rightarrow> val marshaler" where
  "genMarshaler M n = \<lparr>Size = mSize M n, Marshal = mMarshal M n, Append = mAppend M n\<rparr>"

definition genOK :: "ctx \<Rightarrow> gstate \<Rightarrow> genfile \<Rightarrow> uwire \<Rightarrow> menv \<Rightarrow> nat \<Rightarrow> tname \<Rightarrow> val \<Rightarrow> bool" where
  "genOK c gs gf ow U d n v \<longleftrightarrow>
     wfGen (cGen c) \<and> generate (cGen c) gs = Inr gf \<and> ownedOK c ow U \<and> isTarget (cGen c) n
     \<and> wt (cGen c) (cArch c) (TNamed n TStruct) v \<and> sdepth v \<le> d"

lemma genOK_D:
  assumes "genOK c gs gf ow U d n v"
  shows "sizeOK c ow (methods c (map_of (gfCodecs gf)) U d) n v"
    "marshalOK c ow (methods c (map_of (gfCodecs gf)) U d) n v"
    "appendOK c ow (methods c (map_of (gfCodecs gf)) U d) n v"
proof -
  have "encOK c ow (methods c (map_of (gfCodecs gf)) U d) d"
    using assms methods_encOK unfolding genOK_def by blast
  note D = encOK_D [OF this, of n v]
  show "sizeOK c ow (methods c (map_of (gfCodecs gf)) U d) n v"
    "marshalOK c ow (methods c (map_of (gfCodecs gf)) U d) n v"
    "appendOK c ow (methods c (map_of (gfCodecs gf)) U d) n v"
    using D assms by (simp_all add: genOK_def)
qed

interpretation gen: marshaler_spec
  "genMarshaler (methods c (map_of (gfCodecs gf)) U d) n" "genOK c gs gf ow U d n"
  "wire (cGen c) (cArch c) ow (TNamed n TStruct)"
  for c gs gf ow U d n
proof unfold_locales
  fix x b
  assume ok: "genOK c gs gf ow U d n x"
  note D = genOK_D [OF ok]
  show "Size (genMarshaler (methods c (map_of (gfCodecs gf)) U d) n) x
      = Ok (int (length (wire (cGen c) (cArch c) ow (TNamed n TStruct) x)))"
    using D(1) by (simp add: genMarshaler_def sizeOK_def)
  show "Marshal (genMarshaler (methods c (map_of (gfCodecs gf)) U d) n) x b
      = Ok (splice 0 (wire (cGen c) (cArch c) ow (TNamed n TStruct) x) b,
            int (length (wire (cGen c) (cArch c) ow (TNamed n TStruct) x)))"
    if "length (wire (cGen c) (cArch c) ow (TNamed n TStruct) x) \<le> length b"
    using D(2) that by (simp add: genMarshaler_def marshalOK_def Let_def)
next
  fix x b
  assume ok: "genOK c gs gf ow U d n x"
  show "\<exists>b'. Append (genMarshaler (methods c (map_of (gfCodecs gf)) U d) n) x b = Ok b'
      \<and> extends b (wire (cGen c) (cArch c) ow (TNamed n TStruct) x) b'"
    using genOK_D(3) [OF ok] by (simp add: genMarshaler_def appendOK_def)
qed

end
