(* ===== verification/Memory.thy ===== *)
theory Memory
  imports Layout
begin

text \<open>
  Reading back memory images: the bytes a fast-mode copy moves determine the value, so
  copying them over other values of the same type reproduces the originals.
\<close>

subsection \<open>Words from their bytes\<close>

lemma le_bytes_Suc: "le_bytes (Suc n) v = ucast v # le_bytes n (drop_bit 8 v)"
  by (simp add: le_bytes_def upt_conv_Cons map_Suc_upt [symmetric] add.commute del: upt_Suc)

definition le_val :: "bytes \<Rightarrow> nat" where
  "le_val bs = foldr (\<lambda>b n. unat b + 256 * n) bs 0"

lemma le_val_le_bytes: "le_val (le_bytes n v) = unat v mod 256 ^ n"
proof (induction n arbitrary: v)
  case 0
  then show ?case by (simp add: le_val_def le_bytes_def)
next
  case (Suc n)
  have "unat (ucast v :: byte) = unat v mod 256" by (simp add: unsigned_ucast_eq take_bit_eq_mod)
  moreover have "unat (drop_bit 8 v) = unat v div 256"
    unfolding unat_drop_bit_eq by (simp add: drop_bit_eq_div)
  ultimately show ?case
    using Suc.IH [of "drop_bit 8 v"] by (simp add: le_val_def le_bytes_Suc mod_mult2_eq)
qed

lemma word_of_le_bytes: "LENGTH('a) \<le> 8 * n \<Longrightarrow> word_of_le (le_bytes n (v :: 'a::len word)) = v"
proof -
  assume "LENGTH('a) \<le> 8 * n"
  have "unat v < 2 ^ LENGTH('a)" by (rule unsigned_less)
  also have "(2 :: nat) ^ LENGTH('a) \<le> 2 ^ (8 * n)" using \<open>LENGTH('a) \<le> 8 * n\<close> by (intro power_increasing) simp_all
  also have "(2 :: nat) ^ (8 * n) = 256 ^ n" by (simp add: power_mult)
  finally have "unat v < 256 ^ n" .
  then show ?thesis using le_val_le_bytes [of n v] by (simp add: word_of_le_def le_val_def)
qed

lemma word_of_le_trunc: "word_of_le (le_bytes n (v :: 'a::len word)) = (word_of_nat (unat v mod 256 ^ n) :: 'a word)"
  using le_val_le_bytes [of n v] by (simp add: word_of_le_def le_val_def)

lemma word_of_le_single: "word_of_le [w] = (w :: byte)"
  by (simp add: word_of_le_def)

lemma uint_of_le: "uint (word_of_le (le_bytes n v) :: u64) = take_bit (8 * n) (uint (v :: u64))"
proof -
  have "uint (word_of_le (le_bytes n v) :: u64) = int (unat v mod 256 ^ n)"
    by (simp add: word_of_le_trunc unsigned_of_nat take_bit_nat_eq_self
        less_le_trans [OF le_less_trans [OF mod_less_eq_dividend unsigned_less]])
  then show ?thesis by (simp add: take_bit_eq_mod power_mult of_nat_mod)
qed

lemma word_of_le_take: "word_of_le (le_bytes n (v :: u64)) = take_bit (8 * n) v"
  by (rule word_uint_eqI) (simp add: uint_of_le unsigned_take_bit_eq)

lemma archBytes_archBytes [simp]: "archBytes A (archBytes A bs) = bs"
  by (simp add: archBytes_def)

lemma length_archBytes [simp]: "length (archBytes A bs) = length bs"
  by (simp add: archBytes_def)

lemma goInt_len: "archOK A \<Longrightarrow> lenOK A n \<Longrightarrow> goInt A (of_nat n) = int n"
proof -
  assume A: "archOK A" and n: "lenOK A n"
  have w: "8 * wsize A - 1 < 64" "8 * wsize A - 1 \<le> 63" using A by (auto simp: archOK_def)
  have "n < 2 ^ 63" using n power_increasing [OF w(2), of "2::nat"] by (simp add: lenOK_def)
  then have u: "uint (of_nat n :: u64) = int n"
    by (simp add: unsigned_of_nat take_bit_nat_eq_self)
  have "int n < 2 ^ (8 * wsize A - 1)" using n by (simp add: lenOK_def)
  moreover have "- (2 ^ (8 * wsize A - 1)) \<le> int n"
    using zero_le_power [of "2 :: int" "8 * wsize A - 1"] by linarith
  ultimately show ?thesis unfolding goInt_def u by (intro signed_take_bit_int_eq_self)
qed

lemma unat_len: "archOK A \<Longrightarrow> lenOK A n \<Longrightarrow> unat (of_nat n :: u64) = n"
proof -
  assume A: "archOK A" and n: "lenOK A n"
  have w: "8 * wsize A - 1 \<le> 63" using A by (auto simp: archOK_def)
  have "n < 2 ^ 64" using n power_increasing [OF w, of "2::nat"] by (simp add: lenOK_def)
  then show ?thesis by (simp add: unsigned_of_nat take_bit_nat_eq_self)
qed

subsection \<open>Fixed-width values\<close>

lemma basicRead_image:
  assumes "archOK A" "basicFixedWidth k" "wtBasic A k v" "\<not> isTime t" "underlying t = TBasic k"
  shows "basicRead A k (memImage A t v @ r) = v"
proof -
  have A: "wsize A = 4 \<or> wsize A = 8" using assms(1) by (simp add: archOK_def)
  have m: "fwSize A t = basicMem A k" by (simp add: fwSize.simps [of A t] assms)
  show ?thesis
  proof (cases "k = KInt \<or> k = KUint")
    case True
    then obtain w where v: "v = V64 w" using assms(3) by (auto simp: wtBasic_def split: val.splits)
    show ?thesis using True assms(3) A
      by (auto simp: v wtBasic_def basicRead_def m basicMem_def Let_def
          word_of_le_take unsigned_take_bit_eq signed_take_bit_take_bit)
  next
    case False
    then show ?thesis using assms(2,3)
      by (cases k; cases v)
        (auto simp: basicFixedWidth_def wtBasic_def basicRead_def m basicMem_def basicFixedSize_def
          Let_def word_of_le_bytes archBytes_def word_of_le_single)
  qed
qed

lemma memRead_image:
  assumes A: "archOK A"
  shows "isFixedWidth t \<Longrightarrow> wt g A t v \<Longrightarrow> memRead A t (memImage A t v @ r) = v"
proof (induction t arbitrary: v r rule: isFixedWidth.induct)
  case (1 t)
  have nt: "\<not> isTime t" using 1(2) by (auto simp: isFixedWidth.simps [of t])
  show ?case
  proof (cases "underlying t")
    case (TBasic k)
    have "basicFixedWidth k" "wtBasic A k v"
      using 1(2,3) nt TBasic by (simp_all add: isFixedWidth.simps [of t] wt.simps [of g A t])
    then show ?thesis using basicRead_image [OF A _ _ nt TBasic] TBasic by (simp add: memRead.simps [of A t])
  next
    case (TArray n e)
    have e: "isFixedWidth e" using 1(2) nt TArray by (simp add: isFixedWidth.simps [of t])
    obtain xs where v: "v = VArr xs" "length xs = n" "\<forall>x \<in> set xs. wt g A e x"
      using 1(3) nt TArray by (auto simp: wt.simps [of g A t] split: val.splits)
    have "memRead A e (drop (k * fwSize A e) (concat (map (memImage A e) xs) @ r)) = xs ! k"
      if "k < length xs" for k
      using that v(3)
    proof (induction xs arbitrary: k)
      case (Cons x xs)
      have "length (memImage A e x) = fwSize A e" using length_memImage [OF e, of g A] Cons.prems by simp
      then show ?case using Cons 1(1) [OF nt TArray e] by (cases k) simp_all
    qed simp
    then have "map (\<lambda>k. memRead A e (drop (k * fwSize A e) (concat (map (memImage A e) xs) @ r))) [0..<n] = xs"
      using v(2) by (intro nth_equalityI) simp_all
    then show ?thesis using TArray v(1) by (simp add: memRead.simps [of A t])
  qed (use 1(2) nt in \<open>auto simp: isFixedWidth.simps [of t]\<close>)
qed

subsection \<open>Structs and elements\<close>

lemma fieldOffsets_read:
  assumes "length ts = length vs"
    and "\<And>t v r. (t, v) \<in> set (zip ts vs) \<Longrightarrow> length (memImage A t v) = fwSize A t
           \<and> memRead A t (memImage A t v @ r) = v"
    and "length p = off"
  shows "map2 (\<lambda>u o'. memRead A u (drop o' (p @ fieldsImage A off ts vs @ r))) ts (fieldOffsets A off ts) = vs"
  using assms
proof (induction ts vs arbitrary: off p rule: list_induct2)
  case (Cons t ts v vs)
  let ?o = "alignUp off (fwAlign A t)"
  have len: "length (memImage A t v) = fwSize A t" and rd: "\<And>r. memRead A t (memImage A t v @ r) = v"
    using Cons.prems(1) [of t v] by simp_all
  have o: "off \<le> ?o" by (simp add: alignUp_ge)
  let ?p = "p @ padding A off ?o @ memImage A t v"
  have "length ?p = ?o + fwSize A t" using Cons.prems(2) o len by simp
  then have "map2 (\<lambda>u o'. memRead A u (drop o' (?p @ fieldsImage A (?o + fwSize A t) ts vs @ r))) ts
      (fieldOffsets A (?o + fwSize A t) ts) = vs"
    using Cons.prems(1) by (intro Cons.IH) auto
  moreover have "drop ?o (p @ padding A off ?o @ memImage A t v @ fieldsImage A (?o + fwSize A t) ts vs @ r)
      = memImage A t v @ fieldsImage A (?o + fwSize A t) ts vs @ r"
    using Cons.prems(2) o by simp
  ultimately show ?case using rd by (simp add: Let_def)
qed simp

lemma structRead_image:
  assumes A: "archOK A" and b: "isBlit g n" and v: "wt g A (TNamed n u) v" "underlying u = TStruct"
    "\<not> isTime (TNamed n u)"
  shows "structRead g A n (structImage g A n v @ r) = v"
proof -
  obtain fs where fs: "v = VStruct fs" "map fst fs = map sfName (structs g n)"
    and w: "\<And>f x. (f, x) \<in> set (zip (structs g n) fs) \<Longrightarrow> skipped f \<or> wt g A (sfType f) (snd x)"
    using wt_struct [OF v] by metis
  let ?ts = "structTypes g n" and ?vs = "map snd fs"
  let ?bs = "structImage g A n v @ r"
  have len: "length fs = length (structs g n)" using fs(2) by (metis length_map)
  have e: "map2 (\<lambda>u o'. memRead A u (drop o' ([] @ fieldsImage A 0 ?ts ?vs @ q))) ?ts (fieldOffsets A 0 ?ts) = ?vs" for q
  proof (rule fieldOffsets_read)
    fix t x q
    assume "(t, x) \<in> set (zip ?ts ?vs)"
    then obtain f y where f: "(f, y) \<in> set (zip (structs g n) fs)" "t = sfType f" "x = snd y"
      by (auto simp: structTypes_def zip_map_map)
    then have "isFixedWidth t" "wt g A t x"
      using w [OF f(1)] isBlit_fields(4) [OF b set_zip_leftD [OF f(1)]] by auto
    then show "length (memImage A t x) = fwSize A t \<and> memRead A t (memImage A t x @ q) = x"
      using length_memImage memRead_image [OF A] by blast
  qed (simp_all add: structTypes_def len)
  have bs: "?bs = fieldsImage A 0 ?ts ?vs @ padding A (fieldsEnd A 0 ?ts) (structSize A ?ts) @ r"
    by (simp add: structImage_def fs(1) Let_def)
  have "map2 (\<lambda>f o'. memRead A (sfType f) (drop o' ?bs)) (structs g n) (fieldOffsets A 0 ?ts) = ?vs"
    using e [of "padding A (fieldsEnd A 0 ?ts) (structSize A ?ts) @ r"]
    unfolding bs by (simp add: structTypes_def zip_map1 comp_def case_prod_beta' cong: map_cong)
  moreover have l: "length (fieldOffsets A off ts) = length ts" for off ts
    by (induction ts arbitrary: off) (simp_all add: Let_def)
  ultimately have "memRead A (sfType (structs g n ! i)) (drop (fieldOffsets A 0 ?ts ! i) ?bs) = snd (fs ! i)"
    if "i < length fs" for i
    using that len by (auto simp: structTypes_def list_eq_iff_nth_eq simp del: drop_append)
  then have "map2 (\<lambda>f o'. (sfName f, memRead A (sfType f) (drop o' ?bs))) (structs g n) (fieldOffsets A 0 ?ts)
      = zip (map sfName (structs g n)) ?vs"
    using len l by (intro nth_equalityI) (simp_all add: structTypes_def del: drop_append)
  also have "\<dots> = fs" unfolding fs(2) [symmetric] by (rule zip_map_fst_snd)
  finally show ?thesis by (simp add: structRead_def fs(1) del: drop_append)
qed

text \<open>The element types that fast mode copies in bulk.\<close>

definition copyElem :: "generator \<Rightarrow> gotype \<Rightarrow> bool" where
  "copyElem g e \<longleftrightarrow> (\<not> safe g \<and> memCopyable e)
     \<or> (\<exists>n u. e = TNamed n u \<and> underlying u = TStruct \<and> isBlit g n \<and> \<not> isTime e)"

lemma elem_image:
  assumes A: "archOK A" and c: "copyElem g e" and x: "wt g A e x"
  shows "length (elemImage g A e x) = elemSize g A e" and "elemRead g A e (elemImage g A e x @ r) = x"
proof -
  have "length (elemImage g A e x) = elemSize g A e \<and> elemRead g A e (elemImage g A e x @ r) = x"
  proof (cases "\<not> safe g \<and> memCopyable e")
    case True
    then have "underlying e \<noteq> TStruct" by (auto simp: memCopyable.simps [of e] split: if_splits)
    then show ?thesis
      using memCopyable_isFixedWidth True length_memImage [of e g A x] memRead_image [OF A, of e g x] x
      by (simp add: elemImage_def elemSize_def elemRead_def isStructType_def)
  next
    case False
    then obtain n u where n: "e = TNamed n u" "underlying u = TStruct" "isBlit g n" "\<not> isTime e"
      using c by (auto simp: copyElem_def)
    then show ?thesis
      using length_structImage [of g n A u x] structRead_image [OF A n(3), of u x] x
      by (simp add: elemImage_def elemSize_def elemRead_def isStructType_def tnameOf_def)
  qed
  then show "length (elemImage g A e x) = elemSize g A e" "elemRead g A e (elemImage g A e x @ r) = x" by auto
qed

lemma elemsRead_image:
  assumes A: "archOK A" and c: "copyElem g e" and x: "\<forall>x \<in> set xs. wt g A e x"
  shows "map (\<lambda>k. elemRead g A e (drop (k * elemSize g A e) (concat (map (elemImage g A e) xs) @ r))) [0..<length xs]
    = xs"
  using x
proof (induction xs)
  case (Cons x xs)
  note el = elem_image [OF A c]
  have "map (\<lambda>k. elemRead g A e (drop (Suc k * elemSize g A e)
      (elemImage g A e x @ concat (map (elemImage g A e) xs) @ r))) [0..<length xs] = xs"
    using Cons el(1) [of x] by simp
  then show ?case using Cons.prems el
    by (simp add: upt_conv_Cons map_Suc_upt [symmetric] comp_def del: upt_Suc)
qed simp

text \<open>Copying the image of \<open>xs\<close> over as many elements of the same type yields \<open>xs\<close>.\<close>

lemma elemsSet_image:
  assumes A: "archOK A" and c: "copyElem g e" and x: "\<forall>x \<in> set xs. wt g A e x"
    and y: "\<forall>y \<in> set ys. wt g A e y" and l: "length ys = length xs"
  shows "elemsSet g A e ys (concat (map (elemImage g A e) xs)) = xs"
proof -
  have len: "length (concat (map (elemImage g A e) zs)) = length zs * elemSize g A e"
    if "\<forall>z \<in> set zs. wt g A e z" for zs
    using that elem_image(1) [OF A c] by (intro length_concat_const) auto
  show ?thesis
    using elemsRead_image [OF A c x, of "[]"] len [OF x] len [OF y] l
    by (simp add: elemsSet_def Let_def)
qed

end
