(* ===== verification/RecordCodec.thy ===== *)
theory RecordCodec
  imports CodecApi Memory
begin

text \<open>
  The hand-written codec of \<open>codec/record.go\<close>, the exemplar the generator's output mirrors:
  \<open>Record\<close> and its four methods, statement by statement.
\<close>

subsection \<open>The struct\<close>

text \<open>A slice: nil, or its origin, elements and spare elements up to the capacity.\<close>

datatype 'a gslice = NilS | Sl (sOrg: origin) (sElems: "'a list") (sRest: "'a list")

definition elems :: "'a gslice \<Rightarrow> 'a list" where
  "elems s = (case s of NilS \<Rightarrow> [] | Sl p xs ys \<Rightarrow> xs)"

definition slack :: "'a gslice \<Rightarrow> 'a list" where
  "slack s = (case s of NilS \<Rightarrow> [] | Sl p xs ys \<Rightarrow> ys)"

record Record =
  ID :: u64
  Score :: float64
  Active :: bool
  Name :: gview
  Tags :: "u32 gslice"
  Blob :: "byte gslice"

text \<open>The memory of a \<open>[]uint32\<close>, and what a copy over its first bytes leaves in it.\<close>

definition tagMem :: "arch \<Rightarrow> u32 list \<Rightarrow> bytes" where
  "tagMem A ts = concat (map (\<lambda>t. archBytes A (le_bytes 4 t)) ts)"

definition tagRead :: "arch \<Rightarrow> nat \<Rightarrow> bytes \<Rightarrow> u32 list" where
  "tagRead A n bs = map (\<lambda>k. word_of_le (archBytes A (take 4 (drop (4 * k) bs)))) [0..<n]"

definition tagSet :: "arch \<Rightarrow> u32 list \<Rightarrow> bytes \<Rightarrow> u32 list" where
  "tagSet A ts src =
     (let old = tagMem A ts in tagRead A (length ts) (take (length old) (src @ drop (length src) old)))"

subsection \<open>Slicing and copying\<close>

definition sliceFrom :: "bytes \<Rightarrow> int \<Rightarrow> bytes outcome" where
  "sliceFrom b i = (if 0 \<le> i \<and> i \<le> int (length b) then Ok (drop (nat i) b) else Panic PSlice)"

definition sliceRange :: "bytes \<Rightarrow> bytes \<Rightarrow> int \<Rightarrow> int \<Rightarrow> bytes outcome" where
  "sliceRange b spare i j =
     (if 0 \<le> i \<and> i \<le> j \<and> j \<le> int (length b + length spare)
      then Ok (take (nat (j - i)) (drop (nat i) (b @ spare))) else Panic PSlice)"

text \<open>\<open>i += f(b[i:])\<close> for an \<open>f\<close> that writes into its argument and returns a count.\<close>

definition onTail :: "bytes \<Rightarrow> int \<Rightarrow> (bytes \<Rightarrow> (bytes \<times> nat) outcome) \<Rightarrow> (bytes \<times> int) outcome" where
  "onTail b i f = obind (sliceFrom b i) (\<lambda>t. obind (f t) (\<lambda>(t', k).
     Ok (take (nat i) b @ t', i + int k)))"

definition putU64At :: "u64 \<Rightarrow> bytes \<Rightarrow> (bytes \<times> nat) outcome" where
  "putU64At v t = obind (PutU64 t v) (\<lambda>t'. Ok (t', 8))"

definition setByte :: "bytes \<Rightarrow> nat \<Rightarrow> byte \<Rightarrow> bytes outcome" where
  "setByte b i w = (if i < length b then Ok (b[i := w]) else Panic PIndex)"

definition goCopy :: "bytes \<Rightarrow> bytes \<Rightarrow> (bytes \<times> nat) outcome" where
  "goCopy src t = (let k = min (length t) (length src) in Ok (splice 0 (take k src) t, k))"

subsection \<open>The methods\<close>

definition Record_Size :: "Record \<Rightarrow> int outcome" where
  "Record_Size r = Ok (int (8 + 8 + 1
     + (UvarintSize (of_nat (length (vdat (Name r)))) + length (vdat (Name r)))
     + (UvarintSize (of_nat (length (elems (Tags r)))) + 4 * length (elems (Tags r)))
     + (UvarintSize (of_nat (length (elems (Blob r)))) + length (elems (Blob r)))))"

definition Record_Marshal :: "arch \<Rightarrow> Record \<Rightarrow> bytes \<Rightarrow> (bytes \<times> int) outcome" where
  "Record_Marshal A r b =
     obind (onTail b 0 (putU64At (ID r))) (\<lambda>(b, _).
     obind (onTail b 8 (putU64At (F64bits (Score r)))) (\<lambda>(b, _).
     obind (setByte b 16 (if Active r then 1 else 0)) (\<lambda>b.
     obind (onTail b 17 (\<lambda>t. PutUvarint t (of_nat (length (vdat (Name r)))))) (\<lambda>(b, i).
     obind (onTail b i (goCopy (vdat (S2B (Name r))))) (\<lambda>(b, i).
     obind (onTail b i (\<lambda>t. PutUvarint t (of_nat (length (elems (Tags r)))))) (\<lambda>(b, i).
     obind (if 0 < length (elems (Tags r)) then onTail b i (goCopy (tagMem A (elems (Tags r))))
            else Ok (b, i)) (\<lambda>(b, i).
     obind (onTail b i (\<lambda>t. PutUvarint t (of_nat (length (elems (Blob r)))))) (\<lambda>(b, i).
     onTail b i (goCopy (elems (Blob r)))))))))))"

definition Record_Append :: "arch \<Rightarrow> growth \<Rightarrow> Record \<Rightarrow> gbuf \<Rightarrow> gbuf outcome" where
  "Record_Append A gr r b =
     (let b = AppendU64 gr b (ID r);
          b = AppendU64 gr b (F64bits (Score r));
          b = gappend gr b [if Active r then 1 else 0];
          b = AppendUvarint gr b (of_nat (length (vdat (Name r))));
          b = gappend gr b (vdat (Name r));
          b = AppendUvarint gr b (of_nat (length (elems (Tags r))));
          b = (if 0 < length (elems (Tags r)) then gappend gr b (tagMem A (elems (Tags r))) else b);
          b = AppendUvarint gr b (of_nat (length (elems (Blob r))))
      in Ok (gappend gr b (elems (Blob r))))"

text \<open>\<open>r.Tags\<close> is resliced when its capacity allows, otherwise made; then filled by one copy.
  Go's panic for a count that \<open>int\<close> cannot hold comes from \<open>make\<close> or from the slice bound.\<close>

definition reuseTags :: "arch \<Rightarrow> u32 gslice \<Rightarrow> u64 \<Rightarrow> u32 gslice outcome" where
  "reuseTags A ts n =
     (if goInt A n \<le> int (length (elems ts @ slack ts))
      then if unat n \<le> length (elems ts @ slack ts)
           then Ok (case ts of NilS \<Rightarrow> NilS | Sl p xs ys \<Rightarrow>
             Sl p (take (unat n) (xs @ ys)) (drop (unat n) (xs @ ys)))
           else Panic PSlice
      else if uint n = goInt A n then Ok (Sl Own (replicate (unat n) 0) []) else Panic PMake)"

definition decodeTags ::
  "arch \<Rightarrow> u32 gslice \<Rightarrow> u64 \<Rightarrow> bytes \<Rightarrow> bytes \<Rightarrow> int \<Rightarrow> (u32 gslice \<times> int) outcome" where
  "decodeTags A ts n b spare i =
     (if n = 0 then Ok (NilS, i)
      else obind (reuseTags A ts n) (\<lambda>ts.
        case ts of
          Sl p (x # xs) ys \<Rightarrow>
            obind (sliceRange b spare i (i + 4 * goInt A n)) (\<lambda>src.
              Ok (Sl p (tagSet A (x # xs) src) ys, i + 4 * goInt A n))
        | _ \<Rightarrow> Panic PIndex))"

definition Record_Unmarshal ::
  "arch \<Rightarrow> Record \<Rightarrow> bytes \<Rightarrow> bytes \<Rightarrow> nat \<Rightarrow> (Record \<times> int \<times> cerr option) outcome" where
  "Record_Unmarshal A r b spare base =
     obind (obind (sliceFrom b 0) U64) (\<lambda>id.
     obind (obind (sliceFrom b 8) U64) (\<lambda>sc.
     obind (if 16 < length b then Ok (b ! 16) else Panic PIndex) (\<lambda>fl.
     obind (sliceFrom b 17) (\<lambda>t. let (n, c) = Uvarint t; i = 17 + c in
     obind (sliceRange b spare i (i + goInt A n)) (\<lambda>name. let i1 = i + goInt A n in
     obind (sliceFrom b i1) (\<lambda>t. let (n2, c2) = Uvarint t in
     obind (decodeTags A (Tags r) n2 b spare (i1 + c2)) (\<lambda>(tags, i2).
     obind (sliceFrom b i2) (\<lambda>t. let (n3, c3) = Uvarint t; i3 = i2 + c3 in
     obind (sliceRange b spare i3 (i3 + goInt A n3)) (\<lambda>blob.
       Ok (\<lparr>ID = id, Score = Bitsf64 sc, Active = (fl \<noteq> 0),
            Name = B2S \<lparr>vorg = Input (base + nat i), vdat = name\<rparr>, Tags = tags,
            Blob = Sl (Input (base + nat i3)) blob (drop (nat (i3 + goInt A n3)) (b @ spare))\<rparr>,
           i3 + goInt A n3, None))))))))))"

subsection \<open>The encoding and the writers\<close>

definition recordEnc :: "arch \<Rightarrow> Record \<Rightarrow> bytes" where
  "recordEnc A r =
     le_bytes 8 (ID r) @ le_bytes 8 (F64bits (Score r)) @ [if Active r then 1 else 0]
     @ lenPrefix (length (vdat (Name r))) @ vdat (Name r)
     @ lenPrefix (length (elems (Tags r))) @ tagMem A (elems (Tags r))
     @ lenPrefix (length (elems (Blob r))) @ elems (Blob r)"

text \<open>Every length fits in an \<open>int\<close>, as it does for slices that exist.\<close>

definition recordOK :: "arch \<Rightarrow> Record \<Rightarrow> bool" where
  "recordOK A r \<longleftrightarrow> archOK A \<and> lenOK A (length (vdat (Name r))) \<and> lenOK A (4 * length (elems (Tags r)))
     \<and> lenOK A (length (elems (Blob r)))"

definition recordSame :: "Record \<Rightarrow> Record \<Rightarrow> bool" where
  "recordSame r r' \<longleftrightarrow> ID r' = ID r \<and> Score r' = Score r \<and> Active r' = Active r
     \<and> vdat (Name r') = vdat (Name r) \<and> elems (Tags r') = elems (Tags r)
     \<and> elems (Blob r') = elems (Blob r)"

lemma length_tagMem [simp]: "length (tagMem A ts) = 4 * length ts"
  by (simp add: tagMem_def length_concat_const)

lemma length_recordEnc:
  "Record_Size r = Ok (int (length (recordEnc A r)))"
  by (simp add: Record_Size_def recordEnc_def length_lenPrefix)

text \<open>Writing at the end of what has been written of a buffer.\<close>

lemma splice_snoc:
  "length (w @ bs) \<le> length b \<Longrightarrow> splice (length w) bs (splice 0 w b) = splice 0 (w @ bs) b"
  using splice_splice [of 0 w bs b] by simp

lemma onTail_splice:
  assumes "length (w @ bs) \<le> length b"
    and "\<And>t. length bs \<le> length t \<Longrightarrow> f t = Ok (splice 0 bs t, length bs)"
  shows "onTail (splice 0 w b) (int (length w)) f = Ok (splice 0 (w @ bs) b, int (length (w @ bs)))"
proof -
  have l: "length w \<le> length (splice 0 w b)" using assms(1) by simp
  have "length bs \<le> length (drop (length w) (splice 0 w b))" using assms(1) by simp
  then show ?thesis
    using assms(2) splice_drop [OF l, of bs] splice_snoc [OF assms(1)] l
    by (simp add: onTail_def sliceFrom_def)
qed

lemma setByte_splice:
  "length (w @ [x]) \<le> length b \<Longrightarrow> setByte (splice 0 w b) (length w) x = Ok (splice 0 (w @ [x]) b)"
  using splice_snoc [of w "[x]" b] splice_single [of "length w" "splice 0 w b" x] by (simp add: setByte_def)

lemma putU64At_ok: "8 \<le> length t \<Longrightarrow> putU64At v t = Ok (splice 0 (le_bytes 8 v) t, 8)"
  by (simp add: putU64At_def PutU64_ok)

lemma goCopy_ok: "length bs \<le> length t \<Longrightarrow> goCopy bs t = Ok (splice 0 bs t, length bs)"
  by (simp add: goCopy_def Let_def min_absorb2)

lemma putUvarint_ok:
  "length (lenPrefix n) \<le> length t \<Longrightarrow> PutUvarint t (of_nat n) = Ok (splice 0 (lenPrefix n) t, length (lenPrefix n))"
  by (simp add: PutUvarint_ok lenPrefix_def length_uvarint_bytes)

lemma record_marshal:
  assumes "length (recordEnc A r) \<le> length b"
  shows "Record_Marshal A r b = Ok (splice 0 (recordEnc A r) b, int (length (recordEnc A r)))"
proof -
  define w1 where "w1 = le_bytes 8 (ID r)"
  define w2 where "w2 = w1 @ le_bytes 8 (F64bits (Score r))"
  define w3 where "w3 = w2 @ [if Active r then 1 else 0]"
  define w4 where "w4 = w3 @ lenPrefix (length (vdat (Name r)))"
  define w5 where "w5 = w4 @ vdat (Name r)"
  define w6 where "w6 = w5 @ lenPrefix (length (elems (Tags r)))"
  define w7 where "w7 = w6 @ tagMem A (elems (Tags r))"
  define w8 where "w8 = w7 @ lenPrefix (length (elems (Blob r)))"
  have w9: "w8 @ elems (Blob r) = recordEnc A r"
    by (simp add: w8_def w7_def w6_def w5_def w4_def w3_def w2_def w1_def recordEnc_def)
  have fits: "length w1 \<le> length b" "length w2 \<le> length b" "length w3 \<le> length b" "length w4 \<le> length b"
    "length w5 \<le> length b" "length w6 \<le> length b" "length w7 \<le> length b" "length w8 \<le> length b"
    using assms unfolding w9 [symmetric]
    by (simp_all add: w8_def w7_def w6_def w5_def w4_def w3_def w2_def)
  have s1: "onTail b 0 (putU64At (ID r)) = Ok (splice 0 w1 b, 8)"
    using onTail_splice [of "[]" w1 b "putU64At (ID r)"] fits(1) putU64At_ok by (simp add: w1_def)
  have s2: "onTail (splice 0 w1 b) 8 (putU64At (F64bits (Score r))) = Ok (splice 0 w2 b, 16)"
    using onTail_splice [of w1 "le_bytes 8 (F64bits (Score r))" b "putU64At (F64bits (Score r))"]
      fits(2) putU64At_ok by (simp add: w1_def w2_def)
  have s3: "setByte (splice 0 w2 b) 16 (if Active r then 1 else 0) = Ok (splice 0 w3 b)"
    using setByte_splice [of w2 "if Active r then 1 else 0" b] fits(3) by (simp add: w1_def w2_def w3_def)
  have s4: "onTail (splice 0 w3 b) 17 (\<lambda>t. PutUvarint t (of_nat (length (vdat (Name r)))))
      = Ok (splice 0 w4 b, int (length w4))"
    using onTail_splice [of w3 _ b, OF _ putUvarint_ok [of "length (vdat (Name r))"]] fits(4)
    by (simp add: w1_def w2_def w3_def w4_def)
  have s5: "onTail (splice 0 w4 b) (int (length w4)) (goCopy (vdat (S2B (Name r))))
      = Ok (splice 0 w5 b, int (length w5))"
    using onTail_splice [of w4 _ b, OF _ goCopy_ok] fits(5) by (simp add: w5_def S2B_def)
  have s6: "onTail (splice 0 w5 b) (int (length w5)) (\<lambda>t. PutUvarint t (of_nat (length (elems (Tags r)))))
      = Ok (splice 0 w6 b, int (length w6))"
    using onTail_splice [of w5 _ b, OF _ putUvarint_ok] fits(6) by (simp add: w6_def)
  have s7: "(if 0 < length (elems (Tags r)) then onTail (splice 0 w6 b) (int (length w6)) (goCopy (tagMem A (elems (Tags r))))
      else Ok (splice 0 w6 b, int (length w6))) = Ok (splice 0 w7 b, int (length w7))"
    using onTail_splice [of w6 _ b, OF _ goCopy_ok] fits(7) by (auto simp: w7_def tagMem_def)
  have s8: "onTail (splice 0 w7 b) (int (length w7)) (\<lambda>t. PutUvarint t (of_nat (length (elems (Blob r)))))
      = Ok (splice 0 w8 b, int (length w8))"
    using onTail_splice [of w7 _ b, OF _ putUvarint_ok] fits(8) by (simp add: w8_def)
  have s9: "onTail (splice 0 w8 b) (int (length w8)) (goCopy (elems (Blob r)))
      = Ok (splice 0 (recordEnc A r) b, int (length (recordEnc A r)))"
    using onTail_splice [of w8 _ b, OF _ goCopy_ok] assms unfolding w9 [symmetric] by simp
  show ?thesis
    unfolding Record_Marshal_def s1 s2 s3 s4 s5 s6 s7 s8 s9 obind_simps prod.case
    by (simp add: s1 s2 s3 s4 s5 s6 s7 s8 s9 del: obind_simps add: obind_simps)
qed

lemma record_append: "\<exists>b'. Record_Append A gr r b = Ok b' \<and> extends b (recordEnc A r) b'"
proof -
  define b1 where "b1 = AppendU64 gr b (ID r)"
  define b2 where "b2 = AppendU64 gr b1 (F64bits (Score r))"
  define b3 where "b3 = gappend gr b2 [if Active r then 1 else 0]"
  define b4 where "b4 = AppendUvarint gr b3 (of_nat (length (vdat (Name r))))"
  define b5 where "b5 = gappend gr b4 (vdat (Name r))"
  define b6 where "b6 = AppendUvarint gr b5 (of_nat (length (elems (Tags r))))"
  define b7 where "b7 = (if 0 < length (elems (Tags r)) then gappend gr b6 (tagMem A (elems (Tags r))) else b6)"
  define b8 where "b8 = AppendUvarint gr b7 (of_nat (length (elems (Blob r))))"
  have u: "extends b (lenPrefix n) (AppendUvarint gr b (of_nat n))" for b n
    by (simp add: lenPrefix_def AppendUvarint_extends)
  have w: "extends b (le_bytes 8 v) (AppendU64 gr b v)" for b v
    by (simp add: AppendU64_def le_bytes_nat)
  have "extends b (le_bytes 8 (ID r)) b1" unfolding b1_def by (rule w)
  also have "extends b1 (le_bytes 8 (F64bits (Score r))) b2" unfolding b2_def by (rule w)
  also have "extends b2 [if Active r then 1 else 0] b3" unfolding b3_def by (rule extends_gappend)
  also have "extends b3 (lenPrefix (length (vdat (Name r)))) b4" unfolding b4_def by (rule u)
  also have "extends b4 (vdat (Name r)) b5" unfolding b5_def by (rule extends_gappend)
  also have "extends b5 (lenPrefix (length (elems (Tags r)))) b6" unfolding b6_def by (rule u)
  also have "extends b6 (tagMem A (elems (Tags r))) b7" by (auto simp: b7_def tagMem_def)
  also have "extends b7 (lenPrefix (length (elems (Blob r)))) b8" unfolding b8_def by (rule u)
  also have "extends b8 (elems (Blob r)) (gappend gr b8 (elems (Blob r)))" by (rule extends_gappend)
  finally have "extends b (recordEnc A r) (gappend gr b8 (elems (Blob r)))"
    by (simp only: recordEnc_def append_assoc)
  moreover have "Record_Append A gr r b = Ok (gappend gr b8 (elems (Blob r)))"
    unfolding Record_Append_def Let_def b8_def b7_def b6_def b5_def b4_def b3_def b2_def b1_def by (rule refl)
  ultimately show ?thesis by blast
qed

subsection \<open>The reader\<close>

lemma tagRead_mem: "tagRead A (length ts) (tagMem A ts) = ts"
proof (rule nth_equalityI)
  fix k assume "k < length (tagRead A (length ts) (tagMem A ts))"
  then have k: "k < length ts" by (simp add: tagRead_def)
  then have "take 4 (drop (4 * k) (tagMem A ts)) = archBytes A (le_bytes 4 (ts ! k))"
  proof (induction ts arbitrary: k)
    case (Cons t ts)
    then show ?case by (cases k) (simp_all add: tagMem_def)
  qed simp
  then show "tagRead A (length ts) (tagMem A ts) ! k = ts ! k"
    using k by (simp add: tagRead_def word_of_le_bytes)
qed (simp add: tagRead_def)

lemma tagSet_mem: "length old = length ts \<Longrightarrow> tagSet A old (tagMem A ts) = ts"
  using tagRead_mem [of A ts] by (simp add: tagSet_def Let_def)

lemma lenOK_less: "lenOK A n \<Longrightarrow> m \<le> n \<Longrightarrow> lenOK A m"
  by (simp add: lenOK_def)

lemma sliceFrom_app: "sliceFrom (p @ t) (int (length p)) = Ok t"
  by (simp add: sliceFrom_def)

lemma sliceRange_app: "sliceRange (p @ w @ t) spare (int (length p)) (int (length p) + int (length w)) = Ok w"
  by (simp add: sliceRange_def)

lemma Uvarint_lenPrefix: "Uvarint (lenPrefix n @ t) = (of_nat n, int (length (lenPrefix n)))"
  by (simp add: lenPrefix_def Uvarint_ok length_uvarint_bytes)

lemma decodeTags_ok:
  assumes A: "archOK A" and n: "lenOK A (4 * length ts)"
  shows "\<exists>g. decodeTags A old (of_nat (length ts)) (p @ tagMem A ts @ t) spare (int (length p))
           = Ok (g, int (length (p @ tagMem A ts))) \<and> elems g = ts"
proof (cases ts)
  case Nil
  then show ?thesis by (auto simp: decodeTags_def elems_def tagMem_def)
next
  case (Cons x xs)
  have l: "lenOK A (length ts)" using n by (rule lenOK_less) simp
  have n0: "(of_nat (length ts) :: u64) \<noteq> 0"
    using unat_len [OF A l] Cons by (metis length_0_conv list.distinct(1) unsigned_0)
  have "\<exists>q y ys zs. reuseTags A old (of_nat (length ts)) = Ok (Sl q (y # ys) zs) \<and> length (y # ys) = length ts"
  proof (cases "int (length ts) \<le> int (length (elems old @ slack old))")
    case True
    then obtain q us vs where o: "old = Sl q us vs" using Cons by (cases old) (auto simp: elems_def slack_def)
    then have "length (take (length ts) (us @ vs)) = length ts" using True by (simp add: elems_def slack_def)
    then obtain y ys where "take (length ts) (us @ vs) = y # ys" "length (y # ys) = length ts"
      using Cons by (metis length_0_conv list.exhaust list.distinct(1))
    then show ?thesis using True o
      by (auto simp: reuseTags_def goInt_len [OF A l] unat_len [OF A l] elems_def slack_def simp del: take_append)
  next
    case False
    have z: "replicate (length ts) (0 :: u32) = 0 # replicate (length xs) 0" using Cons by simp
    have "uint (of_nat (length ts) :: u64) = int (length ts)"
      using unat_len [OF A l] by (metis of_nat_unat)
    then have "reuseTags A old (of_nat (length ts)) = Ok (Sl Own (replicate (length ts) 0) [])"
      using False by (simp add: reuseTags_def goInt_len [OF A l] unat_len [OF A l])
    then show ?thesis unfolding z by (metis Cons length_Cons length_replicate)
  qed
  then obtain q y ys zs where r: "reuseTags A old (of_nat (length ts)) = Ok (Sl q (y # ys) zs)"
    "length (y # ys) = length ts" by blast
  then show ?thesis
    using n0 tagSet_mem [of "y # ys" ts A] sliceRange_app [of p "tagMem A ts" t spare]
    by (simp add: decodeTags_def goInt_len [OF A l] elems_def)
qed

lemma record_unmarshal:
  assumes ok: "recordOK A r"
  shows "\<exists>r'. Record_Unmarshal A d (recordEnc A r @ t) spare base = Ok (r', int (length (recordEnc A r)), None)
    \<and> recordSame r r'
    \<and> Name r' = \<lparr>vorg = Input (base + 17 + length (lenPrefix (length (vdat (Name r))))), vdat = vdat (Name r)\<rparr>"
proof -
  let ?n = "length (vdat (Name r))" and ?m = "length (elems (Tags r))" and ?k = "length (elems (Blob r))"
  have A: "archOK A" and l: "lenOK A ?n" "lenOK A (4 * ?m)" "lenOK A ?k" using ok by (auto simp: recordOK_def)
  define w1 where "w1 = le_bytes 8 (ID r)"
  define w3 where "w3 = w1 @ le_bytes 8 (F64bits (Score r)) @ [if Active r then 1 else 0]"
  define w4 where "w4 = w3 @ lenPrefix ?n"
  define w5 where "w5 = w4 @ vdat (Name r)"
  define w6 where "w6 = w5 @ lenPrefix ?m"
  define w7 where "w7 = w6 @ tagMem A (elems (Tags r))"
  define w8 where "w8 = w7 @ lenPrefix ?k"
  define b where "b = recordEnc A r @ t"
  have b1: "b = w1 @ le_bytes 8 (F64bits (Score r)) @ drop 16 b"
    and b3: "b = w3 @ lenPrefix ?n @ drop (length w4) b" and b4: "b = w4 @ vdat (Name r) @ drop (length w5) b"
    and b5: "b = w5 @ lenPrefix ?m @ drop (length w6) b"
    and b6: "b = w6 @ tagMem A (elems (Tags r)) @ drop (length w7) b"
    and b7: "b = w7 @ lenPrefix ?k @ drop (length w8) b"
    and b8: "b = w8 @ elems (Blob r) @ t"
    by (simp_all add: b_def recordEnc_def w8_def w7_def w6_def w5_def w4_def w3_def w1_def)
  have l3: "length w3 = 17" and l1: "length w1 = 8" by (simp_all add: w3_def w1_def)
  have e1: "obind (sliceFrom b 0) U64 = Ok (ID r)"
    using sliceFrom_app [of "[]" b] U64_le [of "ID r" "le_bytes 8 (F64bits (Score r)) @ drop 16 b"]
      b1 [unfolded w1_def] by simp
  have e2: "obind (sliceFrom b 8) U64 = Ok (F64bits (Score r))"
    using sliceFrom_app [of w1 "le_bytes 8 (F64bits (Score r)) @ drop 16 b"] U64_le l1 b1 by simp
  have e3: "(if 16 < length b then Ok (b ! 16) else Panic PIndex) = Ok (if Active r then 1 else 0)"
    by (simp add: b_def recordEnc_def nth_append)
  have e4: "sliceFrom b 17 = Ok (lenPrefix ?n @ drop (length w4) b)"
    using sliceFrom_app [of w3 "lenPrefix ?n @ drop (length w4) b"] l3 b3 by simp
  have i4: "17 + int (length (lenPrefix ?n)) = int (length w4)" by (simp add: w4_def l3)
  have e5: "sliceRange b spare (int (length w4)) (int (length w4) + int ?n) = Ok (vdat (Name r))"
    using sliceRange_app [of w4 "vdat (Name r)" "drop (length w5) b" spare] b4 by simp
  have i5: "int (length w4) + int ?n = int (length w5)" by (simp add: w5_def)
  have e6: "sliceFrom b (int (length w5)) = Ok (lenPrefix ?m @ drop (length w6) b)"
    using sliceFrom_app [of w5 "lenPrefix ?m @ drop (length w6) b"] b5 by simp
  have i6: "int (length w5) + int (length (lenPrefix ?m)) = int (length w6)" by (simp add: w6_def)
  obtain g where e7: "decodeTags A (Tags d) (of_nat ?m) b spare (int (length w6)) = Ok (g, int (length w7))"
    and g: "elems g = elems (Tags r)"
    using decodeTags_ok [OF A l(2), of "Tags d" w6 "drop (length w7) b" spare] b6 by (auto simp: w7_def)
  have e8: "sliceFrom b (int (length w7)) = Ok (lenPrefix ?k @ drop (length w8) b)"
    using sliceFrom_app [of w7 "lenPrefix ?k @ drop (length w8) b"] b7 by simp
  have i8: "int (length w7) + int (length (lenPrefix ?k)) = int (length w8)" by (simp add: w8_def)
  have e9: "sliceRange b spare (int (length w8)) (int (length w8) + int ?k) = Ok (elems (Blob r))"
    using sliceRange_app [of w8 "elems (Blob r)" t spare] b8 by simp
  have i9: "int (length w8) + int ?k = int (length (recordEnc A r))"
    by (simp add: recordEnc_def w8_def w7_def w6_def w5_def w4_def w3_def w1_def)
  note gi = goInt_len [OF A l(1)] goInt_len [OF A l(3)]
  have "Record_Unmarshal A d b spare base =
    Ok (\<lparr>ID = ID r, Score = Bitsf64 (F64bits (Score r)), Active = ((if Active r then 1 else 0) \<noteq> (0 :: byte)),
         Name = B2S \<lparr>vorg = Input (base + length w4), vdat = vdat (Name r)\<rparr>, Tags = g,
         Blob = Sl (Input (base + length w8)) (elems (Blob r)) (drop (nat (int (length (recordEnc A r)))) (b @ spare))\<rparr>,
       int (length (recordEnc A r)), None)"
    unfolding Record_Unmarshal_def e1 e2 e3 e4 obind_simps
    by (simp add: Uvarint_lenPrefix i4 gi e5 [unfolded i5] i5 e6 i6 e7 e8 i8
        e9 [unfolded i9] i9)
  moreover have "length w4 = 17 + length (lenPrefix ?n)" by (simp add: w4_def l3)
  ultimately show ?thesis
    unfolding b_def [symmetric] using g
    by (auto simp: recordSame_def B2S_def Bitsf64_def F64bits_def elems_def)
qed

subsection \<open>Record is a codec\<close>

definition recordMarshaler :: "arch \<Rightarrow> growth \<Rightarrow> Record marshaler" where
  "recordMarshaler A gr = \<lparr>Size = Record_Size, Marshal = Record_Marshal A, Append = Record_Append A gr\<rparr>"

definition recordUnmarshaler :: "arch \<Rightarrow> Record unmarshaler" where
  "recordUnmarshaler A = \<lparr>Unmarshal = Record_Unmarshal A\<rparr>"

interpretation rec: codec_spec "recordMarshaler A gr" "recordOK A" "recordEnc A" "recordUnmarshaler A"
  "\<lambda>_. True" recordSame
  for A gr
proof unfold_locales
  fix x :: Record and d spare base
  assume "recordOK A x"
  then show "\<exists>x'. Unmarshal (recordUnmarshaler A) d (recordEnc A x) spare base
      = Ok (x', int (length (recordEnc A x)), None) \<and> recordSame x x'"
    using record_unmarshal [of A x d "[]" spare base] by (auto simp: recordUnmarshaler_def)
qed (simp_all add: recordMarshaler_def length_recordEnc [where A = A] record_marshal record_append)

end
