(* ===== verification/Shapes.thy ===== *)
theory Shapes
  imports Package
begin

text \<open>
  The package of \<open>test/data/shapes/types.go\<close> as the generator sees it after \<open>load\<close>: its
  struct types, its defined basic types and its union.  It is the concrete package on which
  the theorems about generated code are applied.
\<close>

definition nm :: "string \<Rightarrow> tname" where
  "nm s = (''shapes'', s)"

definition tTime :: gotype where "tTime = TNamed (''time'', ''Time'') TStruct"
definition tHue :: gotype where "tHue = TNamed (nm ''Hue'') (TBasic KUint8)"
definition tGrade :: gotype where "tGrade = TNamed (nm ''Grade'') (TBasic KInt32)"
definition tStruct :: "string \<Rightarrow> gotype" where "tStruct s = TNamed (nm s) TStruct"
definition tGeometry :: gotype where "tGeometry = TNamed (nm ''Geometry'') TInterface"

definition fld :: "string \<Rightarrow> gotype \<Rightarrow> sfield" where
  "fld n t = \<lparr>sfName = n, sfTag = [], sfType = t\<rparr>"

definition fldSkip :: "string \<Rightarrow> gotype \<Rightarrow> sfield" where
  "fldSkip n t = \<lparr>sfName = n, sfTag = [(''goserde'', ''-'')], sfType = t\<rparr>"

definition SmallFixed :: "sfield list" where
  "SmallFixed = [fld ''A'' (TBasic KInt32), fld ''B'' (TBasic KInt32), fld ''C'' (TBasic KFloat64),
     fld ''D'' (TBasic KBool)]"

definition FlatMixed :: "sfield list" where
  "FlatMixed = [fld ''ID'' (TBasic KUint64), fld ''Ratio'' (TBasic KFloat64),
     fld ''Name'' (TBasic KString), fld ''Data'' (TSlice (TBasic KUint8))]"

definition Inner :: "sfield list" where
  "Inner = [fld ''X'' (TBasic KInt32), fld ''Y'' (TBasic KInt32)]"

definition Nested :: "sfield list" where
  "Nested = [fld ''Label'' (TBasic KString), fld ''Pos'' (tStruct ''Inner''),
     fld ''Opt'' (TPointer (tStruct ''Inner'')), fld ''Path'' (TSlice (tStruct ''Inner''))]"

definition CollectionHeavy :: "sfield list" where
  "CollectionHeavy = [fld ''Counts'' (TMap (TBasic KString) (TBasic KInt64)),
     fld ''Floats'' (TSlice (TBasic KFloat64)), fld ''Names'' (TSlice (TBasic KString))]"

definition StringHeavy :: "sfield list" where
  "StringHeavy = [fld ''Title'' (TBasic KString), fld ''Body'' (TBasic KString),
     fld ''Tags'' (TSlice (TBasic KString))]"

definition TimeStruct :: "sfield list" where
  "TimeStruct = [fld ''Label'' (TBasic KString), fld ''Created'' tTime,
     fld ''Updated'' (TPointer tTime), fld ''Stamps'' (TSlice tTime)]"

definition FixedArrays :: "sfield list" where
  "FixedArrays = [fld ''Hash'' (TArray 16 (TBasic KUint8)), fld ''Quad'' (TArray 4 (TBasic KInt32)),
     fld ''Flag'' (TBasic KBool)]"

definition MixedArrays :: "sfield list" where
  "MixedArrays = [fld ''Name'' (TBasic KString), fld ''Words'' (TArray 3 (TBasic KString)),
     fld ''Points'' (TArray 2 (tStruct ''Inner'')), fld ''Bytes'' (TArray 8 (TBasic KUint8))]"

definition Tagged :: "sfield list" where
  "Tagged = [fld ''ID'' (TBasic KInt64), fldSkip ''Secret'' (TBasic KString), fldSkip ''Skip'' TChan,
     fld ''Name'' (TBasic KString)]"

definition NumericBulk :: "sfield list" where
  "NumericBulk = [fld ''Label'' (TBasic KString), fld ''U16s'' (TSlice (TBasic KUint16)),
     fld ''F64s'' (TSlice (TBasic KFloat64)), fld ''Quad'' (TArray 4 (TBasic KUint32)),
     fld ''Ints'' (TSlice (TBasic KInt))]"

definition NamedScalars :: "sfield list" where
  "NamedScalars = [fld ''Label'' (TBasic KString), fld ''Palette'' (TSlice tHue),
     fld ''Swatch'' (TArray 4 tHue), fld ''Levels'' (TSlice tGrade), fld ''Accent'' (TPointer tHue)]"

definition NamedFixed :: "sfield list" where
  "NamedFixed = [fld ''Tag'' tHue, fld ''Codes'' (TArray 3 tHue), fld ''Score'' tGrade,
     fld ''Flag'' (TBasic KBool)]"

definition WideItem :: "sfield list" where
  "WideItem = [fld ''ID'' (TBasic KUint64), fld ''A'' (TBasic KFloat64), fld ''B'' (TBasic KFloat64),
     fld ''C'' (TBasic KFloat64), fld ''D'' (TBasic KFloat64), fld ''Blob'' (TArray 32 (TBasic KUint8)),
     fld ''Note'' (TBasic KString)]"

definition WideList :: "sfield list" where
  "WideList = [fld ''Items'' (TSlice (tStruct ''WideItem''))]"

definition Circle :: "sfield list" where
  "Circle = [fld ''R'' (TBasic KFloat64)]"

definition Square :: "sfield list" where
  "Square = [fld ''Side'' (TBasic KFloat64)]"

definition Drawing :: "sfield list" where
  "Drawing = [fld ''Name'' (TBasic KString), fld ''Shape'' tGeometry, fld ''Layers'' (TSlice tGeometry)]"

definition shapesDecls :: "(string \<times> sfield list) list" where
  "shapesDecls =
     [(''Circle'', Circle), (''CollectionHeavy'', CollectionHeavy), (''Drawing'', Drawing),
      (''FixedArrays'', FixedArrays), (''FlatMixed'', FlatMixed), (''Inner'', Inner),
      (''MixedArrays'', MixedArrays), (''NamedFixed'', NamedFixed), (''NamedScalars'', NamedScalars),
      (''Nested'', Nested), (''NumericBulk'', NumericBulk), (''SmallFixed'', SmallFixed),
      (''Square'', Square), (''StringHeavy'', StringHeavy), (''Tagged'', Tagged),
      (''TimeStruct'', TimeStruct), (''WideItem'', WideItem), (''WideList'', WideList)]"

text \<open>The generator on this package, in either mode; \<open>ow\<close> lists the user-owned structs.\<close>

definition shapesGen :: "bool \<Rightarrow> generator" where
  "shapesGen sf = \<lparr>pkgName = ''shapes'', codecPkg = ''github.com/tochemey/goserde/codec'',
     codecQual = ''codec'', safe = sf, pkg = ''shapes'',
     targets = map (\<lambda>(s, _). nm s) shapesDecls, owned = [],
     unions = [(nm ''Geometry'', [nm ''Circle'', nm ''Square''])],
     structs = (\<lambda>n. case map_of shapesDecls (snd n) of Some fs \<Rightarrow> fs | None \<Rightarrow> [])\<rparr>"

lemmas shapes_types = nm_def tTime_def tHue_def tGrade_def tStruct_def tGeometry_def fld_def fldSkip_def

lemma shapes_wf: "wfGen (shapesGen True)" "wfGen (shapesGen False)"
  by code_simp+

text \<open>\<open>generate\<close> succeeds when every transmitted field has a supported type.\<close>

lemma generateLoop_total:
  "(\<And>n. n \<in> set ns \<Longrightarrow> \<not> List.member (owned g) n
      \<Longrightarrow> \<forall>f \<in> set (structs g n). skipped f \<or> supported g (sfType f) = None)
   \<Longrightarrow> \<exists>r. generateLoop g ns s = Inr r"
proof (induction ns arbitrary: s)
  case (Cons n ns)
  have IH: "\<exists>cs s2. generateLoop g ns s1 = Inr (cs, s2)" for s1
    using Cons.IH Cons.prems by (metis list.set_intros(2) surj_pair)
  show ?case
  proof (cases "List.member (owned g) n")
    case True
    then show ?thesis using IH [of s] by auto
  next
    case False
    then obtain fs where "fieldsOf g n = Inr fs"
      using fieldsLoop_total [of "structs g n" g n] Cons.prems [of n] by (auto simp: fieldsOf_def)
    then show ?thesis using False IH [of "snd (emitCodec g n fs s)"] by (auto simp: split_beta)
  qed
qed simp

lemma generate_total:
  assumes "\<forall>n \<in> set (targets g). List.member (owned g) n
      \<or> (\<forall>f \<in> set (structs g n). skipped f \<or> supported g (sfType f) = None)"
  shows "\<exists>file. generate g s = Inr file"
proof -
  obtain r where "generateLoop g (targets g) s = Inr r"
    using generateLoop_total [of "targets g" g s] assms by metis
  then show ?thesis by (auto simp: generate_def split: prod.splits)
qed

lemma shapes_generate: "\<exists>file. generate (shapesGen sf) emit0 = Inr file"
proof (rule generate_total, cases sf)
  case True
  have "\<forall>n \<in> set (targets (shapesGen True)). \<forall>f \<in> set (structs (shapesGen True) n).
     skipped f \<or> supported (shapesGen True) (sfType f) = None" by code_simp
  then show "\<forall>n \<in> set (targets (shapesGen sf)). List.member (owned (shapesGen sf)) n
      \<or> (\<forall>f \<in> set (structs (shapesGen sf) n). skipped f \<or> supported (shapesGen sf) (sfType f) = None)"
    using True by simp
next
  case False
  have "\<forall>n \<in> set (targets (shapesGen False)). \<forall>f \<in> set (structs (shapesGen False) n).
     skipped f \<or> supported (shapesGen False) (sfType f) = None" by code_simp
  then show "\<forall>n \<in> set (targets (shapesGen sf)). List.member (owned (shapesGen sf)) n
      \<or> (\<forall>f \<in> set (structs (shapesGen sf) n). skipped f \<or> supported (shapesGen sf) (sfType f) = None)"
    using False by simp
qed

text \<open>A run-time setting, and a value of the union-carrying struct \<open>Drawing\<close>.\<close>

definition shapesCtx :: "bool \<Rightarrow> ctx" where
  "shapesCtx sf = \<lparr>cGen = shapesGen sf, cArch = amd64, cGrow = (\<lambda>n. n), cDepth = 4\<rparr>"

definition drawing1 :: val where
  "drawing1 = VStruct
     [(''Name'', VStr Own [104, 105]),
      (''Shape'', VIface (nm ''Square'') (Some (VStruct [(''Side'', V64 5)]))),
      (''Layers'', VSlice Own [VNilIface, VIface (nm ''Circle'') (Some (VStruct [(''R'', V64 6)]))] [])]"

definition noOwned :: uwire where
  "noOwned = (\<lambda>_ _. [])"

lemma shapes_owned: "ownedOK (shapesCtx sf) ow U"
  by (simp add: ownedOK_def shapesCtx_def shapesGen_def)

lemma drawing1_wt:
  "wt (shapesGen sf) amd64 (TNamed (nm ''Drawing'') TStruct) drawing1" "sdepth drawing1 \<le> 2"
  "isTarget (shapesGen sf) (nm ''Drawing'')"
proof -
  have "wt (shapesGen True) amd64 (TNamed (nm ''Drawing'') TStruct) drawing1
      \<and> wt (shapesGen False) amd64 (TNamed (nm ''Drawing'') TStruct) drawing1"
    by (simp add: wt.simps drawing1_def shapesGen_def shapesDecls_def Drawing_def Square_def Circle_def
        shapes_types isTime_def wtBasic_def lenOK_def amd64_def memberTag_def taggedMembers_def
        unionMembersOf_def skipped_def)
  then show "wt (shapesGen sf) amd64 (TNamed (nm ''Drawing'') TStruct) drawing1" by (cases sf) auto
  show "sdepth drawing1 \<le> 2" by code_simp
  have "isTarget (shapesGen True) (nm ''Drawing'') \<and> isTarget (shapesGen False) (nm ''Drawing'')"
    by code_simp
  then show "isTarget (shapesGen sf) (nm ''Drawing'')" by (cases sf) auto
qed

lemma drawing1_wire:
  "wire (shapesGen True) amd64 noOwned (TNamed (nm ''Drawing'') TStruct) drawing1
     = [2, 104, 105, 2, 5, 0, 0, 0, 0, 0, 0, 0, 2, 0, 1, 6, 0, 0, 0, 0, 0, 0, 0]"
  by code_simp

end
