(* ===== verification/EncodeProps.thy ===== *)
theory EncodeProps
  imports Shapes
begin

text \<open>
  The properties of the generated encoders: what \<open>Size\<close>, \<open>Marshal\<close> and \<open>Append\<close> of every
  target of a package do, in both modes, and what the bulk copies of fast mode have to do
  with the element loops.
\<close>

lemmas package_encOK = encOK_D [OF methods_encOK]

subsection \<open>Bulk copies and element loops\<close>

lemma le_image_wire:
  assumes "little A" "memCopyable e" "wt g A e v"
  shows "memImage A e v = wire (g\<lparr>safe := True\<rparr>) A ow e v"
  using assms(2,3)
proof (induction e arbitrary: v rule: memCopyable.induct)
  case (1 e)
  have nt: "\<not> isTime e" using 1(2) by (auto simp: memCopyable.simps [of e])
  note wire_e = wire.simps [of "g\<lparr>safe := True\<rparr>" A ow e]
  show ?case
  proof (cases "underlying e")
    case (TBasic k)
    then have "wtBasic A k v" "basicMemCopyable k"
      using 1(2,3) nt by (auto simp: wt.simps [of g A e] memCopyable.simps [of e])
    then show ?thesis using TBasic nt assms(1)
      by (cases k; cases v)
        (auto simp: wire_e wtBasic_def basicMemCopyable_def wireBasic_def archBytes_def
          fwSize.simps [of A e] basicMem_def basicFixedSize_def)
  next
    case (TArray n e')
    have m: "memCopyable e'" using 1(2) nt TArray by (simp add: memCopyable.simps [of e])
    obtain xs where xs: "v = VArr xs" "\<forall>x \<in> set xs. wt g A e' x"
      using array_view [OF 1(3) nt TArray] by metis
    then have "concat (map (memImage A e') xs) = concat (map (wire (g\<lparr>safe := True\<rparr>) A ow e') xs)"
      using 1(1) [OF nt TArray m] by (simp cong: map_cong)
    then show ?thesis using xs TArray nt by (simp add: wire_e bulk_def)
  qed (use 1(2) nt in \<open>auto simp: memCopyable.simps [of e]\<close>)
qed

lemma wire_safe_arch:
  "safe g \<Longrightarrow> wire g A ow t v = wire g B ow t v"
proof (induction g A ow t v arbitrary: B rule: wire.induct)
  case (1 g A ow t v)
  have b: "\<not> bulk g e" "\<not> isBlit g n" for e n using 1(8) by (auto simp: bulk_def isBlit_def)
  note w = wire.simps [of g A ow t] wire.simps [of g B ow t]
  show ?case
  proof (cases "isTime t")
    case True
    then show ?thesis by (simp add: w)
  next
    case nt: False
    show ?thesis
    proof (cases "underlying t")
      case (TSlice e)
      then show ?thesis using nt b 1(1) [OF nt TSlice, where B = B] 1(8)
        by (cases v) (auto simp: w cong: map_cong)
    next
      case (TArray n e)
      then show ?thesis using nt b 1(2) [OF nt TArray, where B = B] 1(8)
        by (cases v) (auto simp: w cong: map_cong)
    next
      case (TPointer e)
      then show ?thesis using nt 1(3) [OF nt TPointer, where B = B] 1(8)
        by (cases v) (auto simp: w split: option.split)
    next
      case (TMap k e)
      have "(\<lambda>(a, b). wire g A ow k a @ wire g A ow e b) p = (\<lambda>(a, b). wire g B ow k a @ wire g B ow e b) p"
        if "v = VMap kvs" "p \<in> set kvs" for kvs p
        using that 1(4,5) [OF nt TMap, where B = B] 1(8) by (cases p) auto
      then show ?thesis using nt TMap by (cases v) (auto simp: w cong: map_cong)
    next
      case TStruct
      show ?thesis
      proof (cases t)
        case (TNamed n u)
        note f = 1(6) [OF nt TStruct TNamed _ b(2), where B = B]
        have "(\<lambda>(f, x). if skipped f then [] else wire g A ow (sfType f) (snd x)) p
            = (\<lambda>(f, x). if skipped f then [] else wire g B ow (sfType f) (snd x)) p"
          if "\<not> List.member (owned g) n" "v = VStruct fs" "p \<in> set (zip (structs g n) fs)" for fs p
          using that f 1(8) by (cases p) auto
        then show ?thesis using nt TStruct b unfolding w [unfolded TNamed] TNamed
          by (cases v) (auto cong: map_cong)
      qed (use TStruct nt in \<open>simp_all add: wire.simps [of g _ ow TStruct] wire.simps [of g _ ow "TAlias _ _"]\<close>)
    next
      case TInterface
      then show ?thesis using nt 1(7) [OF nt TInterface, where B = B] 1(8)
        by (cases v) (auto simp: w split: option.split)
    qed (use nt in \<open>simp_all add: w\<close>)
  qed
qed

subsection \<open>Properties\<close>

text \<open>C3: in either mode the generated \<open>Size\<close> of every target returns the exact length of the
  encoding of its receiver.\<close>

theorem size_exact:
  assumes "wfGen (cGen c)" and "generate (cGen c) gs = Inr gf" and "ownedOK c ow U"
    and "isTarget (cGen c) n" and "wt (cGen c) (cArch c) (TNamed n TStruct) v" and "sdepth v \<le> d"
  shows "mSize (methods c (map_of (gfCodecs gf)) U d) n v
    = Ok (int (length (wire (cGen c) (cArch c) ow (TNamed n TStruct) v)))"
  using package_encOK(1) [OF assms(1-6)] by (simp add: sizeOK_def)

theorem size_exact_witness:
  "\<exists>gf. generate (shapesGen True) emit0 = Inr gf \<and>
     mSize (methods (shapesCtx True) (map_of (gfCodecs gf)) noFuelEnv 2) (nm ''Drawing'') drawing1 = Ok 23"
proof -
  obtain gf where f: "generate (shapesGen True) emit0 = Inr gf" using shapes_generate by blast
  then show ?thesis
    using size_exact [where c = "shapesCtx True" and gs = emit0 and gf = gf and ow = noOwned
        and U = noFuelEnv and n = "nm ''Drawing''" and v = drawing1 and d = 2]
      shapes_wf drawing1_wt(1,3) [of True] drawing1_wt(2) drawing1_wire shapes_owned by (auto simp: shapesCtx_def)
qed

text \<open>C5: given a buffer with room for it, the generated \<open>Marshal\<close> writes exactly the encoding
  at its front, leaves the rest of the buffer alone and returns the length.\<close>

theorem marshal_writes:
  assumes "wfGen (cGen c)" and "generate (cGen c) gs = Inr gf" and "ownedOK c ow U"
    and "isTarget (cGen c) n" and "wt (cGen c) (cArch c) (TNamed n TStruct) v" and "sdepth v \<le> d"
    and "length (wire (cGen c) (cArch c) ow (TNamed n TStruct) v) \<le> length b"
  shows "\<exists>b'. mMarshal (methods c (map_of (gfCodecs gf)) U d) n v b
      = Ok (b', int (length (wire (cGen c) (cArch c) ow (TNamed n TStruct) v)))
    \<and> b' = wire (cGen c) (cArch c) ow (TNamed n TStruct) v
          @ drop (length (wire (cGen c) (cArch c) ow (TNamed n TStruct) v)) b"
  using package_encOK(2) [OF assms(1-6)] assms(7) by (simp add: marshalOK_def Let_def splice_def)

theorem marshal_writes_witness:
  "\<exists>gf. generate (shapesGen True) emit0 = Inr gf \<and>
     mMarshal (methods (shapesCtx True) (map_of (gfCodecs gf)) noFuelEnv 2) (nm ''Drawing'') drawing1
       (replicate 24 7)
     = Ok ([2, 104, 105, 2, 5, 0, 0, 0, 0, 0, 0, 0, 2, 0, 1, 6, 0, 0, 0, 0, 0, 0, 0, 7], 23)"
proof -
  obtain gf where f: "generate (shapesGen True) emit0 = Inr gf" using shapes_generate by blast
  have w: "wire (cGen (shapesCtx True)) (cArch (shapesCtx True)) noOwned (TNamed (nm ''Drawing'') TStruct) drawing1
     = [2, 104, 105, 2, 5, 0, 0, 0, 0, 0, 0, 0, 2, 0, 1, 6, 0, 0, 0, 0, 0, 0, 0]"
    using drawing1_wire by (simp add: shapesCtx_def)
  show ?thesis
    using f marshal_writes [where c = "shapesCtx True" and gs = emit0 and gf = gf and ow = noOwned
        and U = noFuelEnv and n = "nm ''Drawing''" and v = drawing1 and d = 2
        and b = "replicate 24 7"] shapes_wf drawing1_wt(1,3) [of True] drawing1_wt(2) shapes_owned unfolding w
    by (auto simp: shapesCtx_def)
qed

text \<open>C6: the generated \<open>Append\<close> appends exactly the encoding, in place when the capacity of
  its argument allows it, so it agrees with \<open>Marshal\<close> into a buffer of \<open>Size\<close> bytes.\<close>

theorem append_agrees:
  assumes "wfGen (cGen c)" and "generate (cGen c) gs = Inr gf" and "ownedOK c ow U"
    and "isTarget (cGen c) n" and "wt (cGen c) (cArch c) (TNamed n TStruct) v" and "sdepth v \<le> d"
    and "M = methods c (map_of (gfCodecs gf)) U d"
  shows "\<exists>b' k m. mAppend M n v b = Ok b' \<and> mSize M n v = Ok (int k)
     \<and> mMarshal M n v (replicate k 0) = Ok (m, int k) \<and> extends b m b'"
  using package_encOK [OF assms(1-6)] unfolding assms(7) [symmetric]
  by (auto simp: sizeOK_def marshalOK_def appendOK_def Let_def splice_def)

theorem append_agrees_witness:
  "\<exists>gf b' k m. generate (shapesGen False) emit0 = Inr gf
     \<and> mAppend (methods (shapesCtx False) (map_of (gfCodecs gf)) noFuelEnv 2) (nm ''Drawing'') drawing1
         \<lparr>gdat = [1], gspare = [], gnew = False\<rparr> = Ok b'
     \<and> mMarshal (methods (shapesCtx False) (map_of (gfCodecs gf)) noFuelEnv 2) (nm ''Drawing'') drawing1
         (replicate k 0) = Ok (m, int k)
     \<and> gdat b' = 1 # m"
proof -
  obtain gf where f: "generate (shapesGen False) emit0 = Inr gf" using shapes_generate by blast
  then show ?thesis
    using append_agrees [where c = "shapesCtx False" and gs = emit0 and gf = gf and ow = noOwned
        and U = noFuelEnv and n = "nm ''Drawing''" and v = drawing1 and d = 2
        and b = "\<lparr>gdat = [1], gspare = [], gnew = False\<rparr>", OF _ _ _ _ _ _ refl]
      shapes_wf drawing1_wt(1,3) [of False] drawing1_wt(2) shapes_owned
    by (fastforce simp: shapesCtx_def dest: extends_gdat)
qed

text \<open>C26: on a little-endian machine the memory that fast mode copies for a memory-copyable
  value is the byte sequence the element-wise code of safe mode writes.\<close>

theorem bulk_copy_is_loop:
  assumes "little A" and "memCopyable e" and "\<forall>x \<in> set xs. wt g A e x"
  shows "concat (map (memImage A e) xs) = concat (map (wire (g\<lparr>safe := True\<rparr>) A ow e) xs)"
  using assms by (simp add: le_image_wire [where g = g and ow = ow] cong: map_cong)

theorem bulk_copy_is_loop_witness:
  "concat (map (memImage amd64 (TArray 2 (TBasic KUint16))) [VArr [V16 1, V16 0x0203]]) = [1, 0, 3, 2]
   \<and> concat (map (wire (shapesGen True) amd64 noOwned (TArray 2 (TBasic KUint16))) [VArr [V16 1, V16 0x0203]])
     = [1, 0, 3, 2]"
proof -
  have m: "concat (map (memImage amd64 (TArray 2 (TBasic KUint16))) [VArr [V16 1, V16 0x0203]]) = [1, 0, 3, 2]"
    and h: "memCopyable (TArray 2 (TBasic KUint16))" "little amd64"
      "wt (shapesGen False) amd64 (TArray 2 (TBasic KUint16)) (VArr [V16 1, V16 0x0203])"
    and g: "(shapesGen False)\<lparr>safe := True\<rparr> = shapesGen True"
    by code_simp (simp_all add: memCopyable.simps basicMemCopyable_def isTime_def amd64_def wt.simps
        wtBasic_def shapesGen_def)
  show ?thesis
    using m bulk_copy_is_loop [OF h(2,1), where g = "shapesGen False" and xs = "[VArr [V16 1, V16 0x0203]]"
        and ow = noOwned] h(3) g by simp
qed

text \<open>C27: the safe-mode codecs are portable: on two machines that differ in the width of \<open>int\<close>, the
  byte order or the alignment rules, the emitted \<open>Size\<close>, \<open>Marshal\<close> and \<open>Append\<close> produce the same bytes
  for a value of both, given that the codecs written by hand do.\<close>

theorem safe_encoding_portable:
  assumes "wfGen g" and "safe g" and "generate g gs = Inr gf" and "cGen c1 = g" and "cGen c2 = g"
    and "ownedOK c1 ow U1" and "ownedOK c2 ow U2" and "isTarget g n" and "sdepth v \<le> d"
    and "wt g (cArch c1) (TNamed n TStruct) v" and "wt g (cArch c2) (TNamed n TStruct) v"
    and "M1 = methods c1 (map_of (gfCodecs gf)) U1 d" and "M2 = methods c2 (map_of (gfCodecs gf)) U2 d"
  shows "\<exists>w. mSize M1 n v = Ok (int (length w)) \<and> mSize M2 n v = Ok (int (length w))
     \<and> (\<forall>b. length w \<le> length b \<longrightarrow> mMarshal M1 n v b = Ok (splice 0 w b, int (length w))
           \<and> mMarshal M2 n v b = Ok (splice 0 w b, int (length w)))
     \<and> (\<forall>b. \<exists>b1 b2. mAppend M1 n v b = Ok b1 \<and> mAppend M2 n v b = Ok b2 \<and> extends b w b1 \<and> extends b w b2)"
proof -
  have "wire g (cArch c2) ow (TNamed n TStruct) v = wire g (cArch c1) ow (TNamed n TStruct) v"
    by (rule wire_safe_arch [OF assms(2)])
  moreover have "sizeOK c1 ow M1 n v \<and> marshalOK c1 ow M1 n v \<and> appendOK c1 ow M1 n v"
    using package_encOK [of c1 gs gf ow U1 n v d] assms by simp
  moreover have "sizeOK c2 ow M2 n v \<and> marshalOK c2 ow M2 n v \<and> appendOK c2 ow M2 n v"
    using package_encOK [of c2 gs gf ow U2 n v d] assms by simp
  ultimately show ?thesis using assms(4,5)
    by (intro exI [of _ "wire g (cArch c1) ow (TNamed n TStruct) v"])
      (auto simp: sizeOK_def marshalOK_def appendOK_def Let_def; meson)
qed

text \<open>A big-endian machine with 32-bit integers.\<close>

definition be32 :: arch where
  "be32 = \<lparr>wsize = 4, maxAlign = 4, little = False, padByte = (\<lambda>_. 9)\<rparr>"

theorem safe_encoding_portable_witness:
  "\<exists>gf w. generate (shapesGen True) emit0 = Inr gf
     \<and> mMarshal (methods (shapesCtx True) (map_of (gfCodecs gf)) noFuelEnv 2) (nm ''Drawing'') drawing1
         (replicate (length w) 0) = Ok (w, int (length w))
     \<and> mMarshal (methods ((shapesCtx True)\<lparr>cArch := be32\<rparr>) (map_of (gfCodecs gf)) noFuelEnv 2) (nm ''Drawing'') drawing1
         (replicate (length w) 0) = Ok (w, int (length w))"
proof -
  obtain gf where f: "generate (shapesGen True) emit0 = Inr gf" using shapes_generate by blast
  have "wt (shapesGen True) be32 (TNamed (nm ''Drawing'') TStruct) drawing1"
    by (simp add: wt.simps drawing1_def shapesGen_def shapesDecls_def Drawing_def Square_def Circle_def
        shapes_types isTime_def wtBasic_def lenOK_def be32_def memberTag_def taggedMembers_def
        unionMembersOf_def skipped_def)
  moreover have "ownedOK ((shapesCtx True)\<lparr>cArch := be32\<rparr>) noOwned noFuelEnv" "safe (shapesGen True)"
    by (simp_all add: ownedOK_def shapesCtx_def shapesGen_def)
  ultimately obtain w where "\<forall>b. length w \<le> length b \<longrightarrow>
      mMarshal (methods (shapesCtx True) (map_of (gfCodecs gf)) noFuelEnv 2) (nm ''Drawing'') drawing1 b
        = Ok (splice 0 w b, int (length w))
      \<and> mMarshal (methods ((shapesCtx True)\<lparr>cArch := be32\<rparr>) (map_of (gfCodecs gf)) noFuelEnv 2) (nm ''Drawing'') drawing1 b
        = Ok (splice 0 w b, int (length w))"
    using safe_encoding_portable [OF shapes_wf(1) _ f, where ?c1.0 = "shapesCtx True" and ow = noOwned
        and ?c2.0 = "(shapesCtx True)\<lparr>cArch := be32\<rparr>" and ?U1.0 = noFuelEnv and ?U2.0 = noFuelEnv
        and n = "nm ''Drawing''" and v = drawing1 and d = 2, OF _ _ _ _ _ _ _ _ _ refl refl]
      drawing1_wt(1,3) [of True] drawing1_wt(2) shapes_owned by (auto simp: shapesCtx_def)
  then show ?thesis using f by (intro exI [of _ gf] exI [of _ w]) (simp add: splice_def)
qed

end
