(* ===== verification/CodecProps.thy ===== *)
theory CodecProps
  imports RecordCodec EncodeProps
begin

text \<open>
  Properties of the public helpers, on generated codecs and on \<open>Record\<close>, and the agreement of
  the hand-written codec with the format the generator would emit for the same struct.
\<close>

subsection \<open>Record as a struct of the generator\<close>

definition recordFields :: "sfield list" where
  "recordFields = [fld ''ID'' (TBasic KUint64), fld ''Score'' (TBasic KFloat64),
     fld ''Active'' (TBasic KBool), fld ''Name'' (TBasic KString),
     fld ''Tags'' (TSlice (TBasic KUint32)), fld ''Blob'' (TSlice (TBasic KUint8))]"

definition recordName :: tname where
  "recordName = (''codec'', ''Record'')"

definition recordGen :: "bool \<Rightarrow> generator" where
  "recordGen sf = \<lparr>pkgName = ''codec'', codecPkg = ''github.com/tochemey/goserde/codec'',
     codecQual = ''codec'', safe = sf, pkg = ''codec'', targets = [recordName], owned = [],
     unions = [], structs = (\<lambda>n. if n = recordName then recordFields else [])\<rparr>"

definition sliceVal :: "('a \<Rightarrow> val) \<Rightarrow> 'a gslice \<Rightarrow> val" where
  "sliceVal f s = (case s of NilS \<Rightarrow> VNilSlice | Sl p xs ys \<Rightarrow> VSlice p (map f xs) (map f ys))"

definition recordVal :: "Record \<Rightarrow> val" where
  "recordVal r = VStruct [(''ID'', V64 (ID r)), (''Score'', V64 (F64bits (Score r))),
     (''Active'', VBool (Active r)), (''Name'', VStr (vorg (Name r)) (vdat (Name r))),
     (''Tags'', sliceVal V32 (Tags r)), (''Blob'', sliceVal V8 (Blob r))]"

lemma wire_slice_bulk:
  assumes "memCopyable e" "\<not> isTime (TSlice e)"
  shows "wire (recordGen False) A ow (TSlice e) (sliceVal f s)
    = lenPrefix (length (elems s)) @ concat (map (\<lambda>x. memImage A e (f x)) (elems s))"
  using assms
  by (cases s) (simp_all add: wire.simps [of _ A ow "TSlice e"] sliceVal_def elems_def bulk_def
      recordGen_def comp_def)

lemma not_blit: "\<not> isBlit (recordGen False) recordName"
  by code_simp

lemma record_wire:
  "recordEnc A r = wire (recordGen False) A ow (TNamed recordName TStruct) (recordVal r)"
proof -
  have b: "wire (recordGen False) A ow (TBasic k) v = wireBasic v" for k v
    by (simp add: wire.simps [of _ A ow "TBasic k"] isTime_def)
  have t: "wire (recordGen False) A ow (TSlice (TBasic KUint32)) (sliceVal V32 s)
      = lenPrefix (length (elems s)) @ tagMem A (elems s)" for s
    by (subst wire_slice_bulk)
      (simp_all add: memCopyable.simps isTime_def basicMemCopyable_def tagMem_def)
  have c: "concat (map (\<lambda>x. [x]) xs) = xs" for xs :: bytes by (induction xs) auto
  have l: "wire (recordGen False) A ow (TSlice (TBasic KUint8)) (sliceVal V8 s)
      = lenPrefix (length (elems s)) @ elems s" for s
    by (subst wire_slice_bulk) (simp_all add: memCopyable.simps isTime_def basicMemCopyable_def c)
  have "\<forall>f \<in> set recordFields. \<not> skipped f" by code_simp
  moreover have "structs (recordGen False) recordName = recordFields"
    "\<not> List.member (owned (recordGen False)) recordName" "\<not> isTime (TNamed recordName TStruct)"
    by (simp_all add: recordGen_def isTime_def recordName_def)
  ultimately show ?thesis
    using not_blit
    by (simp add: wire.simps [of _ A ow "TNamed recordName TStruct"] recordFields_def recordVal_def
        recordEnc_def) (simp add: fld_def b t l wireBasic_def)
qed

lemma record_gen_facts:
  "wfGen (recordGen sf)" "isTarget (recordGen sf) recordName" "structs (recordGen sf) recordName = recordFields"
  "cGen c = recordGen sf \<Longrightarrow> ownedOK c ow U"
proof -
  have "wfGen (recordGen True) \<and> wfGen (recordGen False)"
    by (simp add: wfGen_def recordGen_def recordName_def recordFields_def fld_def isTime_def Exported_def)
  then show "wfGen (recordGen sf)" by (cases sf) auto
qed (simp_all add: recordGen_def isTarget_def ownedOK_def List.member_iff)

lemma recordVal_depth: "sdepth (recordVal r) \<le> 1"
proof -
  have b: "sdepth (V64 x) = 0" "sdepth (V32 y) = 0" "sdepth (V8 z) = 0" "sdepth (VBool t) = 0" "sdepth (VStr p u) = 0"
    "sdepth VNilSlice = 0" for x y z t p u by (simp_all add: sdepth.simps)
  have m: "maxl xs = 0 \<longleftrightarrow> (\<forall>x \<in> set xs. x = 0)" for xs using maxl_le [of xs 0] by simp
  show ?thesis
    by (cases "Tags r"; cases "Blob r") (simp_all add: recordVal_def sliceVal_def b m)
qed

definition record1 :: Record where
  "record1 = \<lparr>ID = 7, Score = 1, Active = True, Name = \<lparr>vorg = Own, vdat = [104, 105]\<rparr>,
     Tags = Sl Own [1, 2] [], Blob = Sl Own [9] []\<rparr>"

lemma record1_OK: "recordOK amd64 record1"
  by (simp add: recordOK_def record1_def archOK_def amd64_def lenOK_def elems_def)

lemma record1_wt: "wt (recordGen sf) amd64 (TNamed recordName TStruct) (recordVal record1)"
proof -
  have b: "wt g A (TBasic k) v = wtBasic A k v" for g A k v by (simp add: wt.simps [of g A "TBasic k"] isTime_def)
  have s: "wt g amd64 (TSlice (TBasic KUint32)) (VSlice Own [V32 1, V32 2] [])"
    "wt g amd64 (TSlice (TBasic KUint8)) (VSlice Own [V8 9] [])" for g
    by (simp_all add: wt.simps [of g amd64 "TSlice _"] isTime_def b wtBasic_def lenOK_def) (simp_all add: amd64_def)
  have "\<not> isTime (TNamed recordName TStruct)" by (simp add: isTime_def recordName_def)
  then show ?thesis
    by (simp add: wt.simps [of _ amd64 "TNamed recordName TStruct"] record_gen_facts(3) recordFields_def recordVal_def
        record1_def sliceVal_def fld_def b s wtBasic_def lenOK_def) (simp add: amd64_def)
qed

subsection \<open>Properties\<close>

text \<open>C32: the hand-written codec of \<open>Record\<close> does what the generator emits in fast mode for the same
  struct: \<open>Size\<close>, \<open>Marshal\<close> into a large enough buffer and \<open>Append\<close> of the two codecs yield the same
  count and the same bytes.\<close>

theorem record_format_generated:
  assumes "wt (recordGen False) (cArch c) (TNamed recordName TStruct) (recordVal r)" and "cGen c = recordGen False" and "generate (recordGen False) gs = Inr gf"
    and "1 \<le> d" and "M = methods c (map_of (gfCodecs gf)) U d"
  shows "\<exists>w. Record_Size r = Ok (int (length w)) \<and> mSize M recordName (recordVal r) = Ok (int (length w))
     \<and> (\<forall>b. length w \<le> length b \<longrightarrow> Record_Marshal (cArch c) r b = Ok (splice 0 w b, int (length w))
           \<and> mMarshal M recordName (recordVal r) b = Ok (splice 0 w b, int (length w)))
     \<and> (\<forall>b. \<exists>b1 b2. Record_Append (cArch c) gr r b = Ok b1 \<and> mAppend M recordName (recordVal r) b = Ok b2
           \<and> extends b w b1 \<and> extends b w b2)"
proof -
  have "sdepth (recordVal r) \<le> d" using recordVal_depth [of r] assms(4) by simp
  then have "sizeOK c noOwned M recordName (recordVal r) \<and> marshalOK c noOwned M recordName (recordVal r)
      \<and> appendOK c noOwned M recordName (recordVal r)"
    using package_encOK [of c gs gf noOwned U recordName "recordVal r" d] record_gen_facts assms by simp
  then show ?thesis using assms(2) record_append [of "cArch c" gr r]
    by (intro exI [of _ "recordEnc (cArch c) r"])
      (auto simp: sizeOK_def marshalOK_def appendOK_def Let_def record_wire [where ow = noOwned, symmetric]
        length_recordEnc [where A = "cArch c"] record_marshal; meson)
qed

theorem record_format_generated_witness:
  "\<exists>gf w. generate (recordGen False) emit0 = Inr gf
     \<and> Record_Marshal amd64 record1 (replicate (length w) 0) = Ok (w, int (length w))
     \<and> mMarshal (methods ((shapesCtx False)\<lparr>cGen := recordGen False\<rparr>) (map_of (gfCodecs gf)) noFuelEnv 2) recordName
         (recordVal record1) (replicate (length w) 0) = Ok (w, int (length w))"
proof -
  let ?c = "(shapesCtx False)\<lparr>cGen := recordGen False\<rparr>"
  have "case generate (recordGen False) emit0 of Inl e \<Rightarrow> False | Inr gf \<Rightarrow> True" by code_simp
  then obtain gf where f: "generate (recordGen False) emit0 = Inr gf" by (auto split: sum.splits)
  have c: "cArch ?c = amd64" "cGen ?c = recordGen False" by (simp_all add: shapesCtx_def)
  obtain w where "\<forall>b. length w \<le> length b \<longrightarrow> Record_Marshal amd64 record1 b = Ok (splice 0 w b, int (length w))
      \<and> mMarshal (methods ?c (map_of (gfCodecs gf)) noFuelEnv 2) recordName (recordVal record1) b
        = Ok (splice 0 w b, int (length w))"
    using record_format_generated [where gr = "\<lambda>n. n", OF record1_wt [of False, folded c(1)] c(2) f _ refl, of 2 noFuelEnv]
    unfolding c(1) using one_le_numeral [of num.One, where 'a = nat] by (metis one_le_numeral)
  then show ?thesis using f by (intro exI [of _ gf] exI [of _ w]) (simp add: splice_def)
qed

text \<open>C33: \<open>codec.Bytes\<close> and \<open>codec.Into\<close> on a generated codec both yield exactly the encoding, and
  \<open>Into\<close> stays in the caller's array whenever its capacity suffices.\<close>

theorem helpers_generated:
  assumes "wfGen (cGen c)" and "generate (cGen c) gs = Inr gf" and "ownedOK c ow U"
    and "isTarget (cGen c) n" and "wt (cGen c) (cArch c) (TNamed n TStruct) v" and "sdepth v \<le> d"
    and "m = genMarshaler (methods c (map_of (gfCodecs gf)) U d) n"
    and "w = wire (cGen c) (cArch c) ow (TNamed n TStruct) v"
  shows "Bytes m v = Ok w \<and> (\<exists>b'. Into m v buf = Ok b' \<and> gdat b' = w
     \<and> (length w \<le> length (gdat buf) + length (gspare buf) \<longrightarrow> gnew b' = gnew buf))"
proof -
  have ok: "genOK c gs gf ow U d n v" using assms by (simp add: genOK_def)
  obtain b' where "Into m v buf = Ok b'" "gdat b' = w"
    "length w \<le> length (gdat buf) + length (gspare buf) \<Longrightarrow> gnew b' = gnew buf"
    using gen.Into_enc [OF ok, of buf] unfolding assms(7,8) by blast
  then show ?thesis using gen.Bytes_enc [OF ok] unfolding assms(7,8) by blast
qed

theorem helpers_generated_witness:
  "\<exists>gf. generate (shapesGen True) emit0 = Inr gf
     \<and> Bytes (genMarshaler (methods (shapesCtx True) (map_of (gfCodecs gf)) noFuelEnv 2) (nm ''Drawing'')) drawing1
       = Ok [2, 104, 105, 2, 5, 0, 0, 0, 0, 0, 0, 0, 2, 0, 1, 6, 0, 0, 0, 0, 0, 0, 0]"
proof -
  obtain gf where f: "generate (shapesGen True) emit0 = Inr gf" using shapes_generate by blast
  then show ?thesis
    using helpers_generated [where c = "shapesCtx True" and gs = emit0 and gf = gf and ow = noOwned
        and U = noFuelEnv and n = "nm ''Drawing''" and v = drawing1 and d = 2, OF _ _ _ _ _ _ refl refl]
      shapes_wf drawing1_wt(1,3) [of True] drawing1_wt(2) shapes_owned drawing1_wire
    by (auto simp: shapesCtx_def)
qed

text \<open>C19: a \<open>Record\<close> written by \<open>codec.Bytes\<close> or \<open>codec.Into\<close> and read by \<open>codec.From\<close> into any
  destination comes back with the same fields and no error.\<close>

theorem record_roundtrip:
  assumes "recordOK A r"
  shows "(\<exists>b r'. Bytes (recordMarshaler A gr) r = Ok b
       \<and> From (recordUnmarshaler A) d b [] = Ok (r', None) \<and> recordSame r r')
    \<and> (\<exists>b r'. Into (recordMarshaler A gr) r buf = Ok b
       \<and> From (recordUnmarshaler A) d (gdat b) (gspare b) = Ok (r', None) \<and> recordSame r r')"
  using rec.From_Bytes [OF assms, where d = d and gr = gr] rec.From_Into [OF assms, where d = d and gr = gr and buf = buf]
  by simp

theorem record_roundtrip_witness:
  "\<exists>b r'. Bytes (recordMarshaler amd64 (\<lambda>n. n)) record1 = Ok b
     \<and> From (recordUnmarshaler amd64) record1 b [] = Ok (r', None) \<and> recordSame record1 r'"
  using record_roundtrip [OF record1_OK, of "\<lambda>n. n" record1] by blast

text \<open>C34: \<open>Unmarshal\<close> of a \<open>Record\<close> does not copy the name: the decoded string is a view of the
  input, right after its length prefix; the count it returns is the length of the encoding.\<close>

theorem record_zero_copy:
  assumes "recordOK A r"
  shows "\<exists>r'. Record_Unmarshal A d (recordEnc A r @ t) spare base = Ok (r', int (length (recordEnc A r)), None)
    \<and> vdat (Name r') = vdat (Name r)
    \<and> vorg (Name r') = Input (base + 17 + UvarintSize (of_nat (length (vdat (Name r)))))"
  using record_unmarshal [OF assms, of d t spare base] by (auto simp: length_lenPrefix)

theorem record_zero_copy_witness:
  "\<exists>r'. Record_Unmarshal amd64 record1 (recordEnc amd64 record1 @ [1]) [] 0 = Ok (r', 31, None)
     \<and> vorg (Name r') = Input 18"
proof -
  have "length (recordEnc amd64 record1) = 31" "UvarintSize 2 = 1"
    by (simp_all add: recordEnc_def record1_def length_lenPrefix elems_def UvarintSize_def Len64_def Len64_nat.simps)
  then show ?thesis using record_zero_copy [OF record1_OK, of record1 "[1]" "[]" 0]
    by (auto simp: record1_def)
qed

text \<open>On input shorter than the fixed part of a \<open>Record\<close>, \<open>Unmarshal\<close> panics; it has no error
  path (trusted bytes).\<close>

theorem record_short_panics:
  assumes "length b < 17"
  shows "\<exists>p. Record_Unmarshal A d b spare base = Panic p"
proof -
  have u: "U64 t \<noteq> NoFuel" for t by (simp add: U64_def)
  have "(\<exists>p. obind (sliceFrom b i) U64 = Panic p) \<or> (\<exists>w. obind (sliceFrom b i) U64 = Ok w)" for i
    using u by (cases "obind (sliceFrom b i) U64") (auto simp: sliceFrom_def split: if_splits)
  from this [of 8] this [of 0] show ?thesis using assms by (auto simp: Record_Unmarshal_def)
qed

theorem record_short_panics_witness:
  "\<exists>p. Record_Unmarshal amd64 record1 [1, 2, 3] [] 0 = Panic p"
  using record_short_panics [of "[1, 2, 3]"] by simp

end
