(* ===== verification/LoadProps.thy ===== *)
theory LoadProps
  imports UnionOrder CodecProps "HOL-Library.Multiset"
begin

text \<open>
  Properties of the loader and of the whole command: what \<open>load\<close> accepts, what it does not
  look at, that its answer does not depend on Go's map order, and what a run that writes a file
  has established.  The witnesses run it on the package of \<open>test/data/shapes/types.go\<close>.
\<close>

subsection \<open>A concrete directory\<close>

text \<open>The declarations of \<open>types.go\<close> in their order; of the comments, the first line and the directive.\<close>

definition shapesType :: "string \<Rightarrow> godecl" where
  "shapesType s = TypeDecl (Some [''// '' @ s, ''//goserde:generate'']) [\<lparr>tsDoc = None, tsName = s, tsInterface = False\<rparr>]"

definition shapesFile :: astfile where
  "shapesFile = \<lparr>afName = ''shapes'', afDecls =
     [OtherDecl, shapesType ''SmallFixed'', shapesType ''FlatMixed'', shapesType ''Inner'', shapesType ''Nested'',
      shapesType ''CollectionHeavy'', shapesType ''StringHeavy'', shapesType ''TimeStruct'',
      shapesType ''FixedArrays'', shapesType ''MixedArrays'', shapesType ''Tagged'', shapesType ''NumericBulk'',
      TypeDecl (Some [''// Hue is a defined type with a uint8 underlying.'']) [\<lparr>tsDoc = None, tsName = ''Hue'', tsInterface = False\<rparr>],
      TypeDecl (Some [''// Grade is a defined type with an int32 underlying'']) [\<lparr>tsDoc = None, tsName = ''Grade'', tsInterface = False\<rparr>],
      shapesType ''NamedScalars'', shapesType ''NamedFixed'', shapesType ''WideItem'', shapesType ''WideList'',
      shapesType ''Circle'', OtherDecl, shapesType ''Square'', OtherDecl,
      TypeDecl (Some [''// Geometry is a tagged union over Circle and Square.'', ''//goserde:union Circle Square''])
        [\<lparr>tsDoc = None, tsName = ''Geometry'', tsInterface = True\<rparr>],
      shapesType ''Drawing'']\<rparr>"

definition shapesMarked :: "string list" where
  "shapesMarked = [''Drawing'', ''Square'', ''Circle'', ''WideList'', ''WideItem'', ''NamedFixed'', ''NamedScalars'',
     ''NumericBulk'', ''Tagged'', ''MixedArrays'', ''FixedArrays'', ''TimeStruct'', ''StringHeavy'', ''CollectionHeavy'',
     ''Nested'', ''Inner'', ''FlatMixed'', ''SmallFixed'']"

definition shapesPkg :: tpkg where
  "shapesPkg = \<lparr>tpScope = [(''Geometry'', tGeometry), (''Grade'', tGrade), (''Hue'', tHue)]
       @ map (\<lambda>(s, _). (s, TNamed (nm s) TStruct)) shapesDecls,
     tpMethods = (\<lambda>n. if snd n \<in> {''Circle'', ''Square''} then [''isGeometry''] else []),
     tpStructs = (\<lambda>n. case map_of shapesDecls (snd n) of Some fs \<Rightarrow> fs | None \<Rightarrow> []),
     tpImplements = (\<lambda>m iface. snd m \<in> {''Circle'', ''Square''})\<rparr>"

definition shapesDir :: "dirent list" where
  "shapesDir = [\<lparr>deName = ''goserde_gen.go'', deIsDir = False\<rparr>, \<lparr>deName = ''types.go'', deIsDir = False\<rparr>]"

definition shapesWorld :: world where
  "shapesWorld = \<lparr>
     ReadDir = (\<lambda>d. if d = ''.'' then Inr
       shapesDir
       else Inl ''no such file or directory''),
     ParseFile = (\<lambda>d n. if n = ''types.go'' then Inr shapesFile else Inl ''syntax error''),
     TypeCheck = (\<lambda>pk fs. if pk = ''shapes'' then Inr shapesPkg else Inl ''type error''),
     BuildInfo = None, WriteFile = (\<lambda>d n. None), rangeOrder = rev\<rparr>"

lemma shapes_parse:
  "\<exists>p. parseEntries shapesWorld ''.'' ''goserde_gen.go''
       shapesDir noFiles = Inr p
     \<and> psFiles p = [shapesFile] \<and> psName p = ''shapes''
     \<and> psUnions p = [(''Geometry'', [''Circle'', ''Square''])]
     \<and> psMarked p = shapesMarked"
proof -
  have i: "map (ignored ''goserde_gen.go'')
      shapesDir
    = [True, False]" by code_simp
  have "collectMarked shapesFile [] = shapesMarked"
    "collectUnions shapesFile [] = [(''Geometry'', [''Circle'', ''Square''])]"
    by code_simp+
  then show ?thesis using i by (simp add: shapesDir_def shapesWorld_def noFiles_def shapesFile_def)
qed

lemma shapes_targets:
  "collectTargets shapesMarked (tpScope shapesPkg) = Inr (map (\<lambda>(s, _). nm s) shapesDecls)"
  "sort_key snd (map (\<lambda>(s, _). nm s) shapesDecls) = map (\<lambda>(s, _). nm s) shapesDecls"
  by code_simp+

lemma shapes_load: "load shapesWorld ''.'' ''goserde_gen.go'' defaultCodecPkg sf = Inr (shapesGen sf)"
proof -
  obtain p where p: "parseEntries shapesWorld ''.'' ''goserde_gen.go''
       shapesDir noFiles = Inr p"
     "psFiles p = [shapesFile]" "psName p = ''shapes''"
     "psUnions p = [(''Geometry'', [''Circle'', ''Square''])]" "psMarked p = shapesMarked"
    using shapes_parse by blast
  have g: "newGenerator p shapesPkg defaultCodecPkg sf (map (\<lambda>(s, _). nm s) shapesDecls)
      = (shapesGen sf)\<lparr>unions := []\<rparr>"
  proof -
    have "codecQualOf defaultCodecPkg = ''codec''" by code_simp
    then show ?thesis using p(3) shapes_targets(2)
      by (simp add: newGenerator_def shapesGen_def defaultCodecPkg_def shapesPkg_def)
  qed
  have u: "resolveUnions ((shapesGen sf)\<lparr>unions := []\<rparr>) shapesPkg [(''Geometry'', [''Circle'', ''Square''])]
      = Inr (shapesGen sf)"
  proof -
    have "resolveLoop ((shapesGen True)\<lparr>unions := []\<rparr>) shapesPkg [(''Geometry'', [''Circle'', ''Square''])] []
      = Inr [(nm ''Geometry'', [nm ''Circle'', nm ''Square''])]"
      "resolveLoop ((shapesGen False)\<lparr>unions := []\<rparr>) shapesPkg [(''Geometry'', [''Circle'', ''Square''])] []
      = Inr [(nm ''Geometry'', [nm ''Circle'', nm ''Square''])]"
      by code_simp+
    then show ?thesis by (cases sf) (simp_all add: resolveUnions_def shapesGen_def)
  qed
  have o: "ownedLoop shapesPkg (map (\<lambda>(s, _). nm s) shapesDecls) = Inr []" by code_simp
  have ne: "map (\<lambda>(s, _). nm s) shapesDecls \<noteq> []" by (simp add: shapesDecls_def)
  have "ReadDir shapesWorld ''.'' = Inr
      shapesDir"
    "TypeCheck shapesWorld ''shapes'' [shapesFile] = Inr shapesPkg"
    "rangeOrder shapesWorld [(''Geometry'', [''Circle'', ''Square''])] = [(''Geometry'', [''Circle'', ''Square''])]"
    by (simp_all add: shapesWorld_def)
  then show ?thesis
    using p(2-5) o ne g u shapes_targets(1)
    by (simp add: load_def p(1) detectOwned_def) (simp add: shapesGen_def)
qed

lemma shapes_checker: "checker shapesWorld"
proof -
  have t: "\<forall>x \<in> set (tpScope shapesPkg). (case snd x of TNamed n u \<Rightarrow> n = nm (fst x) | _ \<Rightarrow> True)
      \<and> distinct (filter (\<lambda>f. f \<noteq> ''_'') (map sfName (tpStructs shapesPkg (nm (fst x)))))"
    and d: "distinct (map fst (tpScope shapesPkg))" by code_simp+
  have m: "distinct (tpMethods shapesPkg n)" for n by (simp add: shapesPkg_def)
  have "checkOK ''shapes'' fs shapesPkg" for fs
    using t d m unfolding checkOK_def by (fastforce simp: nm_def split: gotype.splits)
  then show ?thesis by (auto simp: checker_def shapesWorld_def split: if_splits)
qed

subsection \<open>From load to the encoders\<close>

lemma checkOK_struct:
  assumes "checkOK pk fs tp" "fst n = pk" "snd n \<in> fst ` set (tpScope tp)"
  shows "distinct (filter (\<lambda>m. m \<noteq> ''_'') (tpMethods tp n))"
    and "distinct (filter (\<lambda>f. f \<noteq> ''_'') (map sfName (tpStructs tp n)))"
proof -
  obtain x where x: "x \<in> set (tpScope tp)" "snd n = fst x" using assms(3) by auto
  then have "n = (pk, fst x)" using assms(2) by (metis prod.collapse)
  then show "distinct (filter (\<lambda>m. m \<noteq> ''_'') (tpMethods tp n))"
    "distinct (filter (\<lambda>f. f \<noteq> ''_'') (map sfName (tpStructs tp n)))"
    using assms(1) x(1) unfolding checkOK_def by simp_all
qed

lemma distinct_exported:
  "distinct (filter (\<lambda>f. f \<noteq> ''_'') (map sfName fs)) \<Longrightarrow> distinct (map sfName (filter Exported fs))"
proof (induction fs)
  case (Cons f fs)
  have "Exported f \<Longrightarrow> sfName f \<noteq> ''_''" by (auto simp: Exported_def)
  then show ?case using Cons by (cases "sfName f = ''_''") auto
qed simp

lemma load_wfGen:
  assumes "load w dir out path sf = Inr g" "checker w" "pkgName g \<noteq> ''time''"
  shows "wfGen g"
proof -
  obtain fs tp where f: "checkOK (pkgName g) fs tp" "loaded w dir out g fs tp"
    "\<And>n. n \<in> set (targets g) \<Longrightarrow> fst n = pkgName g \<and> snd n \<in> fst ` set (tpScope tp)"
    "\<And>u. u \<in> set (unions g) \<Longrightarrow> snd u \<noteq> [] \<and> (\<forall>m \<in> set (snd u). isTarget g m \<and> tpImplements tp m (fst u))"
    "set (owned g) \<subseteq> set (targets g)"
    using load_facts [OF assms(1,2)] by metis
  have st: "structs g = tpStructs tp" using f(2) by (simp add: loaded_def)
  have "distinct (filter (\<lambda>f. f \<noteq> ''_'') (map sfName (structs g n)))" if "n \<in> set (targets g)" for n
    using checkOK_struct(2) [OF f(1)] f(3) [OF that] by (simp only: st)
  then have "distinct (map sfName (filter Exported (structs g n)))
      \<and> (\<forall>f \<in> set (structs g n). \<forall>f' \<in> set (structs g n). sfName f = sfName f' \<longrightarrow> Exported f = Exported f')"
    if "n \<in> set (targets g)" for n
    using distinct_exported that by (intro conjI) (blast, simp add: Exported_def)
  moreover have "\<not> isTime (TNamed n TStruct)" if "n \<in> set (targets g)" for n
    using f(3) [OF that] assms(3) by (auto simp: isTime_def)
  ultimately show ?thesis using f(4,5) unfolding wfGen_def isTarget_set by blast
qed

lemma resolveUnion_key:
  "resolveUnion g tp d = Inr r \<Longrightarrow> \<exists>u. map_of (tpScope tp) (fst d) = Some (TNamed (fst r) u)"
  using resolveUnion_ok(1) [of g tp d "fst r" "snd r"] by auto

text \<open>The unions do not depend on the order in which the directives are visited.\<close>

lemma resolveLoop_perm:
  assumes perm: "mset ds = mset ds'" and dist: "distinct (map fst ds)"
    and key: "\<forall>d \<in> set ds. \<forall>n u. map_of (tpScope tp) (fst d) = Some (TNamed n u) \<longrightarrow> snd n = fst d"
    and ok: "resolveLoop g tp ds [] = Inr us"
  shows "\<exists>us'. resolveLoop g tp ds' [] = Inr us' \<and> map_of us' = map_of us"
proof -
  let ?f = "\<lambda>d. projr (resolveUnion g tp d)"
  obtain rs where rs: "list_all2 (\<lambda>d r. resolveUnion g tp d = Inr r) ds rs"
      "us = fold (\<lambda>r us. AList.update (fst r) (snd r) us) rs []"
    using ok unfolding resolveLoop_iff by blast
  have all: "\<forall>d \<in> set ds. resolveUnion g tp d = Inr (?f d)" and "rs = map ?f ds"
    using rs(1) by (induction rule: list_all2_induct) auto
  have set: "set ds' = set ds" using perm by (metis mset_eq_setD)
  have "list_all2 (\<lambda>d r. resolveUnion g tp d = Inr r) ds' (map ?f ds')"
    using all set by (simp add: list.rel_map list_all2_same)
  then have loop: "resolveLoop g tp ds' [] = Inr (fold (\<lambda>r us. AList.update (fst r) (snd r) us) (map ?f ds') [])"
    unfolding resolveLoop_iff by blast
  have inj: "inj_on (\<lambda>d. fst (?f d)) (set ds)"
  proof (rule inj_onI)
    fix a b assume ab: "a \<in> set ds" "b \<in> set ds" "fst (?f a) = fst (?f b)"
    have "snd (fst (?f d)) = fst d" if "d \<in> set ds" for d
      using all that key resolveUnion_key [of g tp d "?f d"] by blast
    then have "fst a = fst b" using ab by metis
    then show "a = b" using ab dist by (metis eq_key_imp_eq_value prod.collapse)
  qed
  have ds: "distinct ds" "distinct ds'" using dist perm by (metis distinct_map mset_eq_imp_distinct_iff)+
  have "map_of (rev (map ?f ds')) = map_of (rev (map ?f ds))"
  proof (rule iffD2 [OF map_of_inject_set])
    have "map fst (rev (map ?f xs)) = rev (map (\<lambda>d. fst (?f d)) xs)" for xs by (simp add: rev_map comp_def)
    then show "distinct (map fst (rev (map ?f ds')))" "distinct (map fst (rev (map ?f ds)))"
      using inj ds set by (simp_all add: distinct_map)
    show "set (rev (map ?f ds')) = set (rev (map ?f ds))" using set by simp
  qed
  then show ?thesis
    using loop rs(2) \<open>rs = map ?f ds\<close> by (simp add: map_of_fold_update del: map_map)
qed

subsection \<open>Properties\<close>

text \<open>C16: the targets \<open>load\<close> returns are exactly the marked structs of the package it parsed, once
  each and in the order of their names; every union lists at least one member, and its members
  are targets whose pointers implement it.\<close>

theorem load_sound:
  assumes "load w dir out path sf = Inr g" and "checker w"
  shows "\<exists>fs tp. loaded w dir out g fs tp \<and> sorted (map snd (targets g)) \<and> distinct (targets g)
     \<and> targets g \<noteq> []
     \<and> (\<forall>n. n \<in> set (targets g) \<longleftrightarrow> (\<exists>f \<in> set fs. snd n \<in> markedIn f)
          \<and> (\<exists>u. (snd n, TNamed n u) \<in> set (tpScope tp) \<and> underlying u = TStruct))
     \<and> (\<forall>u \<in> set (unions g). snd u \<noteq> [] \<and> (\<forall>m \<in> set (snd u). isTarget g m \<and> tpImplements tp m (fst u)))"
  using load_facts [OF assms] by (metis distinct_map)

theorem load_sound_witness:
  "\<exists>fs. loaded shapesWorld ''.'' ''goserde_gen.go'' (shapesGen True) fs shapesPkg"
proof -
  obtain fs tp where l: "loaded shapesWorld ''.'' ''goserde_gen.go'' (shapesGen True) fs tp"
    using load_sound [OF shapes_load shapes_checker, of True] by blast
  then have "tp = shapesPkg" by (auto simp: loaded_def shapesWorld_def split: if_splits)
  then show ?thesis using l by blast
qed

text \<open>C17: a codec is user-owned exactly when all four methods are declared by hand; after a
  successful \<open>load\<close> every other target declares none of them, so no method is emitted twice.\<close>

theorem load_owned:
  assumes "load w dir out path sf = Inr g" and "checker w" and "t \<in> set (targets g)"
  shows "\<exists>fs tp. loaded w dir out g fs tp
     \<and> (if t \<in> set (owned g) then set codecMethodNames \<subseteq> set (tpMethods tp t)
        else set codecMethodNames \<inter> set (tpMethods tp t) = {})"
proof -
  obtain fs tp where f: "loaded w dir out g fs tp" "checkOK (pkgName g) fs tp"
    and n: "fst t = pkgName g" "snd t \<in> fst ` set (tpScope tp)"
    and k: "length (filter (List.member codecMethodNames) (tpMethods tp t))
        = (if t \<in> set (owned g) then length codecMethodNames else 0)"
    using load_facts [OF assms(1,2)] assms(3) by (smt (verit, best))
  have "distinct (filter (\<lambda>m. m \<noteq> ''_'') (tpMethods tp t))"
    using checkOK_struct(1) [OF f(2) n] .
  then have "distinct (filter (List.member codecMethodNames) (filter (\<lambda>m. m \<noteq> ''_'') (tpMethods tp t)))"
    by (rule distinct_filter)
  moreover have "filter (List.member codecMethodNames) (filter (\<lambda>m. m \<noteq> ''_'') (tpMethods tp t))
      = filter (List.member codecMethodNames) (tpMethods tp t)"
    by (simp add: codecMethodNames_def List.member_iff) (rule filter_cong; auto)
  ultimately have L: "distinct (filter (List.member codecMethodNames) (tpMethods tp t))" by simp
  have "set (filter (List.member codecMethodNames) (tpMethods tp t)) = set codecMethodNames \<inter> set (tpMethods tp t)"
    by (auto simp: List.member_iff)
  then have c: "card (set codecMethodNames \<inter> set (tpMethods tp t))
      = length (filter (List.member codecMethodNames) (tpMethods tp t))"
    using distinct_card [OF L] by simp
  have "card (set codecMethodNames) = length codecMethodNames" by code_simp
  then have "if t \<in> set (owned g) then set codecMethodNames \<subseteq> set (tpMethods tp t)
        else set codecMethodNames \<inter> set (tpMethods tp t) = {}"
    using c k card_subset_eq [of "set codecMethodNames" "set codecMethodNames \<inter> set (tpMethods tp t)"]
    by (auto split: if_splits)
  then show ?thesis using f(1) by blast
qed

theorem load_owned_witness:
  "\<exists>fs tp. loaded shapesWorld ''.'' ''goserde_gen.go'' (shapesGen False) fs tp
     \<and> set codecMethodNames \<inter> set (tpMethods tp (nm ''Circle'')) = {}"
proof -
  have t: "nm ''Circle'' \<in> set (targets (shapesGen False))" "owned (shapesGen False) = []"
    by (simp_all add: shapesGen_def shapesDecls_def)
  show ?thesis using load_owned [OF shapes_load shapes_checker t(1)] t(2) by simp
qed

definition sourceFile :: "string \<Rightarrow> dirent \<Rightarrow> bool" where
  "sourceFile out e \<longleftrightarrow> \<not> deIsDir e \<and> HasSuffix (deName e) ''.go'' \<and> \<not> HasSuffix (deName e) ''_test.go''
     \<and> deName e \<noteq> out"

lemma parseEntries_sources:
  "parseEntries w dir out es p = parseEntries w dir out (filter (sourceFile out) es) p"
  by (induction es arbitrary: p) (auto simp: ignored_def sourceFile_def split: sum.split)

lemma parseEntries_cong:
  "\<forall>e \<in> set es. ParseFile w' dir (deName e) = ParseFile w dir (deName e)
     \<Longrightarrow> parseEntries w' dir out es p = parseEntries w dir out es p"
  by (induction es arbitrary: p) (auto split: sum.split)

text \<open>C29: of the directory \<open>load\<close> sees only the Go source files that are no tests and not the out
  file: with the same such files, in the same order, whatever else lies there (a stale or broken
  output, tests, directories named like Go files, other files) the result is the same.\<close>

theorem load_ignores_stale:
  assumes "ReadDir w dir = Inr es" and "ReadDir w' dir = Inr es'"
    and "filter (sourceFile out) es' = filter (sourceFile out) es"
    and "\<forall>e \<in> set es. sourceFile out e \<longrightarrow> ParseFile w' dir (deName e) = ParseFile w dir (deName e)"
    and "TypeCheck w' = TypeCheck w" and "rangeOrder w' = rangeOrder w"
  shows "load w' dir out path sf = load w dir out path sf"
proof -
  have "parseEntries w' dir out es' p = parseEntries w dir out es p" for p
    using parseEntries_cong [of "filter (sourceFile out) es" w' dir w out p] assms(4)
    by (simp add: parseEntries_sources [of _ dir out es'] parseEntries_sources [of _ dir out es] assms(3))
  then show ?thesis unfolding load_def assms(1,2,5,6) by simp
qed

text \<open>The shapes package without its output and with a directory \<open>old.go\<close>, a note and a test.\<close>

definition litteredWorld :: world where
  "litteredWorld = shapesWorld\<lparr>ReadDir := (\<lambda>d. Inr
     [\<lparr>deName = ''NOTES'', deIsDir = False\<rparr>, \<lparr>deName = ''old.go'', deIsDir = True\<rparr>,
      \<lparr>deName = ''types.go'', deIsDir = False\<rparr>, \<lparr>deName = ''types_test.go'', deIsDir = False\<rparr>])\<rparr>"

theorem load_ignores_stale_witness:
  "load litteredWorld ''.'' ''goserde_gen.go'' defaultCodecPkg True = Inr (shapesGen True)"
proof -
  have "ReadDir shapesWorld ''.'' = Inr shapesDir" by (simp add: shapesWorld_def)
  moreover obtain es where "ReadDir litteredWorld ''.'' = Inr es"
    "filter (sourceFile ''goserde_gen.go'') es = filter (sourceFile ''goserde_gen.go'') shapesDir"
    by (simp add: litteredWorld_def sourceFile_def HasSuffix_def shapesDir_def)
  moreover have "ParseFile litteredWorld = ParseFile shapesWorld" "TypeCheck litteredWorld = TypeCheck shapesWorld"
    "rangeOrder litteredWorld = rangeOrder shapesWorld" by (simp_all add: litteredWorld_def)
  ultimately have "load litteredWorld ''.'' ''goserde_gen.go'' defaultCodecPkg True
      = load shapesWorld ''.'' ''goserde_gen.go'' defaultCodecPkg True"
    by (intro load_ignores_stale [where es = shapesDir and es' = es]) simp_all
  then show ?thesis by (simp only: shapes_load)
qed

text \<open>C18: the outcome does not depend on the order in which Go ranges over the map of union
  directives: any order gives the same settings up to the order of the union registry, and the
  same generated file.\<close>

theorem load_deterministic:
  assumes "load w dir out path sf = Inr g" and "checker w"
    and "\<forall>us. mset (rangeOrder w us) = mset us" and "\<forall>us. mset (ord us) = mset us"
  shows "\<exists>h. load (w\<lparr>rangeOrder := ord\<rparr>) dir out path sf = Inr h \<and> sameUnions g h \<and> generate h s = generate g s"
proof -
  let ?w = "w\<lparr>rangeOrder := ord\<rparr>"
  obtain entries p tp ns us os where
    r: "ReadDir w dir = Inr entries" "parseEntries w dir out entries noFiles = Inr p" "psFiles p \<noteq> []"
    and tc: "TypeCheck w (psName p) (psFiles p) = Inr tp"
    and ns: "collectTargets (psMarked p) (tpScope tp) = Inr ns" "ns \<noteq> []"
    and us: "resolveLoop (newGenerator p tp path sf ns) tp (rangeOrder w (psUnions p)) [] = Inr us"
    and os: "ownedLoop tp (sort_key snd ns) = Inr os"
    and g: "g = (newGenerator p tp path sf ns)\<lparr>unions := us, owned := os\<rparr>"
    using load_cases [OF assms(1)] .
  have p: "parsedOK p" using parseEntries_OK [OF r(2) noFiles_OK] .
  have c: "checkOK (psName p) (psFiles p) tp" using assms(2) tc by (simp add: checker_def)
  have m: "mset (rangeOrder w (psUnions p)) = mset (psUnions p)" using assms(3) by simp
  have dist: "distinct (map fst (rangeOrder w (psUnions p)))"
    using p mset_eq_imp_distinct_iff [of "map fst (rangeOrder w (psUnions p))" "map fst (psUnions p)"] m
    by (simp add: parsedOK_def)
  have key: "snd n = fst d"
    if "d \<in> set (rangeOrder w (psUnions p))" "map_of (tpScope tp) (fst d) = Some (TNamed n u)" for d n u
  proof -
    have "d \<in> set (psUnions p)" using that(1) mset_eq_setD [OF m] by simp
    then have "\<exists>f \<in> set (psFiles p). fst d \<in> declTypes f" using p unfolding parsedOK_def by blast
    then show ?thesis using c map_of_SomeD [OF that(2)] unfolding checkOK_def by fastforce
  qed
  have "mset (rangeOrder w (psUnions p)) = mset (ord (psUnions p))" using assms(3,4) by simp
  then obtain us' where us': "resolveLoop (newGenerator p tp path sf ns) tp (ord (psUnions p)) [] = Inr us'"
      "map_of us' = map_of us"
    using resolveLoop_perm [OF _ dist _ us] key by blast
  let ?h = "(newGenerator p tp path sf ns)\<lparr>unions := us', owned := os\<rparr>"
  have pe: "parseEntries ?w dir out es q = parseEntries w dir out es q" for es q
    by (induction es arbitrary: q) (auto split: sum.split)
  have "load ?w dir out path sf = Inr ?h"
    using r tc ns us'(1) os by (simp add: load_def pe resolveUnions_def detectOwned_def)
      (simp add: newGenerator_def)
  moreover have "sameUnions g ?h" using us'(2) by (simp add: sameUnions_def g)
  ultimately show ?thesis using generate_same by blast
qed

theorem load_deterministic_witness:
  "\<exists>h. load (shapesWorld\<lparr>rangeOrder := (\<lambda>us. us)\<rparr>) ''.'' ''goserde_gen.go'' defaultCodecPkg True = Inr h
     \<and> generate h emit0 = generate (shapesGen True) emit0"
  using load_deterministic [OF shapes_load shapes_checker, of "\<lambda>us. us" True emit0]
  by (auto simp: shapesWorld_def)

end
