(* ===== verification/CommandProps.thy ===== *)
theory CommandProps
  imports LoadProps
begin

text \<open>
  Properties of the command line: the accepted \<open>-out\<close> names, the syntax of markers and union
  directives, and what a run does to the file system.
\<close>

lemma run_cases:
  assumes "rFile (run w args) = Some (d, out, gf)"
  obtains f g where "parseFlags (tl args) defaultFlags = Inr f" "\<not> fVersion f" "d = fDir f" "out = fOut f"
    "validateOut out = None" "load w d out (codecPkgPath w) (fSafe f) = Inr g"
    "generate g emit0 = Inr gf" "WriteFile w d out = None"
    "run w args = \<lparr>rErr = None,
       rOut = map Skipping (ownedNames g) @ [Wrote d out (length (targets g) - length (owned g))],
       rFile = Some (d, out, gf)\<rparr>"
  using assms
  by (auto simp: run_def failed_def split: sum.splits if_splits option.splits)

subsection \<open>Properties\<close>

text \<open>C28: \<open>-out\<close> is accepted exactly when it has no path separator, ends in \<open>.go\<close> with something
  before it, and does not end in \<open>_test.go\<close>.\<close>

theorem validateOut_iff:
  "validateOut out = None \<longleftrightarrow>
     slash \<notin> set out \<and> (\<exists>base. base \<noteq> [] \<and> out = base @ ''.go'') \<and> (\<nexists>base. out = base @ ''_test.go'')"
proof -
  have b: "out = Base out \<longleftrightarrow> slash \<notin> set out" if "out \<noteq> []" "HasSuffix out ''.go''"
    using Base_bare [OF _ that(1)] Base_slash [of out] that(2)
    by (auto simp: HasSuffix_iff slash_def)
  have "HasSuffix out ''.go'' \<and> out \<noteq> ''.go'' \<longleftrightarrow> (\<exists>base. base \<noteq> [] \<and> out = base @ ''.go'')"
    by (auto simp: HasSuffix_iff)
  then show ?thesis
    using b by (auto simp: validateOut_def HasSuffix_iff [of out "''_test.go''"])
qed

text \<open>C30: a union directive lists its members in order: whatever comment lines come before (none of
  them a directive) and after, the names are read back as written.\<close>

theorem directive_members:
  assumes "\<forall>n \<in> set ns. n \<noteq> [] \<and> (\<forall>c \<in> set n. \<not> isSpace c)"
    and "\<forall>c \<in> set pre. lineMembers c = None"
  shows "unionMembers (Some (pre @ (''//goserde:union'' @ concat (map (\<lambda>n. CHR 0x20 # n) ns)) # post)) = Some ns"
proof -
  let ?s = "unionMarker @ concat (map (\<lambda>n. CHR 0x20 # n) ns)"
  have last: "\<not> isSpace (last ?s)"
  proof (cases ns rule: rev_cases)
    case Nil
    then show ?thesis by (simp add: unionMarker_def isSpace_def)
  next
    case (snoc ms n)
    then have "n \<noteq> []" "\<not> isSpace (last n)" using assms(1) by auto
    then show ?thesis using snoc by simp
  qed
  have "dropWhile isSpace ?s = ?s" by (simp add: unionMarker_def isSpace_def)
  moreover have "rev (dropWhile isSpace (rev ?s)) = ?s"
  proof -
    have "?s \<noteq> []" by (simp add: unionMarker_def)
    then have "\<not> isSpace (hd (rev ?s))" using last by (simp add: hd_rev del: rev_append)
    then have "dropWhile isSpace (rev ?s) = rev ?s"
      by (simp add: dropWhile_eq_self_iff del: rev_append)
    then show ?thesis by (metis rev_rev_ident)
  qed
  ultimately have "TrimSpace ?s = ?s" by (simp only: TrimSpace_def)
  moreover have "TrimPrefix (''//goserde:union'' @ t) ''//'' = unionMarker @ t" for t
    by (simp add: TrimPrefix_def HasPrefix_def unionMarker_def)
  ultimately have "lineMembers (''//goserde:union'' @ concat (map (\<lambda>n. CHR 0x20 # n) ns)) = Some ns"
    by (simp add: lineMembers_def Fields_words [OF assms(1)])
  moreover have "firstMembers (pre @ l) = firstMembers l" for l
    using assms(2) by (induction pre) auto
  ultimately show ?thesis by (simp add: unionMembers_def)
qed

theorem directive_members_witness:
  "unionMembers (Some [''// Shapes.'', ''//goserde:union Circle Square'']) = Some [''Circle'', ''Square'']"
proof -
  have "\<forall>n \<in> set [''Circle'', ''Square'']. n \<noteq> [] \<and> (\<forall>c \<in> set n. \<not> isSpace c)"
    "\<forall>c \<in> set [''// Shapes.'']. lineMembers c = None" by code_simp+
  from directive_members [OF this, of "[]"] show ?thesis by simp
qed

text \<open>C10: a run that writes a file wrote the codecs of exactly the targets that are not
  user-owned, in the order of their names, and the encoders of that file are exact on every
  machine: \<open>Size\<close> returns the length of the encoding and \<open>Marshal\<close> writes it.\<close>

theorem run_encodes:
  assumes "rFile (run w args) = Some (d, out, gf)" and "checker w"
    and "parseFlags (tl args) defaultFlags = Inr f"
  shows "\<exists>g. validateOut out = None \<and> load w d out (codecPkgPath w) (fSafe f) = Inr g
     \<and> map fst (gfCodecs gf) = filter (\<lambda>n. \<not> List.member (owned g) n) (targets g)
     \<and> (pkgName g \<noteq> ''time'' \<longrightarrow>
         (\<forall>c ow U n v k b. cGen c = g \<longrightarrow> ownedOK c ow U \<longrightarrow> isTarget g n
            \<longrightarrow> wt g (cArch c) (TNamed n TStruct) v \<longrightarrow> sdepth v \<le> k
            \<longrightarrow> (let M = methods c (map_of (gfCodecs gf)) U k; bs = wire g (cArch c) ow (TNamed n TStruct) v
                 in mSize M n v = Ok (int (length bs))
                  \<and> (length bs \<le> length b \<longrightarrow> mMarshal M n v b = Ok (splice 0 bs b, int (length bs))))))"
proof -
  obtain g where l: "validateOut out = None" "load w d out (codecPkgPath w) (fSafe f) = Inr g"
      "generate g emit0 = Inr gf"
    using assms(3) by (auto intro: run_cases [OF assms(1)])
  have "mSize (methods c (map_of (gfCodecs gf)) U k) n v = Ok (int (length (wire g (cArch c) ow (TNamed n TStruct) v)))
      \<and> (length (wire g (cArch c) ow (TNamed n TStruct) v) \<le> length b \<longrightarrow>
           mMarshal (methods c (map_of (gfCodecs gf)) U k) n v b
           = Ok (splice 0 (wire g (cArch c) ow (TNamed n TStruct) v) b, int (length (wire g (cArch c) ow (TNamed n TStruct) v))))"
    if "pkgName g \<noteq> ''time''" "cGen c = g" "ownedOK c ow U" "isTarget g n"
      "wt g (cArch c) (TNamed n TStruct) v" "sdepth v \<le> k" for c ow U n v k b
    using package_encOK(1,2) [of c emit0 gf ow U n v k] load_wfGen [OF l(2) assms(2) that(1)] l(3) that
    by (simp add: sizeOK_def marshalOK_def Let_def)
  then show ?thesis using l generate_names [OF l(3)] unfolding Let_def by blast
qed

text \<open>A run that fails, whatever the reason, writes no file and prints nothing to its output,
  and the process exits with status 1; \<open>-version\<close> and a successful run exit with 0.\<close>

theorem run_fails_clean:
  "snd (main w args) = (if rErr (run w args) = None then 0 else 1)
   \<and> (rErr (run w args) \<noteq> None \<longrightarrow> rFile (run w args) = None \<and> rOut (run w args) = [])
   \<and> (rFile (run w args) \<noteq> None \<longrightarrow> rErr (run w args) = None)"
  by (auto simp: main_def Let_def run_def failed_def split: sum.splits option.splits)

theorem run_fails_clean_witness:
  "rFile (run shapesWorld [''goserdegen'', ''-out=../x.go'']) = None
   \<and> snd (main shapesWorld [''goserdegen'', ''-out=../x.go'']) = 1"
proof -
  have "run shapesWorld [''goserdegen'', ''-out=../x.go''] = failed (OutErr (NotBare ''../x.go''))"
    by code_simp
  then have "rErr (run shapesWorld [''goserdegen'', ''-out=../x.go'']) \<noteq> None" by (simp add: failed_def)
  then show ?thesis
    using run_fails_clean [of shapesWorld "[''goserdegen'', ''-out=../x.go'']"] by presburger
qed

text \<open>A run on the concrete directory; the codecs it writes.\<close>

lemma shapes_run:
  "\<exists>gf. rFile (run shapesWorld [''goserdegen'', ''-safe'']) = Some (''.'', ''goserde_gen.go'', gf)
     \<and> generate (shapesGen True) emit0 = Inr gf"
proof -
  obtain gf where gf: "generate (shapesGen True) emit0 = Inr gf" using shapes_generate by blast
  have "parseFlags [''-safe''] defaultFlags = Inr (defaultFlags\<lparr>fSafe := True\<rparr>)"
    "validateOut ''goserde_gen.go'' = None" by code_simp+
  moreover have "codecPkgPath shapesWorld = defaultCodecPkg" "WriteFile shapesWorld d n = None" for d n
    by (simp_all add: codecPkgPath_def shapesWorld_def)
  ultimately show ?thesis
    using gf shapes_load [of True] by (simp add: run_def) (simp add: defaultFlags_def)
qed

theorem run_encodes_witness:
  "\<exists>gf. rFile (run shapesWorld [''goserdegen'', ''-safe'']) = Some (''.'', ''goserde_gen.go'', gf)
     \<and> mSize (methods (shapesCtx True) (map_of (gfCodecs gf)) noFuelEnv 2) (nm ''Drawing'') drawing1 = Ok 23"
proof -
  obtain gf where gf: "rFile (run shapesWorld [''goserdegen'', ''-safe'']) = Some (''.'', ''goserde_gen.go'', gf)"
    "generate (shapesGen True) emit0 = Inr gf" using shapes_run by blast
  have f: "parseFlags (tl [''goserdegen'', ''-safe'']) defaultFlags = Inr (defaultFlags\<lparr>fSafe := True\<rparr>)"
    by code_simp
  have c: "codecPkgPath shapesWorld = defaultCodecPkg" by (simp add: codecPkgPath_def shapesWorld_def)
  have p: "pkgName (shapesGen True) \<noteq> ''time''" by (simp add: shapesGen_def)
  have e: "mSize (methods c (map_of (gfCodecs gf)) U k) n v
      = Ok (int (length (wire (shapesGen True) (cArch c) ow (TNamed n TStruct) v)))"
    if "cGen c = shapesGen True" "ownedOK c ow U" "isTarget (shapesGen True) n"
      "wt (shapesGen True) (cArch c) (TNamed n TStruct) v" "sdepth v \<le> k" for c ow U k n v
    using run_encodes [OF gf(1) shapes_checker f] shapes_load [of True] p that by (cases n) (auto simp: c Let_def)
  have "mSize (methods (shapesCtx True) (map_of (gfCodecs gf)) noFuelEnv 2) (nm ''Drawing'') drawing1
      = Ok (int (length (wire (shapesGen True) amd64 noOwned (TNamed (nm ''Drawing'') TStruct) drawing1)))"
    using e [of "shapesCtx True"] drawing1_wt(1,3) [of True] drawing1_wt(2) shapes_owned [of True noOwned noFuelEnv]
    by (simp add: shapesCtx_def)
  then show ?thesis using gf(1) drawing1_wire by (auto simp: shapesCtx_def)
qed

end
