(* ===== verification/Decoder.thy ===== *)
theory Decoder
  imports Wire
begin

text \<open>
  A functional specification of the generated decoders: \<open>dec\<close> reads a value of a given type at
  a position of the input into an old value, and \<open>decMethod\<close> is \<open>Unmarshal\<close> of a struct.  It has no
  statements, no references and no temporaries: the destination is a value, the cursor an
  argument.  Theory \<open>DecRefine\<close> shows that the emitted code implements it.
\<close>

subsection \<open>Results\<close>

text \<open>\<open>Und\<close> stands for what the specification leaves open: a destination that is not of its type,
  and what fast-mode code does after it has dropped the error of a nested decoder.\<close>

datatype 'a dres = Good 'a | Bad cerr | Pan | Out | Und

definition dbind :: "'a dres \<Rightarrow> ('a \<Rightarrow> 'b dres) \<Rightarrow> 'b dres" where
  "dbind r f = (case r of Good x \<Rightarrow> f x | Bad e \<Rightarrow> Bad e | Pan \<Rightarrow> Pan | Out \<Rightarrow> Out | Und \<Rightarrow> Und)"

lemma dbind_simps [simp]:
  "dbind (Good x) f = f x" "dbind (Bad e) f = Bad e" "dbind Pan f = Pan" "dbind Out f = Out"
  "dbind Und f = Und"
  by (simp_all add: dbind_def)

lemma dbind_eq_Good: "dbind r f = Good y \<longleftrightarrow> (\<exists>x. r = Good x \<and> f x = Good y)"
  by (cases r) auto

lemma dbind_assoc [simp]: "dbind (dbind r f) h = dbind r (\<lambda>x. dbind (f x) h)"
  by (cases r) auto

definition ofOutcome :: "'a outcome \<Rightarrow> 'a dres" where
  "ofOutcome r = (case r of Ok x \<Rightarrow> Good x | Panic p \<Rightarrow> Pan | NoFuel \<Rightarrow> Out)"

lemma ofOutcome_simps [simp]:
  "ofOutcome (Ok x) = Good x" "ofOutcome (Panic p) = Pan" "ofOutcome NoFuel = Out"
  by (simp_all add: ofOutcome_def)

text \<open>The result of an \<open>Unmarshal\<close> call: the error wins over the value.\<close>

definition ofCall :: "(val \<times> int \<times> cerr option) outcome \<Rightarrow> (val \<times> int) dres" where
  "ofCall r = (case r of
     Ok (v, k, None) \<Rightarrow> Good (v, k) | Ok (v, k, Some e) \<Rightarrow> Bad e | Panic p \<Rightarrow> Pan | NoFuel \<Rightarrow> Out)"

subsection \<open>The input\<close>

record inp =
  iB :: bytes
  iSpare :: bytes
  iBase :: nat

definition tailAt :: "inp \<Rightarrow> int \<Rightarrow> bytes dres" where
  "tailAt I i = (if 0 \<le> i \<and> i \<le> int (length (iB I)) then Good (drop (nat i) (iB I)) else Pan)"

definition byteOf :: "inp \<Rightarrow> int \<Rightarrow> byte dres" where
  "byteOf I i = (if 0 \<le> i \<and> i < int (length (iB I)) then Good (iB I ! nat i) else Pan)"

definition windowOf :: "inp \<Rightarrow> int \<Rightarrow> int \<Rightarrow> bytes dres" where
  "windowOf I i n =
     (if 0 \<le> i \<and> 0 \<le> n \<and> i + n \<le> int (length (iB I) + length (iSpare I))
      then Good (take (nat n) (drop (nat i) (iB I @ iSpare I))) else Pan)"

definition beyondOf :: "inp \<Rightarrow> int \<Rightarrow> bytes" where
  "beyondOf I i = drop (nat i) (iB I @ iSpare I)"

text \<open>The guards of safe mode.\<close>

definition needN :: "generator \<Rightarrow> inp \<Rightarrow> int \<Rightarrow> nat \<Rightarrow> 'a dres \<Rightarrow> 'a dres" where
  "needN g I i n r =
     (if safe g \<and> int (length (iB I)) - i < int n then Bad ErrShortBuffer else r)"

definition needLen :: "generator \<Rightarrow> inp \<Rightarrow> int \<Rightarrow> u64 \<Rightarrow> 'a dres \<Rightarrow> 'a dres" where
  "needLen g I i n r =
     (if safe g \<and> (word_of_int (int (length (iB I)) - i) :: u64) < n then Bad ErrShortBuffer else r)"

definition varintAt :: "generator \<Rightarrow> inp \<Rightarrow> int \<Rightarrow> (u64 \<times> int) dres" where
  "varintAt g I i = dbind (tailAt I i) (\<lambda>t.
     if safe g \<and> snd (Uvarint t) \<le> 0 then Bad ErrShortBuffer
     else Good (fst (Uvarint t), i + snd (Uvarint t)))"

subsection \<open>Values of basic types\<close>

definition decBasic :: "ctx \<Rightarrow> inp \<Rightarrow> gotype \<Rightarrow> bkind \<Rightarrow> val \<Rightarrow> int \<Rightarrow> (val \<times> int) dres" where
  "decBasic c I t k v i =
     (let g = cGen c; A = cArch c;
          w8 = (\<lambda>f. needN g I i 1 (dbind (byteOf I i) (\<lambda>w. Good (f w, i + 1))));
          w16 = needN g I i 2 (dbind (dbind (tailAt I i) (ofOutcome \<circ> U16)) (\<lambda>w. Good (V16 w, i + 2)));
          w32 = needN g I i 4 (dbind (dbind (tailAt I i) (ofOutcome \<circ> U32)) (\<lambda>w. Good (V32 w, i + 4)));
          w64 = (\<lambda>f. needN g I i 8 (dbind (dbind (tailAt I i) (ofOutcome \<circ> U64)) (\<lambda>w. Good (V64 (f w), i + 8))))
      in case k of
        KBool \<Rightarrow> w8 (\<lambda>w. VBool (w \<noteq> 0))
      | KUint8 \<Rightarrow> w8 V8 | KInt8 \<Rightarrow> w8 V8
      | KUint16 \<Rightarrow> w16 | KInt16 \<Rightarrow> w16
      | KUint32 \<Rightarrow> w32 | KInt32 \<Rightarrow> w32 | KFloat32 \<Rightarrow> w32
      | KUint64 \<Rightarrow> w64 (conv64 A t) | KUint \<Rightarrow> w64 (conv64 A t)
      | KInt64 \<Rightarrow> w64 (conv64 A t) | KInt \<Rightarrow> w64 (conv64 A t)
      | KFloat64 \<Rightarrow> w64 (\<lambda>w. w)
      | KString \<Rightarrow> dbind (varintAt g I i) (\<lambda>(nn, i). needLen g I i nn
          (dbind (windowOf I i (goInt A nn)) (\<lambda>bs.
             Good (VStr (if safe g then Own else Input (iBase I + nat i)) bs, i + goInt A nn))))
      | _ \<Rightarrow> Good (v, i))"

subsection \<open>Slices, arrays and maps\<close>

text \<open>The backing array of a decoded slice: reuse the old one where its capacity allows.\<close>

definition reuse :: "ctx \<Rightarrow> gotype \<Rightarrow> u64 \<Rightarrow> val \<Rightarrow> val dres" where
  "reuse c t nn v =
     (let n = goInt (cArch c) nn; z = zero (cGen c) (cDepth c) (elemType t);
          make = (if uint nn = n then Good (VSlice Own (replicate (nat n) z) []) else Pan)
      in case v of
        VSlice p xs ys \<Rightarrow>
          (if n \<le> int (length xs + length ys)
           then (if unat nn \<le> length xs + length ys
                 then Good (VSlice p (take (unat nn) (xs @ ys)) (drop (unat nn) (xs @ ys))) else Pan)
           else make)
      | VNilSlice \<Rightarrow> (if n \<le> 0 then (if nn = 0 then Good VNilSlice else Pan) else make)
      | _ \<Rightarrow> Und)"

text \<open>Replace the elements of a slice or array.\<close>

definition setElems :: "val \<Rightarrow> val list \<Rightarrow> val" where
  "setElems v xs = (case v of VSlice p _ ys \<Rightarrow> VSlice p xs ys | VArr _ \<Rightarrow> VArr xs | _ \<Rightarrow> v)"

text \<open>One copy over the memory of the elements.\<close>

definition copyMem :: "ctx \<Rightarrow> inp \<Rightarrow> gotype \<Rightarrow> val \<Rightarrow> int \<Rightarrow> int \<Rightarrow> (val \<times> int) dres" where
  "copyMem c I e v n i =
     (case elemsOf v of
        Ok (x # xs) \<Rightarrow> dbind (windowOf I i n) (\<lambda>src.
          Good (setElems v (elemsSet (cGen c) (cArch c) e (x # xs) src), i + n))
      | Ok [] \<Rightarrow> Pan
      | _ \<Rightarrow> Und)"

text \<open>The element loop.\<close>

fun decElems :: "(val \<Rightarrow> int \<Rightarrow> (val \<times> int) dres) \<Rightarrow> val list \<Rightarrow> int \<Rightarrow> (val list \<times> int) dres" where
  "decElems f [] i = Good ([], i)"
| "decElems f (x # xs) i = dbind (f x i) (\<lambda>(x', i').
     dbind (decElems f xs i') (\<lambda>(xs', j). Good (x' # xs', j)))"

text \<open>The entry loop: fresh key and value each time.\<close>

fun decEntries :: "(int \<Rightarrow> (val \<times> int) dres) \<Rightarrow> (int \<Rightarrow> (val \<times> int) dres) \<Rightarrow> (val \<Rightarrow> val \<Rightarrow> 'm \<Rightarrow> 'm)
    \<Rightarrow> nat \<Rightarrow> 'm \<Rightarrow> int \<Rightarrow> ('m \<times> int) dres" where
  "decEntries fk fv ins 0 m i = Good (m, i)"
| "decEntries fk fv ins (Suc n) m i = dbind (fk i) (\<lambda>(k, i1). dbind (fv i1) (\<lambda>(v, i2).
     decEntries fk fv ins n (ins k v m) i2))"

text \<open>A nested decoder gets the tail of the input; fast-mode code drops its error.\<close>

type_synonym decs = "tname \<Rightarrow> val \<Rightarrow> bytes \<Rightarrow> bytes \<Rightarrow> nat \<Rightarrow> (val \<times> int) dres"

definition nested :: "generator \<Rightarrow> decs \<Rightarrow> inp \<Rightarrow> tname \<Rightarrow> val \<Rightarrow> int \<Rightarrow> (val \<times> int) dres" where
  "nested g D I n v i = dbind (tailAt I i) (\<lambda>t.
     case D n v t (iSpare I) (iBase I + nat i) of
       Good (v', k) \<Rightarrow> Good (v', i + k)
     | Bad e \<Rightarrow> if safe g then Bad e else Und
     | Pan \<Rightarrow> Pan | Out \<Rightarrow> Out | Und \<Rightarrow> Und)"

subsection \<open>The decoder of a type\<close>

fun dec :: "ctx \<Rightarrow> decs \<Rightarrow> inp \<Rightarrow> gotype \<Rightarrow> val \<Rightarrow> int \<Rightarrow> (val \<times> int) dres" where
  "dec c D I t v i =
     (let g = cGen c; A = cArch c in
      if isTime t then
        needN g I i 8 (dbind (dbind (tailAt I i) (ofOutcome \<circ> U64)) (\<lambda>w. Good (timeUnixUTC w, i + 8)))
      else case underlying t of
        TBasic k \<Rightarrow> decBasic c I t k v i
      | TSlice e \<Rightarrow> dbind (varintAt g I i) (\<lambda>(nn, i).
          if nn = 0 then Good (nilOf t, i)
          else needLen g I i nn
            (if isBytes e then
               dbind (windowOf I i (goInt A nn)) (\<lambda>bs.
                 if safe g then
                   (case v of
                      VSlice p xs ys \<Rightarrow> Good
                        ((if length bs \<le> length xs + length ys
                          then VSlice p (map V8 bs) (drop (length bs) (xs @ ys))
                          else VSlice Own (map V8 bs) []), i + goInt A nn)
                    | VNilSlice \<Rightarrow> Good ((if bs = [] then VNilSlice else VSlice Own (map V8 bs) []), i + goInt A nn)
                    | _ \<Rightarrow> Und)
                 else Good (VSlice (Input (iBase I + nat i)) (map V8 bs)
                              (map V8 (beyondOf I (i + goInt A nn))), i + goInt A nn))
             else dbind (reuse c t nn v) (\<lambda>v.
               if \<not> safe g \<and> memCopyable e then
                 copyMem c I e v ((case fixedSize e of Some z \<Rightarrow> int z | None \<Rightarrow> 0) * goInt A nn) i
               else if blitElem g e then copyMem c I e v (int (elemSize g A e) * goInt A nn) i
               else (case elemsOf v of
                   Ok xs \<Rightarrow> dbind (decElems (dec c D I e) xs i) (\<lambda>(xs', i). Good (setElems v xs', i))
                 | _ \<Rightarrow> Und))))
      | TArray n e \<Rightarrow>
          (case v of
             VArr xs \<Rightarrow>
               if length xs \<noteq> n then Und
               else if isByteArray e then needN g I i n (dbind (windowOf I i (int n)) (\<lambda>bs.
                 Good (VArr (map V8 bs), i + int n)))
               else if \<not> safe g \<and> n > 0 \<and> memCopyable e then
                 copyMem c I e v (int (n * (case fixedSize e of Some z \<Rightarrow> z | None \<Rightarrow> 0))) i
               else if n > 0 \<and> blitElem g e then copyMem c I e v (int (n * elemSize g A e)) i
               else dbind (decElems (dec c D I e) xs i) (\<lambda>(xs', i). Good (VArr xs', i))
           | _ \<Rightarrow> Und)
      | TPointer e \<Rightarrow>
          (case v of
             VPtr p \<Rightarrow> needN g I i 1 (dbind (byteOf I i) (\<lambda>w.
               if w \<noteq> 0 then
                 dbind (dec c D I e (case p of Some x \<Rightarrow> x | None \<Rightarrow> zero g (cDepth c) e) (i + 1))
                   (\<lambda>(x, i). Good (VPtr (Some x), i))
               else Good (nilOf t, i + 1)))
           | _ \<Rightarrow> Und)
      | TMap k e \<Rightarrow>
          dbind (varintAt g I i) (\<lambda>(nn, i).
            if nn = 0 then Good (nilOf t, i)
            else needLen g I i nn
              (if (case v of VMap kvs \<Rightarrow> True | VNilMap \<Rightarrow> True | _ \<Rightarrow> False)
               then dbind (decEntries (\<lambda>i. dec c D I k (zero g (cDepth c) k) i)
                             (\<lambda>i. dec c D I e (zero g (cDepth c) e) i)
                             (\<lambda>a b kvs. mapPut g k kvs a b) (unat nn) [] i)
                      (\<lambda>(kvs, i). Good (VMap kvs, i))
               else Und))
      | TStruct \<Rightarrow> (case t of TNamed n _ \<Rightarrow> nested g D I n v i | _ \<Rightarrow> Good (v, i))
      | TInterface \<Rightarrow>
          dbind (varintAt g I i) (\<lambda>(nn, i).
            if nn = 0 then Good (nilOf t, i)
            else case map_of (map (\<lambda>(k, m). (of_nat k, m)) (taggedMembers g t)) nn of
              None \<Rightarrow> Bad ErrUnknownUnionTag
            | Some m \<Rightarrow>
                dbind (nested g D I m
                  (case v of VIface n (Some x) \<Rightarrow> (if n = m then x else zero g (cDepth c) (TNamed m TStruct))
                   | _ \<Rightarrow> zero g (cDepth c) (TNamed m TStruct)) i)
                  (\<lambda>(x, i). Good (VIface m (Some x), i)))
      | _ \<Rightarrow> Good (v, i))"

declare dec.simps [simp del]

subsection \<open>The decoder of a struct\<close>

text \<open>Field by field, in place.\<close>

fun decFields :: "(gotype \<Rightarrow> val \<Rightarrow> int \<Rightarrow> (val \<times> int) dres) \<Rightarrow> field list \<Rightarrow> val \<Rightarrow> int \<Rightarrow> (val \<times> int) dres" where
  "decFields f [] r i = Good (r, i)"
| "decFields f (fd # fds) r i =
     (case r of
        VStruct vs \<Rightarrow>
          (case map_of vs (fldName fd) of
             Some v \<Rightarrow> dbind (f (fldTyp fd) v i) (\<lambda>(v', i').
               decFields f fds (setField r (fldName fd) v') i')
           | None \<Rightarrow> Und)
      | _ \<Rightarrow> Und)"

definition decBlit :: "ctx \<Rightarrow> tname \<Rightarrow> val \<Rightarrow> bytes \<Rightarrow> (val \<times> int) dres" where
  "decBlit c n d b =
     (let k = structSize (cArch c) (structTypes (cGen c) n);
          old = structImage (cGen c) (cArch c) n d; src = take k b
      in Good (structRead (cGen c) (cArch c) n (src @ drop (length src) old), int k))"

text \<open>All decoders of a package, with nested calls at most as deep as the number; user-owned
  codecs are the parameter \<open>U\<close>.\<close>

primrec decAll :: "ctx \<Rightarrow> decs \<Rightarrow> nat \<Rightarrow> decs" where
  "decAll c U 0 = (\<lambda>n d b sp base. Out)"
| "decAll c U (Suc k) = (\<lambda>n d b sp base.
     if \<not> isTarget (cGen c) n \<or> List.member (owned (cGen c)) n then U n d b sp base
     else if isBlit (cGen c) n then decBlit c n d b
     else case fieldsOf (cGen c) n of
       Inl e \<Rightarrow> Und
     | Inr fs \<Rightarrow> decFields (dec c (decAll c U k) \<lparr>iB = b, iSpare = sp, iBase = base\<rparr>) fs d 0)"

end
