(* ===== verification/DecRead.thy ===== *)
theory DecRead
  imports Decoder Memory Views
begin

text \<open>
  Reading from an input whose next bytes are known, and the loops of decoders over it.
\<close>

subsection \<open>The next bytes of the input\<close>

definition holds :: "inp \<Rightarrow> int \<Rightarrow> bytes \<Rightarrow> bool" where
  "holds I i bs \<longleftrightarrow> 0 \<le> i \<and> nat i \<le> length (iB I) \<and> (\<exists>r. drop (nat i) (iB I) = bs @ r)"

lemma holds_start: "holds \<lparr>iB = bs @ r, iSpare = sp, iBase = k\<rparr> 0 bs"
  by (simp add: holds_def)

lemma holds_append: "holds I i (as @ bs) \<Longrightarrow> holds I i as \<and> holds I (i + int (length as)) bs"
proof -
  assume h: "holds I i (as @ bs)"
  then obtain r where r: "drop (nat i) (iB I) = as @ bs @ r" "0 \<le> i" "nat i \<le> length (iB I)"
    by (auto simp: holds_def)
  have "length (iB I) - nat i = length (as @ bs @ r)" using r(1) by (metis length_drop)
  then have l: "length (iB I) = nat i + length as + length bs + length r" using r(3) by simp
  have "nat (i + int (length as)) = length as + nat i" using r(2) by simp
  then have "drop (nat (i + int (length as))) (iB I) = drop (length as) (drop (nat i) (iB I))"
    by (simp add: add.commute)
  then show ?thesis using r l by (auto simp: holds_def)
qed

lemma holds_appendD:
  assumes "holds I i (as @ bs)"
  shows "holds I i as" "holds I (i + int (length as)) bs"
  using holds_append [OF assms] by auto

lemma holds_tail:
  assumes "holds I i bs"
  obtains r where "tailAt I i = Good (bs @ r)" "drop (nat i) (iB I) = bs @ r" "length (iB I) = nat i + length (bs @ r)"
proof -
  obtain r where r: "drop (nat i) (iB I) = bs @ r" "0 \<le> i" "nat i \<le> length (iB I)"
    using assms by (auto simp: holds_def)
  have "length (iB I) - nat i = length (bs @ r)" using r(1) by (metis length_drop)
  then have "length (iB I) = nat i + length (bs @ r)" using r(3) by simp
  then show ?thesis using that [of r] r by (simp add: tailAt_def)
qed

lemma holds_byte: "holds I i (b # bs) \<Longrightarrow> byteOf I i = Good b"
proof -
  assume h: "holds I i (b # bs)"
  then obtain r where r: "drop (nat i) (iB I) = (b # bs) @ r" "length (iB I) = nat i + length ((b # bs) @ r)"
    by (rule holds_tail)
  then have "iB I ! nat i = b" using hd_drop_conv_nth [of "nat i" "iB I"] by simp
  then show ?thesis using h r(2) by (auto simp: byteOf_def holds_def)
qed

lemma holds_needN: "holds I i bs \<Longrightarrow> n \<le> length bs \<Longrightarrow> needN g I i n d = d"
  by (erule holds_tail) (auto simp: needN_def)

lemma holds_window:
  assumes "holds I i bs"
  shows "windowOf I i (int (length bs)) = Good bs"
proof -
  obtain r where r: "drop (nat i) (iB I) = bs @ r" "length (iB I) = nat i + length (bs @ r)"
    using assms by (rule holds_tail)
  moreover have "0 \<le> i" using assms by (simp add: holds_def)
  ultimately show ?thesis by (simp add: windowOf_def)
qed

lemma holds_varint:
  assumes "holds I i (uvarint_bytes w @ bs)"
  shows "varintAt g I i = Good (w, i + int (length (uvarint_bytes w)))"
proof -
  obtain r where "tailAt I i = Good ((uvarint_bytes w @ bs) @ r)" using assms by (rule holds_tail)
  moreover have "0 < int (length (uvarint_bytes w))" by simp
  ultimately show ?thesis by (simp add: varintAt_def Uvarint_ok del: of_nat_0_less_iff)
qed

lemma lenOK_64: "archOK A \<Longrightarrow> lenOK A n \<Longrightarrow> n < 2 ^ 64"
proof -
  assume A: "archOK A" and n: "lenOK A n"
  have "(2 :: nat) ^ (8 * wsize A - 1) \<le> 2 ^ 64" using A by (intro power_increasing) (auto simp: archOK_def)
  then show ?thesis using n by (simp add: lenOK_def)
qed

lemma lenOK_mono: "lenOK A n \<Longrightarrow> m \<le> n \<Longrightarrow> lenOK A m"
  by (simp add: lenOK_def)

lemma remaining_word:
  assumes "archOK A" "lenOK A (length (iB I))" "0 \<le> i" "i \<le> int (length (iB I))"
  shows "unat (word_of_int (int (length (iB I)) - i) :: u64) = length (iB I) - nat i"
proof -
  have e: "int (length (iB I)) - i = int (length (iB I) - nat i)" using assms(3,4) by simp
  have "length (iB I) - nat i < 2 ^ 64" using lenOK_64 [OF assms(1,2)] by simp
  then show ?thesis unfolding e by (simp add: unsigned_of_nat take_bit_nat_eq_self)
qed

lemma holds_needLen:
  assumes A: "archOK A" "lenOK A (length (iB I))" and h: "holds I i bs" and w: "safe g \<Longrightarrow> unat w \<le> length bs"
  shows "needLen g I i w d = d"
proof (cases "safe g")
  case True
  obtain r where r: "length (iB I) = nat i + length (bs @ r)" using h by (rule holds_tail)
  have "0 \<le> i" "i \<le> int (length (iB I))" using h by (auto simp: holds_def)
  from remaining_word [OF A this] have "w \<le> (word_of_int (int (length (iB I)) - i) :: u64)"
    using w [OF True] r by (simp add: word_le_nat_alt)
  then show ?thesis by (simp only: needLen_def not_less [symmetric] if_False simp_thms)
qed (simp add: needLen_def)

subsection \<open>Length prefixes\<close>

lemma holds_lenPrefix:
  assumes "holds I i (lenPrefix n @ bs)"
  shows "varintAt g I i = Good (of_nat n, i + int (length (lenPrefix n)))"
    and "holds I (i + int (length (lenPrefix n))) bs"
  using assms holds_varint [of I i "of_nat n" bs g] holds_appendD(2) [OF assms]
  by (simp_all add: lenPrefix_def)

lemma len_zero: "archOK A \<Longrightarrow> lenOK A n \<Longrightarrow> (of_nat n :: u64) = 0 \<longleftrightarrow> n = 0"
  using unat_len [of A n] unat_eq_zero [of "of_nat n :: u64"] by simp

subsection \<open>Loops\<close>

definition decodes :: "(val \<Rightarrow> int \<Rightarrow> (val \<times> int) dres) \<Rightarrow> (val \<Rightarrow> val \<Rightarrow> bool) \<Rightarrow> inp \<Rightarrow> bytes \<Rightarrow> val \<Rightarrow> val \<Rightarrow> bool" where
  "decodes F Q I bs v d \<longleftrightarrow>
     (\<forall>i. holds I i bs \<longrightarrow> (\<exists>v'. F d i = Good (v', i + int (length bs)) \<and> Q v v'))"

lemma decodes_D:
  "decodes F Q I bs v d \<Longrightarrow> holds I i bs \<Longrightarrow> \<exists>v'. F d i = Good (v', i + int (length bs)) \<and> Q v v'"
  by (simp add: decodes_def)

lemma elems_decode:
  assumes "length ds = length xs" and "\<And>x d. x \<in> set xs \<Longrightarrow> d \<in> set ds \<Longrightarrow> decodes F Q I (W x) x d"
    and "holds I i (concat (map W xs))"
  shows "\<exists>xs'. decElems F ds i = Good (xs', i + int (length (concat (map W xs)))) \<and> list_all2 Q xs xs'"
  using assms
proof (induction ds xs arbitrary: i rule: list_induct2)
  case (Cons d ds x xs)
  note h = holds_appendD [OF Cons.prems(2) [unfolded list.map concat.simps]]
  obtain x' where x: "F d i = Good (x', i + int (length (W x)))" "Q x x'"
    using decodes_D [OF Cons.prems(1) h(1)] by auto
  obtain xs' where "decElems F ds (i + int (length (W x)))
      = Good (xs', i + int (length (W x)) + int (length (concat (map W xs))))" "list_all2 Q xs xs'"
    using Cons.IH [OF Cons.prems(1) h(2)] by auto
  then show ?case using x by (auto simp: add.assoc)
qed simp

lemma mapPut_new:
  "\<forall>p \<in> set m. \<not> goEq g k (fst p) a \<Longrightarrow> mapPut g k m a b = m @ [(a, b)]"
  by (induction g k m a b rule: mapPut.induct) auto

lemma entries_decode:
  assumes k: "\<And>p. p \<in> set kvs \<Longrightarrow> decodes (\<lambda>_. fk) Qk I (Wk (fst p)) (fst p) zk"
    and v: "\<And>p. p \<in> set kvs \<Longrightarrow> decodes (\<lambda>_. fv) Qv I (Wv (snd p)) (snd p) zv"
  shows "holds I i (concat (map (\<lambda>p. Wk (fst p) @ Wv (snd p)) kvs)) \<Longrightarrow>
     sorted_wrt (\<lambda>p q. \<forall>a b. Qk (fst p) a \<longrightarrow> Qk (fst q) b \<longrightarrow> \<not> goEq g kt a b) kvs \<Longrightarrow>
     (\<And>p q b. p \<in> set m \<Longrightarrow> q \<in> set kvs \<Longrightarrow> Qk (fst q) b \<Longrightarrow> \<not> goEq g kt (fst p) b) \<Longrightarrow>
     \<exists>kvs'. decEntries fk fv (\<lambda>a b kvs. mapPut g kt kvs a b) (length kvs) m i
         = Good (m @ kvs', i + int (length (concat (map (\<lambda>p. Wk (fst p) @ Wv (snd p)) kvs))))
       \<and> list_all2 (\<lambda>p q. Qk (fst p) (fst q) \<and> Qv (snd p) (snd q)) kvs kvs'"
  using k v
proof (induction kvs arbitrary: m i)
  case (Cons p kvs)
  note h = holds_appendD [OF Cons.prems(1) [unfolded list.map concat.simps]]
  note hk = holds_appendD [OF h(1)]
  obtain a where a: "fk i = Good (a, i + int (length (Wk (fst p))))" "Qk (fst p) a"
    using decodes_D [OF Cons.prems(4) hk(1)] by auto
  obtain b where b: "fv (i + int (length (Wk (fst p)))) = Good (b, i + int (length (Wk (fst p) @ Wv (snd p))))" "Qv (snd p) b"
    using decodes_D [OF Cons.prems(5) hk(2)] by (auto simp: add.assoc)
  have put: "mapPut g kt m a b = m @ [(a, b)]"
    using Cons.prems(3) [OF _ list.set_intros(1) a(2)] by (intro mapPut_new) blast
  have st: "\<not> goEq g kt (fst p') b'" if "p' \<in> set (m @ [(a, b)])" "q' \<in> set kvs" "Qk (fst q') b'" for p' q' b'
  proof (cases "p' \<in> set m")
    case True
    then show ?thesis using Cons.prems(3) [of p' q' b'] that(2,3) by simp
  next
    case False
    then have "p' = (a, b)" using that(1) by simp
    moreover have "\<forall>a b. Qk (fst p) a \<longrightarrow> Qk (fst q') b \<longrightarrow> \<not> goEq g kt a b" using Cons.prems(2) that(2) by simp
    ultimately show ?thesis using a(2) that(3) by simp
  qed
  have "sorted_wrt (\<lambda>p q. \<forall>a b. Qk (fst p) a \<longrightarrow> Qk (fst q) b \<longrightarrow> \<not> goEq g kt a b) kvs"
    using Cons.prems(2) by simp
  then have "\<exists>kvs'. decEntries fk fv (\<lambda>a b kvs. mapPut g kt kvs a b) (length kvs) (m @ [(a, b)]) (i + int (length (Wk (fst p) @ Wv (snd p))))
       = Good ((m @ [(a, b)]) @ kvs', i + int (length (Wk (fst p) @ Wv (snd p)))
           + int (length (concat (map (\<lambda>p. Wk (fst p) @ Wv (snd p)) kvs))))
       \<and> list_all2 (\<lambda>p q. Qk (fst p) (fst q) \<and> Qv (snd p) (snd q)) kvs kvs'"
    using st Cons.prems(4,5) by (intro Cons.IH [OF h(2)]) simp_all
  then obtain kvs' where
    "decEntries fk fv (\<lambda>a b kvs. mapPut g kt kvs a b) (length kvs) (m @ [(a, b)]) (i + int (length (Wk (fst p) @ Wv (snd p))))
       = Good ((m @ [(a, b)]) @ kvs', i + int (length (Wk (fst p) @ Wv (snd p)))
           + int (length (concat (map (\<lambda>p. Wk (fst p) @ Wv (snd p)) kvs))))"
    "list_all2 (\<lambda>p q. Qk (fst p) (fst q) \<and> Qv (snd p) (snd q)) kvs kvs'" by blast
  then show ?case using a b put by (intro exI [of _ "(a, b) # kvs'"]) (simp add: add.assoc)
qed simp

end
