(* ===== verification/Refs.thy ===== *)
theory Refs
  imports Writer Decoder
begin

text \<open>
  Reading and writing through references: what an assignment changes, and the relation between
  the states before and after a piece of decoder code, \<open>updated\<close>: the reference holds the new
  value, everything that was reachable otherwise is unchanged.
\<close>

subsection \<open>Assignment as a function of the state\<close>

text \<open>In \<open>r[j]\<close> the index variable does not occur in \<open>r\<close>.\<close>

fun refOK :: "ref \<Rightarrow> bool" where
  "refOK (RField f) = True"
| "refOK (RVar x) = True"
| "refOK (RIdx r j) = (refOK r \<and> j \<notin> refVars r)"
| "refOK (RDeref r) = refOK r"

fun put :: "st \<Rightarrow> ref \<Rightarrow> val \<Rightarrow> st" where
  "put s (RField f) v = s\<lparr>sRecv := setField (sRecv s) f v\<rparr>"
| "put s (RVar x) v = s\<lparr>sVars := (sVars s)(x := Some v)\<rparr>"
| "put s (RIdx r j) v = (case (rd s r, intVar s j) of
     (Ok c, Ok k) \<Rightarrow> put s r (setIdx c (nat k) v) | _ \<Rightarrow> s)"
| "put s (RDeref r) v = put s r (VPtr (Some v))"

lemma wr_put: "rd s r = Ok a \<Longrightarrow> wr s r v = Ok (put s r v)"
proof (induction r arbitrary: a v)
  case (RIdx r j)
  obtain c k where c: "rd s r = Ok c" "intVar s j = Ok k" "idx c k = Ok a"
    using RIdx.prems by (auto simp: obind_eq_Ok)
  then show ?case using RIdx.IH [OF c(1)] by simp
next
  case (RDeref r)
  obtain c where "rd s r = Ok c" "deref c = Ok a" using RDeref.prems by (auto simp: obind_eq_Ok)
  then show ?case using RDeref.IH by simp
qed simp_all

text \<open>Only the variables of a reference matter when it is read or written.\<close>

definition sameRefs :: "var set \<Rightarrow> st \<Rightarrow> st \<Rightarrow> bool" where
  "sameRefs X s s' \<longleftrightarrow> sRecv s' = sRecv s \<and> (\<forall>x \<in> X. sVars s' x = sVars s x)"

lemma rd_sameRefs: "sameRefs X s s' \<Longrightarrow> refVars r \<subseteq> X \<Longrightarrow> rd s' r = rd s r"
  by (induction r) (auto simp: sameRefs_def intVar_def)

lemma put_frame:
  "sB (put s r v) = sB s" "sSpare (put s r v) = sSpare s" "sBase (put s r v) = sBase s"
  "sI (put s r v) = sI s" "sNN (put s r v) = sNN s" "sCC (put s r v) = sCC s"
  by (induction r arbitrary: v) (auto split: outcome.split)

lemma put_vars: "refOK r \<Longrightarrow> x \<notin> refVars r \<Longrightarrow> sVars (put s r v) x = sVars s x"
  by (induction r arbitrary: v) (auto split: outcome.split)

lemma put_sameRefs:
  "sameRefs X s s' \<Longrightarrow> refVars r \<subseteq> X \<Longrightarrow> sameRefs X (put s r v) (put s' r v)"
proof (induction r arbitrary: v)
  case (RIdx r j)
  then have "rd s' r = rd s r" "intVar s' j = intVar s j"
    by (auto simp: rd_sameRefs intVar_def sameRefs_def)
  then show ?case using RIdx by (simp split: outcome.split)
qed (auto simp: sameRefs_def)

lemma setAssoc_facts:
  "map_of vs f = Some a \<Longrightarrow> map_of (setAssoc vs f v) f = Some v"
  "setAssoc (setAssoc vs f v) f w = setAssoc vs f w"
  "map_of vs f = Some a \<Longrightarrow> setAssoc vs f a = vs"
  by (induction vs f v rule: setAssoc.induct) auto

lemma setField_setField: "setField (setField r f a) f b = setField r f b"
  by (auto simp: setField_def setAssoc_facts split: val.split)

lemma rd_put: "rd s r = Ok a \<Longrightarrow> refOK r \<Longrightarrow> rd (put s r v) r = Ok v"
proof (induction r arbitrary: a v)
  case (RField f)
  then obtain vs b where "sRecv s = VStruct vs" "map_of vs f = Some b"
    by (auto split: val.splits option.splits)
  then show ?case by (simp add: setField_def setAssoc_facts)
next
  case (RIdx r j)
  obtain c k where c: "rd s r = Ok c" "intVar s j = Ok k" "idx c k = Ok a"
    using RIdx.prems(1) by (auto simp: obind_eq_Ok)
  have "intVar (put s r w) j = Ok k" for w
    using c(2) put_vars [of r j s w] RIdx.prems(2) by (simp add: intVar_def)
  moreover have "idx (setIdx c (nat k) v) k = Ok v"
    using c(3) by (auto simp: idx_def setIdx_def split: val.splits if_splits)
  ultimately show ?case using RIdx.IH [OF c(1)] RIdx.prems(2) c by simp
next
  case (RDeref r)
  obtain c where c: "rd s r = Ok c" using RDeref.prems by (auto simp: obind_eq_Ok)
  then show ?case using RDeref.IH [OF c] RDeref.prems(2) by (simp add: deref_def)
qed simp

lemma put_put: "rd s r = Ok a \<Longrightarrow> refOK r \<Longrightarrow> put (put s r v) r w = put s r w"
proof (induction r arbitrary: a v w)
  case (RField f)
  then show ?case by (simp add: setField_setField)
next
  case (RIdx r j)
  obtain c k where c: "rd s r = Ok c" "intVar s j = Ok k"
    using RIdx.prems(1) by (auto simp: obind_eq_Ok)
  have j: "intVar (put s r u) j = Ok k" for u
    using c(2) put_vars [of r j s u] RIdx.prems(2) by (simp add: intVar_def)
  have "setIdx (setIdx c (nat k) v) (nat k) w = setIdx c (nat k) w"
    by (auto simp: setIdx_def split: val.split)
  then show ?case using RIdx.IH [OF c(1)] rd_put [OF c(1)] RIdx.prems(2) c j by simp
next
  case (RDeref r)
  then show ?case using RDeref.IH by (auto simp: obind_eq_Ok)
qed simp

text \<open>Assigning the value a reference already has changes nothing that can be read.\<close>

lemma put_same: "rd s r = Ok v \<Longrightarrow> put s r v = s"
proof (induction r arbitrary: v)
  case (RField f)
  then obtain vs where "sRecv s = VStruct vs" "map_of vs f = Some v"
    by (auto split: val.splits option.splits)
  then show ?case by (simp add: setField_def setAssoc_facts)
next
  case (RIdx r j)
  obtain c k where c: "rd s r = Ok c" "intVar s j = Ok k" "idx c k = Ok v"
    using RIdx.prems by (auto simp: obind_eq_Ok)
  then have "setIdx c (nat k) v = c"
    by (auto simp: idx_def setIdx_def split: val.splits if_splits)
  then show ?case using RIdx.IH c by simp
next
  case (RDeref r)
  then obtain c where "rd s r = Ok c" "deref c = Ok v" by (auto simp: obind_eq_Ok)
  moreover from this have "c = VPtr (Some v)" by (cases c) (auto simp: deref_def split: option.splits)
  ultimately show ?case using RDeref.IH by simp
qed (auto simp: fun_upd_idem split: option.splits)

subsection \<open>States before and after\<close>

definition olds :: "nat \<Rightarrow> var set" where
  "olds n = {x. varNo x \<le> n}"

lemma below_olds: "below r n \<longleftrightarrow> refVars r \<subseteq> olds n"
  by (auto simp: below_def olds_def)

lemma olds_mono: "m \<le> n \<Longrightarrow> olds m \<subseteq> olds n"
  by (auto simp: olds_def)

text \<open>\<open>sameInput\<close>: the fields decoder code never writes.\<close>

definition sameInput :: "st \<Rightarrow> st \<Rightarrow> bool" where
  "sameInput s s' \<longleftrightarrow> sB s' = sB s \<and> sSpare s' = sSpare s \<and> sBase s' = sBase s"

text \<open>\<open>updated n s r v s'\<close>: from \<open>s\<close> to \<open>s'\<close> the location \<open>r\<close> was set to \<open>v\<close>, the receiver and the
  temporaries numbered up to \<open>n\<close> are otherwise the same.\<close>

definition updated :: "nat \<Rightarrow> st \<Rightarrow> ref \<Rightarrow> val \<Rightarrow> st \<Rightarrow> bool" where
  "updated n s r v s' \<longleftrightarrow> sameInput s s' \<and> sameRefs (olds n) (put s r v) s'"

lemma sameRefs_refl: "sameRefs X s s"
  by (simp add: sameRefs_def)

lemma sameRefs_trans: "sameRefs X s s' \<Longrightarrow> sameRefs X s' s'' \<Longrightarrow> sameRefs X s s''"
  by (simp add: sameRefs_def)

lemma sameRefs_mono: "sameRefs X s s' \<Longrightarrow> Y \<subseteq> X \<Longrightarrow> sameRefs Y s s'"
  by (auto simp: sameRefs_def)

lemma sameInput_trans: "sameInput s s' \<Longrightarrow> sameInput s' s'' \<Longrightarrow> sameInput s s''"
  by (simp add: sameInput_def)

lemma updated_mono: "updated n s r v s' \<Longrightarrow> m \<le> n \<Longrightarrow> updated m s r v s'"
  using olds_mono sameRefs_mono by (fastforce simp: updated_def)

lemma updated_rd:
  assumes "updated n s r v s'" "rd s r = Ok a" "refOK r" "below r n"
  shows "rd s' r = Ok v"
  using assms rd_put [of s r a v] rd_sameRefs [of "olds n" "put s r v" s' r]
  by (simp add: updated_def below_olds)

lemma updated_trans:
  assumes u: "updated n s r a s1" "updated n s1 r b s2" and r: "rd s r = Ok x" "refOK r" "below r n"
  shows "updated n s r b s2"
proof -
  have "sameRefs (olds n) (put (put s r a) r b) (put s1 r b)"
    using u(1) r(3) by (intro put_sameRefs) (simp_all add: updated_def below_olds)
  then have "sameRefs (olds n) (put s r b) (put s1 r b)" using put_put [OF r(1,2)] by simp
  then show ?thesis using u sameRefs_trans sameInput_trans unfolding updated_def by blast
qed

lemma updated_put: "updated n s r v (put s r v)"
  by (simp add: updated_def sameInput_def put_frame sameRefs_refl)

lemma updated_same: "rd s r = Ok v \<Longrightarrow> updated n s r v s"
  using updated_put [of n s r v] put_same by simp

text \<open>Changes of the registers and of fresh temporaries do not show.\<close>

lemma updated_after:
  "updated n s r v s' \<Longrightarrow> sameInput s' s'' \<Longrightarrow> sameRefs (olds n) s' s'' \<Longrightarrow> updated n s r v s''"
  using sameRefs_trans sameInput_trans unfolding updated_def by blast

lemma updated_before:
  assumes "updated n s' r v s''" "sameInput s s'" "sameRefs (olds n) s s'" "below r n"
  shows "updated n s r v s''"
  using assms put_sameRefs [of "olds n" s s' r v] sameRefs_trans sameInput_trans
  unfolding updated_def below_olds by blast

text \<open>Updates of a part of a location are updates of the location.\<close>

lemma updated_idx:
  assumes "updated n s (RIdx r j) x s'" "rd s r = Ok c" "intVar s j = Ok k" "m \<le> n"
  shows "updated m s r (setIdx c (nat k) x) s'"
  using assms(1-3) updated_mono [OF _ assms(4)] by (fastforce simp: updated_def)

lemma updated_deref: "updated n s (RDeref r) x s' \<Longrightarrow> updated n s r (VPtr (Some x)) s'"
  by (simp add: updated_def)

end
