(* ===== verification/DecSim.thy ===== *)
theory DecSim
  imports Refs
begin

text \<open>
  The simulation between a specification result and the flow of a piece of decoder code, with
  one rule per statement form: sequences, guards, varints, assignments, blocks, nested calls.
\<close>

subsection \<open>The simulation\<close>

definition sim :: "('a \<Rightarrow> st \<Rightarrow> bool) \<Rightarrow> 'a dres \<Rightarrow> flow \<Rightarrow> bool" where
  "sim P d fl = (case d of
     Good x \<Rightarrow> (\<exists>s'. fl = Next s' \<and> P x s')
   | Bad e \<Rightarrow> (\<exists>s'. fl = Return s' e)
   | Pan \<Rightarrow> (\<exists>p. fl = Crash p)
   | Out \<Rightarrow> fl = OutOfFuel
   | Und \<Rightarrow> True)"

lemma sim_iffs:
  "sim P (Good x) fl \<longleftrightarrow> (\<exists>s'. fl = Next s' \<and> P x s')"
  "sim P (Bad e) fl \<longleftrightarrow> (\<exists>s'. fl = Return s' e)"
  "sim P Pan fl \<longleftrightarrow> (\<exists>p. fl = Crash p)"
  "sim P Out fl \<longleftrightarrow> fl = OutOfFuel"
  by (simp_all add: sim_def)

lemma sim_simps [simp]:
  "sim P (Good x) (Next s) = P x s" "sim P (Bad e) (Return s e)" "sim P Pan (Crash p)"
  "sim P Out OutOfFuel" "sim P Und fl"
  by (simp_all add: sim_def)

lemma sim_bind:
  assumes "sim P d fl" and "\<And>x s'. P x s' \<Longrightarrow> sim Q (f x) (k s')"
  shows "sim Q (dbind d f) (fthen fl k)"
  using assms by (cases d) (auto simp: sim_iffs)

lemma sim_weaken: "sim P d fl \<Longrightarrow> (\<And>x s'. P x s' \<Longrightarrow> Q x s') \<Longrightarrow> sim Q d fl"
  by (cases d) (auto simp: sim_iffs)

lemma sim_then:
  assumes "sim P d fl" and "\<And>x s'. P x s' \<Longrightarrow> \<exists>s''. k s' = Next s'' \<and> Q (f x) s''"
  shows "sim Q (dbind d (\<lambda>x. Good (f x))) (fthen fl k)"
  using assms by (intro sim_bind [OF assms(1)]) (auto simp: sim_iffs)

lemma sim_map:
  "sim P d fl \<Longrightarrow> (\<And>x s'. P x s' \<Longrightarrow> Q (f x) s') \<Longrightarrow> sim Q (dbind d (\<lambda>x. Good (f x))) fl"
  by (cases d) (auto simp: sim_iffs)

lemma sim_fbind:
  assumes "d = ofOutcome o'" and "\<And>x. o' = Ok x \<Longrightarrow> sim Q (f x) (k x)"
  shows "sim Q (dbind d f) (fbind o' k)"
  using assms by (cases o') auto

lemma sim_scoped:
  assumes "sim P d fl" and "\<And>x s'. P x s' \<Longrightarrow> Q x (unbindVs xs s s')"
  shows "sim Q d (scoped xs s fl)"
  using assms by (cases d) (auto simp: sim_iffs scoped_def)

lemma execs_single: "execs [x] c M s = exec x c M s"
  by (simp add: fthen_def split: flow.split)

lemma sim_case_prod: "sim P (f (fst p) (snd p)) fl \<Longrightarrow> sim P (case p of (a, b) \<Rightarrow> f a b) fl"
  by (cases p) simp

definition inpOf :: "st \<Rightarrow> inp" where
  "inpOf s = \<lparr>iB = sB s, iSpare = sSpare s, iBase = sBase s\<rparr>"

lemma inpOf_sel [simp]: "iB (inpOf s) = sB s" "iSpare (inpOf s) = sSpare s" "iBase (inpOf s) = sBase s"
  by (simp_all add: inpOf_def)

lemma inpOf_same: "sameInput s s' \<Longrightarrow> inpOf s' = inpOf s"
  by (simp add: inpOf_def sameInput_def)

lemma reads:
  "tailAt (inpOf s) (sI s) = ofOutcome (tailFrom s)"
  "byteOf (inpOf s) (sI s) = ofOutcome (byteAt s)"
  "windowOf (inpOf s) (sI s) n = ofOutcome (window s n)"
  by (simp_all add: tailAt_def tailFrom_def byteOf_def byteAt_def windowOf_def window_def)

lemma ofOutcome_bind: "dbind (ofOutcome a) (\<lambda>x. ofOutcome (f x)) = ofOutcome (obind a f)"
  by (cases a) auto

text \<open>The result of code that decodes into \<open>r\<close>: the new value and the new cursor.\<close>

definition into :: "nat \<Rightarrow> st \<Rightarrow> ref \<Rightarrow> val \<times> int \<Rightarrow> st \<Rightarrow> bool" where
  "into n s r x s' \<longleftrightarrow> updated n s r (fst x) s' \<and> sI s' = snd x"

subsection \<open>Guards and varints\<close>

lemma guardN_sim:
  "sim P d (execs rest c M s) \<Longrightarrow>
   sim P (needN (cGen c) (inpOf s) (sI s) n d) (execs (guardN (cGen c) n @ rest) c M s)"
  by (simp add: needN_def guardN_def)

lemma guardLen_sim:
  "sim P d (execs rest c M s) \<Longrightarrow>
   sim P (needLen (cGen c) (inpOf s) (sI s) (sNN s) d) (execs (guardLen (cGen c) @ rest) c M s)"
  by (simp add: needLen_def guardLen_def)

text \<open>\<open>regs s s'\<close>: only the registers \<open>i\<close>, \<open>nn\<close>, \<open>cc\<close> differ.\<close>

definition regs :: "st \<Rightarrow> st \<Rightarrow> bool" where
  "regs s s' \<longleftrightarrow> sRecv s' = sRecv s \<and> sVars s' = sVars s \<and> sameInput s s'"

lemma regs_refl [simp]: "regs s s"
  by (simp add: regs_def sameInput_def)

lemma regs_trans: "regs s s' \<Longrightarrow> regs s' s'' \<Longrightarrow> regs s s''"
  by (simp add: regs_def sameInput_def)

lemma regs_incI [simp]: "regs s (incI s n)" "sI (incI s n) = sI s + n" "sNN (incI s n) = sNN s"
  by (simp_all add: regs_def incI_def sameInput_def)

lemma regs_agree: "regs s s' \<Longrightarrow> agree s s'"
  by (simp add: regs_def agree_def)

lemma regs_rd: "regs s s' \<Longrightarrow> rd s' r = rd s r"
  by (rule rd_agree [OF regs_agree])

lemma regs_inp: "regs s s' \<Longrightarrow> inpOf s' = inpOf s"
  by (simp add: regs_def inpOf_same)

lemma regs_same: "regs s s' \<Longrightarrow> sameInput s s' \<and> sameRefs X s s'"
  by (simp add: regs_def sameRefs_def)

lemma into_before: "into n s' r x s'' \<Longrightarrow> regs s s' \<Longrightarrow> below r n \<Longrightarrow> into n s r x s''"
  using updated_before regs_same unfolding into_def by blast

lemma sim_before:
  "sim (into n s' r) d fl \<Longrightarrow> regs s s' \<Longrightarrow> below r n \<Longrightarrow> sim (into n s r) d fl"
  by (erule sim_weaken) (rule into_before)

lemma varint_sim:
  assumes "\<And>nn i s'. regs s s' \<Longrightarrow> sNN s' = nn \<Longrightarrow> sI s' = i \<Longrightarrow> sim P (f (nn, i)) (execs rest c M s')"
  shows "sim P (dbind (varintAt (cGen c) (inpOf s) (sI s)) f) (execs (emitVarint (cGen c) @ rest) c M s)"
proof (cases "tailFrom s")
  case (Ok t)
  let ?s = "s\<lparr>sNN := fst (Uvarint t), sCC := snd (Uvarint t), sI := sI s + snd (Uvarint t)\<rparr>"
  have "sim P (f (fst (Uvarint t), sI s + snd (Uvarint t))) (execs rest c M ?s)"
    by (rule assms) (simp_all add: regs_def sameInput_def)
  then show ?thesis by (simp add: varintAt_def reads Ok emitVarint_def incI_def)
qed (simp_all add: varintAt_def reads emitVarint_def tailFrom_def split: if_splits)

subsection \<open>Assignments\<close>

lemma assign_sim:
  assumes "rd s r = Ok a" and "d = ofOutcome (deval c s e)"
  shows "sim (\<lambda>v s'. s' = put s r v) d (exec (SU (SAssign r e)) c M s)"
  using assms by (cases "deval c s e") (simp_all add: wr_put)

lemma into_put_inc: "into n s r (v, sI s + k) (incI (put s r v) k)"
  using updated_after [OF updated_put, of s r v "incI (put s r v) k" n]
  by (simp add: into_def put_frame regs_def [unfolded sameInput_def] sameInput_def sameRefs_def incI_def)

lemma into_put: "into n s r (v, sI s) (put s r v)"
  by (simp add: into_def updated_put put_frame)

lemma assign_inc_sim:
  assumes "rd s r = Ok a" and "d = ofOutcome (deval c s e)"
    and "\<And>s'. exec inc c M (put s r s') = Next (incI (put s r s') k)"
  shows "sim (into n s r) (dbind d (\<lambda>v. Good (v, sI s + k))) (execs [SU (SAssign r e), inc] c M s)"
proof -
  have "sim (into n s r) (dbind d (\<lambda>v. Good (v, sI s + k)))
      (fthen (exec (SU (SAssign r e)) c M s) (execs [inc] c M))"
    by (rule sim_then [OF assign_sim [OF assms(1,2)]]) (simp add: assms(3) into_put_inc)
  then show ?thesis by simp
qed

lemma fixed_sim:
  assumes "rd s r = Ok a" and "d = ofOutcome (deval c s e)"
  shows "sim (into n s r) (needN (cGen c) (inpOf s) (sI s) k (dbind d (\<lambda>v. Good (v, sI s + int k))))
    (execs (guardN (cGen c) k @ [SU (SAssign r e), SM (SIncI k)]) c M s)"
  by (rule guardN_sim, rule assign_inc_sim [OF assms]) simp

subsection \<open>Blocks\<close>

definition fresher :: "nat \<Rightarrow> var list \<Rightarrow> bool" where
  "fresher n xs \<longleftrightarrow> (\<forall>x \<in> set xs. n < varNo x)"

lemma unbindVs_same:
  "fresher n xs \<Longrightarrow> sameInput s' (unbindVs xs s s') \<and> sameRefs (olds n) s' (unbindVs xs s s') \<and> sI (unbindVs xs s s') = sI s'"
  by (auto simp: fresher_def unbindVs_def sameInput_def sameRefs_def fold_restore olds_def)

lemma into_unbind: "into n s r x s' \<Longrightarrow> fresher n xs \<Longrightarrow> into n s r x (unbindVs xs s0 s')"
  using unbindVs_same [of n xs s' s0] updated_after unfolding into_def by auto

lemma block_sim:
  "sim (into n s r) d (execs b c M s') \<Longrightarrow> fresher n xs \<Longrightarrow> sim (into n s r) d (inBlock xs (execs b) c M s')"
  unfolding inBlock_def by (erule sim_scoped) (rule into_unbind)

text \<open>The \<open>if nn == 0 { r = nil } else { .. }\<close> of slices and maps.\<close>

lemma nn0_sim:
  assumes "rd s r = Ok a" and "sim (into n s r) d (execs b c M s)" and "fresher n (decls b)"
  shows "sim (into n s r) (if sNN s = 0 then Good (nilOf t, sI s) else d)
    (execs [SIfNN0 [SU (SAssign r (DNil t))] b] c M s)"
proof (cases "sNN s = 0")
  case True
  have "sim (into n s r) (Good (nilOf t, sI s)) (execs [SU (SAssign r (DNil t))] c M s)"
    using assms(1) by (simp add: deval_def wr_put into_put)
  from block_sim [OF this, of "decls [SU (SAssign r (DNil t))]"] show ?thesis
    using True by (simp add: execs_single fresher_def decls_def declared_def del: execs.simps)
next
  case False
  show ?thesis using block_sim [OF assms(2,3)] False by (simp add: execs_single del: execs.simps)
qed

end
