(* ===== verification/DecLoops.thy ===== *)
theory DecLoops
  imports DecSim
begin

text \<open>
  The simulation for the loops of decoders and for calls of nested decoders.
\<close>

subsection \<open>What the code of an expression decodes\<close>

definition decOK :: "ctx \<Rightarrow> menv \<Rightarrow> decs \<Rightarrow> gotype \<Rightarrow> bool" where
  "decOK c M D t \<longleftrightarrow> (\<forall>ref es s v. rd s ref = Ok v \<longrightarrow> refOK ref \<longrightarrow> below ref (varCounter es) \<longrightarrow>
     sim (into (varCounter es) s ref) (dec c D (inpOf s) t v (sI s))
       (execs (fst (unmarshalExpr (cGen c) ref t es)) c M s))"

lemma decOK_run:
  "decOK c M D t \<Longrightarrow> rd s ref = Ok v \<Longrightarrow> refOK ref \<Longrightarrow> below ref (varCounter es) \<Longrightarrow>
     sim (into (varCounter es) s ref) (dec c D (inpOf s) t v (sI s))
       (execs (fst (unmarshalExpr (cGen c) ref t es)) c M s)"
  by (simp add: decOK_def)

lemma freshIdx_facts:
  "varNo (fst (freshIdx es)) = Suc (varCounter es)" "varCounter (snd (freshIdx es)) = Suc (varCounter es)"
  by (simp_all add: freshIdx_def Let_def)

lemma unmarshalMembers_mono: "varCounter es \<le> varCounter (snd (unmarshalMembers g ref ms es))"
proof (induction ms arbitrary: es)
  case (Cons p ms)
  then show ?case using Cons.IH [of "snd (freshIdx es)"]
    by (cases p) (simp add: Let_def split_beta freshIdx_facts)
qed simp

lemma unmarshalExpr_mono: "varCounter es \<le> varCounter (snd (unmarshalExpr g ref t es))"
proof (induction t arbitrary: ref es rule: measure_induct_rule [where f = size])
  case (less t)
  have IH: "size e < size t \<Longrightarrow> n \<le> varCounter es \<Longrightarrow> n \<le> varCounter (snd (unmarshalExpr g ref e es))" for e ref es n
    using less.IH [of e es ref] by simp
  show ?case
    by (cases "underlying t")
      (auto simp: unmarshalExpr.simps [of g ref t] underlying_size_less [of t] Let_def split_beta
        freshIdx_facts unmarshalMembers_mono intro!: IH split: gotype.split option.split)
qed

lemma decls_simps [simp]:
  "decls [] = []" "decls (a @ b) = decls a @ decls b" "decls (x # a) = declared x @ decls a"
  by (simp_all add: decls_def)

lemma declared_simps [simp]:
  "declared (SG x) = []" "declared (SM m) = []" "declared (SIfNN0 a b) = []" "declared (SIfFlag a b) = []"
  "declared (SForIdx v r b) = []" "declared (SForN v k b) = []" "declared (SForCnt v w b) = []"
  "declared (SSwitchNN cs) = []" "declared (SU (SAssign r d)) = []" "declared (SU (SReuseOrMake r t)) = []"
  "declared (SU (SReuseOrMakeMap r t v)) = []" "declared (SU (SNewIfNil r t)) = []"
  "declared (SU (SCopyArr r k)) = []" "declared (SU (SCopyMem t r e)) = []" "declared (SU (SMapSet t r v w)) = []"
  "declared (SU (SUnmarshalSafe rc n)) = []" "declared (SU (SUnmarshalFast rc n)) = []"
  "declared (SU (SLetInt v e)) = [v]" "declared (SU (SLetNN v)) = [v]" "declared (SU (SVar v t)) = [v]"
  "declared (SU (STypeAssert v r n)) = [v]"
  by (simp_all add: declared_def)

lemma guards_decls [simp]:
  "decls (guardN g n) = []" "decls (guardLen g) = []" "decls (emitVarint g) = []" "decls (unmarshalBasic g r t k) = []"
  by (simp_all add: guardN_def guardLen_def emitVarint_def unmarshalBasic_def split: bkind.split)

lemma fresher_simps [simp]:
  "fresher n []" "fresher n (x # xs) \<longleftrightarrow> n < varNo x \<and> fresher n xs" "fresher n (xs @ ys) \<longleftrightarrow> fresher n xs \<and> fresher n ys"
  by (auto simp: fresher_def)

lemma fresher_mono: "fresher n xs \<Longrightarrow> m \<le> n \<Longrightarrow> fresher m xs"
  by (auto simp: fresher_def)

text \<open>An expression declares only fresh temporaries at its top level.\<close>

lemma unmarshalExpr_decls: "fresher (varCounter es) (decls (fst (unmarshalExpr g ref t es)))"
proof (induction t arbitrary: ref es rule: measure_induct_rule [where f = size])
  case (less t)
  show ?case
    by (cases "underlying t")
      (auto simp: unmarshalExpr.simps [of g ref t] Let_def split_beta freshIdx_facts split: gotype.split option.split)
qed

subsection \<open>The element loop\<close>

lemma loopL_map: "loopL f (map p ks) s = loopL (\<lambda>k. f (p k)) ks s"
  by (induction ks arbitrary: s) (auto simp: fthen_def split: flow.splits)

definition container :: "val \<Rightarrow> bool" where
  "container v = (case v of VSlice p xs ys \<Rightarrow> True | VArr xs \<Rightarrow> True | _ \<Rightarrow> False)"

lemma container_set:
  assumes "container v"
  shows "container (setElems v xs)" "setElems (setElems v xs) ys = setElems v ys"
    "elemsOf (setElems v xs) = Ok xs" "k < length xs \<Longrightarrow> setIdx (setElems v xs) k y = setElems v (xs[k := y])"
    "elemsOf v = Ok xs \<Longrightarrow> setElems v xs = v"
  using assms by (auto simp: container_def setElems_def elemsOf_def setIdx_def split: val.splits)

lemma bindV_facts:
  "sameInput s (bindV x v s)" "sI (bindV x v s) = sI s" "inpOf (bindV x v s) = inpOf s"
  "n < varNo x \<Longrightarrow> sameRefs (olds n) s (bindV x v s)"
  by (auto simp: bindV_def sameInput_def inpOf_def sameRefs_def olds_def)

text \<open>One iteration: the code of the element type runs on \<open>ref[iv]\<close>.\<close>

lemma iter_sim:
  assumes ok: "decOK c M D e" and v: "container v" "k < length xs"
    and r: "rd s ref = Ok (setElems v xs)" "refOK ref" "below ref (varCounter es)"
    and iv: "iv = fst (freshIdx es)" and body: "body = fst (unmarshalExpr (cGen c) (RIdx ref iv) e (snd (freshIdx es)))"
  shows "sim (\<lambda>p. into (varCounter es) s ref (setElems v (xs[k := fst p]), snd p))
     (dec c D (inpOf s) e (xs ! k) (sI s)) (iter1 iv (decls body) (execs body) c M (VInt (int k)) s)"
proof -
  let ?n = "varCounter es" and ?s = "bindV iv (VInt (int k)) s"
  have n: "varNo iv = Suc ?n" "varCounter (snd (freshIdx es)) = Suc ?n" by (simp_all add: iv freshIdx_facts)
  have ref: "iv \<notin> refVars ref" using r(3) n(1) by (simp add: below_fresh)
  have rd: "rd ?s ref = Ok (setElems v xs)" "intVar ?s iv = Ok (int k)"
    using r(1) ref by (simp_all add: rd_bindV) (simp add: intVar_def)
  then have rdi: "rd ?s (RIdx ref iv) = Ok (xs ! k)"
    using idx_elemsOf [OF container_set(3) [OF v(1)] v(2)] by simp
  have "sim (into (Suc ?n) ?s (RIdx ref iv)) (dec c D (inpOf s) e (xs ! k) (sI s)) (execs body c M ?s)"
    using decOK_run [OF ok rdi, of "snd (freshIdx es)"] r(2,3) ref n bindV_facts below_mono [of ref ?n]
    by (simp add: body)
  then show ?thesis unfolding iter1_def
  proof (rule sim_scoped)
    fix p s' assume "into (Suc ?n) ?s (RIdx ref iv) p s'"
    then have u: "updated (Suc ?n) ?s (RIdx ref iv) (fst p) s'" and i: "sI s' = snd p" by (simp_all add: into_def)
    have "updated ?n ?s ref (setElems v (xs[k := fst p])) s'"
      using updated_idx [OF u rd, of ?n] container_set(4) [OF v] by simp
    then have "updated ?n s ref (setElems v (xs[k := fst p])) s'"
      by (rule updated_before) (use bindV_facts n r(3) in simp_all)
    moreover have "fresher ?n (iv # decls body)"
      using unmarshalExpr_decls [of "snd (freshIdx es)" "cGen c" "RIdx ref iv" e] n
      by (auto simp: body intro: fresher_mono)
    ultimately show "into ?n s ref (setElems v (xs[k := fst p]), snd p) (unbindVs (iv # decls body) s s')"
      using i into_unbind [of ?n s ref "(setElems v (xs[k := fst p]), snd p)" s'] by (simp add: into_def)
  qed
qed

lemma into_trans:
  assumes "into n s r x s1" "into n s1 r y s2" "rd s r = Ok a" "refOK r" "below r n"
  shows "into n s r y s2"
  using assms updated_trans unfolding into_def by blast

lemma into_rd: "into n s r x s1 \<Longrightarrow> rd s r = Ok a \<Longrightarrow> refOK r \<Longrightarrow> below r n \<Longrightarrow> rd s1 r = Ok (fst x)"
  using updated_rd unfolding into_def by blast

lemma into_inp: "into n s r x s1 \<Longrightarrow> inpOf s1 = inpOf s"
  by (simp add: into_def updated_def inpOf_same)

lemma elems_sim:
  assumes ok: "decOK c M D e" and v: "container v"
    and r: "refOK ref" "below ref (varCounter es)"
    and iv: "iv = fst (freshIdx es)" and body: "body = fst (unmarshalExpr (cGen c) (RIdx ref iv) e (snd (freshIdx es)))"
  shows "rd s ref = Ok (setElems v (pre @ xs)) \<Longrightarrow>
    sim (\<lambda>p. into (varCounter es) s ref (setElems v (pre @ fst p), snd p))
      (decElems (dec c D (inpOf s) e) xs (sI s))
      (loopL (iter1 iv (decls body) (execs body) c M) (map (\<lambda>k. VInt (int k)) [length pre..<length pre + length xs]) s)"
proof (induction xs arbitrary: pre s)
  case Nil
  then show ?case by (simp add: into_def updated_same)
next
  case (Cons x xs)
  let ?n = "varCounter es" and ?f = "iter1 iv (decls body) (execs body) c M"
  have "sim (\<lambda>p. into ?n s ref (setElems v (pre @ fst p), snd p))
      (dbind (dec c D (inpOf s) e x (sI s)) (\<lambda>p. dbind (decElems (dec c D (inpOf s) e) xs (snd p))
         (\<lambda>q. Good (fst p # fst q, snd q))))
      (fthen (?f (VInt (int (length pre))) s)
         (loopL ?f (map (\<lambda>k. VInt (int k)) [Suc (length pre)..<length pre + length (x # xs)])))"
  proof (rule sim_bind)
    show "sim (\<lambda>p. into ?n s ref (setElems v ((pre @ x # xs)[length pre := fst p]), snd p))
        (dec c D (inpOf s) e x (sI s)) (?f (VInt (int (length pre))) s)"
      using iter_sim [OF ok v _ Cons.prems r iv body, of "length pre"] by simp
  next
    fix p s1 assume p: "into ?n s ref (setElems v ((pre @ x # xs)[length pre := fst p]), snd p) s1"
    have rd1: "rd s1 ref = Ok (setElems v ((pre @ [fst p]) @ xs))"
      using into_rd [OF p Cons.prems r] by simp
    have "sim (\<lambda>q. into ?n s1 ref (setElems v ((pre @ [fst p]) @ fst q), snd q))
        (decElems (dec c D (inpOf s) e) xs (snd p))
        (loopL ?f (map (\<lambda>k. VInt (int k)) [Suc (length pre)..<length pre + length (x # xs)]) s1)"
    proof -
      have i: "sI s1 = snd p" using p by (simp add: into_def)
      show ?thesis using Cons.IH [OF rd1] unfolding i into_inp [OF p] by (simp del: upt_Suc)
    qed
    then show "sim (\<lambda>p. into ?n s ref (setElems v (pre @ fst p), snd p))
        (dbind (decElems (dec c D (inpOf s) e) xs (snd p)) (\<lambda>q. Good (fst p # fst q, snd q)))
        (loopL ?f (map (\<lambda>k. VInt (int k)) [Suc (length pre)..<length pre + length (x # xs)]) s1)"
      by (rule sim_map) (use into_trans [OF p _ Cons.prems r] in simp)
  qed
  then show ?case by (simp add: case_prod_beta' upt_conv_Cons del: upt_Suc)
qed

subsection \<open>Quiet steps\<close>

text \<open>\<open>quiet n s s'\<close>: nothing but registers and temporaries numbered above \<open>n\<close> changed.\<close>

definition quiet :: "nat \<Rightarrow> st \<Rightarrow> st \<Rightarrow> bool" where
  "quiet n s s' \<longleftrightarrow> sameInput s s' \<and> sameRefs (olds n) s s'"

lemma quiet_refl: "quiet n s s"
  by (simp add: quiet_def sameInput_def sameRefs_def)

lemma quiet_trans: "quiet n s s' \<Longrightarrow> quiet n s' s'' \<Longrightarrow> quiet n s s''"
  using sameInput_trans sameRefs_trans unfolding quiet_def by blast

lemma quiet_bindV: "n < varNo x \<Longrightarrow> quiet n s (bindV x v s)"
  by (simp add: quiet_def bindV_facts)

lemma quiet_rd: "quiet n s s' \<Longrightarrow> below r n \<Longrightarrow> rd s' r = rd s r"
  using rd_sameRefs unfolding quiet_def below_olds by blast

lemma quiet_inp: "quiet n s s' \<Longrightarrow> inpOf s' = inpOf s"
  by (simp add: quiet_def inpOf_same)

lemma into_quiet: "into n s' r x s'' \<Longrightarrow> quiet n s s' \<Longrightarrow> below r n \<Longrightarrow> into n s r x s''"
  using updated_before unfolding into_def quiet_def by blast

lemma into_var:
  assumes "into m s (RVar x) p s'" "n < varNo x" "n \<le> m"
  shows "quiet n s s'"
proof -
  have "sameRefs (olds n) s (put s (RVar x) (fst p))"
    using assms(2) by (auto simp: sameRefs_def olds_def)
  moreover have "sameRefs (olds n) (put s (RVar x) (fst p)) s'" "sameInput s s'"
    using assms(1,3) olds_mono sameRefs_mono by (auto simp: into_def updated_def)
  ultimately show ?thesis using sameRefs_trans unfolding quiet_def by blast
qed

lemma into_var_rd:
  assumes "into m s (RVar x) p s'" "varNo y \<le> m"
  shows "rd s' (RVar y) = (if y = x then Ok (fst p) else rd s (RVar y))"
  using assms by (auto simp: into_def updated_def sameRefs_def olds_def)

subsection \<open>The entry loop\<close>

lemma execs_fun:
  "execs (a @ b) c M = (\<lambda>s. fthen (execs a c M s) (execs b c M))" "execs [x] c M = exec x c M"
  by (rule ext, rule execs_append) (rule ext, rule execs_single)

lemma entry_sim:
  assumes ok: "decOK c M D k" "decOK c M D e"
    and v: "n < varNo iv" "n < varNo kt" "n < varNo vt" "kt \<noteq> vt" "varNo kt \<le> varCounter es" "varNo vt \<le> varCounter es"
    and kb: "kb = fst (unmarshalExpr (cGen c) (RVar kt) k es)"
    and vb: "vb = fst (unmarshalExpr (cGen c) (RVar vt) e (snd (unmarshalExpr (cGen c) (RVar kt) k es)))"
    and body: "body = [SU (SVar kt k), SU (SVar vt e)] @ kb @ vb @ [SU (SMapSet t ref kt vt)]"
    and t: "underlying t = TMap k e"
    and r: "rd s ref = Ok (VMap kvs)" "refOK ref" "below ref n"
  shows "sim (\<lambda>p. into n s ref (VMap (fst p), snd p))
     (dbind (dec c D (inpOf s) k (zero (cGen c) (cDepth c) k) (sI s)) (\<lambda>p.
        dbind (dec c D (inpOf s) e (zero (cGen c) (cDepth c) e) (snd p)) (\<lambda>q.
          Good (mapPut (cGen c) k kvs (fst p) (fst q), snd q))))
     (iter1 iv (decls body) (execs body) c M x s)"
  unfolding iter1_def
proof (rule sim_scoped)
  let ?g = "cGen c" let ?zk = "zero ?g (cDepth c) k" and ?ze = "zero ?g (cDepth c) e"
  let ?m = "varCounter es" let ?m2 = "varCounter (snd (unmarshalExpr ?g (RVar kt) k es))"
  let ?P = "\<lambda>p. into n s ref (VMap (fst p), snd p)"
  have m: "n < ?m" "?m \<le> ?m2" using v(2,5) unmarshalExpr_mono by (simp, blast)
  define s1 where "s1 = bindV vt ?ze (bindV kt ?zk (bindV iv x s))"
  have q1: "quiet n s s1" "sI s1 = sI s"
    unfolding s1_def using quiet_bindV v(1-3) quiet_trans by (blast, simp add: bindV_facts)
  have "execs body c M (bindV iv x s) = fthen (execs kb c M s1) (\<lambda>s2. fthen (execs vb c M s2)
      (\<lambda>s3. exec (SU (SMapSet t ref kt vt)) c M s3))"
  proof -
    have "execs body c M (bindV iv x s) = execs (kb @ vb @ [SU (SMapSet t ref kt vt)]) c M s1"
      by (simp add: body s1_def bindV_def)
    then show ?thesis by (simp only: execs_fun)
  qed
  moreover have "sim ?P (dbind (dec c D (inpOf s) k ?zk (sI s)) (\<lambda>p.
        dbind (dec c D (inpOf s) e ?ze (snd p)) (\<lambda>q. Good (mapPut ?g k kvs (fst p) (fst q), snd q))))
      (fthen (execs kb c M s1) (\<lambda>s2. fthen (execs vb c M s2) (\<lambda>s3. exec (SU (SMapSet t ref kt vt)) c M s3)))"
  proof (rule sim_bind)
    have "rd s1 (RVar kt) = Ok ?zk" using v(4) by (simp add: s1_def)
    then show "sim (into ?m s1 (RVar kt)) (dec c D (inpOf s) k ?zk (sI s)) (execs kb c M s1)"
      using decOK_run [OF ok(1), of s1 "RVar kt" ?zk es] v(5) quiet_inp [OF q1(1)] q1(2) by (simp add: kb)
  next
    fix p s2 assume p: "into ?m s1 (RVar kt) p s2"
    have q2: "quiet n s1 s2" using into_var [OF p v(2)] m by simp
    have i2: "sI s2 = snd p" using p by (simp add: into_def)
    have rd2: "rd s2 (RVar kt) = Ok (fst p)" "rd s2 (RVar vt) = Ok ?ze"
      using into_var_rd [OF p v(5)] into_var_rd [OF p v(6)] v(4) by (simp_all add: s1_def)
    show "sim ?P (dbind (dec c D (inpOf s) e ?ze (snd p)) (\<lambda>q. Good (mapPut ?g k kvs (fst p) (fst q), snd q)))
        (fthen (execs vb c M s2) (\<lambda>s3. exec (SU (SMapSet t ref kt vt)) c M s3))"
    proof (rule sim_then)
      have "inpOf s2 = inpOf s" using quiet_inp [OF q2] quiet_inp [OF q1(1)] by simp
      then show "sim (into ?m2 s2 (RVar vt)) (dec c D (inpOf s) e ?ze (snd p)) (execs vb c M s2)"
        using decOK_run [OF ok(2) rd2(2), of "snd (unmarshalExpr ?g (RVar kt) k es)"] v(6) m i2 by (simp add: vb)
    next
      fix q s3 assume q: "into ?m2 s2 (RVar vt) q s3"
      have q3: "quiet n s s3"
        using into_var [OF q v(3)] m q1(1) q2 quiet_trans by (meson less_imp_le_nat less_le_trans)
      have rd3: "rd s3 (RVar vt) = Ok (fst q)" "rd s3 (RVar kt) = Ok (fst p)" "rd s3 ref = Ok (VMap kvs)"
        using into_var_rd [OF q, of vt] into_var_rd [OF q, of kt] v(4-6) m rd2 quiet_rd [OF q3 r(3)] r(1) by auto
      let ?v = "VMap (mapPut ?g k kvs (fst p) (fst q))"
      have "exec (SU (SMapSet t ref kt vt)) c M s3 = Next (put s3 ref ?v)"
        using rd3 t by (simp add: wr_put keyType_def)
      moreover have "into n s ref (?v, snd q) (put s3 ref ?v)"
        using into_quiet [OF into_put q3 r(3), of ?v] q by (simp add: into_def)
      ultimately show "\<exists>s''. exec (SU (SMapSet t ref kt vt)) c M s3 = Next s'' \<and>
          into n s ref (VMap (fst (mapPut ?g k kvs (fst p) (fst q), snd q)), snd (mapPut ?g k kvs (fst p) (fst q), snd q)) s''"
        by simp
    qed
  qed
  ultimately show "sim ?P (dbind (dec c D (inpOf s) k ?zk (sI s)) (\<lambda>p.
        dbind (dec c D (inpOf s) e ?ze (snd p)) (\<lambda>q. Good (mapPut ?g k kvs (fst p) (fst q), snd q))))
      (execs body c M (bindV iv x s))" by simp
next
  fix p s' assume "into n s ref (VMap (fst p), snd p) s'"
  moreover have "n \<le> varCounter es" "n \<le> varCounter (snd (unmarshalExpr (cGen c) (RVar kt) k es))"
    using v(2,5) unmarshalExpr_mono [of es "cGen c" "RVar kt" k] by simp_all
  then have "fresher n (iv # decls body)"
    using v(1-3) fresher_mono [OF unmarshalExpr_decls] by (simp add: body kb vb)
  ultimately show "into n s ref (VMap (fst p), snd p) (unbindVs (iv # decls body) s s')"
    by (rule into_unbind)
qed

end
