(* ===== verification/DecCalls.thy ===== *)
theory DecCalls
  imports DecLoops
begin

text \<open>
  The simulation for whole map loops, for calls of nested decoders and for the cases of a
  union's tag switch.
\<close>

lemma entries_sim:
  assumes step: "\<And>x s kvs. rd s ref = Ok (VMap kvs) \<Longrightarrow> inpOf s = I \<Longrightarrow>
      sim (\<lambda>p. into n s ref (VMap (fst p), snd p))
        (dbind (fk (sI s)) (\<lambda>p. dbind (fv (snd p)) (\<lambda>q. Good (ins (fst p) (fst q) kvs, snd q)))) (f x s)"
    and r: "refOK ref" "below ref n"
  shows "rd s ref = Ok (VMap kvs) \<Longrightarrow> inpOf s = I \<Longrightarrow>
    sim (\<lambda>p. into n s ref (VMap (fst p), snd p)) (decEntries fk fv ins (length L) kvs (sI s)) (loopL f L s)"
proof (induction L arbitrary: s kvs)
  case Nil
  then show ?case by (simp add: into_def updated_same)
next
  case (Cons x L)
  have "sim (\<lambda>p. into n s ref (VMap (fst p), snd p))
      (dbind (dbind (fk (sI s)) (\<lambda>p. dbind (fv (snd p)) (\<lambda>q. Good (ins (fst p) (fst q) kvs, snd q))))
        (\<lambda>p. decEntries fk fv ins (length L) (fst p) (snd p)))
      (fthen (f x s) (loopL f L))"
  proof (rule sim_bind [OF step [OF Cons.prems]])
    fix p s1 assume p: "into n s ref (VMap (fst p), snd p) s1"
    have i: "sI s1 = snd p" using p by (simp add: into_def)
    have "rd s1 ref = Ok (VMap (fst p))" using into_rd [OF p Cons.prems(1) r] by simp
    from Cons.IH [OF this] have "sim (\<lambda>p. into n s1 ref (VMap (fst p), snd p))
        (decEntries fk fv ins (length L) (fst p) (snd p)) (loopL f L s1)"
      using into_inp [OF p] Cons.prems(2) by (simp add: i)
    then show "sim (\<lambda>p. into n s ref (VMap (fst p), snd p))
        (decEntries fk fv ins (length L) (fst p) (snd p)) (loopL f L s1)"
      by (rule sim_weaken) (rule into_trans [OF p _ Cons.prems(1) r])
  qed
  then show ?case by (simp add: case_prod_beta')
qed

subsection \<open>Nested decoders\<close>

text \<open>The methods a decoder calls implement the specification's nested decoders.\<close>

definition envOK :: "menv \<Rightarrow> decs \<Rightarrow> bool" where
  "envOK M D \<longleftrightarrow> (\<forall>n d b sp base.
     D n d b sp base = Und \<or> D n d b sp base = ofCall (mUnmarshal M n d b sp base))"

lemma call_sim:
  assumes M: "envOK M D" and r: "rd s (recvLoc rc) = Ok v"
  shows "sim (into n s (recvLoc rc)) (nested (cGen c) D (inpOf s) m v (sI s))
    (exec (if safe (cGen c) then SU (SUnmarshalSafe rc m) else SU (SUnmarshalFast rc m)) c M s)"
proof (cases "tailFrom s")
  case (Ok t)
  let ?d = "D m v t (sSpare s) (sBase s + nat (sI s))"
  consider "?d = Und" | "?d = ofCall (mUnmarshal M m v t (sSpare s) (sBase s + nat (sI s)))"
    using M unfolding envOK_def by blast
  then show ?thesis
  proof cases
    case 1
    then show ?thesis by (simp add: nested_def reads Ok)
  next
    case 2
    then show ?thesis
      by (cases "mUnmarshal M m v t (sSpare s) (sBase s + nat (sI s))")
        (auto simp: nested_def reads Ok r wr_put ofCall_def into_put_inc sim_iffs split: option.split)
  qed
qed (use r in \<open>simp_all add: nested_def reads\<close>)

text \<open>The code of one union member, and the switch that selects it.\<close>

definition memberCode :: "generator \<Rightarrow> ref \<Rightarrow> var \<Rightarrow> tname \<Rightarrow> block" where
  "memberCode g ref v m = [SU (STypeAssert v ref m), SU (SNewIfNil (RVar v) (TNamed m TStruct)),
     (if safe g then SU (SUnmarshalSafe (RecvPtr (RVar v)) m) else SU (SUnmarshalFast (RecvPtr (RVar v)) m)),
     SU (SAssign ref (DIface v m))]"

lemma members_code:
  "(case map_of (map (\<lambda>(k, m). (of_nat k, m)) ms) (nn :: u64) of
      None \<Rightarrow> map_of (map (\<lambda>(k, b). (of_nat k, inBlock (decls b) (execs b))) (fst (unmarshalMembers g ref ms es))) nn = None
    | Some m \<Rightarrow> \<exists>v. varCounter es < varNo v \<and>
        map_of (map (\<lambda>(k, b). (of_nat k, inBlock (decls b) (execs b))) (fst (unmarshalMembers g ref ms es))) nn
          = Some (inBlock (decls (memberCode g ref v m)) (execs (memberCode g ref v m))))"
proof (induction ms arbitrary: es)
  case (Cons p ms)
  obtain k m where p: "p = (k, m)" by (cases p)
  have n: "varCounter es < varNo (fst (freshIdx es))" "varCounter es < varCounter (snd (freshIdx es))"
    by (simp_all add: freshIdx_facts)
  show ?case
  proof (cases "of_nat k = nn")
    case True
    then show ?thesis using n(1) by (auto simp: p Let_def split_beta memberCode_def)
  next
    case False
    let ?cases = "fst (unmarshalMembers g ref ms (snd (freshIdx es)))"
    have c: "map_of (map (\<lambda>(k, b). (of_nat k, inBlock (decls b) (execs b))) (fst (unmarshalMembers g ref (p # ms) es))) nn
        = map_of (map (\<lambda>(k, b). (of_nat k, inBlock (decls b) (execs b))) ?cases) nn"
      using False by (simp add: p Let_def split_beta)
    show ?thesis
    proof (cases "map_of (map (\<lambda>(k, m). (of_nat k, m)) ms) nn")
      case None
      then show ?thesis using Cons.IH [of "snd (freshIdx es)"] False unfolding c by (simp add: p)
    next
      case (Some m')
      then obtain v where "varCounter (snd (freshIdx es)) < varNo v"
          "map_of (map (\<lambda>(k, b). (of_nat k, inBlock (decls b) (execs b))) ?cases) nn
            = Some (inBlock (decls (memberCode g ref v m')) (execs (memberCode g ref v m')))"
        using Cons.IH [of "snd (freshIdx es)"] by auto
      then show ?thesis using Some False n(2) unfolding c by (auto simp: p intro!: exI [of _ v])
    qed
  qed
qed simp

definition memberOld :: "ctx \<Rightarrow> tname \<Rightarrow> val \<Rightarrow> val" where
  "memberOld c m v = (case v of
     VIface n (Some x) \<Rightarrow> (if n = m then x else zero (cGen c) (cDepth c) (TNamed m TStruct))
   | _ \<Rightarrow> zero (cGen c) (cDepth c) (TNamed m TStruct))"

lemma member_sim:
  assumes M: "envOK M D" and r: "rd s ref = Ok a" "refOK ref" "below ref n" and x: "n < varNo x"
  shows "sim (into n s ref) (dbind (nested (cGen c) D (inpOf s) m (memberOld c m a) (sI s))
      (\<lambda>p. Good (VIface m (Some (fst p)), snd p)))
    (inBlock (decls (memberCode (cGen c) ref x m)) (execs (memberCode (cGen c) ref x m)) c M s)"
proof (rule block_sim)
  let ?s = "bindV x (VPtr (Some (memberOld c m a))) s"
  let ?call = "if safe (cGen c) then SU (SUnmarshalSafe (RecvPtr (RVar x)) m) else SU (SUnmarshalFast (RecvPtr (RVar x)) m)"
  let ?set = "SU (SAssign ref (DIface x m))"
  have q: "quiet n s ?s" using x by (rule quiet_bindV)
  define p where "p = (case a of VIface n p \<Rightarrow> if n = m then p else None | _ \<Rightarrow> None)"
  have 1: "exec (SU (STypeAssert x ref m)) c M s = Next (bindV x (VPtr p) s)"
    using r(1) by (simp add: p_def bindV_def Let_def)
  have "memberOld c m a = (case p of Some y \<Rightarrow> y | None \<Rightarrow> zero (cGen c) (cDepth c) (TNamed m TStruct))"
    by (auto simp: memberOld_def p_def split: val.split option.split)
  then have 2: "exec (SU (SNewIfNil (RVar x) (TNamed m TStruct))) c M (bindV x (VPtr p) s) = Next ?s"
    by (cases p) (simp_all add: bindV_def)
  have e: "execs (memberCode (cGen c) ref x m) c M s = fthen (exec ?call c M ?s) (exec ?set c M)"
    unfolding memberCode_def by (simp only: execs.simps(2) [of "SU (STypeAssert x ref m)"]
      execs.simps(2) [of "SU (SNewIfNil (RVar x) (TNamed m TStruct))"] execs.simps(2) [of ?call] execs_fun 1 2 fthen_simps)
  show "sim (into n s ref) (dbind (nested (cGen c) D (inpOf s) m (memberOld c m a) (sI s))
      (\<lambda>p. Good (VIface m (Some (fst p)), snd p))) (execs (memberCode (cGen c) ref x m) c M s)"
    unfolding e
  proof (rule sim_then)
    have "rd ?s (recvLoc (RecvPtr (RVar x))) = Ok (memberOld c m a)" by (simp add: deref_def)
    from call_sim [OF M this, of "varNo x" c m]
    show "sim (into (varNo x) ?s (RDeref (RVar x))) (nested (cGen c) D (inpOf s) m (memberOld c m a) (sI s)) (exec ?call c M ?s)"
      using bindV_facts by (simp del: exec.simps)
  next
    fix p s1 assume "into (varNo x) ?s (RDeref (RVar x)) p s1"
    then have p: "into (varNo x) ?s (RVar x) (VPtr (Some (fst p)), snd p) s1"
      using updated_deref by (auto simp: into_def)
    have q1: "quiet n s s1" using into_var [OF p x] x quiet_trans [OF q] by simp
    have rd1: "rd s1 (RVar x) = Ok (VPtr (Some (fst p)))" "rd s1 ref = Ok a"
      using into_var_rd [OF p, of x] quiet_rd [OF q1 r(3)] r(1) by simp_all
    have "exec ?set c M s1 = Next (put s1 ref (VIface m (Some (fst p))))"
      using rd1 by (simp add: deval_def wr_put)
    moreover have "into n s ref (VIface m (Some (fst p)), snd p) (put s1 ref (VIface m (Some (fst p))))"
      using into_quiet [OF into_put q1 r(3), of "VIface m (Some (fst p))"] p by (simp add: into_def)
    ultimately show "\<exists>s''. exec ?set c M s1 = Next s'' \<and> into n s ref (VIface m (Some (fst p)), snd p) s''" by simp
  qed
next
  show "fresher n (decls (memberCode (cGen c) ref x m))" using x by (simp add: memberCode_def)
qed

end
