(* ===== verification/DecShapes.thy ===== *)
theory DecShapes
  imports DecCalls
begin

text \<open>
  The simulation for each shape of emitted decoder code, one lemma per kind of type.
\<close>

lemma ofOutcome_obind: "ofOutcome (obind a f) = dbind (ofOutcome a) (\<lambda>x. ofOutcome (f x))"
  by (cases a) auto

lemmas deval_spec = deval_def ofOutcome_obind reads comp_def

lemma fthen_Next: "fthen fl Next = fl"
  by (simp add: fthen_def split: flow.split)

lemma time_sim:
  assumes "rd s ref = Ok v" "isTime t"
  shows "sim (into n s ref) (dec c D (inpOf s) t v (sI s))
    (execs (guardN (cGen c) 8 @ [SU (SAssign ref DTime), SM (SIncI 8)]) c M s)"
  using fixed_sim [OF assms(1), of _ c DTime n 8 M] assms(2)
  by (simp add: dec.simps [of c D _ t] deval_spec)

lemma varint_len_sim:
  assumes "\<And>s'. regs s s' \<Longrightarrow> sim P (f (sNN s', sI s')) (execs rest c M s')"
  shows "sim P (dbind (varintAt (cGen c) (inpOf s) (sI s)) (\<lambda>(nn, i). needLen (cGen c) (inpOf s) i nn (f (nn, i))))
    (execs (emitVarint (cGen c) @ guardLen (cGen c) @ rest) c M s)"
proof (rule varint_sim)
  fix nn i s' assume s': "regs s s'" "sNN s' = nn" "sI s' = i"
  have "sim P (f (nn, i)) (execs rest c M s')" using assms [OF s'(1)] s'(2,3) by simp
  from guardLen_sim [OF this] show "sim P (case (nn, i) of (nn, i) \<Rightarrow> needLen (cGen c) (inpOf s) i nn (f (nn, i)))
      (execs (guardLen (cGen c) @ rest) c M s')"
    using s' regs_inp by simp
qed

lemma basic_sim:
  assumes r: "rd s ref = Ok v" "below ref n" and k: "supportedBasic k"
  shows "sim (into n s ref) (decBasic c (inpOf s) t k v (sI s)) (execs (unmarshalBasic (cGen c) ref t k) c M s)"
proof (cases "k = KString")
  case True
  let ?e = "if safe (cGen c) then DStrCopy else DStrAlias"
  let ?f = "\<lambda>(nn, i). dbind (windowOf (inpOf s) i (goInt (cArch c) nn)) (\<lambda>bs.
      Good (VStr (if safe (cGen c) then Own else Input (sBase s + nat i)) bs, i + goInt (cArch c) nn))"
  have "sim (into n s ref) (?f (sNN s', sI s')) (execs [SU (SAssign ref ?e), SG (SIncE IIntNN)] c M s')"
    if s': "regs s s'" for s'
  proof (rule sim_before [OF _ s' r(2)])
    have b: "sBase s' = sBase s" using s' by (simp add: regs_def sameInput_def)
    have rd: "rd s' ref = Ok v" using regs_rd [OF s'] r(1) by simp
    have "sim (into n s' ref) (dbind (ofOutcome (deval c s' ?e)) (\<lambda>v. Good (v, sI s' + goInt (cArch c) (sNN s'))))
        (execs [SU (SAssign ref ?e), SG (SIncE IIntNN)] c M s')"
      by (rule assign_inc_sim [OF rd refl]) (simp add: put_frame)
    then show "sim (into n s' ref) (?f (sNN s', sI s')) (execs [SU (SAssign ref ?e), SG (SIncE IIntNN)] c M s')"
      by (simp add: deval_spec regs_inp [OF s', symmetric] B2S_def Let_def b del: execs.simps split: if_splits)
  qed
  from varint_len_sim [of s "into n s ref" ?f, OF this] show ?thesis
    by (cases "safe (cGen c)") (simp_all add: True decBasic_def unmarshalBasic_def Let_def case_prod_beta' del: execs.simps)
next
  case False
  note fx = fixed_sim [OF r(1) refl, where c = c and n = n and M = M]
  show ?thesis
    using k False fx [where k = 1 and e = DBool] fx [where k = 1 and e = "DByte t"]
      fx [where k = 2 and e = "DU16 t"] fx [where k = 4 and e = "DU32 t"] fx [where k = 4 and e = DF32]
      fx [where k = 8 and e = "DU64 t"] fx [where k = 8 and e = DF64]
    by (cases k) (simp_all add: supportedBasic_def decBasic_def unmarshalBasic_def deval_spec Bitsf32_def Bitsf64_def Let_def
        del: execs.simps)
qed

lemma reuse_sim:
  assumes "rd s r = Ok v"
  shows "sim (\<lambda>v' s'. s' = put s r v') (reuse c t (sNN s) v) (exec (SU (SReuseOrMake r t)) c M s)"
  using assms by (cases v) (simp_all add: reuse_def Let_def wr_put)

lemma copyMem_sim:
  assumes "rd s r = Ok v" and "ieval c M s x = Ok n"
  shows "sim (\<lambda>p s'. s' = put s r (fst p) \<and> snd p = sI s + n) (copyMem c (inpOf s) e v n (sI s))
    (exec (SU (SCopyMem e r x)) c M s)"
proof (cases "elemsOf v")
  case (Ok xs)
  then have "v = VNilSlice \<and> xs = [] \<or> (\<exists>p ys. v = VSlice p xs ys) \<or> v = VArr xs"
    by (auto simp: elemsOf_def split: val.splits)
  then show ?thesis
    using assms Ok by (cases xs; cases "window s n") (auto simp: copyMem_def reads setElems_def wr_put Let_def)
qed (auto simp: copyMem_def)

text \<open>A copy followed by moving the cursor.\<close>

lemma copy_inc_sim:
  assumes "rd s r = Ok v" and "ieval c M s x = Ok n" and "\<And>v'. ieval c M (put s r v') x = Ok n"
  shows "sim (into m s r) (copyMem c (inpOf s) e v n (sI s)) (execs [SU (SCopyMem e r x), SG (SIncE x)] c M s)"
proof -
  have "sim (into m s r) (dbind (copyMem c (inpOf s) e v n (sI s)) (\<lambda>p. Good p))
      (fthen (exec (SU (SCopyMem e r x)) c M s) (execs [SG (SIncE x)] c M))"
  proof (rule sim_then [OF copyMem_sim [OF assms(1,2)]])
    fix p s' assume "s' = put s r (fst p) \<and> snd p = sI s + n"
    then show "\<exists>s''. execs [SG (SIncE x)] c M s' = Next s'' \<and> into m s r p s''"
      using assms(3) into_put_inc [of m s r "fst p" n] by (cases p) simp
  qed
  moreover have "dbind d (\<lambda>p. Good p) = d" for d :: "(val \<times> int) dres" by (cases d) auto
  ultimately show ?thesis by simp
qed

lemma byteCount_val:
  "ieval c M s (byteCount k IIntNN) = Ok (int k * goInt (cArch c) (sNN s))"
  by (simp add: byteCount_def)

text \<open>Code that goes on after the destination has been reused.\<close>

lemma reuse_then_sim:
  assumes "rd s r = Ok v" "refOK r" "below r n"
    and "\<And>v' s'. rd s' r = Ok v' \<Longrightarrow> inpOf s' = inpOf s \<Longrightarrow> sI s' = sI s \<Longrightarrow> sNN s' = sNN s
      \<Longrightarrow> sim (into n s' r) (f v') (execs rest c M s')"
  shows "sim (into n s r) (dbind (reuse c t (sNN s) v) f) (execs (SU (SReuseOrMake r t) # rest) c M s)"
proof -
  have "sim (into n s r) (dbind (reuse c t (sNN s) v) f) (fthen (exec (SU (SReuseOrMake r t)) c M s) (execs rest c M))"
  proof (rule sim_bind [OF reuse_sim [OF assms(1)]])
    fix v' s' assume s': "s' = put s r v'"
    have "sim (into n s' r) (f v') (execs rest c M s')"
      by (rule assms(4)) (simp_all add: s' rd_put [OF assms(1,2)] inpOf_def put_frame)
    then show "sim (into n s r) (f v') (execs rest c M s')"
      by (rule sim_weaken) (use into_trans [OF into_put _ assms(1-3)] s' in blast)
  qed
  then show ?thesis by simp
qed

subsection \<open>Slices\<close>

lemma len_or_nil_sim:
  assumes r: "rd s r = Ok v" "below r n" and fr: "fresher n (decls rest)"
    and body: "\<And>s'. regs s s' \<Longrightarrow> sim (into n s' r) (f (sNN s', sI s')) (execs rest c M s')"
  shows "sim (into n s r)
     (dbind (varintAt (cGen c) (inpOf s) (sI s)) (\<lambda>(nn, i).
        if nn = 0 then Good (nilOf t, i) else needLen (cGen c) (inpOf s) i nn (f (nn, i))))
     (execs (emitVarint (cGen c) @ [SIfNN0 [SU (SAssign r (DNil t))] (guardLen (cGen c) @ rest)]) c M s)"
proof (rule varint_sim)
  fix nn i s' assume s': "regs s s'" "sNN s' = nn" "sI s' = i"
  have "sim (into n s' r) (if sNN s' = 0 then Good (nilOf t, sI s')
        else needLen (cGen c) (inpOf s') (sI s') (sNN s') (f (sNN s', sI s')))
      (execs [SIfNN0 [SU (SAssign r (DNil t))] (guardLen (cGen c) @ rest)] c M s')"
  proof (rule nn0_sim)
    show "rd s' r = Ok v" using regs_rd [OF s'(1)] r(1) by simp
    show "sim (into n s' r) (needLen (cGen c) (inpOf s') (sI s') (sNN s') (f (sNN s', sI s')))
        (execs (guardLen (cGen c) @ rest) c M s')" by (rule guardLen_sim [OF body [OF s'(1)]])
    show "fresher n (decls (guardLen (cGen c) @ rest))" using fr by simp
  qed
  from sim_before [OF this s'(1) r(2)]
  show "sim (into n s r) (case (nn, i) of (nn, i) \<Rightarrow>
        if nn = 0 then Good (nilOf t, i) else needLen (cGen c) (inpOf s) i nn (f (nn, i)))
      (execs [SIfNN0 [SU (SAssign r (DNil t))] (guardLen (cGen c) @ rest)] c M s')"
    unfolding s'(2,3) regs_inp [OF s'(1)] prod.case .
qed

definition bytesInto :: "ctx \<Rightarrow> inp \<Rightarrow> val \<Rightarrow> u64 \<times> int \<Rightarrow> (val \<times> int) dres" where
  "bytesInto c I v = (\<lambda>(nn, i). dbind (windowOf I i (goInt (cArch c) nn)) (\<lambda>bs.
     if safe (cGen c) then
       (case v of
          VSlice p xs ys \<Rightarrow> Good
            ((if length bs \<le> length xs + length ys
              then VSlice p (map V8 bs) (drop (length bs) (xs @ ys))
              else VSlice Own (map V8 bs) []), i + goInt (cArch c) nn)
        | VNilSlice \<Rightarrow> Good ((if bs = [] then VNilSlice else VSlice Own (map V8 bs) []), i + goInt (cArch c) nn)
        | _ \<Rightarrow> Und)
     else Good (VSlice (Input (iBase I + nat i)) (map V8 bs)
                  (map V8 (beyondOf I (i + goInt (cArch c) nn))), i + goInt (cArch c) nn)))"

lemma bytes_sim:
  assumes r: "rd s r = Ok v"
  shows "sim (into n s r) (bytesInto c (inpOf s) v (sNN s, sI s))
    (execs [SU (SAssign r (if safe (cGen c) then DBytesCopy r else DBytesAlias)), SG (SIncE IIntNN)] c M s)"
proof -
  let ?e = "if safe (cGen c) then DBytesCopy r else DBytesAlias"
  have a: "sim (into n s r) (dbind (ofOutcome (deval c s ?e)) (\<lambda>v. Good (v, sI s + goInt (cArch c) (sNN s))))
      (execs [SU (SAssign r ?e), SG (SIncE IIntNN)] c M s)"
    by (rule assign_inc_sim [OF r refl]) (simp add: put_frame)
  show ?thesis
  proof (cases "bytesInto c (inpOf s) v (sNN s, sI s) = Und")
    case False
    then have "bytesInto c (inpOf s) v (sNN s, sI s)
        = dbind (ofOutcome (deval c s ?e)) (\<lambda>v. Good (v, sI s + goInt (cArch c) (sNN s)))"
      by (cases "window s (goInt (cArch c) (sNN s))"; cases v)
        (simp_all add: bytesInto_def deval_spec r beyondOf_def beyond_def split: if_splits)
    then show ?thesis using a by simp
  qed simp
qed

text \<open>The element loop of a slice whose backing array is ready.\<close>

definition elemsInto :: "ctx \<Rightarrow> decs \<Rightarrow> inp \<Rightarrow> gotype \<Rightarrow> val \<Rightarrow> int \<Rightarrow> (val \<times> int) dres" where
  "elemsInto c D I e v i = (case elemsOf v of
     Ok xs \<Rightarrow> dbind (decElems (dec c D I e) xs i) (\<lambda>(xs', i). Good (setElems v xs', i)) | _ \<Rightarrow> Und)"

lemma loop_sim:
  assumes ok: "decOK c M D e" and r: "rd s r = Ok v" "refOK r" "below r (varCounter es)"
    and v: "elemsOf v = Ok xs"
    and iv: "iv = fst (freshIdx es)" and body: "body = fst (unmarshalExpr (cGen c) (RIdx r iv) e (snd (freshIdx es)))"
  shows "sim (into (varCounter es) s r) (elemsInto c D (inpOf s) e v (sI s)) (execs [SForIdx iv r body] c M s)"
    and "sim (into (varCounter es) s r) (elemsInto c D (inpOf s) e v (sI s)) (execs [SForN iv (length xs) body] c M s)"
proof -
  have "sim (into (varCounter es) s r) (elemsInto c D (inpOf s) e v (sI s))
      (loopL (iter1 iv (decls body) (execs body) c M) (map (\<lambda>k. VInt (int k)) [0..<length xs]) s)"
  proof (cases "container v")
    case True
    have "rd s r = Ok (setElems v ([] @ xs))" using r(1) container_set(5) [OF True v] by simp
    from elems_sim [OF ok True r(2,3) iv body this]
    have "sim (\<lambda>p. into (varCounter es) s r (setElems v (fst p), snd p)) (decElems (dec c D (inpOf s) e) xs (sI s))
        (loopL (iter1 iv (decls body) (execs body) c M) (map (\<lambda>k. VInt (int k)) [0..<length xs]) s)" by simp
    then show ?thesis unfolding elemsInto_def v by (simp add: case_prod_beta') (erule sim_map)
  next
    case False
    then have "v = VNilSlice" "xs = []" using v by (auto simp: elemsOf_def container_def split: val.splits)
    then show ?thesis using updated_same r(1)
      by (simp add: elemsInto_def elemsOf_def setElems_def into_def)
  qed
  then show "sim (into (varCounter es) s r) (elemsInto c D (inpOf s) e v (sI s)) (execs [SForIdx iv r body] c M s)"
    "sim (into (varCounter es) s r) (elemsInto c D (inpOf s) e v (sI s)) (execs [SForN iv (length xs) body] c M s)"
    using r(1) v by (simp_all add: execs_single rangeLen_def Let_def del: execs.simps)
qed

subsection \<open>Slices, arrays and pointers\<close>

definition sliceInto :: "ctx \<Rightarrow> decs \<Rightarrow> inp \<Rightarrow> gotype \<Rightarrow> val \<Rightarrow> u64 \<times> int \<Rightarrow> (val \<times> int) dres" where
  "sliceInto c D I e v = (\<lambda>(nn, i).
     if \<not> safe (cGen c) \<and> memCopyable e
     then copyMem c I e v ((case fixedSize e of Some z \<Rightarrow> int z | None \<Rightarrow> 0) * goInt (cArch c) nn) i
     else if blitElem (cGen c) e then copyMem c I e v (int (elemSize (cGen c) (cArch c) e) * goInt (cArch c) nn) i
     else elemsInto c D I e v i)"

lemma dec_slice:
  assumes "\<not> isTime t" "underlying t = TSlice e"
  shows "dec c D I t v i = dbind (varintAt (cGen c) I i) (\<lambda>(nn, i).
     if nn = 0 then Good (nilOf t, i)
     else needLen (cGen c) I i nn
       (if isBytes e then bytesInto c I v (nn, i)
        else dbind (reuse c t nn v) (\<lambda>v. sliceInto c D I e v (nn, i))))"
  using assms by (simp add: dec.simps [of c D I t] bytesInto_def sliceInto_def elemsInto_def Let_def cong: if_cong)

lemma letInt_sim:
  assumes r: "rd s r = Ok v" "refOK r" "below r n" and tv: "n < varNo tv" and x: "ieval c M s x = Ok k"
  shows "sim (into n s r) (copyMem c (inpOf s) e v k (sI s))
     (execs [SU (SLetInt tv x), SU (SCopyMem e r (IVar tv)), SG (SIncE (IVar tv))] c M s)"
proof -
  let ?s = "bindV tv (VInt k) s"
  have tr: "tv \<notin> refVars r" using tv r(3) by (auto simp: below_def)
  have rd: "rd ?s r = Ok v" using r(1) tr by (simp add: rd_bindV)
  have iv: "ieval c M ?s (IVar tv) = Ok k" "ieval c M (put ?s r v') (IVar tv) = Ok k" for v'
    using put_vars [OF r(2) tr, of ?s v'] by (simp_all add: intVar_def)
  have "sim (into n ?s r) (copyMem c (inpOf ?s) e v k (sI ?s)) (execs [SU (SCopyMem e r (IVar tv)), SG (SIncE (IVar tv))] c M ?s)"
    by (rule copy_inc_sim [OF rd iv])
  then have "sim (into n s r) (copyMem c (inpOf s) e v k (sI s)) (execs [SU (SCopyMem e r (IVar tv)), SG (SIncE (IVar tv))] c M ?s)"
    unfolding bindV_facts by (rule sim_weaken) (rule into_quiet [OF _ quiet_bindV [OF tv] r(3)])
  then show ?thesis using x by (simp add: bindV_def)
qed

lemma slice_sim:
  assumes ok: "decOK c M D e" and t: "\<not> isTime t" "underlying t = TSlice e"
    and r: "rd s ref = Ok v" "refOK ref" "below ref (varCounter es)"
  shows "sim (into (varCounter es) s ref) (dec c D (inpOf s) t v (sI s))
    (execs (fst (unmarshalExpr (cGen c) ref t es)) c M s)"
proof (cases "isBytes e")
  case True
  let ?rest = "[SU (SAssign ref (if safe (cGen c) then DBytesCopy ref else DBytesAlias)), SG (SIncE IIntNN)]"
  have "sim (into (varCounter es) s' ref) (bytesInto c (inpOf s) v (sNN s', sI s')) (execs ?rest c M s')"
    if "regs s s'" for s'
    using bytes_sim [of s' ref v] regs_rd [OF that] regs_inp [OF that] r(1) by metis
  from len_or_nil_sim [OF r(1,3) _ this] show ?thesis
    using True t by (simp add: dec_slice unmarshalExpr.simps [of "cGen c" ref t] del: execs.simps exec.simps cong: if_cong)
next
  case False
  let ?n = "varCounter es"
  let ?f = "\<lambda>(nn, i). dbind (reuse c t nn v) (\<lambda>v. sliceInto c D (inpOf s) e v (nn, i))"
  have main: ?thesis
    if code: "fst (unmarshalExpr (cGen c) ref t es)
        = emitVarint (cGen c) @ [SIfNN0 [SU (SAssign ref (DNil t))] (guardLen (cGen c) @ SU (SReuseOrMake ref t) # rest)]"
      and fr: "fresher ?n (decls rest)"
      and body: "\<And>v' s'. rd s' ref = Ok v' \<Longrightarrow>
          sim (into ?n s' ref) (sliceInto c D (inpOf s') e v' (sNN s', sI s')) (execs rest c M s')" for rest
  proof -
    have "sim (into ?n s' ref) (?f (sNN s', sI s')) (execs (SU (SReuseOrMake ref t) # rest) c M s')"
      if s': "regs s s'" for s'
    proof -
      have "sim (into ?n s' ref) (dbind (reuse c t (sNN s') v) (\<lambda>v. sliceInto c D (inpOf s) e v (sNN s', sI s')))
          (execs (SU (SReuseOrMake ref t) # rest) c M s')"
        by (rule reuse_then_sim [OF _ r(2,3)]) (use body regs_rd [OF s'] regs_inp [OF s'] r(1) in \<open>simp, metis\<close>)
      then show ?thesis by simp
    qed
    from len_or_nil_sim [OF r(1,3) _ this] show ?thesis
      unfolding code using False t fr by (simp add: dec_slice del: execs.simps exec.simps cong: if_cong)
  qed
  consider (mem) "\<not> safe (cGen c) \<and> memCopyable e" | (blit) "\<not> (\<not> safe (cGen c) \<and> memCopyable e)" "blitElem (cGen c) e"
    | (loop) "\<not> (\<not> safe (cGen c) \<and> memCopyable e)" "\<not> blitElem (cGen c) e" by blast
  then show ?thesis
  proof cases
    case mem
    let ?z = "case fixedSize e of Some z \<Rightarrow> z | None \<Rightarrow> 0"
    let ?rest = "[SU (SCopyMem e ref (byteCount ?z IIntNN)), SG (SIncE (byteCount ?z IIntNN))]"
    show ?thesis
    proof (rule main [of ?rest])
      fix v' s' assume "rd s' ref = Ok v'"
      then have "sim (into ?n s' ref) (copyMem c (inpOf s') e v' (int ?z * goInt (cArch c) (sNN s')) (sI s')) (execs ?rest c M s')"
        by (rule copy_inc_sim) (simp_all add: byteCount_val put_frame)
      moreover have "(case fixedSize e of Some z \<Rightarrow> int z | None \<Rightarrow> 0) = int ?z" by (simp split: option.split)
      ultimately show "sim (into ?n s' ref) (sliceInto c D (inpOf s') e v' (sNN s', sI s')) (execs ?rest c M s')"
        using mem by (simp add: sliceInto_def del: execs.simps)
    qed (use mem False t in \<open>simp_all add: unmarshalExpr.simps [of "cGen c" ref t] Let_def\<close>)
  next
    case blit
    let ?tv = "fst (freshIdx (es\<lparr>usedUnsafe := True\<rparr>))"
    let ?rest = "[SU (SLetInt ?tv (IMul (ISizeofElem e ref) IIntNN)), SU (SCopyMem e ref (IVar ?tv)), SG (SIncE (IVar ?tv))]"
    have tv: "?n < varNo ?tv" by (simp add: freshIdx_facts)
    show ?thesis
    proof (rule main [of ?rest])
      fix v' s' assume "rd s' ref = Ok v'"
      then have "sim (into ?n s' ref) (copyMem c (inpOf s') e v' (int (elemSize (cGen c) (cArch c) e) * goInt (cArch c) (sNN s')) (sI s'))
          (execs ?rest c M s')" by (rule letInt_sim [OF _ r(2,3) tv]) simp
      then show "sim (into ?n s' ref) (sliceInto c D (inpOf s') e v' (sNN s', sI s')) (execs ?rest c M s')"
        using blit by (auto simp add: sliceInto_def simp del: execs.simps)
    qed (use blit False t tv in \<open>auto simp: unmarshalExpr.simps [of "cGen c" ref t] Let_def split_beta\<close>)
  next
    case loop
    let ?iv = "fst (freshIdx es)"
    let ?body = "fst (unmarshalExpr (cGen c) (RIdx ref ?iv) e (snd (freshIdx es)))"
    show ?thesis
    proof (rule main [of "[SForIdx ?iv ref ?body]"])
      fix v' s' assume rd: "rd s' ref = Ok v'"
      show "sim (into ?n s' ref) (sliceInto c D (inpOf s') e v' (sNN s', sI s')) (execs [SForIdx ?iv ref ?body] c M s')"
      proof (cases "elemsOf v'")
        case (Ok xs)
        from loop_sim(1) [OF ok rd r(2,3) Ok refl refl] show ?thesis
          using loop by (auto simp add: sliceInto_def simp del: execs.simps exec.simps)
      qed (use loop in \<open>auto simp: sliceInto_def elemsInto_def\<close>)
    qed (use loop False t in \<open>auto simp: unmarshalExpr.simps [of "cGen c" ref t] Let_def split_beta\<close>)
  qed
qed

subsection \<open>Arrays\<close>

lemma elemsOf_arr: "elemsOf (VArr xs) = Ok xs" "setElems (VArr xs) ys = VArr ys"
  by (simp_all add: elemsOf_def setElems_def)

lemma array_sim:
  assumes ok: "decOK c M D e" and t: "\<not> isTime t" "underlying t = TArray k e"
    and r: "rd s ref = Ok v" "refOK ref" "below ref (varCounter es)"
  shows "sim (into (varCounter es) s ref) (dec c D (inpOf s) t v (sI s))
    (execs (fst (unmarshalExpr (cGen c) ref t es)) c M s)"
proof (cases "\<exists>xs. v = VArr xs \<and> length xs = k")
  case False
  then have "dec c D (inpOf s) t v (sI s) = Und" using t by (cases v) (simp_all add: dec.simps [of c D _ t])
  then show ?thesis by simp
next
  case True
  then obtain xs where v: "v = VArr xs" "length xs = k" by blast
  let ?n = "varCounter es"
  consider (bytes) "isByteArray e" | (mem) "\<not> isByteArray e" "\<not> safe (cGen c) \<and> k > 0 \<and> memCopyable e"
    | (blit) "\<not> isByteArray e" "\<not> (\<not> safe (cGen c) \<and> k > 0 \<and> memCopyable e)" "k > 0 \<and> blitElem (cGen c) e"
    | (loop) "\<not> isByteArray e" "\<not> (\<not> safe (cGen c) \<and> k > 0 \<and> memCopyable e)" "\<not> (k > 0 \<and> blitElem (cGen c) e)" by blast
  then show ?thesis
  proof cases
    case bytes
    have "sim (into ?n s ref) (dbind (windowOf (inpOf s) (sI s) (int k)) (\<lambda>bs. Good (VArr (map V8 bs), sI s + int k)))
        (execs [SU (SCopyArr ref k), SM (SIncI k)] c M s)"
    proof (cases "window s (int k)")
      case (Ok bs)
      then have "length bs = k" by (auto simp: window_def split: if_splits)
      then show ?thesis using r(1) v by (simp add: reads Ok wr_put into_put_inc)
    qed (simp_all add: reads)
    from guardN_sim [OF this] show ?thesis
      using bytes t v by (simp add: dec.simps [of c D _ t] unmarshalExpr.simps [of "cGen c" ref t] del: execs.simps exec.simps)
  next
    case mem
    let ?k = "k * (case fixedSize e of Some z \<Rightarrow> z | None \<Rightarrow> 0)"
    have "sim (into ?n s ref) (copyMem c (inpOf s) e v (int ?k) (sI s))
        (execs [SU (SCopyMem e ref (INum ?k)), SG (SIncE (INum ?k))] c M s)"
      by (rule copy_inc_sim [OF r(1)]) simp_all
    then show ?thesis
      using mem t v by (simp add: dec.simps [of c D _ t] unmarshalExpr.simps [of "cGen c" ref t] Let_def cong: if_cong)
  next
    case blit
    let ?tv = "fst (freshIdx (es\<lparr>usedUnsafe := True\<rparr>))"
    have tv: "?n < varNo ?tv" by (simp add: freshIdx_facts)
    have "ieval c M s (ISizeof t ref) = Ok (int (k * elemSize (cGen c) (cArch c) e))"
      using t v by simp
    from letInt_sim [OF r tv this, of e]
    show ?thesis
      using blit t v by (auto simp add: dec.simps [of c D _ t] unmarshalExpr.simps [of "cGen c" ref t] Let_def split_beta
          simp del: execs.simps exec.simps)
  next
    case loop
    from loop_sim(2) [OF ok r, of xs] show ?thesis
      using loop t v by (auto simp add: dec.simps [of c D _ t] unmarshalExpr.simps [of "cGen c" ref t] Let_def split_beta
          elemsInto_def elemsOf_arr simp del: execs.simps exec.simps)
  qed
qed

subsection \<open>Pointers\<close>

lemma pointer_sim:
  assumes ok: "decOK c M D e" and t: "\<not> isTime t" "underlying t = TPointer e"
    and r: "rd s ref = Ok v" "refOK ref" "below ref (varCounter es)"
  shows "sim (into (varCounter es) s ref) (dec c D (inpOf s) t v (sI s))
    (execs (fst (unmarshalExpr (cGen c) ref t es)) c M s)"
proof (cases "\<exists>p. v = VPtr p")
  case False
  then have "dec c D (inpOf s) t v (sI s) = Und" using t by (cases v) (simp_all add: dec.simps [of c D _ t])
  then show ?thesis by simp
next
  case True
  then obtain p where v: "v = VPtr p" by blast
  let ?n = "varCounter es" and ?body = "fst (unmarshalExpr (cGen c) (RDeref ref) e es)"
  let ?old = "case p of Some x \<Rightarrow> x | None \<Rightarrow> zero (cGen c) (cDepth c) e"
  let ?some = "dbind (dec c D (inpOf s) e ?old (sI s + 1)) (\<lambda>(x, i). Good (VPtr (Some x), i))"
  have some: "sim (into ?n s ref) ?some (inBlock (decls ([SM (SIncI 1), SU (SNewIfNil ref e)] @ ?body))
      (execs ([SM (SIncI 1), SU (SNewIfNil ref e)] @ ?body)) c M s)"
  proof (rule block_sim)
    define s1 where "s1 = put (incI s 1) ref (VPtr (Some ?old))"
    have rd0: "rd (incI s 1) ref = Ok (VPtr p)" using regs_rd regs_incI(1) r(1) v by metis
    have run: "execs ([SM (SIncI 1), SU (SNewIfNil ref e)] @ ?body) c M s = execs ?body c M s1"
      using rd0 put_same [of "incI s 1" ref] by (cases p) (simp_all add: s1_def wr_put)
    have u: "updated ?n s ref (VPtr (Some ?old)) s1" "inpOf s1 = inpOf s" "sI s1 = sI s + 1"
      using updated_before [OF updated_put _ _ r(3)] regs_same [OF regs_incI(1)]
      by (simp_all add: s1_def put_frame inpOf_def incI_def)
    have rd1: "rd s1 ref = Ok (VPtr (Some ?old))" using updated_rd [OF u(1) r] .
    have "sim (into ?n s1 (RDeref ref)) (dec c D (inpOf s1) e ?old (sI s1)) (execs ?body c M s1)"
      by (rule decOK_run [OF ok]) (use rd1 r in \<open>simp_all add: deref_def below_def\<close>)
    then have "sim (into ?n s ref) ?some (execs ?body c M s1)"
      unfolding u case_prod_beta'
    proof (rule sim_map)
      fix x s2 assume "into ?n s1 (RDeref ref) x s2"
      then have "updated ?n s1 ref (VPtr (Some (fst x))) s2" "sI s2 = snd x"
        using updated_deref by (auto simp: into_def)
      then show "into ?n s ref (VPtr (Some (fst x)), snd x) s2"
        using updated_trans [OF u(1) _ r] by (simp add: into_def)
    qed
    then show "sim (into ?n s ref) ?some (execs ([SM (SIncI 1), SU (SNewIfNil ref e)] @ ?body) c M s)"
      unfolding run .
  next
    show "fresher ?n (decls ([SM (SIncI 1), SU (SNewIfNil ref e)] @ ?body))"
      using unmarshalExpr_decls by simp
  qed
  have none: "sim (into ?n s ref) (Good (nilOf t, sI s + 1))
      (inBlock (decls [SM (SIncI 1), SU (SAssign ref (DNil t))]) (execs [SM (SIncI 1), SU (SAssign ref (DNil t))]) c M s)"
  proof (rule block_sim)
    have "rd (incI s 1) ref = Ok v" using regs_rd regs_incI(1) r(1) by metis
    then show "sim (into ?n s ref) (Good (nilOf t, sI s + 1)) (execs [SM (SIncI 1), SU (SAssign ref (DNil t))] c M s)"
      using into_before [OF into_put regs_incI(1) [of s 1] r(3)] by (simp add: deval_def wr_put)
  qed simp
  have "sim (into ?n s ref) (dbind (byteOf (inpOf s) (sI s)) (\<lambda>w. if w \<noteq> 0 then ?some else Good (nilOf t, sI s + 1)))
      (execs [SIfFlag ([SM (SIncI 1), SU (SNewIfNil ref e)] @ ?body) [SM (SIncI 1), SU (SAssign ref (DNil t))]] c M s)"
    unfolding execs_single reads(2) exec.simps Let_def
    by (rule sim_fbind [OF refl]) (use some none in \<open>simp del: execs.simps decls_simps\<close>)
  from guardN_sim [OF this, of 1] show ?thesis
    using t v by (simp add: dec.simps [of c D _ t] unmarshalExpr.simps [of "cGen c" ref t] split_beta Let_def
        del: execs.simps exec.simps cong: if_cong)
qed

subsection \<open>Maps\<close>

definition entriesInto :: "ctx \<Rightarrow> decs \<Rightarrow> inp \<Rightarrow> gotype \<Rightarrow> gotype \<Rightarrow> val \<Rightarrow> u64 \<times> int \<Rightarrow> (val \<times> int) dres" where
  "entriesInto c D I k e v = (\<lambda>(nn, i).
     if (case v of VMap kvs \<Rightarrow> True | VNilMap \<Rightarrow> True | _ \<Rightarrow> False)
     then dbind (decEntries (\<lambda>i. dec c D I k (zero (cGen c) (cDepth c) k) i) (\<lambda>i. dec c D I e (zero (cGen c) (cDepth c) e) i)
                   (\<lambda>a b kvs. mapPut (cGen c) k kvs a b) (unat nn) [] i) (\<lambda>(kvs, i). Good (VMap kvs, i))
     else Und)"

lemma dec_map:
  assumes "\<not> isTime t" "underlying t = TMap k e"
  shows "dec c D I t v i = dbind (varintAt (cGen c) I i) (\<lambda>(nn, i).
     if nn = 0 then Good (nilOf t, i) else needLen (cGen c) I i nn (entriesInto c D I k e v (nn, i)))"
  using assms by (simp add: dec.simps [of c D I t] entriesInto_def Let_def cong: if_cong)

lemma map_sim:
  assumes ok: "decOK c M D k" "decOK c M D e" and t: "\<not> isTime t" "underlying t = TMap k e"
    and r: "rd s ref = Ok v" "refOK ref" "below ref (varCounter es)"
  shows "sim (into (varCounter es) s ref) (dec c D (inpOf s) t v (sI s))
    (execs (fst (unmarshalExpr (cGen c) ref t es)) c M s)"
proof -
  let ?g = "cGen c" let ?n = "varCounter es"
  define cnt s1 where "cnt = fst (freshIdx es)" and "s1 = snd (freshIdx es)"
  define iv s2 where "iv = fst (freshIdx s1)" and "s2 = snd (freshIdx s1)"
  define kt s3 where "kt = fst (freshIdx s2)" and "s3 = snd (freshIdx s2)"
  define vt s4 where "vt = fst (freshIdx s3)" and "s4 = snd (freshIdx s3)"
  define kb vb where "kb = fst (unmarshalExpr ?g (RVar kt) k s4)"
    and "vb = fst (unmarshalExpr ?g (RVar vt) e (snd (unmarshalExpr ?g (RVar kt) k s4)))"
  define body where "body = [SU (SVar kt k), SU (SVar vt e)] @ kb @ vb @ [SU (SMapSet t ref kt vt)]"
  define rest where "rest = [SU (SLetNN cnt), SU (SReuseOrMakeMap ref t cnt), SForCnt iv cnt body]"
  note no = freshIdx_facts [of es] freshIdx_facts [of s1] freshIdx_facts [of s2] freshIdx_facts [of s3]
  have nos: "varNo cnt = ?n + 1" "varNo iv = ?n + 2" "varNo kt = ?n + 3" "varNo vt = ?n + 4" "varCounter s4 = ?n + 4"
    using no by (simp_all add: cnt_def iv_def kt_def vt_def s1_def [symmetric] s2_def [symmetric] s3_def [symmetric] s4_def [symmetric])
  have code: "fst (unmarshalExpr ?g ref t es)
      = emitVarint ?g @ [SIfNN0 [SU (SAssign ref (DNil t))] (guardLen ?g @ rest)]"
    using t by (simp add: unmarshalExpr.simps [of ?g ref t] Let_def split_beta rest_def body_def kb_def vb_def
        cnt_def iv_def kt_def vt_def s1_def s2_def s3_def s4_def)
  have entry: "sim (\<lambda>p. into ?n s ref (VMap (fst p), snd p))
      (dbind (dec c D (inpOf s) k (zero ?g (cDepth c) k) (sI s)) (\<lambda>p.
        dbind (dec c D (inpOf s) e (zero ?g (cDepth c) e) (snd p)) (\<lambda>q.
          Good (mapPut ?g k kvs (fst p) (fst q), snd q))))
      (iter1 iv (decls body) (execs body) c M x s)" if "rd s ref = Ok (VMap kvs)" for x s kvs
    by (rule entry_sim [OF ok _ _ _ _ _ _ kb_def vb_def body_def t(2) that r(2,3)]) (use nos in auto)
  have "sim (into ?n s' ref) (entriesInto c D (inpOf s) k e v (sNN s', sI s')) (execs rest c M s')"
    if s': "regs s s'" for s'
  proof (cases "\<exists>kvs. v = VMap kvs \<or> v = VNilMap")
    case False
    then have "entriesInto c D (inpOf s) k e v (sNN s', sI s') = Und" by (cases v) (simp_all add: entriesInto_def)
    then show ?thesis by simp
  next
    case True
    define a where "a = bindV cnt (V64 (sNN s')) s'"
    define b where "b = put a ref (VMap [])"
    let ?L = "map (\<lambda>k. V64 (of_nat k)) [0..<unat (sNN s')]"
    have q: "quiet ?n s' a" unfolding a_def by (rule quiet_bindV) (simp add: nos)
    have cnt: "cnt \<notin> refVars ref" using r(3) by (rule below_fresh) (simp add: nos)
    have rda: "rd a ref = Ok v" using quiet_rd [OF q r(3)] regs_rd [OF s'] r(1) by simp
    have b: "rd b ref = Ok (VMap [])" "sI b = sI s'" "inpOf b = inpOf s" "sVars b cnt = Some (V64 (sNN s'))"
      using rd_put [OF rda r(2)] put_vars [OF r(2) cnt] regs_inp [OF s']
      by (simp_all add: b_def put_frame inpOf_def) (simp_all add: a_def bindV_def)
    have run: "execs rest c M s' = loopL (iter1 iv (decls body) (execs body) c M) ?L b"
      using True rda b(4) by (auto simp: rest_def a_def [unfolded bindV_def, symmetric] wr_put b_def [symmetric] Let_def word64_def fthen_Next simp del: upt_Suc)
    have "sim (\<lambda>p. into ?n b ref (VMap (fst p), snd p))
        (decEntries (\<lambda>i. dec c D (inpOf s) k (zero ?g (cDepth c) k) i) (\<lambda>i. dec c D (inpOf s) e (zero ?g (cDepth c) e) i)
          (\<lambda>a b kvs. mapPut ?g k kvs a b) (length ?L) [] (sI b)) (loopL (iter1 iv (decls body) (execs body) c M) ?L b)"
    proof (rule entries_sim [OF _ r(2,3) b(1,3)])
      fix x st kvs assume st: "rd st ref = Ok (VMap kvs)" "inpOf st = inpOf s"
      show "sim (\<lambda>p. into ?n st ref (VMap (fst p), snd p))
          (dbind (dec c D (inpOf s) k (zero ?g (cDepth c) k) (sI st)) (\<lambda>p.
            dbind (dec c D (inpOf s) e (zero ?g (cDepth c) e) (snd p)) (\<lambda>q.
              Good (mapPut ?g k kvs (fst p) (fst q), snd q))))
          (iter1 iv (decls body) (execs body) c M x st)"
        using entry [OF st(1), of x] unfolding st(2) .
    qed
    then have "sim (\<lambda>p. into ?n s' ref (VMap (fst p), snd p))
        (decEntries (\<lambda>i. dec c D (inpOf s) k (zero ?g (cDepth c) k) i) (\<lambda>i. dec c D (inpOf s) e (zero ?g (cDepth c) e) i)
          (\<lambda>a b kvs. mapPut ?g k kvs a b) (unat (sNN s')) [] (sI s')) (execs rest c M s')"
      unfolding run b(2) length_map length_upt diff_zero
    proof (rule sim_weaken)
      fix p st assume "into ?n b ref (VMap (fst p), snd p) st"
      then have "into ?n a ref (VMap (fst p), snd p) st"
        using updated_trans [OF updated_put _ rda r(2,3), of "VMap []"] by (simp add: into_def b_def)
      then show "into ?n s' ref (VMap (fst p), snd p) st" by (rule into_quiet [OF _ q r(3)])
    qed
    then have "sim (into ?n s' ref)
        (dbind (decEntries (\<lambda>i. dec c D (inpOf s) k (zero ?g (cDepth c) k) i) (\<lambda>i. dec c D (inpOf s) e (zero ?g (cDepth c) e) i)
          (\<lambda>a b kvs. mapPut ?g k kvs a b) (unat (sNN s')) [] (sI s')) (\<lambda>p. Good (VMap (fst p), snd p))) (execs rest c M s')"
      by (rule sim_map)
    then show ?thesis using True by (auto simp add: entriesInto_def case_prod_beta' simp del: execs.simps exec.simps)
  qed
  from len_or_nil_sim [OF r(1,3) _ this] show ?thesis
    using nos(1) unfolding code dec_map [OF t] by (simp add: rest_def)
qed

subsection \<open>Structs and unions\<close>

lemma struct_sim:
  assumes M: "envOK M D" and t: "\<not> isTime t" "underlying t = TStruct" and r: "rd s ref = Ok v"
  shows "sim (into (varCounter es) s ref) (dec c D (inpOf s) t v (sI s))
    (execs (fst (unmarshalExpr (cGen c) ref t es)) c M s)"
proof (cases "\<exists>n u. t = TNamed n u")
  case True
  then obtain n u where n: "t = TNamed n u" by blast
  have "rd s (recvLoc (addrOf ref)) = Ok v" using r by simp
  from call_sim [OF M this, of "varCounter es" c n] show ?thesis
    using t by (auto simp add: n dec.simps [of c D _ "TNamed n u"] unmarshalExpr.simps [of "cGen c" ref "TNamed n u"]
        execs_single simp del: execs.simps exec.simps split: if_splits)
next
  case False
  then have "dec c D (inpOf s) t v (sI s) = Good (v, sI s)" "fst (unmarshalExpr (cGen c) ref t es) = []"
    using t by (auto simp: dec.simps [of c D _ t] unmarshalExpr.simps [of "cGen c" ref t] split: gotype.split)
  then show ?thesis using r by (simp add: into_def updated_same)
qed

lemma iface_sim:
  assumes M: "envOK M D" and t: "\<not> isTime t" "underlying t = TInterface"
    and r: "rd s ref = Ok v" "refOK ref" "below ref (varCounter es)"
  shows "sim (into (varCounter es) s ref) (dec c D (inpOf s) t v (sI s))
    (execs (fst (unmarshalExpr (cGen c) ref t es)) c M s)"
proof -
  let ?g = "cGen c" let ?n = "varCounter es"
  let ?cases = "fst (unmarshalMembers ?g ref (taggedMembers ?g t) es)"
  let ?f = "\<lambda>(nn, i). if nn = 0 then Good (nilOf t, i)
     else case map_of (map (\<lambda>(k, m). (of_nat k, m)) (taggedMembers ?g t)) nn of
       None \<Rightarrow> Bad ErrUnknownUnionTag
     | Some m \<Rightarrow> dbind (nested ?g D (inpOf s) m (memberOld c m v) i) (\<lambda>p. Good (VIface m (Some (fst p)), snd p))"
  have "sim (into ?n s ref) (dbind (varintAt ?g (inpOf s) (sI s)) ?f)
      (execs (emitVarint ?g @ [SSwitchNN ((0, [SU (SAssign ref (DNil t))]) # ?cases)]) c M s)"
  proof (rule varint_sim)
    fix nn i s' assume s': "regs s s'" "sNN s' = nn" "sI s' = i"
    have rd: "rd s' ref = Ok v" using regs_rd [OF s'(1)] r(1) by simp
    have "sim (into ?n s' ref) (?f (nn, i)) (exec (SSwitchNN ((0, [SU (SAssign ref (DNil t))]) # ?cases)) c M s')"
    proof (cases "nn = 0")
      case True
      have "sim (into ?n s' ref) (Good (nilOf t, sI s')) (execs [SU (SAssign ref (DNil t))] c M s')"
        using rd by (simp add: deval_def wr_put into_put)
      from block_sim [OF this, of "decls [SU (SAssign ref (DNil t))]"] show ?thesis
        using True s'(2,3) by (simp del: execs.simps)
    next
      case False
      note mc = members_code [where ms = "taggedMembers ?g t" and nn = nn and es = es and g = ?g and ref = ref]
      show ?thesis
      proof (cases "map_of (map (\<lambda>(k, m). (of_nat k, m)) (taggedMembers ?g t)) nn")
        case None
        then show ?thesis using mc False s'(2) by simp
      next
        case (Some m)
        then obtain x where x: "?n < varNo x"
            "map_of (map (\<lambda>(k, b). (of_nat k, inBlock (decls b) (execs b))) ?cases) nn
              = Some (inBlock (decls (memberCode ?g ref x m)) (execs (memberCode ?g ref x m)))"
          using mc by auto
        from member_sim [OF M rd r(2,3) x(1), of c m] show ?thesis
          using False Some x(2) s'(2,3) regs_inp [OF s'(1)] by simp
      qed
    qed
    from sim_before [OF this s'(1) r(3)]
    show "sim (into ?n s ref) (?f (nn, i)) (execs [SSwitchNN ((0, [SU (SAssign ref (DNil t))]) # ?cases)] c M s')"
      unfolding execs_single .
  qed
  moreover have "dec c D (inpOf s) t v (sI s) = dbind (varintAt ?g (inpOf s) (sI s)) ?f"
    unfolding dec.simps [of c D _ t] memberOld_def case_prod_beta' Let_def using t by simp
  ultimately show ?thesis
    using t by (simp add: unmarshalExpr.simps [of ?g ref t] Let_def split_beta)
qed

end
