(* ===== verification/RoundTrip.thy ===== *)
theory RoundTrip
  imports DecRead Package DecShapes
begin

text \<open>
  Decoding the encoding of a value yields an equivalent value.  \<open>eqv\<close> says what equivalent
  means, \<open>portable\<close> which values the format can carry.
\<close>

subsection \<open>Equivalent values\<close>

text \<open>
  \<open>eqv g ot t v v'\<close>: the value \<open>v'\<close> is the copy of \<open>v\<close> a decoder produces.  Strings and slices
  may live elsewhere and have other spare capacity, empty slices and maps come back as nil, a
  time comes back in UTC, skipped fields are not compared.  \<open>ot\<close> is what user-owned codecs promise.
\<close>

inductive eqv :: "generator \<Rightarrow> (tname \<Rightarrow> val \<Rightarrow> val \<Rightarrow> bool) \<Rightarrow> gotype \<Rightarrow> val \<Rightarrow> val \<Rightarrow> bool"
  for g :: generator and ot :: "tname \<Rightarrow> val \<Rightarrow> val \<Rightarrow> bool" where
  eqv_time: "isTime t \<Longrightarrow> eqv g ot t (VTime s n l) (VTime s n ''UTC'')"
| eqv_basic: "\<not> isTime t \<Longrightarrow> underlying t = TBasic k \<Longrightarrow> k \<noteq> KString \<Longrightarrow> eqv g ot t v v"
| eqv_string: "\<not> isTime t \<Longrightarrow> underlying t = TBasic KString \<Longrightarrow> eqv g ot t (VStr p b) (VStr q b)"
| eqv_nil_slice: "\<not> isTime t \<Longrightarrow> underlying t = TSlice e \<Longrightarrow> eqv g ot t VNilSlice VNilSlice"
| eqv_empty_slice: "\<not> isTime t \<Longrightarrow> underlying t = TSlice e \<Longrightarrow> eqv g ot t (VSlice p [] ys) VNilSlice"
| eqv_slice: "\<not> isTime t \<Longrightarrow> underlying t = TSlice e \<Longrightarrow> xs \<noteq> [] \<Longrightarrow> list_all2 (eqv g ot e) xs xs'
    \<Longrightarrow> eqv g ot t (VSlice p xs ys) (VSlice q xs' zs)"
| eqv_array: "\<not> isTime t \<Longrightarrow> underlying t = TArray n e \<Longrightarrow> list_all2 (eqv g ot e) xs xs'
    \<Longrightarrow> eqv g ot t (VArr xs) (VArr xs')"
| eqv_nil: "\<not> isTime t \<Longrightarrow> underlying t = TPointer e \<Longrightarrow> eqv g ot t (VPtr None) (VPtr None)"
| eqv_pointer: "\<not> isTime t \<Longrightarrow> underlying t = TPointer e \<Longrightarrow> eqv g ot e x y
    \<Longrightarrow> eqv g ot t (VPtr (Some x)) (VPtr (Some y))"
| eqv_nil_map: "\<not> isTime t \<Longrightarrow> underlying t = TMap k e \<Longrightarrow> eqv g ot t VNilMap VNilMap"
| eqv_empty_map: "\<not> isTime t \<Longrightarrow> underlying t = TMap k e \<Longrightarrow> eqv g ot t (VMap []) VNilMap"
| eqv_map: "\<not> isTime t \<Longrightarrow> underlying t = TMap k e \<Longrightarrow> kvs \<noteq> []
    \<Longrightarrow> list_all2 (\<lambda>p q. eqv g ot k (fst p) (fst q) \<and> eqv g ot e (snd p) (snd q)) kvs kvs'
    \<Longrightarrow> eqv g ot t (VMap kvs) (VMap kvs')"
| eqv_owned: "\<not> isTime (TNamed n u) \<Longrightarrow> underlying u = TStruct \<Longrightarrow> List.member (owned g) n \<Longrightarrow> ot n v v'
    \<Longrightarrow> eqv g ot (TNamed n u) v v'"
| eqv_struct: "\<not> isTime (TNamed n u) \<Longrightarrow> underlying u = TStruct \<Longrightarrow> \<not> List.member (owned g) n \<Longrightarrow> map fst vs' = map fst vs
    \<Longrightarrow> list_all2 (\<lambda>p y. skipped (fst p) \<or> eqv g ot (sfType (fst p)) (snd (snd p)) (snd y)) (zip (structs g n) vs) vs'
    \<Longrightarrow> eqv g ot (TNamed n u) (VStruct vs) (VStruct vs')"
| eqv_nil_iface: "\<not> isTime t \<Longrightarrow> underlying t = TInterface \<Longrightarrow> eqv g ot t VNilIface VNilIface"
| eqv_iface: "\<not> isTime t \<Longrightarrow> underlying t = TInterface \<Longrightarrow> eqv g ot (TNamed m TStruct) x y
    \<Longrightarrow> eqv g ot t (VIface m (Some x)) (VIface m (Some y))"

text \<open>Two map keys that stay different when decoded.\<close>

definition apart :: "generator \<Rightarrow> (tname \<Rightarrow> val \<Rightarrow> val \<Rightarrow> bool) \<Rightarrow> gotype \<Rightarrow> val \<Rightarrow> val \<Rightarrow> bool" where
  "apart g ot t x y \<longleftrightarrow> (\<forall>a b. eqv g ot t x a \<longrightarrow> eqv g ot t y b \<longrightarrow> \<not> goEq g t a b)"

text \<open>
  The values a decoder restores: times within the range of \<open>UnixNano\<close>, map keys that differ
  after decoding, and, for the length guard of safe mode, at least one byte per element.
\<close>

fun portable :: "generator \<Rightarrow> arch \<Rightarrow> uwire \<Rightarrow> (tname \<Rightarrow> val \<Rightarrow> val \<Rightarrow> bool) \<Rightarrow> gotype \<Rightarrow> val \<Rightarrow> bool" where
  "portable g A ow ot t v =
     (if isTime t then (case v of VTime s n l \<Rightarrow>
        - (2 ^ 63) \<le> s * 1000000000 + n \<and> s * 1000000000 + n < 2 ^ 63 | _ \<Rightarrow> True)
      else case underlying t of
        TSlice e \<Rightarrow> (case v of VSlice p xs ys \<Rightarrow>
            (safe g \<longrightarrow> length xs \<le> length (concat (map (wire g A ow e) xs)))
            \<and> (\<forall>x \<in> set xs. portable g A ow ot e x) | _ \<Rightarrow> True)
      | TArray n e \<Rightarrow> (case v of VArr xs \<Rightarrow> (\<forall>x \<in> set xs. portable g A ow ot e x) | _ \<Rightarrow> True)
      | TPointer e \<Rightarrow> (case v of VPtr (Some w) \<Rightarrow> portable g A ow ot e w | _ \<Rightarrow> True)
      | TMap k e \<Rightarrow> (case v of VMap kvs \<Rightarrow>
            (safe g \<longrightarrow> length kvs \<le> length (concat (map (\<lambda>(a, b). wire g A ow k a @ wire g A ow e b) kvs)))
            \<and> sorted_wrt (\<lambda>p q. apart g ot k (fst p) (fst q)) kvs
            \<and> (\<forall>(a, b) \<in> set kvs. portable g A ow ot k a \<and> portable g A ow ot e b) | _ \<Rightarrow> True)
      | TStruct \<Rightarrow>
          (case t of
             TNamed n _ \<Rightarrow> List.member (owned g) n \<or>
               (case v of VStruct fs \<Rightarrow>
                  (\<forall>(f, x) \<in> set (zip (structs g n) fs). skipped f \<or> portable g A ow ot (sfType f) (snd x))
                | _ \<Rightarrow> True)
           | _ \<Rightarrow> True)
      | TInterface \<Rightarrow> (case v of VIface m (Some w) \<Rightarrow> portable g A ow ot (TNamed m TStruct) w | _ \<Rightarrow> True)
      | _ \<Rightarrow> True)"

declare portable.simps [simp del]

text \<open>Union tags fit their varint.\<close>

definition smallUnions :: "generator \<Rightarrow> bool" where
  "smallUnions g \<longleftrightarrow> (\<forall>u \<in> set (unions g). length (snd u) < 2 ^ 63)"

text \<open>By-value nesting is at most \<open>cDepth\<close> deep, so zero values of targets are well typed.\<close>

definition zerosOK :: "ctx \<Rightarrow> bool" where
  "zerosOK c \<longleftrightarrow> (\<forall>n \<in> set (targets (cGen c)).
     wt (cGen c) (cArch c) (TNamed n TStruct) (zero (cGen c) (cDepth c) (TNamed n TStruct)))"

lemma supported_iface: "supported g t = None \<Longrightarrow> \<not> isTime t \<Longrightarrow> underlying t = TInterface \<Longrightarrow> \<exists>ms. unionMembersOf g t = Some ms"
  by (auto simp: supported.simps [of g t] split: option.splits)

lemma zero_named_struct: "underlying u = TStruct \<Longrightarrow> zero g d (TNamed n u) = zero g d (TNamed n TStruct)"
  using isTime_named [of n u TStruct] by (simp add: zero.simps [of g d "TNamed n u"] zero.simps [of g d "TNamed n TStruct"])

lemma zero_wt:
  assumes z: "zerosOK c" and s: "supported (cGen c) t = None"
  shows "wt (cGen c) (cArch c) t (zero (cGen c) (cDepth c) t)"
  using s
proof (induction t rule: measure_induct_rule [where f = size])
  case (less t)
  note simps = zero.simps [of "cGen c" "cDepth c" t] wt.simps [of "cGen c" "cArch c" t] supported.simps [of "cGen c" t]
  show ?case
  proof (cases "isTime t")
    case True
    then show ?thesis by (simp add: simps)
  next
    case nt: False
    show ?thesis
    proof (cases "underlying t")
      case (TBasic k)
      then show ?thesis using less.prems nt
        by (cases k) (simp_all add: simps supportedBasic_def wtBasic_def basicFixedSize_def lenOK_def)
    next
      case (TArray n e)
      then show ?thesis using less.IH [OF underlying_size_less(2) [OF TArray]] less.prems nt by (simp add: simps)
    next
      case TStruct
      then obtain n u where n: "t = TNamed n u" "underlying u = TStruct" "isTarget (cGen c) n"
        using supported_struct [OF less.prems nt] by metis
      then show ?thesis using z zero_named_struct [OF n(2)] wt_named_struct [OF n(2)]
        by (simp add: zerosOK_def isTarget_set)
    qed (use less.prems nt in \<open>simp_all add: simps\<close>)
  qed
qed

subsection \<open>The contract of nested decoders\<close>

definition decRT :: "ctx \<Rightarrow> uwire \<Rightarrow> (tname \<Rightarrow> val \<Rightarrow> val \<Rightarrow> bool) \<Rightarrow> decs \<Rightarrow> nat \<Rightarrow> bool" where
  "decRT c ow ot D k \<longleftrightarrow> (\<forall>n v d r sp base. isTarget (cGen c) n
     \<longrightarrow> wt (cGen c) (cArch c) (TNamed n TStruct) v \<longrightarrow> portable (cGen c) (cArch c) ow ot (TNamed n TStruct) v
     \<longrightarrow> wt (cGen c) (cArch c) (TNamed n TStruct) d \<longrightarrow> sdepth v \<le> k
     \<longrightarrow> lenOK (cArch c) (length (wire (cGen c) (cArch c) ow (TNamed n TStruct) v @ r))
     \<longrightarrow> (\<exists>v'. D n d (wire (cGen c) (cArch c) ow (TNamed n TStruct) v @ r) sp base
              = Good (v', int (length (wire (cGen c) (cArch c) ow (TNamed n TStruct) v)))
            \<and> eqv (cGen c) ot (TNamed n TStruct) v v'))"

lemma nested_decodes:
  assumes "decRT c ow ot D k" "isTarget (cGen c) n" "wt (cGen c) (cArch c) (TNamed n TStruct) v"
    "portable (cGen c) (cArch c) ow ot (TNamed n TStruct) v" "wt (cGen c) (cArch c) (TNamed n TStruct) d" "sdepth v \<le> k"
    and "lenOK (cArch c) (length (iB I))"
  shows "decodes (nested (cGen c) D I n) (eqv (cGen c) ot (TNamed n TStruct)) I (wire (cGen c) (cArch c) ow (TNamed n TStruct) v) v d"
  unfolding decodes_def
proof (intro allI impI)
  let ?w = "wire (cGen c) (cArch c) ow (TNamed n TStruct) v"
  fix i assume h: "holds I i ?w"
  then obtain r where r: "tailAt I i = Good (?w @ r)" "length (iB I) = nat i + length (?w @ r)" by (rule holds_tail)
  have "lenOK (cArch c) (length (?w @ r))" by (rule lenOK_mono [OF assms(7)]) (use r(2) in simp)
  then obtain v' where "D n d (?w @ r) (iSpare I) (iBase I + nat i) = Good (v', int (length ?w))"
      "eqv (cGen c) ot (TNamed n TStruct) v v'"
    using assms(1-6) unfolding decRT_def by blast
  then show "\<exists>v'. nested (cGen c) D I n d i = Good (v', i + int (length ?w)) \<and> eqv (cGen c) ot (TNamed n TStruct) v v'"
    by (simp add: nested_def r(1))
qed

definition rtOK :: "ctx \<Rightarrow> uwire \<Rightarrow> (tname \<Rightarrow> val \<Rightarrow> val \<Rightarrow> bool) \<Rightarrow> decs \<Rightarrow> nat \<Rightarrow> gotype \<Rightarrow> bool" where
  "rtOK c ow ot D k t \<longleftrightarrow> (\<forall>I v d. lenOK (cArch c) (length (iB I))
     \<longrightarrow> wt (cGen c) (cArch c) t v \<longrightarrow> portable (cGen c) (cArch c) ow ot t v \<longrightarrow> wt (cGen c) (cArch c) t d \<longrightarrow> sdepth v \<le> k
     \<longrightarrow> decodes (dec c D I t) (eqv (cGen c) ot t) I (wire (cGen c) (cArch c) ow t v) v d)"

lemma rtOK_D:
  "rtOK c ow ot D k t \<Longrightarrow> lenOK (cArch c) (length (iB I)) \<Longrightarrow> wt (cGen c) (cArch c) t v
   \<Longrightarrow> portable (cGen c) (cArch c) ow ot t v \<Longrightarrow> wt (cGen c) (cArch c) t d \<Longrightarrow> sdepth v \<le> k
   \<Longrightarrow> decodes (dec c D I t) (eqv (cGen c) ot t) I (wire (cGen c) (cArch c) ow t v) v d"
  by (simp add: rtOK_def)

lemma decodesI:
  "(\<And>i. holds I i bs \<Longrightarrow> \<exists>v'. F d i = Good (v', i + int (length bs)) \<and> Q v v') \<Longrightarrow> decodes F Q I bs v d"
  by (simp add: decodes_def)

subsection \<open>Times and basic values\<close>

lemma unixNano_UTC:
  assumes "0 \<le> n" "n < 1000000000" "- (2 ^ 63) \<le> s * 1000000000 + n" "s * 1000000000 + n < 2 ^ 63"
  shows "timeUnixUTC (unixNano s n) = VTime s n ''UTC''"
proof -
  have "sint (unixNano s n) = s * 1000000000 + n"
    using signed_take_bit_int_eq_self [of 63 "s * 1000000000 + n"] assms(3,4)
    unfolding unixNano_def sint_sbintrunc' by simp
  then show ?thesis using assms(1,2) by (simp add: timeUnixUTC_def)
qed

lemma time_rt:
  assumes t: "isTime t" and v: "wt (cGen c) (cArch c) t v" "portable (cGen c) (cArch c) ow ot t v"
  shows "decodes (dec c D I t) (eqv (cGen c) ot t) I (wire (cGen c) (cArch c) ow t v) v d"
proof (rule decodesI)
  fix i assume h: "holds I i (wire (cGen c) (cArch c) ow t v)"
  obtain s n l where n: "v = VTime s n l" "0 \<le> n" "n < 1000000000"
    using v(1) t by (auto simp: wt.simps [of _ _ t] split: val.splits)
  have w: "wire (cGen c) (cArch c) ow t v = le_bytes 8 (unixNano s n)" using t n(1) by (simp add: wire.simps [of _ _ _ t])
  obtain r where r: "tailAt I i = Good (le_bytes 8 (unixNano s n) @ r)" using h unfolding w by (rule holds_tail)
  have "timeUnixUTC (unixNano s n) = VTime s n ''UTC''"
    using v(2) n t by (intro unixNano_UTC) (simp_all add: portable.simps [of _ _ _ _ t])
  then show "\<exists>v'. dec c D I t d i = Good (v', i + int (length (wire (cGen c) (cArch c) ow t v))) \<and> eqv (cGen c) ot t v v'"
    using t r unfolding w
    by (simp add: dec.simps [of c D I t] holds_needN [OF h [unfolded w]] U64_le n(1) eqv_time)
qed

lemma conv64_wt:
  assumes "underlying t = TBasic k" "wtBasic A k (V64 w)"
  shows "conv64 A t w = w"
  using assms by (cases k) (auto simp: conv64_def wtBasic_def)

lemma fixed_rt:
  assumes "holds I i (le_bytes n w @ bs)" and "length (le_bytes n w) = n" and "\<And>r. f (le_bytes n w @ r) = Ok w"
  shows "needN g I i n (dbind (tailAt I i) (\<lambda>x. dbind (ofOutcome (f x)) h)) = h w"
proof -
  obtain r where "tailAt I i = Good ((le_bytes n w @ bs) @ r)" using assms(1) by (rule holds_tail)
  then show ?thesis using assms(2,3) by (simp add: holds_needN [OF assms(1)])
qed

lemma read_rt:
  "holds I i [b] \<Longrightarrow> needN g I i (Suc 0) (dbind (byteOf I i) h) = h b"
  "holds I i (le_bytes 2 w2) \<Longrightarrow> needN g I i 2 (dbind (tailAt I i) (\<lambda>x. dbind (ofOutcome (U16 x)) h2)) = h2 w2"
  "holds I i (le_bytes 4 w4) \<Longrightarrow> needN g I i 4 (dbind (tailAt I i) (\<lambda>x. dbind (ofOutcome (U32 x)) h4)) = h4 w4"
  "holds I i (le_bytes 8 w8) \<Longrightarrow> needN g I i 8 (dbind (tailAt I i) (\<lambda>x. dbind (ofOutcome (U64 x)) h8)) = h8 w8"
  using fixed_rt [of I i 2 w2 "[]" U16] fixed_rt [of I i 4 w4 "[]" U32] fixed_rt [of I i 8 w8 "[]" U64]
  by (simp_all add: U16_le U32_le U64_le holds_byte holds_needN [where bs = "[b]"])

lemma basic_rt:
  assumes A: "archOK (cArch c)" "lenOK (cArch c) (length (iB I))" and t: "\<not> isTime t" "underlying t = TBasic k"
    and s: "supported (cGen c) t = None" and v: "wt (cGen c) (cArch c) t v"
  shows "decodes (dec c D I t) (eqv (cGen c) ot t) I (wire (cGen c) (cArch c) ow t v) v d"
proof (rule decodesI)
  fix i assume h: "holds I i (wire (cGen c) (cArch c) ow t v)"
  have k: "supportedBasic k" using s t by (simp add: supported.simps [of _ t] split: if_splits)
  have wv: "wtBasic (cArch c) k v" "wire (cGen c) (cArch c) ow t v = wireBasic v" using basic_view [OF v t] .
  have dec: "dec c D I t d i = decBasic c I t k d i" using t by (simp add: dec.simps [of c D I t])
  have "\<exists>v'. decBasic c I t k d i = Good (v', i + int (length (wireBasic v))) \<and> eqv (cGen c) ot t v v'"
  proof (cases "k = KString")
    case True
    then obtain p b where b: "v = VStr p b" "lenOK (cArch c) (length b)"
      using wv(1) by (auto simp: wtBasic_def split: val.splits)
    have h': "holds I i (lenPrefix (length b) @ b)" using h wv(2) by (simp add: b(1) wireBasic_def)
    note hl = holds_lenPrefix [OF h']
    have "needLen (cGen c) I (i + int (length (lenPrefix (length b)))) (of_nat (length b)) d' = d'" for d' :: "(val \<times> int) dres"
      by (rule holds_needLen [OF A hl(2)]) (simp add: unat_len [OF A(1) b(2)])
    then show ?thesis using True t hl holds_window [OF hl(2)] goInt_len [OF A(1) b(2)]
      by (auto simp: decBasic_def b(1) wireBasic_def intro: eqv_string)
  next
    case False
    have e: "eqv (cGen c) ot t v v" using False t by (intro eqv_basic)
    have h': "holds I i (wireBasic v)" using h wv(2) by simp
    show ?thesis using k False wv(1) e h' conv64_wt [OF t(2), of "cArch c"]
      by (cases k; cases v) (auto simp: supportedBasic_def wtBasic_def wireBasic_def decBasic_def read_rt split: if_splits)
  qed
  then show "\<exists>v'. dec c D I t d i = Good (v', i + int (length (wire (cGen c) (cArch c) ow t v))) \<and> eqv (cGen c) ot t v v'"
    unfolding dec wv(2) .
qed
subsection \<open>Values copied as memory\<close>

lemma eqv_fixed:
  "isFixedWidth t \<Longrightarrow> wt g A t v \<Longrightarrow> eqv g ot t v v"
proof (induction t arbitrary: v rule: isFixedWidth.induct)
  case (1 t)
  have nt: "\<not> isTime t" using 1(2) by (auto simp: isFixedWidth.simps [of t])
  show ?case
  proof (cases "underlying t")
    case (TBasic k)
    then have "k \<noteq> KString" using 1(2) nt by (auto simp: isFixedWidth.simps [of t] basicFixedWidth_def)
    then show ?thesis using nt TBasic by (intro eqv_basic)
  next
    case (TArray n e)
    obtain xs where v: "v = VArr xs" "\<forall>x \<in> set xs. wt g A e x"
      using 1(3) nt TArray by (auto simp: wt.simps [of g A t] split: val.splits)
    have "list_all2 (eqv g ot e) xs xs"
      using v(2) 1(1) [OF nt TArray] 1(2) nt TArray by (auto simp: list_all2_same isFixedWidth.simps [of t])
    then show ?thesis unfolding v(1) using nt TArray by (intro eqv_array)
  qed (use 1(2) nt in \<open>auto simp: isFixedWidth.simps [of t]\<close>)
qed

lemma eqv_blit:
  assumes b: "isBlit g n" and v: "wt g A (TNamed n u) v" "underlying u = TStruct" "\<not> isTime (TNamed n u)"
  shows "eqv g ot (TNamed n u) v v"
proof -
  obtain fs where fs: "v = VStruct fs" "map fst fs = map sfName (structs g n)"
    and w: "\<And>f x. (f, x) \<in> set (zip (structs g n) fs) \<Longrightarrow> skipped f \<or> wt g A (sfType f) (snd x)"
    using wt_struct [OF v] by metis
  have len: "length (structs g n) = length fs" using fs(2) by (metis length_map)
  have "list_all2 (\<lambda>p y. skipped (fst p) \<or> eqv g ot (sfType (fst p)) (snd (snd p)) (snd y)) (zip (structs g n) fs) fs"
    unfolding list_all2_conv_all_nth
  proof (intro conjI allI impI)
    fix i assume "i < length (zip (structs g n) fs)"
    then have m: "(structs g n ! i, fs ! i) \<in> set (zip (structs g n) fs)"
      using len by (simp add: set_zip) blast
    then have "isFixedWidth (sfType (structs g n ! i))" "wt g A (sfType (structs g n ! i)) (snd (fs ! i))"
      using w [OF m] isBlit_fields(4) [OF b set_zip_leftD [OF m]] by auto
    then show "skipped (fst (zip (structs g n) fs ! i)) \<or>
        eqv g ot (sfType (fst (zip (structs g n) fs ! i))) (snd (snd (zip (structs g n) fs ! i))) (snd (fs ! i))"
      using eqv_fixed \<open>i < length (zip (structs g n) fs)\<close> by simp
  qed (simp add: len)
  then show ?thesis unfolding fs(1) using v isBlit_fields(2) [OF b] by (intro eqv_struct) simp_all
qed

definition copied :: "generator \<Rightarrow> gotype \<Rightarrow> bool" where
  "copied g e \<longleftrightarrow> (\<not> safe g \<and> memCopyable e) \<or> blitElem g e"

lemma copied_copyElem: "copied g e \<Longrightarrow> copyElem g e"
  unfolding copied_def copyElem_def by (auto elim: blitElem_named)

lemma eqv_copied: "copied g e \<Longrightarrow> wt g A e x \<Longrightarrow> eqv g ot e x x"
  unfolding copied_def using eqv_fixed memCopyable_isFixedWidth eqv_blit blitElem_named by metis

lemma copy_rt:
  assumes A: "archOK (cArch c)" and e: "copied (cGen c) e"
    and xs: "\<And>x. x \<in> set xs \<Longrightarrow> wt (cGen c) (cArch c) e x" "xs \<noteq> []"
    and d: "elemsOf d = Ok ds" "\<And>x. x \<in> set ds \<Longrightarrow> wt (cGen c) (cArch c) e x" "length ds = length xs"
    and n: "n = int (length xs * elemSize (cGen c) (cArch c) e)" and h: "holds I i (elemsWire (cGen c) (cArch c) ow e xs)"
  shows "copyMem c I e d n i = Good (setElems d xs, i + int (length (elemsWire (cGen c) (cArch c) ow e xs)))"
    and "list_all2 (eqv (cGen c) ot e) xs xs"
proof -
  note w = elemsWire_mem [OF e [unfolded copied_def] xs(1), where ow = ow]
  have "windowOf I i n = Good (elemsWire (cGen c) (cArch c) ow e xs)" using holds_window [OF h] w(2) n by simp
  moreover have "elemsSet (cGen c) (cArch c) e ds (concat (map (elemImage (cGen c) (cArch c) e) xs)) = xs"
    using elemsSet_image [OF A copied_copyElem [OF e]] xs(1) d(2,3) by blast
  moreover obtain y ys where "ds = y # ys" using d(3) xs(2) by (cases ds) auto
  ultimately show "copyMem c I e d n i = Good (setElems d xs, i + int (length (elemsWire (cGen c) (cArch c) ow e xs)))"
    using d(1) n w by (simp add: copyMem_def)
  show "list_all2 (eqv (cGen c) ot e) xs xs" using eqv_copied [OF e] xs(1) by (auto simp: list_all2_same)
qed

lemma bytes_elems:
  assumes "isBytes e" "\<And>x. x \<in> set xs \<Longrightarrow> wt g A e x"
  shows "map V8 (bytesOf xs) = xs" "list_all2 (eqv g' ot e) xs xs" "length (bytesOf xs) = length xs"
proof -
  have e: "e = TBasic KUint8" using assms(1) by (auto simp: isBytes_def split: gotype.splits)
  have "V8 (case x of V8 w \<Rightarrow> w | _ \<Rightarrow> 0) = x" if "x \<in> set xs" for x
    using assms(2) [OF that] by (auto simp: e wt.simps [of g A "TBasic KUint8"] isTime_def wtBasic_def split: val.splits)
  then show "map V8 (bytesOf xs) = xs" by (simp add: bytesOf_def comp_def map_idI)
  show "length (bytesOf xs) = length xs" by (simp add: bytesOf_def)
  have "eqv g' ot e x x" for x by (rule eqv_basic [of _ KUint8]) (simp_all add: e isTime_def)
  then show "list_all2 (eqv g' ot e) xs xs" by (simp add: list_all2_same)
qed

subsection \<open>Slices\<close>

lemma reuse_wt:
  assumes A: "archOK (cArch c)" and t: "\<not> isTime t" "underlying t = TSlice e"
    and z: "wt (cGen c) (cArch c) e (zero (cGen c) (cDepth c) e)" and d: "wt (cGen c) (cArch c) t d"
    and n: "lenOK (cArch c) n" "0 < n"
  obtains q ds zs where "reuse c t (of_nat n) d = Good (VSlice q ds zs)" "length ds = n"
    "\<And>x. x \<in> set ds \<Longrightarrow> wt (cGen c) (cArch c) e x" "wt (cGen c) (cArch c) t (VSlice q ds zs)"
proof -
  have u: "uint (of_nat n :: u64) = int n" using unat_len [OF A n(1)] by (metis uint_nat)
  have wts: "wt (cGen c) (cArch c) t (VSlice q as bs) \<longleftrightarrow> lenOK (cArch c) (length as + length bs)
      \<and> (\<forall>x \<in> set as. wt (cGen c) (cArch c) e x) \<and> (\<forall>x \<in> set bs. wt (cGen c) (cArch c) e x)" for q as bs
    using t by (simp add: wt.simps [of _ _ t])
  note result = that
  have make: thesis if "reuse c t (of_nat n) d = Good (VSlice Own (replicate n (zero (cGen c) (cDepth c) e)) [])"
    using z n by (intro result [OF that]) (auto simp: wts)
  have "d = VNilSlice \<or> (\<exists>q as bs. d = VSlice q as bs)" using d t by (auto simp: wt.simps [of _ _ t] split: val.splits)
  then show thesis
  proof (elim disjE exE)
    assume "d = VNilSlice"
    then show thesis using t n by (intro make) (simp add: reuse_def Let_def goInt_len [OF A n(1)] u)
  next
    fix q as bs assume q: "d = VSlice q as bs"
    have w: "lenOK (cArch c) (length as + length bs)" "\<forall>x \<in> set (as @ bs). wt (cGen c) (cArch c) e x"
      using d unfolding q wts by auto
    show thesis
    proof (cases "n \<le> length as + length bs")
      case True
      have sub: "set (take n (as @ bs)) \<subseteq> set (as @ bs)" "set (drop n (as @ bs)) \<subseteq> set (as @ bs)"
        by (rule set_take_subset, rule set_drop_subset)
      have l: "length (take n (as @ bs)) = n" "length (take n (as @ bs)) + length (drop n (as @ bs)) = length as + length bs"
        using True by simp_all
      have "reuse c t (of_nat n) d = Good (VSlice q (take n (as @ bs)) (drop n (as @ bs)))"
        using True by (simp add: q reuse_def Let_def goInt_len [OF A n(1)] unat_len [OF A n(1)])
      moreover have "wt (cGen c) (cArch c) t (VSlice q (take n (as @ bs)) (drop n (as @ bs)))"
        unfolding wts l(2) using w sub by blast
      moreover have "wt (cGen c) (cArch c) e x" if "x \<in> set (take n (as @ bs))" for x
        using w(2) sub(1) that by blast
      ultimately show thesis using result l(1) by blast
    next
      case False
      then show thesis using t n by (intro make) (simp add: q reuse_def Let_def goInt_len [OF A n(1)] u)
    qed
  qed
qed
text \<open>The elements, in whichever of the three ways the code reads them.\<close>

lemma elemsInto_rt:
  assumes e: "rtOK c ow ot D k e" "\<not> (\<not> safe (cGen c) \<and> memCopyable e)" and I: "lenOK (cArch c) (length (iB I))"
    and xs: "\<And>x. x \<in> set xs \<Longrightarrow> wt (cGen c) (cArch c) e x \<and> portable (cGen c) (cArch c) ow ot e x \<and> sdepth x \<le> k"
    and d: "elemsOf d = Ok ds" "length ds = length xs" "\<And>x. x \<in> set ds \<Longrightarrow> wt (cGen c) (cArch c) e x"
    and h: "holds I i (elemsWire (cGen c) (cArch c) ow e xs)"
  obtains xs' where "decElems (dec c D I e) ds i = Good (xs', i + int (length (elemsWire (cGen c) (cArch c) ow e xs)))"
    "list_all2 (eqv (cGen c) ot e) xs xs'"
proof -
  have w: "elemsWire (cGen c) (cArch c) ow e xs = concat (map (wire (cGen c) (cArch c) ow e) xs)"
    using e(2) by (rule elemsWire_loop)
  have "\<exists>xs'. decElems (dec c D I e) ds i = Good (xs', i + int (length (concat (map (wire (cGen c) (cArch c) ow e) xs))))
      \<and> list_all2 (eqv (cGen c) ot e) xs xs'"
    using h unfolding w by (rule elems_decode [OF d(2), rotated]) (use xs d(3) in \<open>auto intro!: rtOK_D [OF e(1) I]\<close>)
  then show ?thesis using that unfolding w by blast
qed

lemma slice_wire_len:
  assumes p: "portable g A ow ot t (VSlice p xs ys)" and t: "\<not> isTime t" "underlying t = TSlice e" and "safe g"
  shows "length xs \<le> length (elemsWire g A ow e xs)"
proof -
  have "elemsWire g A ow e xs = concat (map (wire g A ow e) xs)" using assms(4) by (intro elemsWire_loop) simp
  then show ?thesis using p t assms(4) by (simp add: portable.simps [of _ _ _ _ t])
qed

lemma slice_rt:
  assumes A: "archOK (cArch c)" and I: "lenOK (cArch c) (length (iB I))" and e: "rtOK c ow ot D k e"
    and z: "wt (cGen c) (cArch c) e (zero (cGen c) (cDepth c) e)" and t: "\<not> isTime t" "underlying t = TSlice e"
    and v: "wt (cGen c) (cArch c) t v" "portable (cGen c) (cArch c) ow ot t v" "sdepth v \<le> k"
    and d: "wt (cGen c) (cArch c) t d"
  shows "decodes (dec c D I t) (eqv (cGen c) ot t) I (wire (cGen c) (cArch c) ow t v) v d"
proof (rule decodesI)
  let ?g = "cGen c" and ?A = "cArch c"
  let ?goal = "\<lambda>i. \<exists>v'. dec c D I t d i = Good (v', i + int (length (wire ?g ?A ow t v))) \<and> eqv ?g ot t v v'"
  fix i assume h: "holds I i (wire ?g ?A ow t v)"
  show "?goal i"
  proof (cases "v = VNilSlice \<or> (\<exists>p ys. v = VSlice p [] ys)")
    case True
    then have w: "wire ?g ?A ow t v = lenPrefix 0 @ []" using t by (auto simp: wire.simps [of ?g _ _ t])
    have "eqv ?g ot t v VNilSlice" using True t by (auto intro: eqv.intros)
    moreover have "nilOf t = VNilSlice" using t by (simp add: nilOf_def)
    ultimately show ?thesis using holds_lenPrefix(1) [OF h [unfolded w]] w by (simp add: dec_slice [OF t])
  next
    case False
    then obtain p xs ys where v': "v = VSlice p xs ys" "xs \<noteq> []"
      using v(1) t by (cases v) (auto simp: wt.simps [of _ _ t])
    have len: "lenOK ?A (length xs)" "0 < length xs"
      using v(1) t v' by (auto simp: wt.simps [of _ _ t] elim: lenOK_mono)
    have xs: "wt ?g ?A e x" "portable ?g ?A ow ot e x" "sdepth x \<le> k" if "x \<in> set xs" for x
      using that v t by (auto simp: v'(1) wt.simps [of _ _ t] portable.simps [of _ _ _ _ t])
    let ?W = "elemsWire ?g ?A ow e xs" let ?n = "of_nat (length xs) :: u64"
    have w: "wire ?g ?A ow t v = lenPrefix (length xs) @ ?W"
      using t by (simp add: v'(1) wire.simps [of ?g _ _ t] elemsWire_def)
    define j where "j = i + int (length (lenPrefix (length xs)))"
    have hj: "varintAt ?g I i = Good (?n, j)" "holds I j ?W"
      using holds_lenPrefix [OF h [unfolded w]] by (simp_all add: j_def)
    have nz: "?n \<noteq> 0" using len len_zero [OF A] by simp
    have gn: "goInt ?A ?n = int (length xs)" "unat ?n = length xs" using goInt_len [OF A len(1)] unat_len [OF A len(1)] .
    have need: "needLen ?g I j ?n r = r" for r :: "(val \<times> int) dres"
      by (rule holds_needLen [OF A I hj(2)]) (use gn(2) slice_wire_len [OF v(2) [unfolded v'(1)] t] in simp)
    have goal: "?goal i" if "(if isBytes e then bytesInto c I d (?n, j)
        else dbind (reuse c t ?n d) (\<lambda>v. sliceInto c D I e v (?n, j))) = Good (VSlice q xs' zs, j + int (length ?W))"
      "list_all2 (eqv ?g ot e) xs xs'" for q xs' zs
    proof -
      have "eqv ?g ot t v (VSlice q xs' zs)" unfolding v'(1) using t v'(2) that(2) by (intro eqv_slice)
      then show ?thesis using that(1) nz unfolding w by (simp add: dec_slice [OF t] hj(1) need [unfolded j_def] j_def add.assoc cong: if_cong)
    qed
    show ?thesis
    proof (cases "isBytes e")
      case True
      note b = bytes_elems [OF True xs(1)]
      have W: "?W = bytesOf xs" by (rule elemsWire_bytes [OF True xs(1)])
      have win: "windowOf I j (int (length xs)) = Good (bytesOf xs)" using holds_window [OF hj(2)] by (simp add: W b(3))
      have "bytesOf xs \<noteq> []" using v'(2) by (simp add: bytesOf_def)
      then have "\<exists>q zs. bytesInto c I d (?n, j) = Good (VSlice q xs zs, j + int (length ?W))"
        using d t win gn b by (auto simp: bytesInto_def W wt.simps [of _ _ t] split: val.splits)
      then show ?thesis using True goal b(2) by auto
    next
      case nb: False
      obtain q ds zs where r: "reuse c t ?n d = Good (VSlice q ds zs)" "length ds = length xs"
          "\<And>x. x \<in> set ds \<Longrightarrow> wt ?g ?A e x"
        using reuse_wt [OF A t z d len] by metis
      have dv: "elemsOf (VSlice q ds zs) = Ok ds" "setElems (VSlice q ds zs) us = VSlice q us zs" for us
        by (simp_all add: elemsOf_def setElems_def)
      have "\<exists>xs'. sliceInto c D I e (VSlice q ds zs) (?n, j) = Good (VSlice q xs' zs, j + int (length ?W))
          \<and> list_all2 (eqv ?g ot e) xs xs'"
      proof (cases "copied ?g e")
        case True
        have sz: "(case fixedSize e of Some z \<Rightarrow> int z | None \<Rightarrow> 0) = int (elemSize ?g ?A e)" if "memCopyable e"
          using memCopyable_elemSize [OF that, of ?g ?A] by simp
        have "sliceInto c D I e (VSlice q ds zs) (?n, j)
            = copyMem c I e (VSlice q ds zs) (int (length xs * elemSize ?g ?A e)) j"
          using True sz by (auto simp: sliceInto_def copied_def gn mult.commute)
        then show ?thesis using copy_rt [OF A True xs(1) v'(2) dv(1) r(3,2) refl hj(2)] dv by auto
      next
        case False
        then have "\<not> (\<not> safe ?g \<and> memCopyable e)" by (auto simp: copied_def)
        from elemsInto_rt [OF e this I _ dv(1) r(2,3) hj(2)] xs
        obtain xs' where "decElems (dec c D I e) ds j = Good (xs', j + int (length ?W))" "list_all2 (eqv ?g ot e) xs xs'"
          by metis
        then show ?thesis using False dv by (auto simp: sliceInto_def copied_def elemsInto_def)
      qed
      then show ?thesis using goal nb r(1) by auto
    qed
  qed
qed

lemma array_rt:
  assumes A: "archOK (cArch c)" and I: "lenOK (cArch c) (length (iB I))" and e: "rtOK c ow ot D k e"
    and t: "\<not> isTime t" "underlying t = TArray n e"
    and v: "wt (cGen c) (cArch c) t v" "portable (cGen c) (cArch c) ow ot t v" "sdepth v \<le> k"
    and d: "wt (cGen c) (cArch c) t d"
  shows "decodes (dec c D I t) (eqv (cGen c) ot t) I (wire (cGen c) (cArch c) ow t v) v d"
proof (rule decodesI)
  let ?g = "cGen c" and ?A = "cArch c"
  fix i assume h0: "holds I i (wire ?g ?A ow t v)"
  obtain xs where v': "v = VArr xs" "length xs = n" using v(1) t by (auto simp: wt.simps [of _ _ t] split: val.splits)
  obtain ds where d': "d = VArr ds" "length ds = length xs" "\<And>x. x \<in> set ds \<Longrightarrow> wt ?g ?A e x"
    using d t v'(2) by (auto simp: wt.simps [of _ _ t] split: val.splits)
  have xs: "wt ?g ?A e x" "portable ?g ?A ow ot e x" "sdepth x \<le> k" if "x \<in> set xs" for x
    using that v t by (auto simp: v'(1) wt.simps [of _ _ t] portable.simps [of _ _ _ _ t])
  let ?W = "elemsWire ?g ?A ow e xs"
  have w: "wire ?g ?A ow t v = ?W" using t by (simp add: v'(1) wire.simps [of ?g _ _ t] elemsWire_def)
  note h = h0 [unfolded w]
  have dv: "elemsOf (VArr ds) = Ok ds" "setElems (VArr ds) us = VArr us" for us by (simp_all add: elemsOf_def setElems_def)
  have "\<exists>xs'. dec c D I t d i = Good (VArr xs', i + int (length ?W)) \<and> list_all2 (eqv ?g ot e) xs xs'"
  proof (cases "isByteArray e")
    case True
    then have ib: "isBytes e" by (simp add: isByteArray_def isBytes_def)
    note b = bytes_elems [OF ib xs(1)]
    have W: "?W = bytesOf xs" by (rule elemsWire_bytes [OF ib xs(1)])
    have win: "windowOf I i (int n) = Good (bytesOf xs)" using holds_window [OF h] v'(2) by (simp add: W b(3))
    have "needN ?g I i n r = r" for r :: "(val \<times> int) dres" by (rule holds_needN [OF h]) (simp add: W b(3) v'(2))
    then have "dec c D I t d i = Good (VArr xs, i + int (length ?W))"
      using True t win d' v'(2) b by (simp add: dec.simps [of c D I t] W)
    then show ?thesis using b(2) by blast
  next
    case nb: False
    show ?thesis
    proof (cases "copied ?g e \<and> 0 < n")
      case True
      then have ne: "xs \<noteq> []" using v'(2) by auto
      have sz: "(case fixedSize e of Some z \<Rightarrow> z | None \<Rightarrow> 0) = elemSize ?g ?A e" if "memCopyable e"
        using memCopyable_elemSize [OF that, of ?g ?A] by simp
      have "dec c D I t d i = copyMem c I e (VArr ds) (int (length xs * elemSize ?g ?A e)) i"
        using True nb t sz d'(1,2) v'(2) by (auto simp: dec.simps [of c D I t] copied_def Let_def)
      then show ?thesis using copy_rt [OF A conjunct1 [OF True] xs(1) ne dv(1) d'(3,2) refl h] dv by auto
    next
      case False
      have "\<exists>xs'. decElems (dec c D I e) ds i = Good (xs', i + int (length ?W)) \<and> list_all2 (eqv ?g ot e) xs xs'"
      proof (cases "n = 0")
        case True
        then have "xs = []" "ds = []" using v'(2) d'(2) by auto
        then show ?thesis by (simp add: elemsWire_def)
      next
        case False
        then have "\<not> (\<not> safe ?g \<and> memCopyable e)" using \<open>\<not> (copied ?g e \<and> 0 < n)\<close> by (auto simp: copied_def)
        from elemsInto_rt [OF e this I _ dv(1) d'(2,3) h] xs show ?thesis by metis
      qed
      moreover have "dec c D I t d i = dbind (decElems (dec c D I e) ds i) (\<lambda>(xs', i). Good (VArr xs', i))"
        using False nb t d'(1,2) v'(2) by (auto simp: dec.simps [of c D I t] copied_def Let_def)
      ultimately show ?thesis by auto
    qed
  qed
  then show "\<exists>v'. dec c D I t d i = Good (v', i + int (length (wire ?g ?A ow t v))) \<and> eqv ?g ot t v v'"
    using eqv_array [OF t] v'(1) w by auto
qed
subsection \<open>Pointers and maps\<close>

lemma pointer_rt:
  assumes e: "rtOK c ow ot D k e" and I: "lenOK (cArch c) (length (iB I))"
    and z: "wt (cGen c) (cArch c) e (zero (cGen c) (cDepth c) e)" and t: "\<not> isTime t" "underlying t = TPointer e"
    and v: "wt (cGen c) (cArch c) t v" "portable (cGen c) (cArch c) ow ot t v" "sdepth v \<le> k"
    and d: "wt (cGen c) (cArch c) t d"
  shows "decodes (dec c D I t) (eqv (cGen c) ot t) I (wire (cGen c) (cArch c) ow t v) v d"
proof (rule decodesI)
  let ?g = "cGen c" and ?A = "cArch c"
  fix i assume h: "holds I i (wire ?g ?A ow t v)"
  obtain p where p: "d = VPtr p" "\<And>x. p = Some x \<Longrightarrow> wt ?g ?A e x"
    using d t by (auto simp: wt.simps [of _ _ t] split: val.splits option.splits)
  let ?old = "case p of Some x \<Rightarrow> x | None \<Rightarrow> zero ?g (cDepth c) e"
  have old: "wt ?g ?A e ?old" using p(2) z by (cases p) auto
  from v(1) t show "\<exists>v'. dec c D I t d i = Good (v', i + int (length (wire ?g ?A ow t v))) \<and> eqv ?g ot t v v'"
  proof (cases rule: pointer_view [where ow = ow])
    case nil
    have "dec c D I t d i = Good (VPtr None, i + 1)"
      using t p(1) by (simp add: dec.simps [of c D I t] nilOf_def read_rt(1) [OF h [unfolded nil(2)]])
    then show ?thesis using nil t by (auto intro: eqv_nil)
  next
    case (val w)
    note h1 = holds_appendD [OF h [unfolded val(4)]]
    have "portable ?g ?A ow ot e w" using v(2) t by (simp add: val(1) portable.simps [of _ _ _ _ t])
    with rtOK_D [OF e I val(2) _ old] v(3) val(3)
    have "decodes (dec c D I e) (eqv ?g ot e) I (wire ?g ?A ow e w) w ?old" by simp
    from decodes_D [OF this h1(2)] obtain w' where
      w': "dec c D I e ?old (i + 1) = Good (w', i + 1 + int (length (wire ?g ?A ow e w)))" "eqv ?g ot e w w'" by auto
    have "dec c D I t d i = Good (VPtr (Some w'), i + 1 + int (length (wire ?g ?A ow e w)))"
      using t p(1) w'(1) by (simp add: dec.simps [of c D I t] read_rt(1) [OF h1(1)])
    then show ?thesis using eqv_pointer [OF t w'(2)] val by (auto simp: add.assoc)
  qed
qed

lemma map_rt:
  assumes A: "archOK (cArch c)" and I: "lenOK (cArch c) (length (iB I))"
    and rt: "rtOK c ow ot D m k" "rtOK c ow ot D m e"
    and z: "wt (cGen c) (cArch c) k (zero (cGen c) (cDepth c) k)" "wt (cGen c) (cArch c) e (zero (cGen c) (cDepth c) e)"
    and t: "\<not> isTime t" "underlying t = TMap k e"
    and v: "wt (cGen c) (cArch c) t v" "portable (cGen c) (cArch c) ow ot t v" "sdepth v \<le> m"
    and d: "wt (cGen c) (cArch c) t d"
  shows "decodes (dec c D I t) (eqv (cGen c) ot t) I (wire (cGen c) (cArch c) ow t v) v d"
proof (rule decodesI)
  let ?g = "cGen c" and ?A = "cArch c"
  fix i assume h: "holds I i (wire ?g ?A ow t v)"
  show "\<exists>v'. dec c D I t d i = Good (v', i + int (length (wire ?g ?A ow t v))) \<and> eqv ?g ot t v v'"
  proof (cases "v = VNilMap \<or> v = VMap []")
    case True
    then have w: "wire ?g ?A ow t v = lenPrefix 0 @ []" using t by (auto simp: wire.simps [of ?g _ _ t])
    have "eqv ?g ot t v VNilMap" using True t by (auto intro: eqv.intros)
    moreover have "nilOf t = VNilMap" using t by (simp add: nilOf_def)
    ultimately show ?thesis using holds_lenPrefix(1) [OF h [unfolded w]] w by (simp add: dec_map [OF t])
  next
    case False
    then obtain kvs where v': "v = VMap kvs" "kvs \<noteq> []"
      using v(1) t by (cases v) (auto simp: wt.simps [of _ _ t])
    have len: "lenOK ?A (length kvs)" "0 < length kvs" using v(1) t v' by (auto simp: wt.simps [of _ _ t])
    have "sdepth (fst p) \<le> m \<and> sdepth (snd p) \<le> m" if "p \<in> set kvs" for p
      using v(3) [unfolded v'(1)] that by (cases p) auto
    then have kv: "wt ?g ?A k (fst p)" "wt ?g ?A e (snd p)" "portable ?g ?A ow ot k (fst p)" "portable ?g ?A ow ot e (snd p)"
        "sdepth (fst p) \<le> m" "sdepth (snd p) \<le> m" if "p \<in> set kvs" for p
      using that v(1,2) t by (auto simp: v'(1) wt.simps [of _ _ t] portable.simps [of _ _ _ _ t])
    let ?W = "concat (map (\<lambda>p. wire ?g ?A ow k (fst p) @ wire ?g ?A ow e (snd p)) kvs)"
    let ?n = "of_nat (length kvs) :: u64"
    have w: "wire ?g ?A ow t v = lenPrefix (length kvs) @ ?W"
      using t by (simp add: v'(1) wire.simps [of ?g _ _ t] case_prod_beta')
    define j where "j = i + int (length (lenPrefix (length kvs)))"
    have hj: "varintAt ?g I i = Good (?n, j)" "holds I j ?W"
      using holds_lenPrefix [OF h [unfolded w]] by (simp_all add: j_def)
    have nz: "?n \<noteq> 0" "unat ?n = length kvs" using len len_zero [OF A] unat_len [OF A len(1)] by simp_all
    have need: "needLen ?g I j ?n r = r" for r :: "(val \<times> int) dres"
      by (rule holds_needLen [OF A I hj(2)])
        (use nz(2) v(2) t in \<open>simp add: v'(1) portable.simps [of _ _ _ _ t] case_prod_beta'\<close>)
    have "\<exists>kvs'. decEntries (\<lambda>i. dec c D I k (zero ?g (cDepth c) k) i) (\<lambda>i. dec c D I e (zero ?g (cDepth c) e) i)
          (\<lambda>a b kvs. mapPut ?g k kvs a b) (length kvs) [] j = Good ([] @ kvs', j + int (length ?W))
        \<and> list_all2 (\<lambda>p q. eqv ?g ot k (fst p) (fst q) \<and> eqv ?g ot e (snd p) (snd q)) kvs kvs'"
    proof (rule entries_decode [OF _ _ hj(2)])
      show "decodes (\<lambda>_ i. dec c D I k (zero ?g (cDepth c) k) i) (eqv ?g ot k) I (wire ?g ?A ow k (fst p)) (fst p) (zero ?g (cDepth c) k)"
        if "p \<in> set kvs" for p
        using rtOK_D [OF rt(1) I kv(1,3) [OF that] z(1)] kv(5) [OF that] by (simp add: decodes_def)
      show "decodes (\<lambda>_ i. dec c D I e (zero ?g (cDepth c) e) i) (eqv ?g ot e) I (wire ?g ?A ow e (snd p)) (snd p) (zero ?g (cDepth c) e)"
        if "p \<in> set kvs" for p
        using rtOK_D [OF rt(2) I kv(2,4) [OF that] z(2)] kv(6) [OF that] by (simp add: decodes_def)
      show "sorted_wrt (\<lambda>p q. \<forall>a b. eqv ?g ot k (fst p) a \<longrightarrow> eqv ?g ot k (fst q) b \<longrightarrow> \<not> goEq ?g k a b) kvs"
        using v(2) t by (simp add: v'(1) portable.simps [of _ _ _ _ t] apart_def)
    qed simp
    then obtain kvs' where kvs': "decEntries (\<lambda>i. dec c D I k (zero ?g (cDepth c) k) i) (\<lambda>i. dec c D I e (zero ?g (cDepth c) e) i)
          (\<lambda>a b kvs. mapPut ?g k kvs a b) (length kvs) [] j = Good (kvs', j + int (length ?W))"
        "list_all2 (\<lambda>p q. eqv ?g ot k (fst p) (fst q) \<and> eqv ?g ot e (snd p) (snd q)) kvs kvs'" by auto
    have "case d of VMap kvs \<Rightarrow> True | VNilMap \<Rightarrow> True | _ \<Rightarrow> False"
      using d t by (auto simp: wt.simps [of _ _ t] split: val.splits)
    then have "dec c D I t d i = Good (VMap kvs', j + int (length ?W))"
      using nz kvs'(1) by (simp add: dec_map [OF t] hj(1) need entriesInto_def cong: if_cong)
    then show ?thesis using eqv_map [OF t v'(2) kvs'(2)] v'(1) unfolding w by (auto simp: j_def add.assoc)
  qed
qed

subsection \<open>Structs and unions\<close>

lemma struct_rt:
  assumes D: "decRT c ow ot D k" and I: "lenOK (cArch c) (length (iB I))"
    and t: "\<not> isTime (TNamed n u)" "underlying u = TStruct" and n: "isTarget (cGen c) n"
    and v: "wt (cGen c) (cArch c) (TNamed n u) v" "portable (cGen c) (cArch c) ow ot (TNamed n u) v" "sdepth v \<le> k"
    and d: "wt (cGen c) (cArch c) (TNamed n u) d"
  shows "decodes (dec c D I (TNamed n u)) (eqv (cGen c) ot (TNamed n TStruct)) I (wire (cGen c) (cArch c) ow (TNamed n u) v) v d"
proof -
  have "dec c D I (TNamed n u) = nested (cGen c) D I n"
    using t by (intro ext) (simp add: dec.simps [of c D I "TNamed n u"])
  moreover have "portable (cGen c) (cArch c) ow ot (TNamed n TStruct) v"
    using v(2) t isTime_named [of n u TStruct] by (simp add: portable.simps [of _ _ _ _ "TNamed n _"])
  ultimately show ?thesis
    using nested_decodes [OF D n _ _ _ v(3) I] v(1) d by (simp add: wt_named_struct [OF t(2)] wire_named_struct [OF t(2)])
qed

lemma eqv_named_struct:
  assumes "eqv g ot (TNamed n TStruct) v v'" "underlying u = TStruct" "\<not> isTime (TNamed n u)"
  shows "eqv g ot (TNamed n u) v v'"
  using assms(1)
  by (cases rule: eqv.cases) (use assms(2,3) isTime_named [of n u TStruct] in \<open>auto intro: eqv_owned eqv_struct\<close>)

lemma tagged_nth: "taggedMembers g t = (case unionMembersOf g t of Some ms \<Rightarrow> enumerate 1 ms | None \<Rightarrow> [])"
  by (simp add: taggedMembers_def split: option.split)

lemma map_of_tags:
  assumes "(k, m) \<in> set (enumerate n ms)" and "n + length ms \<le> 2 ^ 64"
  shows "map_of (map (\<lambda>(k, m). (of_nat k :: u64, m)) (enumerate n ms)) (of_nat k) = Some m"
    and "k < 2 ^ 64" "n \<le> k"
proof -
  have "map_of (map (\<lambda>(k, m). (of_nat k :: u64, m)) (enumerate n ms)) (of_nat k) = Some m \<and> k < 2 ^ 64 \<and> n \<le> k"
    using assms
  proof (induction ms arbitrary: n)
    case (Cons m' ms)
    show ?case
    proof (cases "(k, m) = (n, m')")
      case True
      then show ?thesis using Cons.prems by simp
    next
      case False
      then have "(k, m) \<in> set (enumerate (Suc n) ms)" using Cons.prems(1) by auto
      from Cons.IH [OF this] Cons.prems(2)
      have IH: "map_of (map (\<lambda>(k, m). (of_nat k :: u64, m)) (enumerate (Suc n) ms)) (of_nat k) = Some m" "k < 2 ^ 64" "Suc n \<le> k" by auto
      have "n < 2 ^ 64" using Cons.prems(2) by simp
      then have "(of_nat n :: u64) \<noteq> of_nat k"
        using IH(2,3) by (simp add: word_of_nat_eq_iff take_bit_nat_eq_self)
      then show ?thesis using IH by simp
    qed
  qed simp
  then show "map_of (map (\<lambda>(k, m). (of_nat k :: u64, m)) (enumerate n ms)) (of_nat k) = Some m" "k < 2 ^ 64" "n \<le> k" by auto
qed
lemma memberOld_wt:
  assumes d: "wt (cGen c) (cArch c) t d" "\<not> isTime t" "underlying t = TInterface"
    and z: "zerosOK c" and m: "isTarget (cGen c) m"
  shows "wt (cGen c) (cArch c) (TNamed m TStruct) (memberOld c m d)"
proof -
  have "wt (cGen c) (cArch c) (TNamed m TStruct) (zero (cGen c) (cDepth c) (TNamed m TStruct))"
    using z m unfolding zerosOK_def isTarget_set by blast
  then show ?thesis using d by (auto simp: memberOld_def wt.simps [of _ _ t] split: val.split option.split)
qed

lemma dec_iface:
  assumes "\<not> isTime t" "underlying t = TInterface"
  shows "dec c D I t d i = dbind (varintAt (cGen c) I i) (\<lambda>(nn, i). if nn = 0 then Good (nilOf t, i)
     else case map_of (map (\<lambda>(k, m). (of_nat k, m)) (taggedMembers (cGen c) t)) nn of
       None \<Rightarrow> Bad ErrUnknownUnionTag
     | Some m \<Rightarrow> dbind (nested (cGen c) D I m (memberOld c m d) i) (\<lambda>(x, i). Good (VIface m (Some x), i)))"
  unfolding dec.simps [of c D I t] memberOld_def Let_def using assms by simp

lemma iface_rt:
  assumes wf: "wfGen (cGen c)" "smallUnions (cGen c)" and z: "zerosOK c" and D: "decRT c ow ot D k"
    and I: "lenOK (cArch c) (length (iB I))" and t: "\<not> isTime t" "underlying t = TInterface"
    and v: "wt (cGen c) (cArch c) t v" "portable (cGen c) (cArch c) ow ot t v" "sdepth v \<le> k"
    and d: "wt (cGen c) (cArch c) t d"
  shows "decodes (dec c D I t) (eqv (cGen c) ot t) I (wire (cGen c) (cArch c) ow t v) v d"
proof (rule decodesI)
  let ?g = "cGen c" and ?A = "cArch c"
  fix i assume h: "holds I i (wire ?g ?A ow t v)"
  from v(1) t show "\<exists>v'. dec c D I t d i = Good (v', i + int (length (wire ?g ?A ow t v))) \<and> eqv ?g ot t v v'"
  proof (cases rule: iface_view [where ow = ow])
    case nil
    then have w: "wire ?g ?A ow t v = lenPrefix 0 @ []" by simp
    have "nilOf t = VNilIface" using t by (simp add: nilOf_def)
    then show ?thesis using holds_lenPrefix(1) [OF h [unfolded w]] w nil(1) eqv_nil_iface [OF t]
      by (auto simp: dec_iface [OF t])
  next
    case (val m w k')
    note m = memberTag_target [OF wf(1) val(2)]
    obtain ms where ms: "unionMembersOf ?g t = Some ms" using val(2)
      by (cases "unionMembersOf ?g t") (auto simp: memberTag_def tagged_nth)
    then obtain u where "(u, ms) \<in> set (unions ?g)" by (auto simp: unionMembersOf_def split: gotype.splits dest: map_of_SomeD)
    then have "1 + length ms \<le> 2 ^ 64" using wf(2) by (force simp: smallUnions_def)
    moreover have "(k', m) \<in> set (enumerate 1 ms)" using m(2) by (simp add: tagged_nth ms)
    ultimately have tag: "map_of (map (\<lambda>(k, m). (of_nat k :: u64, m)) (taggedMembers ?g t)) (of_nat k') = Some m"
        "k' < 2 ^ 64" "1 \<le> k'"
      using map_of_tags [of k' m 1 ms] by (auto simp: tagged_nth ms)
    have "unat (of_nat k' :: u64) = k'" using tag(2) by (simp add: unsigned_of_nat take_bit_nat_eq_self)
    then have nz: "(of_nat k' :: u64) \<noteq> 0" using tag(3) by (metis not_one_le_zero unsigned_0)
    let ?w = "wire ?g ?A ow (TNamed m TStruct) w"
    define j where "j = i + int (length (lenPrefix k'))"
    have hj: "varintAt ?g I i = Good (of_nat k', j)" "holds I j ?w"
      using holds_lenPrefix [OF h [unfolded val(5)]] by (simp_all add: j_def)
    have p: "portable ?g ?A ow ot (TNamed m TStruct) w" using v(2) t by (simp add: val(1) portable.simps [of _ _ _ _ t])
    have "decodes (nested ?g D I m) (eqv ?g ot (TNamed m TStruct)) I ?w w (memberOld c m d)"
      using nested_decodes [OF D m(1) val(3) p memberOld_wt [OF d t z m(1)] _ I] v(3) val(4) by simp
    from decodes_D [OF this hj(2)] obtain w' where
      w': "nested ?g D I m (memberOld c m d) j = Good (w', j + int (length ?w))" "eqv ?g ot (TNamed m TStruct) w w'" by auto
    have "dec c D I t d i = Good (VIface m (Some w'), j + int (length ?w))"
      using tag(1) nz by (simp add: dec_iface [OF t] hj(1) w'(1))
    then show ?thesis using eqv_iface [OF t w'(2)] val by (auto simp: j_def add.assoc)
  qed
qed

subsection \<open>All types\<close>

lemma dec_rt:
  assumes A: "archOK (cArch c)" and wf: "wfGen (cGen c)" "smallUnions (cGen c)" and z: "zerosOK c"
    and D: "decRT c ow ot D k" and s: "supported (cGen c) t = None"
  shows "rtOK c ow ot D k t"
  using s
proof (induction t rule: measure_induct_rule [where f = size])
  case (less t)
  show ?case
    unfolding rtOK_def
  proof (intro allI impI)
    let ?g = "cGen c" and ?A = "cArch c"
    fix I :: inp and v d
    assume I: "lenOK ?A (length (iB I))" and v: "wt ?g ?A t v" "portable ?g ?A ow ot t v" and d: "wt ?g ?A t d" and sd: "sdepth v \<le> k"
    note V = v sd d
    show "decodes (dec c D I t) (eqv ?g ot t) I (wire ?g ?A ow t v) v d"
    proof (cases "isTime t")
      case True
      then show ?thesis using v by (rule time_rt)
    next
      case nt: False
      note sup = less.prems [unfolded supported.simps [of ?g t]]
      show ?thesis
      proof (cases "underlying t")
        case (TBasic b)
        show ?thesis by (rule basic_rt [OF A I nt TBasic less.prems v(1)])
      next
        case (TSlice e)
        then have e: "supported ?g e = None" using sup nt by simp
        show ?thesis by (rule slice_rt [OF A I less.IH [OF underlying_size_less(1) [OF TSlice] e] zero_wt [OF z e] nt TSlice V])
      next
        case (TArray n e)
        then have e: "supported ?g e = None" using sup nt by simp
        show ?thesis by (rule array_rt [OF A I less.IH [OF underlying_size_less(2) [OF TArray] e] nt TArray V])
      next
        case (TPointer e)
        then have e: "supported ?g e = None" using sup nt by simp
        show ?thesis by (rule pointer_rt [OF less.IH [OF underlying_size_less(3) [OF TPointer] e] I zero_wt [OF z e] nt TPointer V])
      next
        case (TMap a e)
        then have e: "supported ?g a = None" "supported ?g e = None" using sup nt by (auto split: option.splits)
        show ?thesis by (rule map_rt [OF A I less.IH [OF underlying_size_less(4) [OF TMap] e(1)]
            less.IH [OF underlying_size_less(5) [OF TMap] e(2)] zero_wt [OF z e(1)] zero_wt [OF z e(2)] nt TMap V])
      next
        case TStruct
        obtain n u where n: "t = TNamed n u" "underlying u = TStruct" "isTarget ?g n"
          using supported_struct [OF less.prems nt TStruct] .
        have "decodes (dec c D I t) (eqv ?g ot (TNamed n TStruct)) I (wire ?g ?A ow t v) v d"
          using struct_rt [OF D I _ n(2,3)] V nt unfolding n(1) by blast
        then show ?thesis using eqv_named_struct [of ?g ot n] n nt by (fastforce simp: decodes_def)
      next
        case TInterface
        show ?thesis by (rule iface_rt [OF wf z D I nt TInterface V])
      qed (use sup nt in simp_all)
    qed
  qed
qed
end
