(* ===== verification/DecRefine.thy ===== *)
theory DecRefine
  imports DecShapes Package CommandProps
begin

text \<open>
  The generated decoders implement the specification \<open>dec\<close>: for every type, for the fields of a
  struct, and for the \<open>Unmarshal\<close> methods of a package.
\<close>

subsection \<open>Expressions\<close>

lemma unmarshalExpr_sim:
  assumes "envOK M D"
  shows "decOK c M D t"
proof (induction t rule: measure_induct_rule [where f = size])
  case (less t)
  note sub = less.IH
  show ?case
    unfolding decOK_def
  proof (intro allI impI)
    fix ref s v and es :: gstate
    assume r: "rd s ref = Ok v" "refOK ref" "below ref (varCounter es)"
    let ?thesis = "sim (into (varCounter es) s ref) (dec c D (inpOf s) t v (sI s))
       (execs (fst (unmarshalExpr (cGen c) ref t es)) c M s)"
    note simps = dec.simps [of c D _ t] unmarshalExpr.simps [of "cGen c" ref t]
    show ?thesis
    proof (cases "isTime t")
      case True
      from time_sim [OF r(1) True] show ?thesis
        using True by (simp add: unmarshalExpr.simps [of "cGen c" ref t])
    next
      case nt: False
      show ?thesis
      proof (cases "underlying t")
        case (TBasic k)
        have "sim (into (varCounter es) s ref) (decBasic c (inpOf s) t k v (sI s)) (execs (unmarshalBasic (cGen c) ref t k) c M s)"
        proof (cases "supportedBasic k")
          case True
          then show ?thesis using basic_sim [OF r(1,3)] by blast
        next
          case False
          then show ?thesis using r(1)
            by (cases k) (simp_all add: supportedBasic_def decBasic_def unmarshalBasic_def into_def updated_same)
        qed
        then show ?thesis using nt TBasic by (simp add: simps)
      next
        case (TSlice e)
        then show ?thesis using slice_sim [OF sub [OF underlying_size_less(1) [OF TSlice]] nt TSlice r] by simp
      next
        case (TArray k e)
        then show ?thesis using array_sim [OF sub [OF underlying_size_less(2) [OF TArray]] nt TArray r] by simp
      next
        case (TPointer e)
        then show ?thesis using pointer_sim [OF sub [OF underlying_size_less(3) [OF TPointer]] nt TPointer r] by simp
      next
        case (TMap k e)
        then show ?thesis using map_sim [OF sub [OF underlying_size_less(4) [OF TMap]] sub [OF underlying_size_less(5) [OF TMap]] nt TMap r] by simp
      next
        case TStruct
        then show ?thesis using struct_sim [OF assms nt _ r(1)] by blast
      next
        case TInterface
        then show ?thesis using iface_sim [OF assms nt _ r] by blast
      qed (use nt r(1) in \<open>simp_all add: simps into_def updated_same\<close>)
    qed
  qed
qed

subsection \<open>Structs\<close>

lemma fields_sim:
  assumes M: "envOK M D"
  shows "inpOf s = I \<Longrightarrow> sim (\<lambda>p s'. sRecv s' = fst p \<and> sI s' = snd p)
     (decFields (dec c D I) fs (sRecv s) (sI s)) (execs (fst (emitFields (unmarshalExpr (cGen c)) fs es)) c M s)"
proof (induction fs arbitrary: es s)
  case (Cons f fs)
  let ?r = "RField (fldName f)" and ?Q = "\<lambda>p s'. sRecv s' = fst p \<and> sI s' = snd p"
  let ?x = "unmarshalExpr (cGen c) ?r (fldTyp f) es"
  show ?case
  proof (cases "\<exists>vs v. sRecv s = VStruct vs \<and> map_of vs (fldName f) = Some v")
    case True
    then obtain vs v where v: "sRecv s = VStruct vs" "map_of vs (fldName f) = Some v" by blast
    then have rd: "rd s ?r = Ok v" by simp
    have "sim ?Q (dbind (dec c D I (fldTyp f) v (sI s)) (\<lambda>p. decFields (dec c D I) fs (setField (sRecv s) (fldName f) (fst p)) (snd p)))
        (fthen (execs (fst ?x) c M s) (execs (fst (emitFields (unmarshalExpr (cGen c)) fs (snd ?x))) c M))"
    proof (rule sim_bind)
      show "sim (into (varCounter es) s ?r) (dec c D I (fldTyp f) v (sI s)) (execs (fst ?x) c M s)"
        using decOK_run [OF unmarshalExpr_sim [OF M] rd, of es] Cons.prems by (simp add: below_def)
    next
      fix p s1 assume p: "into (varCounter es) s ?r p s1"
      then have s1: "sRecv s1 = setField (sRecv s) (fldName f) (fst p)" "sI s1 = snd p" "inpOf s1 = I"
        using into_inp [OF p] Cons.prems by (simp_all add: into_def updated_def sameRefs_def)
      show "sim ?Q (decFields (dec c D I) fs (setField (sRecv s) (fldName f) (fst p)) (snd p))
          (execs (fst (emitFields (unmarshalExpr (cGen c)) fs (snd ?x))) c M s1)"
        using Cons.IH [OF s1(3)] unfolding s1 .
    qed
    then show ?thesis using v by (simp add: Let_def case_prod_beta' execs_fun)
  next
    case False
    then have "decFields (dec c D I) (f # fs) (sRecv s) (sI s) = Und"
      by (cases "sRecv s") (auto split: option.split)
    then show ?thesis by simp
  qed
qed simp

lemma body_sim:
  assumes "envOK M D"
  shows "decFields (dec c D \<lparr>iB = b, iSpare = sp, iBase = base\<rparr>) fs d 0 = Und \<or>
    decFields (dec c D \<lparr>iB = b, iSpare = sp, iBase = base\<rparr>) fs d 0
      = ofCall (runUnmarshal c M (fst (emitUnmarshal (cGen c) fs es)) d b sp base)"
proof -
  let ?s = "(initSt d)\<lparr>sB := b, sSpare := sp, sBase := base\<rparr>"
  have s: "inpOf ?s = \<lparr>iB = b, iSpare = sp, iBase = base\<rparr>" "sRecv ?s = d" "sI ?s = 0"
    by (simp_all add: inpOf_def initSt_def)
  from fields_sim [OF assms s(1), of c fs es] show ?thesis
    unfolding s(2,3)
    by (cases "decFields (dec c D \<lparr>iB = b, iSpare = sp, iBase = base\<rparr>) fs d 0")
      (auto simp: sim_iffs runUnmarshal_def emitUnmarshal_def ofCall_def split_beta)
qed

subsection \<open>Packages\<close>

lemma generate_foreign:
  assumes "generate g s = Inr gf" "\<not> isTarget g n \<or> List.member (owned g) n"
  shows "map_of (gfCodecs gf) n = None"
  using generate_names [OF assms(1)] assms(2)
  by (auto simp: map_of_eq_None_iff isTarget_def simp flip: set_map)

lemma mUnmarshal_step:
  "mUnmarshal (methods c P U (Suc k)) n d b sp base = (case P n of
     None \<Rightarrow> mUnmarshal U n d b sp base
   | Some cd \<Rightarrow> runUnmarshal c (methods c P U k) (cUnmarshal cd) d b sp base)"
  by (simp add: Let_def)

lemma methods_envOK:
  assumes g: "generate (cGen c) gs = Inr gf"
    and U: "envOK U D"
  shows "envOK (methods c (map_of (gfCodecs gf)) U k) (decAll c D k)"
proof (induction k)
  case 0
  show ?case by (simp add: envOK_def noFuelEnv_def ofCall_def)
next
  case (Suc k)
  let ?M = "methods c (map_of (gfCodecs gf)) U k"
  show ?case
    unfolding envOK_def
  proof (intro allI)
    fix n d b sp base
    let ?d = "decAll c D (Suc k) n d b sp base"
    let ?m = "mUnmarshal (methods c (map_of (gfCodecs gf)) U (Suc k)) n d b sp base"
    show "?d = Und \<or> ?d = ofCall ?m"
    proof (cases "\<not> isTarget (cGen c) n \<or> List.member (owned (cGen c)) n")
      case True
      then show ?thesis using generate_foreign [OF g True] U [unfolded envOK_def, rule_format, of n d b sp base]
        unfolding mUnmarshal_step by auto
    next
      case False
      then obtain fs es where f: "fieldsOf (cGen c) n = Inr fs"
          "map_of (gfCodecs gf) n = Some (fst (emitCodec (cGen c) n fs es))"
        using generate_codec [OF g] by metis
      have blit: "\<not> safe (cGen c) \<and> blittable (cGen c) n fs \<longleftrightarrow> isBlit (cGen c) n"
        using emitCodec_blit [OF f(1)] False by blast
      show ?thesis
      proof (cases "isBlit (cGen c) n")
        case True
        then show ?thesis using False f blit unfolding mUnmarshal_step
          by (simp add: emitCodec_def emitBlitUnmarshal_def runUnmarshal_def decBlit_def ofCall_def Let_def)
      next
        case nb: False
        have "\<exists>es'. cUnmarshal (fst (emitCodec (cGen c) n fs es)) = fst (emitUnmarshal (cGen c) fs es')"
          using nb blit by (auto simp: emitCodec_def Let_def split_beta)
        then obtain es' where e: "cUnmarshal (fst (emitCodec (cGen c) n fs es)) = fst (emitUnmarshal (cGen c) fs es')" ..
        show ?thesis using False f nb body_sim [OF Suc.IH, of c b sp base fs d es']
          unfolding mUnmarshal_step by (simp add: e)
      qed
    qed
  qed
qed

end
