(* ===== verification/RtPackage.thy ===== *)
theory RtPackage
  imports RoundTrip DecRefine
begin

text \<open>
  The round trip through the decoders of a package, by induction on the depth of calls, and
  through the generated methods, by refinement.
\<close>

subsection \<open>The fields of a struct\<close>

lemma setField_struct:
  "map fst (setAssoc vs f v) = map fst vs"
  "map_of vs f = Some x \<Longrightarrow> map_of (setAssoc vs f v) f' = (if f' = f then Some v else map_of vs f')"
  by (induction vs f v rule: setAssoc.induct) auto

lemma fields_decode:
  assumes "distinct (map fldName fs)"
    and "\<And>f. f \<in> set fs \<Longrightarrow> \<exists>d. map_of ds (fldName f) = Some d \<and> decodes (F (fldTyp f)) (Q f) I (W f) (V f) d"
    and "holds I i (concat (map W fs))"
  shows "\<exists>ds'. decFields F fs (VStruct ds) i = Good (VStruct ds', i + int (length (concat (map W fs))))
     \<and> map fst ds' = map fst ds \<and> (\<forall>f \<in> set fs. \<exists>v'. map_of ds' (fldName f) = Some v' \<and> Q f (V f) v')
     \<and> (\<forall>x. x \<notin> fldName ` set fs \<longrightarrow> map_of ds' x = map_of ds x)"
  using assms
proof (induction fs arbitrary: ds i)
  case (Cons f fs)
  note h = holds_appendD [OF Cons.prems(3) [unfolded list.map concat.simps]]
  obtain d where d: "map_of ds (fldName f) = Some d" "decodes (F (fldTyp f)) (Q f) I (W f) (V f) d"
    using Cons.prems(2) by auto
  obtain v' where v': "F (fldTyp f) d i = Good (v', i + int (length (W f)))" "Q f (V f) v'"
    using decodes_D [OF d(2) h(1)] by auto
  let ?ds = "setAssoc ds (fldName f) v'"
  have m: "map_of ?ds x = (if x = fldName f then Some v' else map_of ds x)" for x
    using setField_struct(2) [OF d(1)] .
  have "\<exists>d. map_of ?ds (fldName f') = Some d \<and> decodes (F (fldTyp f')) (Q f') I (W f') (V f') d" if "f' \<in> set fs" for f'
  proof -
    have "fldName f' \<noteq> fldName f" using Cons.prems(1) that by (metis distinct.simps(2) image_eqI list.map(2) set_map)
    then show ?thesis using Cons.prems(2) [of f'] that by (simp add: m)
  qed
  from Cons.IH [OF _ this h(2)] Cons.prems(1) obtain ds' where ds':
    "decFields F fs (VStruct ?ds) (i + int (length (W f)))
      = Good (VStruct ds', i + int (length (W f)) + int (length (concat (map W fs))))"
    "map fst ds' = map fst ?ds" "\<forall>f \<in> set fs. \<exists>v'. map_of ds' (fldName f) = Some v' \<and> Q f (V f) v'"
    "\<forall>x. x \<notin> fldName ` set fs \<longrightarrow> map_of ds' x = map_of ?ds x" by auto
  have "fldName f \<notin> fldName ` set fs" using Cons.prems(1) by simp
  then have "map_of ds' (fldName f) = Some v'" using ds'(4) m by simp
  then show ?case using d(1) v' ds' m setField_struct(1) by (auto simp: setField_def add.assoc)
qed simp

lemma fieldsOf_eq:
  "fieldsOf g n = Inr fs \<Longrightarrow>
     fs = map (\<lambda>f. \<lparr>fldName = sfName f, fldTyp = sfType f\<rparr>) (filter (\<lambda>f. \<not> skipped f) (structs g n))"
  using fieldsLoop_Inr unfolding fieldsOf_def by blast

lemma fieldsOf_distinct:
  assumes "wfGen g" "isTarget g n" "fieldsOf g n = Inr fs"
  shows "distinct (map fldName fs)"
proof -
  have "filter (\<lambda>f. \<not> skipped f) sf = filter (\<lambda>f. \<not> skipped f) (filter Exported sf)" for sf
    by (induction sf) (auto simp: skipped_def)
  then have "map fldName fs = map sfName (filter (\<lambda>f. \<not> skipped f) (filter Exported (structs g n)))"
    using fieldsOf_eq [OF assms(3)] by (simp add: comp_def)
  then show ?thesis using distinct_map_filter [OF wfGen_fields(1) [OF assms(1,2)]] by metis
qed

lemma fieldsOf_mem:
  assumes "fieldsOf g n = Inr fs" "f \<in> set (structs g n)" "\<not> skipped f"
  shows "\<lparr>fldName = sfName f, fldTyp = sfType f\<rparr> \<in> set fs"
  using fieldsOf_eq [OF assms(1)] assms(2,3) by auto

lemma fields_portable:
  assumes wf: "wfGen g" and n: "isTarget g n" "\<not> List.member (owned g) n" and fs: "fieldsOf g n = Inr fs"
    and v: "wt g A (TNamed n TStruct) (VStruct vs)" "portable g A ow ot (TNamed n TStruct) (VStruct vs)"
    and f: "f \<in> set fs" "map_of vs (fldName f) = Some x"
  shows "portable g A ow ot (fldTyp f) x"
proof -
  have nt: "\<not> isTime (TNamed n TStruct)" using wf n(1) by (rule wfGen_notTime)
  have names: "map fst vs = map sfName (structs g n)" using wt_struct [OF v(1) _ nt] by auto
  then have len: "length (structs g n) = length vs" by (metis length_map)
  obtain f0 where f0: "f0 \<in> set (structs g n)" "\<not> skipped f0" "f = \<lparr>fldName = sfName f0, fldTyp = sfType f0\<rparr>"
    using f(1) fieldsOf_eq [OF fs] by auto
  obtain y where y: "(f0, y) \<in> set (zip (structs g n) vs)" using f0(1) len by (metis in_set_impl_in_set_zip1)
  have "map_of vs (sfName f0) = Some (snd y)"
    using f0(2) by (intro map_of_field [OF wfGen_fields [OF wf n(1)] names y]) (simp add: skipped_def)
  then have "x = snd y" using f(2) f0(3) by simp
  then show ?thesis using v(2) y f0 n(2) nt by (auto simp: portable.simps [of _ _ _ _ "TNamed n TStruct"])
qed

lemma eqv_fields:
  assumes wf: "wfGen g" and n: "isTarget g n" "\<not> List.member (owned g) n" and fs: "fieldsOf g n = Inr fs"
    and v: "map fst vs = map sfName (structs g n)" and d: "map fst ds = map fst vs"
    and q: "\<And>f. f \<in> set fs \<Longrightarrow> \<exists>x y. map_of vs (fldName f) = Some x \<and> map_of ds (fldName f) = Some y \<and> eqv g ot (fldTyp f) x y"
  shows "eqv g ot (TNamed n TStruct) (VStruct vs) (VStruct ds)"
proof -
  have nt: "\<not> isTime (TNamed n TStruct)" using wf n(1) by (rule wfGen_notTime)
  have len: "length vs = length (structs g n)" "length ds = length (structs g n)" using v d by (metis length_map)+
  note mv = map_of_field [OF wfGen_fields [OF wf n(1)] v] and md = map_of_field [OF wfGen_fields [OF wf n(1)] d [unfolded v]]
  have "list_all2 (\<lambda>p y. skipped (fst p) \<or> eqv g ot (sfType (fst p)) (snd (snd p)) (snd y)) (zip (structs g n) vs) ds"
    unfolding list_all2_conv_all_nth
  proof (intro conjI allI impI)
    fix i assume "i < length (zip (structs g n) vs)"
    then have i: "i < length (structs g n)" by simp
    let ?f = "structs g n ! i"
    have z: "(?f, vs ! i) \<in> set (zip (structs g n) vs)" "(?f, ds ! i) \<in> set (zip (structs g n) ds)"
      using i len by (auto simp: set_zip)
    have "eqv g ot (sfType ?f) (snd (vs ! i)) (snd (ds ! i))" if ns: "\<not> skipped ?f"
    proof -
      have "\<lparr>fldName = sfName ?f, fldTyp = sfType ?f\<rparr> \<in> set fs" using fieldsOf_mem [OF fs _ ns] i by simp
      from q [OF this] show ?thesis using mv [OF z(1)] md [OF z(2)] ns by (auto simp: skipped_def)
    qed
    then show "skipped (fst (zip (structs g n) vs ! i)) \<or>
        eqv g ot (sfType (fst (zip (structs g n) vs ! i))) (snd (snd (zip (structs g n) vs ! i))) (snd (ds ! i))"
      using i len by auto
  qed (simp add: len)
  then show ?thesis using nt n(2) d by (intro eqv_struct) simp_all
qed

subsection \<open>The decoders of a package\<close>

definition ownedRT :: "ctx \<Rightarrow> uwire \<Rightarrow> (tname \<Rightarrow> val \<Rightarrow> val \<Rightarrow> bool) \<Rightarrow> decs \<Rightarrow> bool" where
  "ownedRT c ow ot D \<longleftrightarrow> (\<forall>n v d r sp base. List.member (owned (cGen c)) n
     \<longrightarrow> wt (cGen c) (cArch c) (TNamed n TStruct) v \<longrightarrow> wt (cGen c) (cArch c) (TNamed n TStruct) d
     \<longrightarrow> lenOK (cArch c) (length (ow n v @ r))
     \<longrightarrow> (\<exists>v'. D n d (ow n v @ r) sp base = Good (v', int (length (ow n v))) \<and> ot n v v'))"

text \<open>Every codec of the package could be generated.\<close>

definition fieldsOK :: "generator \<Rightarrow> bool" where
  "fieldsOK g \<longleftrightarrow> (\<forall>n \<in> set (targets g). \<not> List.member (owned g) n \<longrightarrow> (\<exists>fs. fieldsOf g n = Inr fs))"

lemma generate_fieldsOK: "generate g gs = Inr gf \<Longrightarrow> fieldsOK g"
  unfolding fieldsOK_def by (metis generate_codec isTarget_set)

lemma struct_decode:
  assumes A: "archOK (cArch c)" and wf: "wfGen (cGen c)" "smallUnions (cGen c)" and z: "zerosOK c"
    and D: "decRT c ow ot D k"
    and n: "isTarget (cGen c) n" "\<not> List.member (owned (cGen c)) n" "\<not> isBlit (cGen c) n" and fs: "fieldsOf (cGen c) n = Inr fs"
    and v: "wt (cGen c) (cArch c) (TNamed n TStruct) v" "portable (cGen c) (cArch c) ow ot (TNamed n TStruct) v" "sdepth v \<le> Suc k"
    and d: "wt (cGen c) (cArch c) (TNamed n TStruct) d"
    and I: "lenOK (cArch c) (length (wire (cGen c) (cArch c) ow (TNamed n TStruct) v @ r))"
  shows "\<exists>ds ds'. d = VStruct ds \<and> decFields (dec c D \<lparr>iB = wire (cGen c) (cArch c) ow (TNamed n TStruct) v @ r, iSpare = sp, iBase = base\<rparr>) fs d 0
        = Good (VStruct ds', int (length (wire (cGen c) (cArch c) ow (TNamed n TStruct) v)))
      \<and> eqv (cGen c) ot (TNamed n TStruct) v (VStruct ds')
      \<and> (\<forall>x. x \<notin> fldName ` set fs \<longrightarrow> map_of ds' x = map_of ds x)"
proof -
  let ?g = "cGen c" and ?A = "cArch c"
  let ?w = "wire ?g ?A ow (TNamed n TStruct) v" let ?I = "\<lparr>iB = ?w @ r, iSpare = sp, iBase = base\<rparr>"
  have nt: "\<not> isTime (TNamed n TStruct)" using wf(1) n(1) by (rule wfGen_notTime)
  obtain vs where vs: "v = VStruct vs"
    and f: "\<And>f. f \<in> set fs \<Longrightarrow> supported ?g (fldTyp f) = None
       \<and> (\<exists>x. map_of vs (fldName f) = Some x \<and> wt ?g ?A (fldTyp f) x \<and> sdepth x \<le> k)"
    and w: "?w = concat (map (\<lambda>f. wire ?g ?A ow (fldTyp f) (the (map_of vs (fldName f)))) fs)"
    by (rule struct_fields [OF wf(1) n fs v(1,3), where ow = ow]) (rule that)
  obtain ds where ds: "d = VStruct ds"
    and fd: "\<And>f. f \<in> set fs \<Longrightarrow> \<exists>x. map_of ds (fldName f) = Some x \<and> wt ?g ?A (fldTyp f) x"
    using struct_fields [OF wf(1) n fs d le_SucI [OF order_refl], where ow = ow] by metis
  have I': "lenOK ?A (length (iB ?I))" using I by simp
  let ?V = "\<lambda>f. the (map_of vs (fldName f))"
  have "\<exists>x. map_of ds (fldName f) = Some x \<and>
      decodes (dec c D ?I (fldTyp f)) (eqv ?g ot (fldTyp f)) ?I (wire ?g ?A ow (fldTyp f) (?V f)) (?V f) x" if m: "f \<in> set fs" for f
  proof -
    obtain x y where x: "map_of vs (fldName f) = Some x" "wt ?g ?A (fldTyp f) x" "sdepth x \<le> k"
      and y: "map_of ds (fldName f) = Some y" "wt ?g ?A (fldTyp f) y" using f [OF m] fd [OF m] by auto
    have "portable ?g ?A ow ot (fldTyp f) x"
      using fields_portable [OF wf(1) n(1,2) fs _ _ m x(1)] v(1,2) unfolding vs by blast
    then show ?thesis
      using rtOK_D [OF dec_rt [OF A wf z D] I' x(2) _ y(2) x(3)] f [OF m] x(1) y(1) by simp
  qed
  moreover have "holds ?I 0 (concat (map (\<lambda>f. wire ?g ?A ow (fldTyp f) (?V f)) fs))"
    unfolding w [symmetric] by (rule holds_start)
  ultimately have "\<exists>ds'. decFields (dec c D ?I) fs (VStruct ds) 0
      = Good (VStruct ds', 0 + int (length (concat (map (\<lambda>f. wire ?g ?A ow (fldTyp f) (?V f)) fs))))
     \<and> map fst ds' = map fst ds \<and> (\<forall>f \<in> set fs. \<exists>v'. map_of ds' (fldName f) = Some v' \<and> eqv ?g ot (fldTyp f) (?V f) v')
     \<and> (\<forall>x. x \<notin> fldName ` set fs \<longrightarrow> map_of ds' x = map_of ds x)"
    by (intro fields_decode [OF fieldsOf_distinct [OF wf(1) n(1) fs]])
  then obtain ds' where ds': "decFields (dec c D ?I) fs (VStruct ds) 0 = Good (VStruct ds', int (length ?w))"
    "map fst ds' = map fst ds" "\<forall>f \<in> set fs. \<exists>v'. map_of ds' (fldName f) = Some v' \<and> eqv ?g ot (fldTyp f) (?V f) v'"
    "\<forall>x. x \<notin> fldName ` set fs \<longrightarrow> map_of ds' x = map_of ds x"
    unfolding w [symmetric] by auto
  have names: "map fst vs = map sfName (structs ?g n)" "map fst ds = map sfName (structs ?g n)"
    using wt_struct [OF v(1) _ nt] wt_struct [OF d _ nt] vs ds by auto
  have "eqv ?g ot (TNamed n TStruct) (VStruct vs) (VStruct ds')"
    by (rule eqv_fields [OF wf(1) n(1,2) fs names(1)]) (use ds'(2,3) names f in \<open>simp, fastforce\<close>)
  then show ?thesis using ds' ds vs by blast
qed

lemma blit_decode:
  assumes A: "archOK (cArch c)" and wf: "wfGen (cGen c)" and n: "isTarget (cGen c) n" "isBlit (cGen c) n"
    and v: "wt (cGen c) (cArch c) (TNamed n TStruct) v"
  shows "decBlit c n d (wire (cGen c) (cArch c) ow (TNamed n TStruct) v @ r)
      = Good (v, int (length (wire (cGen c) (cArch c) ow (TNamed n TStruct) v)))"
    and "eqv (cGen c) ot (TNamed n TStruct) v v"
proof -
  have nt: "\<not> isTime (TNamed n TStruct)" using wf n(1) by (rule wfGen_notTime)
  have w: "wire (cGen c) (cArch c) ow (TNamed n TStruct) v = structImage (cGen c) (cArch c) n v"
    using nt isBlit_fields(2) [OF n(2)] n(2)
    by (simp add: wire.simps [of "cGen c" "cArch c" ow "TNamed n TStruct"])
  have len: "length (structImage (cGen c) (cArch c) n v) = structSize (cArch c) (structTypes (cGen c) n)"
    using length_structImage [OF n(2) v _ nt] by simp
  show "decBlit c n d (wire (cGen c) (cArch c) ow (TNamed n TStruct) v @ r)
      = Good (v, int (length (wire (cGen c) (cArch c) ow (TNamed n TStruct) v)))"
    unfolding w using structRead_image [OF A n(2) v _ nt] by (simp add: decBlit_def Let_def len [symmetric])
  show "eqv (cGen c) ot (TNamed n TStruct) v v" using eqv_blit [OF n(2) v _ nt] by simp
qed

text \<open>At a struct: the decoder of the package on the encoding of a value.\<close>

lemma target_decode:
  assumes A: "archOK (cArch c)" and wf: "wfGen (cGen c)" "smallUnions (cGen c)" and z: "zerosOK c" and f: "fieldsOK (cGen c)"
    and U: "ownedRT c ow ot U" and D: "decRT c ow ot (decAll c U k) k"
    and n: "isTarget (cGen c) n"
    and v: "wt (cGen c) (cArch c) (TNamed n TStruct) v" "portable (cGen c) (cArch c) ow ot (TNamed n TStruct) v" "sdepth v \<le> Suc k"
    and d: "wt (cGen c) (cArch c) (TNamed n TStruct) d"
    and I: "lenOK (cArch c) (length (wire (cGen c) (cArch c) ow (TNamed n TStruct) v @ r))"
  shows "\<exists>v'. decAll c U (Suc k) n d (wire (cGen c) (cArch c) ow (TNamed n TStruct) v @ r) sp base
        = Good (v', int (length (wire (cGen c) (cArch c) ow (TNamed n TStruct) v)))
      \<and> eqv (cGen c) ot (TNamed n TStruct) v v'
      \<and> (\<not> List.member (owned (cGen c)) n \<longrightarrow> (\<forall>f \<in> set (structs (cGen c) n). skipped f \<longrightarrow>
           (\<exists>ds ds'. d = VStruct ds \<and> v' = VStruct ds' \<and> map_of ds' (sfName f) = map_of ds (sfName f))))"
proof -
  let ?g = "cGen c" and ?A = "cArch c" and ?w = "wire (cGen c) (cArch c) ow (TNamed n TStruct) v"
  have nt: "\<not> isTime (TNamed n TStruct)" using wf(1) n by (rule wfGen_notTime)
  show ?thesis
  proof (cases "List.member (owned ?g) n")
    case True
    then have w: "?w = ow n v" using nt by (simp add: wire.simps [of ?g ?A ow "TNamed n TStruct"])
    obtain v' where "U n d (ow n v @ r) sp base = Good (v', int (length (ow n v)))" "ot n v v'"
      using U True v(1) d I unfolding ownedRT_def w by blast
    then show ?thesis unfolding w using True eqv_owned [OF nt _ True] by auto
  next
    case no: False
    show ?thesis
    proof (cases "isBlit ?g n")
      case True
      show ?thesis using blit_decode [OF A wf(1) n True v(1)] no n True isBlit_fields(4) [OF True] by auto
    next
      case False
      obtain fs where fs: "fieldsOf ?g n = Inr fs" using f no n unfolding fieldsOK_def isTarget_set by blast
      obtain ds ds' where ds: "d = VStruct ds"
          "decFields (dec c (decAll c U k) \<lparr>iB = ?w @ r, iSpare = sp, iBase = base\<rparr>) fs d 0 = Good (VStruct ds', int (length ?w))"
          "eqv ?g ot (TNamed n TStruct) v (VStruct ds')" "\<forall>x. x \<notin> fldName ` set fs \<longrightarrow> map_of ds' x = map_of ds x"
        using struct_decode [OF A wf z D n no False fs v d I] by blast
      have "sfName f0 \<notin> fldName ` set fs" if f0: "f0 \<in> set (structs ?g n)" "skipped f0" for f0
      proof
        assume "sfName f0 \<in> fldName ` set fs"
        then obtain f1 where f1: "f1 \<in> set (structs ?g n)" "\<not> skipped f1" "sfName f0 = sfName f1"
          using fieldsOf_eq [OF fs] by auto
        have e: "Exported f0 = Exported f1" "Exported f1"
          using wfGen_fields(2) [OF wf(1) n, rule_format, OF f0(1) f1(1) f1(3)] f1(2) by (simp_all add: skipped_def)
        then have "f0 = f1"
          using wfGen_fields(1) [OF wf(1) n] f0(1) f1(1,3) by (auto simp: distinct_map inj_on_def)
        then show False using f0(2) f1(2) by simp
      qed
      then show ?thesis using ds no False n fs by auto
    qed
  qed
qed

lemma target_sdepth:
  assumes "wfGen g" "isTarget g n" "wt g A (TNamed n TStruct) v"
  shows "0 < sdepth v"
proof -
  obtain vs where "v = VStruct vs" using wt_struct [OF assms(3) _ wfGen_notTime [OF assms(1,2)]] by (metis underlying.simps)
  then show ?thesis by simp
qed

lemma decAll_rt:
  assumes A: "archOK (cArch c)" and wf: "wfGen (cGen c)" "smallUnions (cGen c)" and z: "zerosOK c" and f: "fieldsOK (cGen c)"
    and U: "ownedRT c ow ot U"
  shows "decRT c ow ot (decAll c U k) k"
proof (induction k)
  case 0
  have "False" if "wt (cGen c) (cArch c) (TNamed n TStruct) v" "isTarget (cGen c) n" "sdepth v \<le> 0" for n v
    using target_sdepth [OF wf(1) that(2,1)] that(3) by simp
  then show ?case unfolding decRT_def by blast
next
  case (Suc k)
  show ?case
    unfolding decRT_def
  proof (intro allI impI)
    fix n v d r sp base
    assume "isTarget (cGen c) n" "wt (cGen c) (cArch c) (TNamed n TStruct) v" "portable (cGen c) (cArch c) ow ot (TNamed n TStruct) v"
      "wt (cGen c) (cArch c) (TNamed n TStruct) d" "sdepth v \<le> Suc k"
      "lenOK (cArch c) (length (wire (cGen c) (cArch c) ow (TNamed n TStruct) v @ r))"
    note t = target_decode [OF A wf z f U Suc.IH this(1-3,5,4,6)]
    show "\<exists>v'. decAll c U (Suc k) n d (wire (cGen c) (cArch c) ow (TNamed n TStruct) v @ r) sp base
              = Good (v', int (length (wire (cGen c) (cArch c) ow (TNamed n TStruct) v)))
            \<and> eqv (cGen c) ot (TNamed n TStruct) v v'"
      by (rule ex_forward [OF t]) (elim conjE, intro conjI)
  qed
qed

subsection \<open>The generated methods\<close>

definition decsOf :: "menv \<Rightarrow> decs" where
  "decsOf U = (\<lambda>n d b sp base. ofCall (mUnmarshal U n d b sp base))"

lemma envOK_decsOf: "envOK U (decsOf U)"
  by (simp add: envOK_def decsOf_def)

lemma ofCall_Good: "ofCall r = Good (v, k) \<longleftrightarrow> r = Ok (v, k, None)"
  by (auto simp: ofCall_def split: outcome.split option.split)

lemma methods_refine:
  assumes "generate (cGen c) gs = Inr gf" and "decAll c (decsOf U) k n d b sp base \<noteq> Und"
  shows "ofCall (mUnmarshal (methods c (map_of (gfCodecs gf)) U k) n d b sp base) = decAll c (decsOf U) k n d b sp base"
  using methods_envOK [OF assms(1) envOK_decsOf] assms(2) unfolding envOK_def by metis

text \<open>What the round trip needs to know of the package, of its target architecture and of its
  user-owned codecs.\<close>

definition rtSetup :: "ctx \<Rightarrow> gstate \<Rightarrow> genfile \<Rightarrow> uwire \<Rightarrow> (tname \<Rightarrow> val \<Rightarrow> val \<Rightarrow> bool) \<Rightarrow> menv \<Rightarrow> bool" where
  "rtSetup c gs gf ow ot U \<longleftrightarrow> archOK (cArch c) \<and> wfGen (cGen c) \<and> smallUnions (cGen c) \<and> zerosOK c
     \<and> generate (cGen c) gs = Inr gf \<and> ownedRT c ow ot (decsOf U)"

lemma methods_rt:
  assumes s: "rtSetup c gs gf ow ot U" and n: "isTarget (cGen c) n"
    and v: "wt (cGen c) (cArch c) (TNamed n TStruct) v" "portable (cGen c) (cArch c) ow ot (TNamed n TStruct) v" "sdepth v \<le> k"
    and d: "wt (cGen c) (cArch c) (TNamed n TStruct) d"
    and I: "lenOK (cArch c) (length (wire (cGen c) (cArch c) ow (TNamed n TStruct) v @ r))"
  shows "\<exists>v'. mUnmarshal (methods c (map_of (gfCodecs gf)) U k) n d (wire (cGen c) (cArch c) ow (TNamed n TStruct) v @ r) sp base
        = Ok (v', int (length (wire (cGen c) (cArch c) ow (TNamed n TStruct) v)), None)
      \<and> eqv (cGen c) ot (TNamed n TStruct) v v'
      \<and> (\<not> List.member (owned (cGen c)) n \<longrightarrow> (\<forall>f \<in> set (structs (cGen c) n). skipped f \<longrightarrow>
           (\<exists>ds ds'. d = VStruct ds \<and> v' = VStruct ds' \<and> map_of ds' (sfName f) = map_of ds (sfName f))))"
proof -
  have A: "archOK (cArch c)" and wf: "wfGen (cGen c)" "smallUnions (cGen c)" and z: "zerosOK c"
    and g: "generate (cGen c) gs = Inr gf" and U: "ownedRT c ow ot (decsOf U)"
    using s unfolding rtSetup_def by auto
  obtain j where k: "k = Suc j" using v(3) target_sdepth [OF wf(1) n v(1)] by (cases k) auto
  note D = decAll_rt [OF A wf z generate_fieldsOK [OF g] U, of j]
  show ?thesis
    unfolding k
  proof (rule ex_forward [OF target_decode [OF A wf z generate_fieldsOK [OF g] U D n v(1,2) v(3) [unfolded k] d I, of sp base]], elim conjE, intro conjI)
    fix v'
    assume "decAll c (decsOf U) (Suc j) n d (wire (cGen c) (cArch c) ow (TNamed n TStruct) v @ r) sp base
      = Good (v', int (length (wire (cGen c) (cArch c) ow (TNamed n TStruct) v)))"
    with methods_refine [OF g, of U "Suc j" n d "wire (cGen c) (cArch c) ow (TNamed n TStruct) v @ r" sp base]
    show "mUnmarshal (methods c (map_of (gfCodecs gf)) U (Suc j)) n d (wire (cGen c) (cArch c) ow (TNamed n TStruct) v @ r) sp base
      = Ok (v', int (length (wire (cGen c) (cArch c) ow (TNamed n TStruct) v)), None)"
      by (simp only: ofCall_Good [symmetric] dres.distinct not_False_eq_True)
  qed
qed

end
