(* ===== verification/SafeDec.thy ===== *)
theory SafeDec
  imports RtPackage
begin

text \<open>
  Safe mode on arbitrary input: a decoder returns a well-typed value and a cursor within the
  input, or an error; and a result other than \<open>ErrShortBuffer\<close> does not change when bytes are
  appended to the input.  One rule per reading operation, then one lemma per kind of type.
\<close>

subsection \<open>Results of safe decoding\<close>

text \<open>\<open>okRes P I i r r'\<close>: from position \<open>i\<close> of input \<open>I\<close> the result is \<open>r\<close>; from the same position
  of a longer input it is \<open>r'\<close>.\<close>

definition okRes :: "('a \<Rightarrow> bool) \<Rightarrow> inp \<Rightarrow> int \<Rightarrow> ('a \<times> int) dres \<Rightarrow> ('a \<times> int) dres \<Rightarrow> bool" where
  "okRes P I i r r' \<longleftrightarrow>
     (case r of Good x \<Rightarrow> P (fst x) \<and> i \<le> snd x \<and> snd x \<le> int (length (iB I))
      | Bad e \<Rightarrow> True | _ \<Rightarrow> False)
     \<and> (r = Bad ErrShortBuffer \<or> r' = r)"

lemma okRes_Good [simp]: "okRes P I i (Good (x, j)) r' \<longleftrightarrow> P x \<and> i \<le> j \<and> j \<le> int (length (iB I)) \<and> r' = Good (x, j)"
  by (simp add: okRes_def)

lemma okRes_Bad [simp]: "okRes P I i (Bad e) (Bad e)"
  by (simp add: okRes_def)

lemma okRes_short [simp]: "okRes P I i (Bad ErrShortBuffer) r'"
  by (simp add: okRes_def)

lemma okRes_bind:
  assumes "okRes P I i r r'" and "\<And>x j. P x \<Longrightarrow> i \<le> j \<Longrightarrow> j \<le> int (length (iB I)) \<Longrightarrow> okRes Q I i (f (x, j)) (f' (x, j))"
  shows "okRes Q I i (dbind r f) (dbind r' f')"
proof (cases r)
  case (Good p)
  obtain x j where p: "p = (x, j)" by (cases p)
  show ?thesis using assms Good unfolding p by simp
next
  case (Bad e)
  then show ?thesis using assms(1) by (auto simp: okRes_def)
qed (use assms(1) in \<open>simp_all add: okRes_def\<close>)

lemma okRes_mono:
  "okRes P I j r r' \<Longrightarrow> i \<le> j \<Longrightarrow> (\<And>x. P x \<Longrightarrow> Q x) \<Longrightarrow> okRes Q I i r r'"
  by (auto simp: okRes_def split: dres.splits)

lemma okRes_case: "okRes Q I i (f (fst x) (snd x)) (f' (fst x) (snd x)) \<Longrightarrow> okRes Q I i (case x of (a, b) \<Rightarrow> f a b) (case x of (a, b) \<Rightarrow> f' a b)"
  by (cases x) simp

subsection \<open>Reading\<close>

text \<open>The second input is the first one with more bytes; what lies beyond its length, and where
  it starts in the caller's buffer, does not matter.\<close>

definition longer :: "arch \<Rightarrow> inp \<Rightarrow> inp \<Rightarrow> bool" where
  "longer A I I' \<longleftrightarrow> (\<exists>s. iB I' = iB I @ s) \<and> lenOK A (length (iB I'))"

definition within :: "inp \<Rightarrow> int \<Rightarrow> bool" where
  "within I i \<longleftrightarrow> 0 \<le> i \<and> i \<le> int (length (iB I))"

lemma longer_within: "longer A I I' \<Longrightarrow> within I i \<Longrightarrow> within I' i"
  by (auto simp: longer_def within_def)

lemma longer_len: "longer A I I' \<Longrightarrow> lenOK A (length (iB I)) \<and> length (iB I) \<le> length (iB I')"
  by (auto simp: longer_def elim: lenOK_mono)

lemma tails:
  assumes "longer A I I'" "within I i"
  obtains t s where "tailAt I i = Good t" "tailAt I' i = Good (t @ s)" "length t = length (iB I) - nat i"
    "iB I' = iB I @ s" "t = drop (nat i) (iB I)"
proof -
  obtain s where s: "iB I' = iB I @ s" using assms(1) by (auto simp: longer_def)
  have "nat i \<le> length (iB I)" "0 \<le> i" using assms(2) by (auto simp: within_def)
  then show ?thesis using that [of "drop (nat i) (iB I)" s] s by (simp add: tailAt_def)
qed

lemma need_ok:
  assumes "safe g" "longer A I I'" "within I i"
    and "n \<le> length (iB I) - nat i \<Longrightarrow> okRes Q I i r r'"
  shows "okRes Q I i (needN g I i n r) (needN g I' i n r')"
proof (cases "n \<le> length (iB I) - nat i")
  case True
  then have "\<not> int (length (iB I)) - i < int n" "\<not> int (length (iB I')) - i < int n"
    using assms(2,3) by (auto simp: longer_def within_def)
  then show ?thesis using assms(4) [OF True] by (simp add: needN_def)
next
  case False
  then have "int (length (iB I)) - i < int n" using assms(3) by (auto simp: within_def)
  then show ?thesis using assms(1) by (simp add: needN_def)
qed

lemma needLen_ok:
  assumes A: "archOK A" and "safe g" and l: "longer A I I'" and w: "within I i"
    and "unat n \<le> length (iB I) - nat i \<Longrightarrow> okRes Q I i r r'"
  shows "okRes Q I i (needLen g I i n r) (needLen g I' i n r')"
proof -
  have i: "0 \<le> i" "i \<le> int (length (iB I))" "i \<le> int (length (iB I'))"
    using w longer_within [OF l w] by (simp_all add: within_def)
  have r: "unat (word_of_int (int (length (iB I)) - i) :: u64) = length (iB I) - nat i"
    "unat (word_of_int (int (length (iB I')) - i) :: u64) = length (iB I') - nat i"
    using remaining_word [OF A _ i(1,2)] remaining_word [OF A _ i(1,3)] longer_len [OF l] l
    unfolding longer_def by blast+
  have ge: "length (iB I) - nat i \<le> length (iB I') - nat i" using longer_len [OF l] by (simp add: diff_le_mono)
  show ?thesis
  proof (cases "unat n \<le> length (iB I) - nat i")
    case True
    then have "\<not> (word_of_int (int (length (iB I)) - i) :: u64) < n" "\<not> (word_of_int (int (length (iB I')) - i) :: u64) < n"
      using r ge unfolding word_less_nat_alt by simp_all
    then show ?thesis using assms(5) [OF True] by (simp only: needLen_def simp_thms if_False)
  next
    case False
    then have "(word_of_int (int (length (iB I)) - i) :: u64) < n" using r unfolding word_less_nat_alt by simp
    then show ?thesis using assms(2) by (simp only: needLen_def simp_thms if_True okRes_short)
  qed
qed

lemma varint_ok:
  assumes "safe g" "longer A I I'" "within I i"
  shows "okRes (\<lambda>_. True) I (i + 1) (varintAt g I i) (varintAt g I' i)"
proof -
  obtain t s where t: "tailAt I i = Good t" "tailAt I' i = Good (t @ s)" "length t = length (iB I) - nat i"
    using tails [OF assms(2,3)] by metis
  show ?thesis
  proof (cases "snd (Uvarint t) \<le> 0")
    case False
    then have e: "Uvarint (t @ s) = Uvarint t" by (intro Uvarint_ext) simp
    have "snd (Uvarint t) \<le> int (length t)" using Uvarint_loop_bounds [of t 0 0 0] by (simp add: Uvarint_def)
    then show ?thesis using False assms(3) t e by (simp add: varintAt_def within_def)
  qed (simp add: varintAt_def t assms(1))
qed

lemma byte_ok:
  assumes "longer A I I'" "within I i" "1 \<le> length (iB I) - nat i"
  obtains w where "byteOf I i = Good w" "byteOf I' i = Good w"
proof -
  obtain s where "iB I' = iB I @ s" using assms(1) by (auto simp: longer_def)
  moreover have "0 \<le> i" "nat i < length (iB I)" using assms(2,3) by (auto simp: within_def)
  moreover from this have "i < int (length (iB I))" by linarith
  ultimately show ?thesis using that [of "iB I ! nat i"] by (simp add: byteOf_def nth_append)
qed

lemma window_ok:
  assumes "longer A I I'" "within I i" "n \<le> length (iB I) - nat i"
  obtains bs where "windowOf I i (int n) = Good bs" "windowOf I' i (int n) = Good bs" "length bs = n"
    "i \<le> i + int n" "i + int n \<le> int (length (iB I))"
proof -
  obtain s where s: "iB I' = iB I @ s" using assms(1) by (auto simp: longer_def)
  have i: "0 \<le> i" "nat i + n \<le> length (iB I)" using assms(2,3) by (auto simp: within_def)
  then have "i + int n \<le> int (length (iB I))" by linarith
  then show ?thesis using i s by (intro that [of "take n (drop (nat i) (iB I))"]) (auto simp: windowOf_def)
qed

text \<open>The decoders of fixed-size integers, on at least as many bytes.\<close>

lemma U_split:
  "2 \<le> length t \<Longrightarrow> \<exists>w. U16 t = Ok w \<and> U16 (t @ s) = Ok w"
  "4 \<le> length t \<Longrightarrow> \<exists>w. U32 t = Ok w \<and> U32 (t @ s) = Ok w"
  "8 \<le> length t \<Longrightarrow> \<exists>w. U64 t = Ok w \<and> U64 (t @ s) = Ok w"
  by (erule length_ge_2E, simp add: U16_def) (erule length_ge_4E, simp add: U32_def, erule length_ge_8E, simp add: U64_def)

lemma fixed_ok:
  assumes l: "safe g" "longer A I I'" "within I i"
    and U: "\<And>t s. n \<le> length t \<Longrightarrow> \<exists>w. U t = Ok w \<and> U (t @ s) = Ok w" and P: "\<And>w. P (f w)"
  shows "okRes P I i (needN g I i n (dbind (tailAt I i) (\<lambda>x. dbind (ofOutcome (U x)) (\<lambda>w. Good (f w, i + int n)))))
    (needN g I' i n (dbind (tailAt I' i) (\<lambda>x. dbind (ofOutcome (U x)) (\<lambda>w. Good (f w, i + int n)))))"
proof (rule need_ok [OF l])
  assume n: "n \<le> length (iB I) - nat i"
  obtain t s where t: "tailAt I i = Good t" "tailAt I' i = Good (t @ s)" "length t = length (iB I) - nat i"
    using tails [OF l(2,3)] by metis
  obtain w where "U t = Ok w" "U (t @ s) = Ok w" using U [of t s] n t(3) by auto
  moreover have "i + int n \<le> int (length (iB I))" using n l(3) by (auto simp: within_def)
  ultimately show "okRes P I i (dbind (tailAt I i) (\<lambda>x. dbind (ofOutcome (U x)) (\<lambda>w. Good (f w, i + int n))))
     (dbind (tailAt I' i) (\<lambda>x. dbind (ofOutcome (U x)) (\<lambda>w. Good (f w, i + int n))))"
    using t P by simp
qed

lemma read_ok:
  assumes l: "safe g" "longer A I I'" "within I i"
  shows "(\<And>w. P (f2 w)) \<Longrightarrow> okRes P I i (needN g I i 2 (dbind (tailAt I i) (\<lambda>x. dbind (ofOutcome (U16 x)) (\<lambda>w. Good (f2 w, i + 2)))))
      (needN g I' i 2 (dbind (tailAt I' i) (\<lambda>x. dbind (ofOutcome (U16 x)) (\<lambda>w. Good (f2 w, i + 2)))))"
    and "(\<And>w. P (f4 w)) \<Longrightarrow> okRes P I i (needN g I i 4 (dbind (tailAt I i) (\<lambda>x. dbind (ofOutcome (U32 x)) (\<lambda>w. Good (f4 w, i + 4)))))
      (needN g I' i 4 (dbind (tailAt I' i) (\<lambda>x. dbind (ofOutcome (U32 x)) (\<lambda>w. Good (f4 w, i + 4)))))"
    and "(\<And>w. P (f8 w)) \<Longrightarrow> okRes P I i (needN g I i 8 (dbind (tailAt I i) (\<lambda>x. dbind (ofOutcome (U64 x)) (\<lambda>w. Good (f8 w, i + 8)))))
      (needN g I' i 8 (dbind (tailAt I' i) (\<lambda>x. dbind (ofOutcome (U64 x)) (\<lambda>w. Good (f8 w, i + 8)))))"
  using fixed_ok [OF l, of 2 U16 P f2] fixed_ok [OF l, of 4 U32 P f4] fixed_ok [OF l, of 8 U64 P f8]
  by (simp_all add: U_split)

subsection \<open>The contract\<close>

text \<open>
  The depth of calls that suffices: every pointer, slice, map and union reads at least one byte
  before it calls a nested decoder, so between two bytes there is only by-value nesting, and
  \<open>zero\<close> at depth \<open>k\<close> is well typed exactly when that is at most \<open>k\<close> deep.
\<close>

definition fuelOK :: "ctx \<Rightarrow> nat \<Rightarrow> gotype \<Rightarrow> nat \<Rightarrow> nat \<Rightarrow> bool" where
  "fuelOK c dd t m k \<longleftrightarrow> wt (cGen c) (cArch c) t (zero (cGen c) dd t) \<and> m * cDepth c + dd \<le> k"

definition decSafe :: "ctx \<Rightarrow> decs \<Rightarrow> nat \<Rightarrow> bool" where
  "decSafe c D k \<longleftrightarrow> (\<forall>n d dd b s sp sp' base base'. isTarget (cGen c) n
     \<longrightarrow> wt (cGen c) (cArch c) (TNamed n TStruct) d \<longrightarrow> fuelOK c dd (TNamed n TStruct) (length b) k
     \<longrightarrow> lenOK (cArch c) (length (b @ s))
     \<longrightarrow> okRes (wt (cGen c) (cArch c) (TNamed n TStruct)) \<lparr>iB = b, iSpare = sp, iBase = base\<rparr> 0
           (D n d b sp base) (D n d (b @ s) sp' base'))"

definition safeOK :: "ctx \<Rightarrow> decs \<Rightarrow> nat \<Rightarrow> gotype \<Rightarrow> bool" where
  "safeOK c D k t \<longleftrightarrow> (\<forall>I I' i d dd. longer (cArch c) I I' \<longrightarrow> within I i \<longrightarrow> wt (cGen c) (cArch c) t d
     \<longrightarrow> fuelOK c dd t (length (iB I) - nat i) k
     \<longrightarrow> okRes (wt (cGen c) (cArch c) t) I i (dec c D I t d i) (dec c D I' t d i))"

lemma safeOK_D:
  "safeOK c D k t \<Longrightarrow> longer (cArch c) I I' \<Longrightarrow> within I i \<Longrightarrow> wt (cGen c) (cArch c) t d
   \<Longrightarrow> fuelOK c dd t (length (iB I) - nat i) k
   \<Longrightarrow> okRes (wt (cGen c) (cArch c) t) I i (dec c D I t d i) (dec c D I' t d i)"
  unfolding safeOK_def by blast

lemma within_later: "within I i \<Longrightarrow> i \<le> j \<Longrightarrow> j \<le> int (length (iB I)) \<Longrightarrow> within I j"
  by (simp add: within_def)

lemma fuelOK_later:
  assumes "fuelOK c dd t (length (iB I) - nat i) k" "i \<le> j"
  shows "fuelOK c dd t (length (iB I) - nat j) k"
proof -
  have "(length (iB I) - nat j) * cDepth c \<le> (length (iB I) - nat i) * cDepth c"
    using assms(2) by (intro mult_le_mono1 diff_le_mono2) simp
  then show ?thesis using assms(1) unfolding fuelOK_def by linarith
qed

text \<open>After a byte has been read, the depth for by-value nesting is available again.\<close>

lemma fuelOK_read:
  assumes "fuelOK c dd t (length (iB I) - nat i) k" "within I i" "i + 1 \<le> j" "j \<le> int (length (iB I))"
    and "wt (cGen c) (cArch c) e (zero (cGen c) (cDepth c) e)"
  shows "fuelOK c (cDepth c) e (length (iB I) - nat j) k"
proof -
  have "0 \<le> i" "i < int (length (iB I))" using assms(2-4) by (auto simp: within_def)
  then have "Suc (length (iB I) - nat j) \<le> length (iB I) - nat i" using assms(3,4) by linarith
  then have "Suc (length (iB I) - nat j) * cDepth c \<le> (length (iB I) - nat i) * cDepth c" by (rule mult_le_mono1)
  then show ?thesis using assms(1,5) unfolding fuelOK_def by simp
qed

lemma nested_ok:
  assumes D: "decSafe c D k" and s: "safe (cGen c)" and l: "longer (cArch c) I I'" "within I i" and n: "isTarget (cGen c) n"
    and d: "wt (cGen c) (cArch c) (TNamed n TStruct) d" and f: "fuelOK c dd (TNamed n TStruct) (length (iB I) - nat i) k"
  shows "okRes (wt (cGen c) (cArch c) (TNamed n TStruct)) I i (nested (cGen c) D I n d i) (nested (cGen c) D I' n d i)"
proof -
  obtain t s where t: "tailAt I i = Good t" "tailAt I' i = Good (t @ s)" "length t = length (iB I) - nat i" "iB I' = iB I @ s"
    using tails [OF l] by metis
  have len: "lenOK (cArch c) (length (t @ s))"
    by (rule lenOK_mono [of _ "length (iB I')"]) (use l(1) t(3,4) in \<open>auto simp: longer_def\<close>)
  let ?r = "D n d t (iSpare I) (iBase I + nat i)" and ?r' = "D n d (t @ s) (iSpare I') (iBase I' + nat i)"
  have ok: "okRes (wt (cGen c) (cArch c) (TNamed n TStruct)) \<lparr>iB = t, iSpare = iSpare I, iBase = iBase I + nat i\<rparr> 0 ?r ?r'"
    using D n d f len unfolding decSafe_def t(3) [symmetric] by blast
  have i: "0 \<le> i" "i \<le> int (length (iB I))" using l(2) by (simp_all add: within_def)
  show ?thesis
  proof (cases ?r)
    case (Good p)
    then show ?thesis using ok t i s by (cases p) (auto simp: nested_def)
  next
    case (Bad e)
    then show ?thesis using ok t s by (auto simp: nested_def okRes_def)
  qed (use ok in \<open>simp_all add: okRes_def\<close>)
qed

subsection \<open>Times and basic values\<close>

lemma time_ok:
  assumes s: "safe (cGen c)" and l: "longer (cArch c) I I'" "within I i" and t: "isTime t"
  shows "okRes (wt (cGen c) (cArch c) t) I i (dec c D I t d i) (dec c D I' t d i)"
  using t by (auto simp: dec.simps [of c D _ t] wt.simps [of _ _ t] timeUnixUTC_def intro!: read_ok(3) [OF s l])

lemma conv64_wtBasic:
  "archOK A \<Longrightarrow> underlying t = TBasic k \<Longrightarrow> k \<in> {KUint64, KInt64, KUint, KInt} \<Longrightarrow> wtBasic A k (V64 (conv64 A t w))"
proof -
  assume A: "archOK A" and t: "underlying t = TBasic k" and k: "k \<in> {KUint64, KInt64, KUint, KInt}"
  have w: "8 * wsize A \<le> 64" "8 * wsize A - 1 < 64" using A by (auto simp: archOK_def)
  have "word_of_int (signed_take_bit (8 * wsize A - 1) (uint (word_of_int (signed_take_bit (8 * wsize A - 1) (uint w)) :: u64)))
      = (word_of_int (signed_take_bit (8 * wsize A - 1) (uint w)) :: u64)"
  proof -
    have "signed_take_bit (8 * wsize A - 1) (take_bit 64 (signed_take_bit (8 * wsize A - 1) (uint w)))
        = signed_take_bit (8 * wsize A - 1) (uint w)"
      using w(2) by (simp add: signed_take_bit_take_bit)
    then show ?thesis by (simp add: unsigned_of_int)
  qed
  then show ?thesis using k t by (auto simp: wtBasic_def conv64_def)
qed

lemma basic_ok:
  assumes A: "archOK (cArch c)" and s: "safe (cGen c)" and l: "longer (cArch c) I I'" "within I i"
    and t: "\<not> isTime t" "underlying t = TBasic k" and sup: "supported (cGen c) t = None"
  shows "okRes (wt (cGen c) (cArch c) t) I i (dec c D I t d i) (dec c D I' t d i)"
proof -
  have k: "supportedBasic k" using sup t by (simp add: supported.simps [of _ t] split: if_splits)
  have wt: "wt (cGen c) (cArch c) t = wtBasic (cArch c) k" using t by (intro ext) (simp add: wt.simps [of _ _ t])
  have dec: "dec c D J t d i = decBasic c J t k d i" for J using t by (simp add: dec.simps [of c D J t])
  show ?thesis
  proof (cases "k = KString")
    case True
    let ?f = "\<lambda>J (nn, i). needLen (cGen c) J i nn (dbind (windowOf J i (goInt (cArch c) nn)) (\<lambda>bs.
        Good (VStr (if safe (cGen c) then Own else Input (iBase J + nat i)) bs, i + goInt (cArch c) nn)))"
    have "okRes (wtBasic (cArch c) k) I (i + 1) (dbind (varintAt (cGen c) I i) (?f I)) (dbind (varintAt (cGen c) I' i) (?f I'))"
    proof (rule okRes_bind [OF varint_ok [OF s l]])
      fix nn j assume j: "i + 1 \<le> j" "j \<le> int (length (iB I))"
      have w: "within I j" using within_later [OF l(2)] j by simp
      have "okRes (wtBasic (cArch c) k) I j (?f I (nn, j)) (?f I' (nn, j))"
        unfolding prod.case
      proof (rule needLen_ok [OF A s l(1) w])
        assume n: "unat nn \<le> length (iB I) - nat j"
        have len: "lenOK (cArch c) (unat nn)" using longer_len [OF l(1)] n by (auto elim: lenOK_mono)
        have g: "goInt (cArch c) nn = int (unat nn)" using goInt_len [OF A len] by simp
        obtain bs where "windowOf I j (int (unat nn)) = Good bs" "windowOf I' j (int (unat nn)) = Good bs"
            "length bs = unat nn" "j \<le> j + int (unat nn)" "j + int (unat nn) \<le> int (length (iB I))"
          using window_ok [OF l(1) w n] .
        then show "okRes (wtBasic (cArch c) k) I j
            (dbind (windowOf I j (goInt (cArch c) nn)) (\<lambda>bs. Good (VStr (if safe (cGen c) then Own else Input (iBase I + nat j)) bs, j + goInt (cArch c) nn)))
            (dbind (windowOf I' j (goInt (cArch c) nn)) (\<lambda>bs. Good (VStr (if safe (cGen c) then Own else Input (iBase I' + nat j)) bs, j + goInt (cArch c) nn)))"
          using len s by (simp add: g wtBasic_def True)
      qed
      then show "okRes (wtBasic (cArch c) k) I (i + 1) (?f I (nn, j)) (?f I' (nn, j))"
        using j(1) by (rule okRes_mono) simp
    qed
    then have "okRes (wtBasic (cArch c) k) I i (dbind (varintAt (cGen c) I i) (?f I)) (dbind (varintAt (cGen c) I' i) (?f I'))"
      by (rule okRes_mono) simp_all
    then show ?thesis by (simp add: dec wt True decBasic_def Let_def)
  next
    case False
    have byte: "okRes (wtBasic (cArch c) k) I i (needN (cGen c) I i (Suc 0) (dbind (byteOf I i) (\<lambda>w. Good (f w, i + 1))))
        (needN (cGen c) I' i (Suc 0) (dbind (byteOf I' i) (\<lambda>w. Good (f w, i + 1))))"
      if "\<And>w. wtBasic (cArch c) k (f w)" for f
    proof (rule need_ok [OF s l])
      assume n: "Suc 0 \<le> length (iB I) - nat i"
      obtain w where w: "byteOf I i = Good w" "byteOf I' i = Good w" using byte_ok [OF l] n by auto
      have "i + 1 \<le> int (length (iB I))" using n l(2) by (auto simp: within_def)
      then show "okRes (wtBasic (cArch c) k) I i (dbind (byteOf I i) (\<lambda>w. Good (f w, i + 1))) (dbind (byteOf I' i) (\<lambda>w. Good (f w, i + 1)))"
        using w that by simp
    qed
    note f = read_ok(1) [OF s l, of "wtBasic (cArch c) k" V16] read_ok(2) [OF s l, of "wtBasic (cArch c) k" V32]
      read_ok(3) [OF s l, of "wtBasic (cArch c) k" V64] read_ok(3) [OF s l, of "wtBasic (cArch c) k" "\<lambda>w. V64 (conv64 (cArch c) t w)"]
    show ?thesis using k False byte [of V8] byte [of "\<lambda>w. VBool (w \<noteq> 0)"] f conv64_wtBasic [OF A t(2)] unfolding dec wt
      by (cases k) (simp_all add: supportedBasic_def wtBasic_def decBasic_def Let_def)
  qed
qed
subsection \<open>Loops\<close>

lemma elems_ok:
  assumes ok: "\<And>d i. P d \<Longrightarrow> within I i \<Longrightarrow> i0 \<le> i \<Longrightarrow> okRes P I i (F d i) (F' d i)"
  shows "\<forall>d \<in> set ds. P d \<Longrightarrow> within I i \<Longrightarrow> i0 \<le> i \<Longrightarrow>
    okRes (\<lambda>xs. length xs = length ds \<and> (\<forall>x \<in> set xs. P x)) I i (decElems F ds i) (decElems F' ds i)"
proof (induction ds arbitrary: i)
  case (Cons d ds)
  show ?case
    unfolding decElems.simps
  proof (rule okRes_bind [where P = P])
    show "okRes P I i (F d i) (F' d i)" using Cons.prems by (intro ok) simp_all
  next
    fix x j assume x: "P x" "i \<le> j" "j \<le> int (length (iB I))"
    have "okRes (\<lambda>xs. length xs = length ds \<and> (\<forall>x \<in> set xs. P x)) I j (decElems F ds j) (decElems F' ds j)"
      using Cons.prems x within_later [OF Cons.prems(2) x(2,3)] by (intro Cons.IH) simp_all
    then have "okRes (\<lambda>xs. length xs = length (d # ds) \<and> (\<forall>x \<in> set xs. P x)) I j
        (dbind (decElems F ds j) (\<lambda>(xs', k). Good (x # xs', k))) (dbind (decElems F' ds j) (\<lambda>(xs', k). Good (x # xs', k)))"
      by (rule okRes_bind) (use x in simp)
    then show "okRes (\<lambda>xs. length xs = length (d # ds) \<and> (\<forall>x \<in> set xs. P x)) I i
       (case (x, j) of (x', i') \<Rightarrow> dbind (decElems F ds i') (\<lambda>(xs', j). Good (x' # xs', j)))
       (case (x, j) of (x', i') \<Rightarrow> dbind (decElems F' ds i') (\<lambda>(xs', j). Good (x' # xs', j)))"
      using x(2) by (auto elim: okRes_mono)
  qed
qed (simp add: within_def)

lemma mapPut_all:
  "\<forall>p \<in> set m. K (fst p) \<and> V (snd p) \<Longrightarrow> K a \<Longrightarrow> V b
   \<Longrightarrow> length (mapPut g t m a b) \<le> Suc (length m) \<and> (\<forall>p \<in> set (mapPut g t m a b). K (fst p) \<and> V (snd p))"
  by (induction g t m a b rule: mapPut.induct) auto

lemma entries_ok:
  assumes k: "\<And>i. within I i \<Longrightarrow> i0 \<le> i \<Longrightarrow> okRes K I i (fk i) (fk' i)"
    and v: "\<And>i. within I i \<Longrightarrow> i0 \<le> i \<Longrightarrow> okRes V I i (fv i) (fv' i)"
  shows "\<forall>p \<in> set m. K (fst p) \<and> V (snd p) \<Longrightarrow> within I i \<Longrightarrow> i0 \<le> i \<Longrightarrow>
    okRes (\<lambda>m'. length m' \<le> length m + n \<and> (\<forall>p \<in> set m'. K (fst p) \<and> V (snd p))) I i
      (decEntries fk fv (\<lambda>a b kvs. mapPut g t kvs a b) n m i) (decEntries fk' fv' (\<lambda>a b kvs. mapPut g t kvs a b) n m i)"
proof (induction n arbitrary: m i)
  case (Suc n)
  let ?P = "\<lambda>m'. length m' \<le> length m + Suc n \<and> (\<forall>p \<in> set m'. K (fst p) \<and> V (snd p))"
  show ?case
    unfolding decEntries.simps
  proof (rule okRes_bind [OF k [OF Suc.prems(2,3)]])
    fix a j assume a: "K a" "i \<le> j" "j \<le> int (length (iB I))"
    have wj: "within I j" using within_later [OF Suc.prems(2) a(2,3)] .
    have "okRes ?P I j (dbind (fv j) (\<lambda>(v, i2). decEntries fk fv (\<lambda>a b kvs. mapPut g t kvs a b) n (mapPut g t m a v) i2))
        (dbind (fv' j) (\<lambda>(v, i2). decEntries fk' fv' (\<lambda>a b kvs. mapPut g t kvs a b) n (mapPut g t m a v) i2))"
    proof (rule okRes_bind [OF v [OF wj]])
      show "i0 \<le> j" using Suc.prems(3) a(2) by simp
    next
      fix b l assume b: "V b" "j \<le> l" "l \<le> int (length (iB I))"
      note put = mapPut_all [OF Suc.prems(1) a(1) b(1), of g t]
      have "okRes (\<lambda>m'. length m' \<le> length (mapPut g t m a b) + n \<and> (\<forall>p \<in> set m'. K (fst p) \<and> V (snd p))) I l
          (decEntries fk fv (\<lambda>a b kvs. mapPut g t kvs a b) n (mapPut g t m a b) l)
          (decEntries fk' fv' (\<lambda>a b kvs. mapPut g t kvs a b) n (mapPut g t m a b) l)"
        using put within_later [OF wj b(2,3)] Suc.prems(3) a(2) b(2) by (intro Suc.IH) simp_all
      then have "okRes ?P I j (decEntries fk fv (\<lambda>a b kvs. mapPut g t kvs a b) n (mapPut g t m a b) l)
          (decEntries fk' fv' (\<lambda>a b kvs. mapPut g t kvs a b) n (mapPut g t m a b) l)"
        using b(2) by (rule okRes_mono) (use put in auto)
      then show "okRes ?P I j (case (b, l) of (v, i2) \<Rightarrow> decEntries fk fv (\<lambda>a b kvs. mapPut g t kvs a b) n (mapPut g t m a v) i2)
          (case (b, l) of (v, i2) \<Rightarrow> decEntries fk' fv' (\<lambda>a b kvs. mapPut g t kvs a b) n (mapPut g t m a v) i2)" by simp
    qed
    then show "okRes ?P I i
        (case (a, j) of (k, i1) \<Rightarrow> dbind (fv i1) (\<lambda>(v, i2). decEntries fk fv (\<lambda>a b kvs. mapPut g t kvs a b) n (mapPut g t m k v) i2))
        (case (a, j) of (k, i1) \<Rightarrow> dbind (fv' i1) (\<lambda>(v, i2). decEntries fk' fv' (\<lambda>a b kvs. mapPut g t kvs a b) n (mapPut g t m k v) i2))"
      unfolding prod.case using a(2) by (rule okRes_mono)
  qed
qed (simp add: within_def)

text \<open>A length prefix, its nil case and its guard.\<close>

lemma len_ok:
  assumes A: "archOK (cArch c)" and s: "safe (cGen c)" and l: "longer (cArch c) I I'" "within I i" and nil: "P (nilOf t)"
    and body: "\<And>nn j. nn \<noteq> 0 \<Longrightarrow> unat nn \<le> length (iB I) - nat j \<Longrightarrow> i + 1 \<le> j \<Longrightarrow> within I j \<Longrightarrow> lenOK (cArch c) (unat nn)
      \<Longrightarrow> okRes P I j (f nn j) (f' nn j)"
  shows "okRes P I i
     (dbind (varintAt (cGen c) I i) (\<lambda>(nn, i). if nn = 0 then Good (nilOf t, i) else needLen (cGen c) I i nn (f nn i)))
     (dbind (varintAt (cGen c) I' i) (\<lambda>(nn, i). if nn = 0 then Good (nilOf t, i) else needLen (cGen c) I' i nn (f' nn i)))"
proof (rule okRes_mono [where j = "i + 1"])
  show "okRes P I (i + 1)
     (dbind (varintAt (cGen c) I i) (\<lambda>(nn, i). if nn = 0 then Good (nilOf t, i) else needLen (cGen c) I i nn (f nn i)))
     (dbind (varintAt (cGen c) I' i) (\<lambda>(nn, i). if nn = 0 then Good (nilOf t, i) else needLen (cGen c) I' i nn (f' nn i)))"
  proof (rule okRes_bind [OF varint_ok [OF s l]])
    fix nn j assume j: "i + 1 \<le> j" "j \<le> int (length (iB I))"
    have w: "within I j" using within_later [OF l(2)] j by simp
    have "okRes P I j (needLen (cGen c) I j nn (f nn j)) (needLen (cGen c) I' j nn (f' nn j))" if "nn \<noteq> 0"
    proof (rule needLen_ok [OF A s l(1) w])
      assume n: "unat nn \<le> length (iB I) - nat j"
      have "lenOK (cArch c) (unat nn)" using longer_len [OF l(1)] n by (auto elim: lenOK_mono)
      then show "okRes P I j (f nn j) (f' nn j)" using body that n j(1) w by blast
    qed
    then have "nn \<noteq> 0 \<Longrightarrow> okRes P I (i + 1) (needLen (cGen c) I j nn (f nn j)) (needLen (cGen c) I' j nn (f' nn j))"
      using j(1) by (auto elim: okRes_mono)
    then show "okRes P I (i + 1)
        (case (nn, j) of (nn, i) \<Rightarrow> if nn = 0 then Good (nilOf t, i) else needLen (cGen c) I i nn (f nn i))
        (case (nn, j) of (nn, i) \<Rightarrow> if nn = 0 then Good (nilOf t, i) else needLen (cGen c) I' i nn (f' nn i))"
      using nil j by simp
  qed
qed simp_all
subsection \<open>Slices, arrays and pointers\<close>

lemma safe_not_blit: "safe g \<Longrightarrow> \<not> blitElem g e"
  using isBlit_fields(1) by (blast elim: blitElem_named)

lemma wt_slice:
  "\<not> isTime t \<Longrightarrow> underlying t = TSlice e \<Longrightarrow> wt g A t (VSlice q xs ys) \<longleftrightarrow> lenOK A (length xs + length ys)
     \<and> (\<forall>x \<in> set xs. wt g A e x) \<and> (\<forall>x \<in> set ys. wt g A e x)"
  by (simp add: wt.simps [of g A t])

lemma slice_ok:
  assumes A: "archOK (cArch c)" and s: "safe (cGen c)" and l: "longer (cArch c) I I'" "within I i"
    and e: "safeOK c D k e" and z: "wt (cGen c) (cArch c) e (zero (cGen c) (cDepth c) e)"
    and t: "\<not> isTime t" "underlying t = TSlice e" and d: "wt (cGen c) (cArch c) t d"
    and f: "fuelOK c dd t (length (iB I) - nat i) k"
  shows "okRes (wt (cGen c) (cArch c) t) I i (dec c D I t d i) (dec c D I' t d i)"
  unfolding dec_slice [OF t]
proof (rule len_ok [OF A s l])
  show "wt (cGen c) (cArch c) t (nilOf t)" using t by (simp add: nilOf_def wt.simps [of _ _ t])
next
  fix nn :: u64 and j
  assume n: "nn \<noteq> 0" "unat nn \<le> length (iB I) - nat j" and j: "i + 1 \<le> j" "within I j" and len: "lenOK (cArch c) (unat nn)"
  let ?n = "unat nn"
  have g: "goInt (cArch c) nn = int ?n" "nn = of_nat ?n" using goInt_len [OF A len] by simp_all
  have n0: "0 < ?n" using n(1) by (metis gr0I unsigned_eq_0_iff)
  show "okRes (wt (cGen c) (cArch c) t) I j
     (if isBytes e then bytesInto c I d (nn, j) else dbind (reuse c t nn d) (\<lambda>v. sliceInto c D I e v (nn, j)))
     (if isBytes e then bytesInto c I' d (nn, j) else dbind (reuse c t nn d) (\<lambda>v. sliceInto c D I' e v (nn, j)))"
  proof (cases "isBytes e")
    case True
    have eb: "e = TBasic KUint8" using True by (auto simp: isBytes_def split: gotype.splits)
    have w8: "wt (cGen c) (cArch c) e (V8 w)" for w by (simp add: eb wt.simps [of _ _ "TBasic KUint8"] isTime_def wtBasic_def)
    obtain bs where bs: "windowOf I j (int ?n) = Good bs" "windowOf I' j (int ?n) = Good bs" "length bs = ?n"
        "j \<le> j + int ?n" "j + int ?n \<le> int (length (iB I))" using window_ok [OF l(1) j(2) n(2)] .
    have "d = VNilSlice \<or> (\<exists>p xs ys. d = VSlice p xs ys)" using d t by (auto simp: wt.simps [of _ _ t] split: val.splits)
    then show ?thesis
      using True s bs n0 len d w8
      by (auto simp: bytesInto_def g(1) wt_slice [OF t] lenOK_def dest!: in_set_dropD)
  next
    case False
    obtain q ds zs where r: "reuse c t nn d = Good (VSlice q ds zs)" "length ds = ?n"
        "\<And>x. x \<in> set ds \<Longrightarrow> wt (cGen c) (cArch c) e x" "wt (cGen c) (cArch c) t (VSlice q ds zs)"
      using reuse_wt [OF A t z d len n0] unfolding g(2) [symmetric] by metis
    have into: "sliceInto c D J e (VSlice q ds zs) (nn, j)
        = dbind (decElems (dec c D J e) ds j) (\<lambda>(xs', i). Good (VSlice q xs' zs, i))" for J
      using s safe_not_blit [OF s] by (simp add: sliceInto_def elemsInto_def elemsOf_def setElems_def)
    have "okRes (\<lambda>xs. length xs = length ds \<and> (\<forall>x \<in> set xs. wt (cGen c) (cArch c) e x)) I j
        (decElems (dec c D I e) ds j) (decElems (dec c D I' e) ds j)"
    proof (rule elems_ok [where P = "wt (cGen c) (cArch c) e", OF _ _ j(2) order_refl])
      fix d i' assume "wt (cGen c) (cArch c) e d" "within I i'" "j \<le> i'"
      then show "okRes (wt (cGen c) (cArch c) e) I i' (dec c D I e d i') (dec c D I' e d i')"
        using fuelOK_read [OF f l(2) _ _ z, of i'] j(1) by (intro safeOK_D [OF e l(1)]) (auto simp: within_def)
    qed (use r(3) in blast)
    then have "okRes (wt (cGen c) (cArch c) t) I j
        (dbind (decElems (dec c D I e) ds j) (\<lambda>(xs', i). Good (VSlice q xs' zs, i)))
        (dbind (decElems (dec c D I' e) ds j) (\<lambda>(xs', i). Good (VSlice q xs' zs, i)))"
      by (rule okRes_bind) (use r(4) in \<open>simp add: wt_slice [OF t]\<close>)
    then show ?thesis using False r(1) into by simp
  qed
qed

lemma array_ok:
  assumes A: "archOK (cArch c)" and s: "safe (cGen c)" and l: "longer (cArch c) I I'" "within I i"
    and e: "safeOK c D k e" and t: "\<not> isTime t" "underlying t = TArray n e" and d: "wt (cGen c) (cArch c) t d"
    and f: "fuelOK c dd t (length (iB I) - nat i) k"
  shows "okRes (wt (cGen c) (cArch c) t) I i (dec c D I t d i) (dec c D I' t d i)"
proof -
  obtain ds where ds: "d = VArr ds" "length ds = n" "\<forall>x \<in> set ds. wt (cGen c) (cArch c) e x"
    using d t by (auto simp: wt.simps [of _ _ t] split: val.splits)
  show ?thesis
  proof (cases "isByteArray e")
    case True
    have eb: "e = TBasic KUint8" using True by (auto simp: isByteArray_def split: gotype.splits)
    have w8: "wt (cGen c) (cArch c) e (V8 w)" for w by (simp add: eb wt.simps [of _ _ "TBasic KUint8"] isTime_def wtBasic_def)
    have "okRes (wt (cGen c) (cArch c) t) I i
        (needN (cGen c) I i n (dbind (windowOf I i (int n)) (\<lambda>bs. Good (VArr (map V8 bs), i + int n))))
        (needN (cGen c) I' i n (dbind (windowOf I' i (int n)) (\<lambda>bs. Good (VArr (map V8 bs), i + int n))))"
    proof (rule need_ok [OF s l])
      assume "n \<le> length (iB I) - nat i"
      then obtain bs where "windowOf I i (int n) = Good bs" "windowOf I' i (int n) = Good bs" "length bs = n"
          "i \<le> i + int n" "i + int n \<le> int (length (iB I))" using window_ok [OF l] by metis
      then show "okRes (wt (cGen c) (cArch c) t) I i (dbind (windowOf I i (int n)) (\<lambda>bs. Good (VArr (map V8 bs), i + int n)))
          (dbind (windowOf I' i (int n)) (\<lambda>bs. Good (VArr (map V8 bs), i + int n)))"
        using t w8 by (auto simp: wt.simps [of _ _ t])
    qed
    then show ?thesis using True t ds by (simp add: dec.simps [of c D _ t])
  next
    case False
    have into: "dec c D J t d i = dbind (decElems (dec c D J e) ds i) (\<lambda>(xs', i). Good (VArr xs', i))" for J
      using False s safe_not_blit [OF s] t ds by (simp add: dec.simps [of c D J t])
    have "okRes (\<lambda>xs. length xs = length ds \<and> (\<forall>x \<in> set xs. wt (cGen c) (cArch c) e x)) I i
        (decElems (dec c D I e) ds i) (decElems (dec c D I' e) ds i)"
    proof (cases "n = 0")
      case True
      then show ?thesis using ds(2) l(2) by (simp add: within_def)
    next
      case nz: False
      then have fe: "fuelOK c dd e (length (iB I) - nat i) k"
        using f t by (auto simp: fuelOK_def zero.simps [of _ _ t] wt.simps [of _ _ t])
      show ?thesis
      proof (rule elems_ok [where P = "wt (cGen c) (cArch c) e", OF _ ds(3) l(2) order_refl])
        fix d i' assume "wt (cGen c) (cArch c) e d" "within I i'" "i \<le> i'"
        then show "okRes (wt (cGen c) (cArch c) e) I i' (dec c D I e d i') (dec c D I' e d i')"
          using fuelOK_later [OF fe] by (intro safeOK_D [OF e l(1)])
      qed
    qed
    then show ?thesis unfolding into by (rule okRes_bind) (use t ds(2) in \<open>simp add: wt.simps [of _ _ t]\<close>)
  qed
qed

lemma pointer_ok:
  assumes s: "safe (cGen c)" and l: "longer (cArch c) I I'" "within I i"
    and e: "safeOK c D k e" and z: "wt (cGen c) (cArch c) e (zero (cGen c) (cDepth c) e)"
    and t: "\<not> isTime t" "underlying t = TPointer e" and d: "wt (cGen c) (cArch c) t d"
    and f: "fuelOK c dd t (length (iB I) - nat i) k"
  shows "okRes (wt (cGen c) (cArch c) t) I i (dec c D I t d i) (dec c D I' t d i)"
proof -
  obtain p where p: "d = VPtr p" "\<And>x. p = Some x \<Longrightarrow> wt (cGen c) (cArch c) e x"
    using d t by (auto simp: wt.simps [of _ _ t] split: val.splits option.splits)
  let ?old = "case p of Some x \<Rightarrow> x | None \<Rightarrow> zero (cGen c) (cDepth c) e"
  let ?some = "\<lambda>J. dbind (dec c D J e ?old (i + 1)) (\<lambda>(x, i). Good (VPtr (Some x), i))"
  have dec: "dec c D J t d i = needN (cGen c) J i 1 (dbind (byteOf J i) (\<lambda>w. if w \<noteq> 0 then ?some J else Good (nilOf t, i + 1)))" for J
    using t p(1) by (simp add: dec.simps [of c D J t] Let_def)
  show ?thesis
    unfolding dec
  proof (rule need_ok [OF s l])
    assume n: "1 \<le> length (iB I) - nat i"
    obtain w where w: "byteOf I i = Good w" "byteOf I' i = Good w" using byte_ok [OF l n] .
    have i1: "i + 1 \<le> int (length (iB I))" using n l(2) by (auto simp: within_def)
    have "okRes (wt (cGen c) (cArch c) e) I (i + 1) (dec c D I e ?old (i + 1)) (dec c D I' e ?old (i + 1))"
      using fuelOK_read [OF f l(2) order_refl i1 z] within_later [OF l(2) _ i1] p(2) z
      by (intro safeOK_D [OF e l(1)]) (auto split: option.split)
    then have "okRes (wt (cGen c) (cArch c) t) I (i + 1) (?some I) (?some I')"
      by (rule okRes_bind) (use t in \<open>simp add: wt.simps [of _ _ t]\<close>)
    then have "okRes (wt (cGen c) (cArch c) t) I i (?some I) (?some I')" by (rule okRes_mono) simp_all
    moreover have "wt (cGen c) (cArch c) t (nilOf t)" using t by (simp add: nilOf_def wt.simps [of _ _ t])
    ultimately show "okRes (wt (cGen c) (cArch c) t) I i
       (dbind (byteOf I i) (\<lambda>w. if w \<noteq> 0 then ?some I else Good (nilOf t, i + 1)))
       (dbind (byteOf I' i) (\<lambda>w. if w \<noteq> 0 then ?some I' else Good (nilOf t, i + 1)))"
      using w i1 by simp
  qed
qed
subsection \<open>Maps, structs and unions\<close>

lemma map_ok:
  assumes A: "archOK (cArch c)" and s: "safe (cGen c)" and l: "longer (cArch c) I I'" "within I i"
    and ok: "safeOK c D m k" "safeOK c D m e"
    and z: "wt (cGen c) (cArch c) k (zero (cGen c) (cDepth c) k)" "wt (cGen c) (cArch c) e (zero (cGen c) (cDepth c) e)"
    and t: "\<not> isTime t" "underlying t = TMap k e" and d: "wt (cGen c) (cArch c) t d"
    and f: "fuelOK c dd t (length (iB I) - nat i) m"
  shows "okRes (wt (cGen c) (cArch c) t) I i (dec c D I t d i) (dec c D I' t d i)"
  unfolding dec_map [OF t]
proof (rule len_ok [OF A s l])
  show "wt (cGen c) (cArch c) t (nilOf t)" using t by (simp add: nilOf_def wt.simps [of _ _ t])
next
  fix nn :: u64 and j
  assume n: "unat nn \<le> length (iB I) - nat j" and j: "i + 1 \<le> j" "within I j" and len: "lenOK (cArch c) (unat nn)"
  let ?dec = "\<lambda>J t i. dec c D J t (zero (cGen c) (cDepth c) t) i"
  have entry: "okRes (wt (cGen c) (cArch c) t') I i' (?dec I t' i') (?dec I' t' i')"
    if "within I i'" "j \<le> i'" "t' = k \<or> t' = e" for i' t'
    using that ok z fuelOK_read [OF f l(2) _ _ z(1), of i'] fuelOK_read [OF f l(2) _ _ z(2), of i'] j(1)
    by (auto simp: within_def intro!: safeOK_D [OF _ l(1)])
  have "okRes (\<lambda>m'. length m' \<le> length ([] :: (val \<times> val) list) + unat nn \<and> (\<forall>p \<in> set m'. wt (cGen c) (cArch c) k (fst p) \<and> wt (cGen c) (cArch c) e (snd p))) I j
      (decEntries (?dec I k) (?dec I e) (\<lambda>a b kvs. mapPut (cGen c) k kvs a b) (unat nn) [] j)
      (decEntries (?dec I' k) (?dec I' e) (\<lambda>a b kvs. mapPut (cGen c) k kvs a b) (unat nn) [] j)"
    by (rule entries_ok [where K = "wt (cGen c) (cArch c) k" and V = "wt (cGen c) (cArch c) e" and i0 = j])
      (use j(2) entry in auto)
  then have "okRes (wt (cGen c) (cArch c) t) I j
      (dbind (decEntries (?dec I k) (?dec I e) (\<lambda>a b kvs. mapPut (cGen c) k kvs a b) (unat nn) [] j) (\<lambda>(kvs, i). Good (VMap kvs, i)))
      (dbind (decEntries (?dec I' k) (?dec I' e) (\<lambda>a b kvs. mapPut (cGen c) k kvs a b) (unat nn) [] j) (\<lambda>(kvs, i). Good (VMap kvs, i)))"
    by (rule okRes_bind) (use t len in \<open>auto simp: wt.simps [of _ _ t] elim: lenOK_mono\<close>)
  moreover have "case d of VMap kvs \<Rightarrow> True | VNilMap \<Rightarrow> True | _ \<Rightarrow> False"
    using d t by (auto simp: wt.simps [of _ _ t] split: val.splits)
  ultimately show "okRes (wt (cGen c) (cArch c) t) I j (entriesInto c D I k e d (nn, j)) (entriesInto c D I' k e d (nn, j))"
    by (simp add: entriesInto_def)
qed

lemma struct_ok:
  assumes D: "decSafe c D k" and s: "safe (cGen c)" and l: "longer (cArch c) I I'" "within I i"
    and t: "\<not> isTime t" "t = TNamed n u" "underlying u = TStruct" "isTarget (cGen c) n"
    and d: "wt (cGen c) (cArch c) t d" and f: "fuelOK c dd t (length (iB I) - nat i) k"
  shows "okRes (wt (cGen c) (cArch c) t) I i (dec c D I t d i) (dec c D I' t d i)"
proof -
  have wt: "wt (cGen c) (cArch c) t = wt (cGen c) (cArch c) (TNamed n TStruct)"
    unfolding t(2) using wt_named_struct [OF t(3)] by blast
  have "fuelOK c dd (TNamed n TStruct) (length (iB I) - nat i) k"
    using f unfolding fuelOK_def wt unfolding t(2) zero_named_struct [OF t(3)] .
  moreover have "dec c D J t d i = nested (cGen c) D J n d i" for J
    using t(1,3) unfolding t(2) by (simp add: dec.simps [of c D J "TNamed n u"])
  ultimately show ?thesis using nested_ok [OF D s l t(4)] d unfolding wt by metis
qed

lemma tagged_target:
  assumes "map_of (map (\<lambda>(k, m). (of_nat k :: u64, m)) (taggedMembers g t)) nn = Some m" and wf: "wfGen g"
  shows "memberTag g t m \<noteq> None" "isTarget g m"
proof -
  obtain k where "(k, m) \<in> set (taggedMembers g t)" using map_of_SomeD [OF assms(1)] by auto
  then have "m \<in> fst ` set (map (\<lambda>(k, n). (n, k)) (taggedMembers g t))" by force
  then show "memberTag g t m \<noteq> None" by (simp only: memberTag_def map_of_eq_None_iff not_not)
  then show "isTarget g m" using memberTag_target(1) [OF wf] by blast
qed

lemma iface_ok:
  assumes wf: "wfGen (cGen c)" and z: "zerosOK c" and D: "decSafe c D k" and s: "safe (cGen c)"
    and l: "longer (cArch c) I I'" "within I i" and t: "\<not> isTime t" "underlying t = TInterface"
    and d: "wt (cGen c) (cArch c) t d" and f: "fuelOK c dd t (length (iB I) - nat i) k"
  shows "okRes (wt (cGen c) (cArch c) t) I i (dec c D I t d i) (dec c D I' t d i)"
proof (rule okRes_mono [where j = "i + 1"])
  show "okRes (wt (cGen c) (cArch c) t) I (i + 1) (dec c D I t d i) (dec c D I' t d i)"
    unfolding dec_iface [OF t]
  proof (rule okRes_bind [OF varint_ok [OF s l]])
    fix nn j assume j: "i + 1 \<le> j" "j \<le> int (length (iB I))"
    have w: "within I j" using within_later [OF l(2)] j by simp
    let ?m = "map_of (map (\<lambda>(k, m). (of_nat k :: u64, m)) (taggedMembers (cGen c) t)) nn"
    have some: "okRes (wt (cGen c) (cArch c) t) I (i + 1)
        (dbind (nested (cGen c) D I m (memberOld c m d) j) (\<lambda>(x, i). Good (VIface m (Some x), i)))
        (dbind (nested (cGen c) D I' m (memberOld c m d) j) (\<lambda>(x, i). Good (VIface m (Some x), i)))" if "?m = Some m" for m
    proof -
      note m = tagged_target [OF that wf]
      have zm: "wt (cGen c) (cArch c) (TNamed m TStruct) (zero (cGen c) (cDepth c) (TNamed m TStruct))"
        using z m(2) unfolding zerosOK_def isTarget_set by blast
      have "okRes (wt (cGen c) (cArch c) (TNamed m TStruct)) I j (nested (cGen c) D I m (memberOld c m d) j)
          (nested (cGen c) D I' m (memberOld c m d) j)"
        by (rule nested_ok [OF D s l(1) w m(2) memberOld_wt [OF d t z m(2)] fuelOK_read [OF f l(2) j zm]])
      then have "okRes (wt (cGen c) (cArch c) t) I j
          (dbind (nested (cGen c) D I m (memberOld c m d) j) (\<lambda>(x, i). Good (VIface m (Some x), i)))
          (dbind (nested (cGen c) D I' m (memberOld c m d) j) (\<lambda>(x, i). Good (VIface m (Some x), i)))"
        by (rule okRes_bind) (use m t in \<open>simp add: wt.simps [of _ _ t]\<close>)
      then show ?thesis using j(1) by (rule okRes_mono)
    qed
    have "wt (cGen c) (cArch c) t (nilOf t)" using t by (simp add: nilOf_def wt.simps [of _ _ t])
    then show "okRes (wt (cGen c) (cArch c) t) I (i + 1)
       (case (nn, j) of (nn, i) \<Rightarrow> if nn = 0 then Good (nilOf t, i) else
          case map_of (map (\<lambda>(k, m). (of_nat k, m)) (taggedMembers (cGen c) t)) nn of None \<Rightarrow> Bad ErrUnknownUnionTag
          | Some m \<Rightarrow> dbind (nested (cGen c) D I m (memberOld c m d) i) (\<lambda>(x, i). Good (VIface m (Some x), i)))
       (case (nn, j) of (nn, i) \<Rightarrow> if nn = 0 then Good (nilOf t, i) else
          case map_of (map (\<lambda>(k, m). (of_nat k, m)) (taggedMembers (cGen c) t)) nn of None \<Rightarrow> Bad ErrUnknownUnionTag
          | Some m \<Rightarrow> dbind (nested (cGen c) D I' m (memberOld c m d) i) (\<lambda>(x, i). Good (VIface m (Some x), i)))"
      using j some by (simp split: option.split)
  qed
qed simp_all

subsection \<open>All types\<close>

lemma dec_safe:
  assumes A: "archOK (cArch c)" and s: "safe (cGen c)" and wf: "wfGen (cGen c)" and z: "zerosOK c"
    and D: "decSafe c D k" and sup: "supported (cGen c) t = None"
  shows "safeOK c D k t"
  using sup
proof (induction t rule: measure_induct_rule [where f = size])
  case (less t)
  show ?case
    unfolding safeOK_def
  proof (intro allI impI)
    let ?g = "cGen c" and ?A = "cArch c"
    fix I I' :: inp and i d dd
    assume l: "longer ?A I I'" "within I i" and d: "wt ?g ?A t d" and f: "fuelOK c dd t (length (iB I) - nat i) k"
    show "okRes (wt ?g ?A t) I i (dec c D I t d i) (dec c D I' t d i)"
    proof (cases "isTime t")
      case True
      then show ?thesis by (rule time_ok [OF s l])
    next
      case nt: False
      note sup = less.prems [unfolded supported.simps [of ?g t]]
      show ?thesis
      proof (cases "underlying t")
        case (TBasic b)
        show ?thesis by (rule basic_ok [OF A s l nt TBasic less.prems])
      next
        case (TSlice e)
        then have e: "supported ?g e = None" using sup nt by simp
        show ?thesis by (rule slice_ok [OF A s l less.IH [OF underlying_size_less(1) [OF TSlice] e] zero_wt [OF z e] nt TSlice d f])
      next
        case (TArray n e)
        then have e: "supported ?g e = None" using sup nt by simp
        show ?thesis by (rule array_ok [OF A s l less.IH [OF underlying_size_less(2) [OF TArray] e] nt TArray d f])
      next
        case (TPointer e)
        then have e: "supported ?g e = None" using sup nt by simp
        show ?thesis by (rule pointer_ok [OF s l less.IH [OF underlying_size_less(3) [OF TPointer] e] zero_wt [OF z e] nt TPointer d f])
      next
        case (TMap a e)
        then have e: "supported ?g a = None" "supported ?g e = None" using sup nt by (auto split: option.splits)
        show ?thesis by (rule map_ok [OF A s l less.IH [OF underlying_size_less(4) [OF TMap] e(1)]
            less.IH [OF underlying_size_less(5) [OF TMap] e(2)] zero_wt [OF z e(1)] zero_wt [OF z e(2)] nt TMap d f])
      next
        case TStruct
        obtain n u where n: "t = TNamed n u" "underlying u = TStruct" "isTarget ?g n"
          using supported_struct [OF less.prems nt TStruct] .
        show ?thesis by (rule struct_ok [OF D s l nt n d f])
      next
        case TInterface
        show ?thesis by (rule iface_ok [OF wf z D s l nt TInterface d f])
      qed (use sup nt in simp_all)
    qed
  qed
qed
end
