(* ===== verification/SafePackage.thy ===== *)
theory SafePackage
  imports SafeDec
begin

text \<open>
  Safe mode through the decoders of a package, by induction on the depth of calls, and through
  the generated methods, by refinement.
\<close>

subsection \<open>The fields of a struct\<close>

text \<open>A struct value on its way through the field loop.\<close>

definition wtFields :: "generator \<Rightarrow> arch \<Rightarrow> tname \<Rightarrow> field list \<Rightarrow> val \<Rightarrow> bool" where
  "wtFields g A n fs r \<longleftrightarrow> (\<exists>ds. r = VStruct ds \<and> map fst ds = map sfName (structs g n)
     \<and> (\<forall>f \<in> set fs. \<exists>x. map_of ds (fldName f) = Some x \<and> wt g A (fldTyp f) x))"

lemma wtFields_set:
  assumes "distinct (map fldName fs)" "f \<in> set fs" "wt g A (fldTyp f) x" "wtFields g A n fs r"
  shows "wtFields g A n fs (setField r (fldName f) x)"
proof -
  obtain ds where ds: "r = VStruct ds" "map fst ds = map sfName (structs g n)"
    "\<And>f. f \<in> set fs \<Longrightarrow> \<exists>x. map_of ds (fldName f) = Some x \<and> wt g A (fldTyp f) x"
    using assms(4) unfolding wtFields_def by blast
  obtain y where y: "map_of ds (fldName f) = Some y" using ds(3) [OF assms(2)] by blast
  have "\<exists>z. map_of (setAssoc ds (fldName f) x) (fldName f') = Some z \<and> wt g A (fldTyp f') z" if "f' \<in> set fs" for f'
  proof (cases "fldName f' = fldName f")
    case True
    then have "f' = f" using assms(1,2) that by (simp add: distinct_map inj_on_def)
    then show ?thesis using assms(3) setField_struct(2) [OF y] by simp
  next
    case False
    then show ?thesis using ds(3) [OF that] setField_struct(2) [OF y] by simp
  qed
  then show ?thesis using ds(1,2) by (simp add: wtFields_def setField_def setField_struct(1))
qed

lemma fields_ok:
  assumes dist: "distinct (map fldName fs)"
    and F: "\<And>f d i. f \<in> set fs \<Longrightarrow> wt g A (fldTyp f) d \<Longrightarrow> within I i \<Longrightarrow> okRes (wt g A (fldTyp f)) I i (F (fldTyp f) d i) (F' (fldTyp f) d i)"
  shows "set fs' \<subseteq> set fs \<Longrightarrow> wtFields g A n fs r \<Longrightarrow> within I i \<Longrightarrow>
    okRes (wtFields g A n fs) I i (decFields F fs' r i) (decFields F' fs' r i)"
proof (induction fs' arbitrary: r i)
  case (Cons f fs')
  obtain ds x where ds: "r = VStruct ds" "map_of ds (fldName f) = Some x" "wt g A (fldTyp f) x"
    using Cons.prems(1,2) by (auto simp: wtFields_def)
  have f: "f \<in> set fs" using Cons.prems(1) by simp
  have "okRes (wtFields g A n fs) I i
      (dbind (F (fldTyp f) x i) (\<lambda>(v', i'). decFields F fs' (setField r (fldName f) v') i'))
      (dbind (F' (fldTyp f) x i) (\<lambda>(v', i'). decFields F' fs' (setField r (fldName f) v') i'))"
  proof (rule okRes_bind [OF F [OF f ds(3) Cons.prems(3)]])
    fix y j assume y: "wt g A (fldTyp f) y" "i \<le> j" "j \<le> int (length (iB I))"
    have "okRes (wtFields g A n fs) I j (decFields F fs' (setField r (fldName f) y) j) (decFields F' fs' (setField r (fldName f) y) j)"
      using Cons.prems(1) wtFields_set [OF dist f y(1) Cons.prems(2)] within_later [OF Cons.prems(3) y(2,3)]
      by (intro Cons.IH) simp_all
    then have "okRes (wtFields g A n fs) I i (decFields F fs' (setField r (fldName f) y) j) (decFields F' fs' (setField r (fldName f) y) j)"
      using y(2) by (rule okRes_mono)
    then show "okRes (wtFields g A n fs) I i
        (case (y, j) of (v', i') \<Rightarrow> decFields F fs' (setField r (fldName f) v') i')
        (case (y, j) of (v', i') \<Rightarrow> decFields F' fs' (setField r (fldName f) v') i')" by simp
  qed
  then show ?case using ds by simp
qed (simp add: within_def)

lemma wtFields_wt:
  assumes wf: "wfGen g" and n: "isTarget g n" and fs: "fieldsOf g n = Inr fs" and r: "wtFields g A n fs r"
  shows "wt g A (TNamed n TStruct) r"
proof -
  have nt: "\<not> isTime (TNamed n TStruct)" using wf n by (rule wfGen_notTime)
  obtain ds where ds: "r = VStruct ds" "map fst ds = map sfName (structs g n)"
    "\<And>f. f \<in> set fs \<Longrightarrow> \<exists>x. map_of ds (fldName f) = Some x \<and> wt g A (fldTyp f) x"
    using r unfolding wtFields_def by blast
  have "skipped f \<or> wt g A (sfType f) (snd x)" if m: "(f, x) \<in> set (zip (structs g n) ds)" for f x
  proof (cases "skipped f")
    case False
    then have "\<lparr>fldName = sfName f, fldTyp = sfType f\<rparr> \<in> set fs" using fieldsOf_mem [OF fs] set_zip_leftD [OF m] by blast
    moreover have "map_of ds (sfName f) = Some (snd x)"
      using False by (intro map_of_field [OF wfGen_fields [OF wf n] ds(2) m]) (simp add: skipped_def)
    ultimately show ?thesis using ds(3) by fastforce
  qed simp
  then show ?thesis using nt ds(1,2) by (auto simp: wt.simps [of g A "TNamed n TStruct"])
qed

lemma wt_wtFields:
  assumes wf: "wfGen g" and n: "isTarget g n" "\<not> List.member (owned g) n" "\<not> isBlit g n"
    and fs: "fieldsOf g n = Inr fs" and d: "wt g A (TNamed n TStruct) d"
  shows "wtFields g A n fs d" and "f \<in> set fs \<Longrightarrow> supported g (fldTyp f) = None"
proof -
  obtain vs where vs: "d = VStruct vs" "map fst vs = map sfName (structs g n)"
    using wt_struct [OF d _ wfGen_notTime [OF wf n(1)]] by (metis underlying.simps)
  obtain ds where "d = VStruct ds"
    "\<And>f. f \<in> set fs \<Longrightarrow> supported g (fldTyp f) = None \<and> (\<exists>x. map_of ds (fldName f) = Some x \<and> wt g A (fldTyp f) x)"
    using struct_fields [OF wf n fs d le_SucI [OF order_refl]] by metis
  then show "wtFields g A n fs d" and "f \<in> set fs \<Longrightarrow> supported g (fldTyp f) = None"
    using vs by (auto simp: wtFields_def)
qed

lemma zero_fields:
  assumes nt: "\<not> isTime (TNamed n TStruct)" and z: "wt g A (TNamed n TStruct) (zero g dd (TNamed n TStruct))"
    and fs: "fieldsOf g n = Inr fs"
  obtains d where "dd = Suc d" "\<And>f. f \<in> set fs \<Longrightarrow> wt g A (fldTyp f) (zero g d (fldTyp f))"
proof -
  obtain d where d: "dd = Suc d"
    using z nt by (cases dd) (simp_all add: zero.simps [of g _ "TNamed n TStruct"] wt.simps [of g A "TNamed n TStruct"])
  have w: "skipped f0 \<or> wt g A (sfType f0) (zero g d (sfType f0))" if "f0 \<in> set (structs g n)" for f0
  proof -
    have "(f0, sfName f0, zero g d (sfType f0)) \<in> set (zip (structs g n) (map (\<lambda>f. (sfName f, zero g d (sfType f))) (structs g n)))"
      using that by (auto simp: zip_map2 zip_same_conv_map)
    then show ?thesis using z nt unfolding d
      by (auto simp: zero.simps [of g _ "TNamed n TStruct"] wt.simps [of g A "TNamed n TStruct"])
  qed
  show ?thesis by (rule that [OF d]) (use w fieldsOf_eq [OF fs] in fastforce)
qed

subsection \<open>The decoders of a package\<close>

definition ownedSafe :: "ctx \<Rightarrow> decs \<Rightarrow> bool" where
  "ownedSafe c D \<longleftrightarrow> (\<forall>n d b s sp sp' base base'. List.member (owned (cGen c)) n
     \<longrightarrow> wt (cGen c) (cArch c) (TNamed n TStruct) d \<longrightarrow> lenOK (cArch c) (length (b @ s))
     \<longrightarrow> okRes (wt (cGen c) (cArch c) (TNamed n TStruct)) \<lparr>iB = b, iSpare = sp, iBase = base\<rparr> 0
           (D n d b sp base) (D n d (b @ s) sp' base'))"

lemma decAll_safe:
  assumes A: "archOK (cArch c)" and s: "safe (cGen c)" and wf: "wfGen (cGen c)" and z: "zerosOK c"
    and f: "fieldsOK (cGen c)" and U: "ownedSafe c U"
  shows "decSafe c (decAll c U k) k"
proof (induction k)
  case 0
  have "False" if "fuelOK c dd (TNamed n TStruct) m 0" "isTarget (cGen c) n" for dd n m
  proof -
    have "dd = 0" "\<not> isTime (TNamed n TStruct)" using that wfGen_notTime [OF wf] by (simp_all add: fuelOK_def)
    then show False using that(1)
      by (simp add: fuelOK_def zero.simps [of _ _ "TNamed n TStruct"] wt.simps [of _ _ "TNamed n TStruct"])
  qed
  then show ?case unfolding decSafe_def by blast
next
  case (Suc k)
  let ?g = "cGen c" and ?A = "cArch c"
  show ?case
    unfolding decSafe_def
  proof (intro allI impI)
    fix n d dd and b s' sp sp' :: bytes and base base' :: nat
    assume n: "isTarget ?g n" and d: "wt ?g ?A (TNamed n TStruct) d" and fu: "fuelOK c dd (TNamed n TStruct) (length b) (Suc k)"
      and len: "lenOK ?A (length (b @ s'))"
    let ?I = "\<lparr>iB = b, iSpare = sp, iBase = base\<rparr>" and ?I' = "\<lparr>iB = b @ s', iSpare = sp', iBase = base'\<rparr>"
    show "okRes (wt ?g ?A (TNamed n TStruct)) ?I 0 (decAll c U (Suc k) n d b sp base) (decAll c U (Suc k) n d (b @ s') sp' base')"
    proof (cases "List.member (owned ?g) n")
      case True
      have "okRes (wt ?g ?A (TNamed n TStruct)) ?I 0 (U n d b sp base) (U n d (b @ s') sp' base')"
        using U True d len unfolding ownedSafe_def by blast
      then show ?thesis using True by simp
    next
      case no: False
      have nb: "\<not> isBlit ?g n" using isBlit_fields(1) s by blast
      obtain fs where fs: "fieldsOf ?g n = Inr fs" using f no n unfolding fieldsOK_def isTarget_set by blast
      have nt: "\<not> isTime (TNamed n TStruct)" using wf n by (rule wfGen_notTime)
      obtain d' where d': "dd = Suc d'" "\<And>f. f \<in> set fs \<Longrightarrow> wt ?g ?A (fldTyp f) (zero ?g d' (fldTyp f))"
        using zero_fields [OF nt _ fs] fu unfolding fuelOK_def by metis
      note w = wt_wtFields [OF wf n no nb fs d]
      have l: "longer ?A ?I ?I'" using len by (simp add: longer_def)
      have "okRes (wtFields ?g ?A n fs) ?I 0 (decFields (dec c (decAll c U k) ?I) fs d 0) (decFields (dec c (decAll c U k) ?I') fs d 0)"
      proof (rule fields_ok [OF fieldsOf_distinct [OF wf n fs] _ subset_refl w(1)])
        fix f x i assume m: "f \<in> set fs" and x: "wt ?g ?A (fldTyp f) x" and i: "within ?I i"
        have "fuelOK c d' (fldTyp f) (length (iB ?I) - nat 0) k" using fu d' m by (simp add: fuelOK_def)
        from fuelOK_later [OF this, of i] have "fuelOK c d' (fldTyp f) (length (iB ?I) - nat i) k"
          using i by (simp add: within_def)
        then show "okRes (wt ?g ?A (fldTyp f)) ?I i (dec c (decAll c U k) ?I (fldTyp f) x i) (dec c (decAll c U k) ?I' (fldTyp f) x i)"
          using safeOK_D [OF dec_safe [OF A s wf z Suc.IH w(2) [OF m]] l i x] by blast
      qed (simp add: within_def)
      then have "okRes (wt ?g ?A (TNamed n TStruct)) ?I 0 (decFields (dec c (decAll c U k) ?I) fs d 0) (decFields (dec c (decAll c U k) ?I') fs d 0)"
        by (rule okRes_mono) (simp_all add: wtFields_wt [OF wf n fs])
      then show ?thesis using no nb n fs by simp
    qed
  qed
qed

subsection \<open>The generated methods\<close>

text \<open>What the safe-mode theorems need to know; \<open>enough c b k\<close>: calls may nest \<open>k\<close> deep on input \<open>b\<close>.\<close>

definition safeSetup :: "ctx \<Rightarrow> gstate \<Rightarrow> genfile \<Rightarrow> menv \<Rightarrow> bool" where
  "safeSetup c gs gf U \<longleftrightarrow> safe (cGen c) \<and> archOK (cArch c) \<and> wfGen (cGen c) \<and> zerosOK c
     \<and> generate (cGen c) gs = Inr gf \<and> ownedSafe c (decsOf U)"

definition enough :: "ctx \<Rightarrow> bytes \<Rightarrow> nat \<Rightarrow> bool" where
  "enough c b k \<longleftrightarrow> (length b + 1) * cDepth c \<le> k"

lemma methods_safe:
  assumes "safeSetup c gs gf U" and n: "isTarget (cGen c) n" and d: "wt (cGen c) (cArch c) (TNamed n TStruct) d"
    and k: "enough c b k" and len: "lenOK (cArch c) (length (b @ s))"
    and r: "r = ofCall (mUnmarshal (methods c (map_of (gfCodecs gf)) U k) n d b sp base)"
  shows "okRes (wt (cGen c) (cArch c) (TNamed n TStruct)) \<lparr>iB = b, iSpare = sp, iBase = base\<rparr> 0 r
      (decAll c (decsOf U) k n d (b @ s) sp' base')"
proof -
  have S: "safe (cGen c)" "archOK (cArch c)" "wfGen (cGen c)" "zerosOK c" "generate (cGen c) gs = Inr gf" "ownedSafe c (decsOf U)"
    using assms(1) unfolding safeSetup_def by auto
  have "wt (cGen c) (cArch c) (TNamed n TStruct) (zero (cGen c) (cDepth c) (TNamed n TStruct))"
    using S(4) n unfolding zerosOK_def isTarget_set by blast
  then have "fuelOK c (cDepth c) (TNamed n TStruct) (length b) k" using k by (simp add: fuelOK_def enough_def)
  then have ok: "okRes (wt (cGen c) (cArch c) (TNamed n TStruct)) \<lparr>iB = b, iSpare = sp, iBase = base\<rparr> 0
      (decAll c (decsOf U) k n d b sp base) (decAll c (decsOf U) k n d (b @ s) sp' base')"
    using decAll_safe [OF S(2,1,3,4) generate_fieldsOK [OF S(5)] S(6), of k] n d len unfolding decSafe_def by blast
  then have "decAll c (decsOf U) k n d b sp base \<noteq> Und" by (auto simp: okRes_def)
  then show ?thesis using ok methods_refine [OF S(5)] unfolding r by simp
qed

end
