(* ===== verification/GenCodec.thy ===== *)
theory GenCodec
  imports SafePackage CodecApi Shapes
begin

text \<open>
  Generated codecs as implementations of the \<open>Marshaler\<close> and \<open>Unmarshaler\<close> interfaces together,
  and the shapes package as a setting in which the decoder theorems apply.
\<close>

subsection \<open>Generated codecs keep the contract of the interfaces\<close>

definition genUnmarshaler :: "menv \<Rightarrow> tname \<Rightarrow> val unmarshaler" where
  "genUnmarshaler M n = \<lparr>Unmarshal = mUnmarshal M n\<rparr>"

definition genRtOK :: "ctx \<Rightarrow> gstate \<Rightarrow> genfile \<Rightarrow> uwire \<Rightarrow> (tname \<Rightarrow> val \<Rightarrow> val \<Rightarrow> bool) \<Rightarrow> menv \<Rightarrow> nat \<Rightarrow> tname \<Rightarrow> val \<Rightarrow> bool" where
  "genRtOK c gs gf ow ot U k n v \<longleftrightarrow> genOK c gs gf ow U k n v \<and> rtSetup c gs gf ow ot U
     \<and> portable (cGen c) (cArch c) ow ot (TNamed n TStruct) v
     \<and> lenOK (cArch c) (length (wire (cGen c) (cArch c) ow (TNamed n TStruct) v))"

interpretation genc: codec_spec
  "genMarshaler (methods c (map_of (gfCodecs gf)) U k) n" "genRtOK c gs gf ow ot U k n"
  "wire (cGen c) (cArch c) ow (TNamed n TStruct)"
  "genUnmarshaler (methods c (map_of (gfCodecs gf)) U k) n" "wt (cGen c) (cArch c) (TNamed n TStruct)"
  "eqv (cGen c) ot (TNamed n TStruct)"
  for c gs gf ow ot U k n
proof unfold_locales
  fix x :: val and b :: bytes
  assume ok: "genRtOK c gs gf ow ot U k n x"
  then have g: "genOK c gs gf ow U k n x" by (simp add: genRtOK_def)
  show "Size (genMarshaler (methods c (map_of (gfCodecs gf)) U k) n) x
      = Ok (int (length (wire (cGen c) (cArch c) ow (TNamed n TStruct) x)))"
    using gen.size_enc [OF g] .
  show "Marshal (genMarshaler (methods c (map_of (gfCodecs gf)) U k) n) x b
      = Ok (splice 0 (wire (cGen c) (cArch c) ow (TNamed n TStruct) x) b,
            int (length (wire (cGen c) (cArch c) ow (TNamed n TStruct) x)))"
    if "length (wire (cGen c) (cArch c) ow (TNamed n TStruct) x) \<le> length b"
    using gen.marshal_enc [OF g that] .
next
  fix x :: val and b :: gbuf
  assume ok: "genRtOK c gs gf ow ot U k n x"
  then have g: "genOK c gs gf ow U k n x" by (simp add: genRtOK_def)
  show "\<exists>b'. Append (genMarshaler (methods c (map_of (gfCodecs gf)) U k) n) x b = Ok b'
      \<and> extends b (wire (cGen c) (cArch c) ow (TNamed n TStruct) x) b'"
    using gen.append_enc [OF g] .
next
  fix x d :: val and spare base
  assume ok: "genRtOK c gs gf ow ot U k n x" and d: "wt (cGen c) (cArch c) (TNamed n TStruct) d"
  let ?w = "wire (cGen c) (cArch c) ow (TNamed n TStruct) x"
  have "rtSetup c gs gf ow ot U" "isTarget (cGen c) n" "wt (cGen c) (cArch c) (TNamed n TStruct) x"
    "portable (cGen c) (cArch c) ow ot (TNamed n TStruct) x" "sdepth x \<le> k" "lenOK (cArch c) (length (?w @ []))"
    using ok by (simp_all add: genRtOK_def genOK_def)
  note rt = methods_rt [OF this(1-5) d this(6), of spare base]
  show "\<exists>x'. Unmarshal (genUnmarshaler (methods c (map_of (gfCodecs gf)) U k) n) d ?w spare base
      = Ok (x', int (length ?w), None) \<and> eqv (cGen c) ot (TNamed n TStruct) x x'"
    by (rule ex_forward [OF rt]) (simp add: genUnmarshaler_def)
qed

subsection \<open>The shapes package\<close>

text \<open>Length bounds are compared as integers when they are evaluated.\<close>

lemma lenOK_code [code]: "lenOK A n \<longleftrightarrow> int n < 2 ^ (8 * wsize A - 1)"
  unfolding lenOK_def by (metis of_nat_less_iff of_nat_numeral of_nat_power)

lemma shapes_zeros: "zerosOK (shapesCtx sf)"
proof -
  have "zerosOK (shapesCtx True) \<and> zerosOK (shapesCtx False)" by code_simp
  then show ?thesis by (cases sf) simp_all
qed

lemma shapes_setup:
  assumes "generate (shapesGen sf) emit0 = Inr gf"
  shows "rtSetup (shapesCtx sf) emit0 gf noOwned ot noFuelEnv"
    and "sf \<Longrightarrow> safeSetup (shapesCtx sf) emit0 gf noFuelEnv"
proof -
  have A: "archOK (cArch (shapesCtx sf))" by (simp add: shapesCtx_def amd64_def archOK_def)
  have wf: "wfGen (cGen (shapesCtx sf))" using shapes_wf by (cases sf) (simp_all add: shapesCtx_def)
  have u: "smallUnions (cGen (shapesCtx sf))" by (simp add: shapesCtx_def shapesGen_def smallUnions_def)
  have g: "generate (cGen (shapesCtx sf)) emit0 = Inr gf" using assms by (simp add: shapesCtx_def)
  have o: "ownedRT (shapesCtx sf) noOwned ot (decsOf noFuelEnv)" "ownedSafe (shapesCtx sf) (decsOf noFuelEnv)"
    by (simp_all add: shapesCtx_def shapesGen_def ownedRT_def ownedSafe_def)
  show "rtSetup (shapesCtx sf) emit0 gf noOwned ot noFuelEnv"
    using A wf u g o shapes_zeros by (simp add: rtSetup_def)
  show "safeSetup (shapesCtx sf) emit0 gf noFuelEnv" if sf
    using that A wf g o shapes_zeros by (simp add: safeSetup_def) (simp add: shapesCtx_def shapesGen_def)
qed

text \<open>The sample value \<open>drawing1\<close>, and one with a map.\<close>

lemma drawing1_portable: "portable (shapesGen sf) amd64 noOwned ot (TNamed (nm ''Drawing'') TStruct) drawing1"
proof -
  let ?ls = "[VNilIface, VIface (nm ''Circle'') (Some (VStruct [(''R'', V64 6)]))]"
  have w: "length (concat (map (wire (shapesGen True) amd64 noOwned tGeometry) ?ls)) = 10" by code_simp
  have "portable (shapesGen True) amd64 noOwned ot (TNamed (nm ''Drawing'') TStruct) drawing1"
    using w by (simp add: portable.simps drawing1_def shapesGen_def shapesDecls_def Drawing_def Square_def Circle_def
        shapes_types isTime_def skipped_def)
  moreover have "portable (shapesGen False) amd64 noOwned ot (TNamed (nm ''Drawing'') TStruct) drawing1"
    by (simp add: portable.simps drawing1_def shapesGen_def shapesDecls_def Drawing_def Square_def Circle_def
        shapes_types isTime_def skipped_def)
  ultimately show ?thesis by (cases sf) simp_all
qed

definition collection1 :: val where
  "collection1 = VStruct
     [(''Counts'', VMap [(VStr Own [97], V64 1), (VStr Own [98], V64 2)]),
      (''Floats'', VSlice Own [V64 3] []), (''Names'', VNilSlice)]"

lemma string_apart:
  assumes "x \<noteq> y"
  shows "apart g ot (TBasic KString) (VStr p x) (VStr q y)"
proof -
  have str: "\<exists>r. v' = VStr r z" if "eqv g ot (TBasic KString) (VStr p z) v'" for p z v'
    using that by (cases rule: eqv.cases) simp_all
  show ?thesis
    unfolding apart_def
  proof (intro allI impI)
    fix a b assume "eqv g ot (TBasic KString) (VStr p x) a" "eqv g ot (TBasic KString) (VStr q y) b"
    then obtain r r' where "a = VStr r x" "b = VStr r' y" using str by blast
    then show "\<not> goEq g (TBasic KString) a b" using assms by (simp add: goEq.simps)
  qed
qed

lemma collection1_OK:
  "wt (shapesGen sf) amd64 (TNamed (nm ''CollectionHeavy'') TStruct) collection1"
  "portable (shapesGen False) amd64 noOwned ot (TNamed (nm ''CollectionHeavy'') TStruct) collection1"
  "sdepth collection1 \<le> 1" "isTarget (shapesGen sf) (nm ''CollectionHeavy'')"
proof -
  have "wt (shapesGen True) amd64 (TNamed (nm ''CollectionHeavy'') TStruct) collection1
      \<and> wt (shapesGen False) amd64 (TNamed (nm ''CollectionHeavy'') TStruct) collection1
      \<and> isTarget (shapesGen True) (nm ''CollectionHeavy'') \<and> isTarget (shapesGen False) (nm ''CollectionHeavy'')"
    by code_simp
  then show "wt (shapesGen sf) amd64 (TNamed (nm ''CollectionHeavy'') TStruct) collection1"
    "isTarget (shapesGen sf) (nm ''CollectionHeavy'')" by (cases sf; simp)+
  show "sdepth collection1 \<le> 1" by code_simp
  show "portable (shapesGen False) amd64 noOwned ot (TNamed (nm ''CollectionHeavy'') TStruct) collection1"
    by (simp add: portable.simps collection1_def shapesGen_def shapesDecls_def CollectionHeavy_def
        shapes_types isTime_def skipped_def string_apart)
qed

end
