(* ===== verification/DecodeProps.thy ===== *)
theory DecodeProps
  imports GenCodec
begin

text \<open>
  The properties of the generated decoders: they implement the specification \<open>dec\<close>, restore what
  the encoders wrote, and, in safe mode, withstand arbitrary input.
\<close>

lemma methods_Good:
  assumes "generate (cGen c) gs = Inr gf" and "decAll c (decsOf U) k n d b sp base = Good (v, j)"
  shows "mUnmarshal (methods c (map_of (gfCodecs gf)) U k) n d b sp base = Ok (v, j, None)"
  using methods_refine [OF assms(1), of U k n d b sp base] assms(2) by (simp only: ofCall_Good [symmetric]) simp

lemma shapesCtx_sel: "cGen (shapesCtx sf) = shapesGen sf" "cArch (shapesCtx sf) = amd64"
  by (simp_all add: shapesCtx_def)

subsection \<open>Refinement\<close>

text \<open>C4: the generated \<open>Unmarshal\<close> methods of a package implement the specification decoder: on any
  destination and any input where the specification says what happens, the emitted statements
  yield that value, cursor, error or panic.\<close>

theorem unmarshal_refines:
  assumes "generate (cGen c) gs = Inr gf" and "decAll c (decsOf U) k n d b sp base \<noteq> Und"
  shows "ofCall (mUnmarshal (methods c (map_of (gfCodecs gf)) U k) n d b sp base)
    = decAll c (decsOf U) k n d b sp base"
  by (rule methods_refine [OF assms])

theorem unmarshal_refines_witness:
  "\<exists>gf. generate (shapesGen True) emit0 = Inr gf \<and>
     mUnmarshal (methods (shapesCtx True) (map_of (gfCodecs gf)) noFuelEnv 1) (nm ''Circle'')
       (VStruct [(''R'', V64 0)]) [6, 0, 0, 0, 0, 0, 0, 0, 9] [] 0 = Ok (VStruct [(''R'', V64 6)], 8, None)"
proof -
  obtain gf where f: "generate (shapesGen True) emit0 = Inr gf" using shapes_generate by blast
  have g: "generate (cGen (shapesCtx True)) emit0 = Inr gf" using f by (simp only: shapesCtx_sel)
  have d: "decAll (shapesCtx True) (decsOf noFuelEnv) 1 (nm ''Circle'') (VStruct [(''R'', V64 0)]) [6, 0, 0, 0, 0, 0, 0, 0, 9] [] 0
      = Good (VStruct [(''R'', V64 6)], 8)" by code_simp
  have "decAll (shapesCtx True) (decsOf noFuelEnv) 1 (nm ''Circle'') (VStruct [(''R'', V64 0)]) [6, 0, 0, 0, 0, 0, 0, 0, 9] [] 0 \<noteq> Und"
    unfolding d by simp
  from unmarshal_refines [OF g this] show ?thesis using f unfolding d by (auto simp only: ofCall_Good)
qed

subsection \<open>Round trips\<close>

text \<open>C1: decoding restores what encoding wrote: for every target, in both modes, \<open>Unmarshal\<close> of
  the encoding of a portable value, followed by any other bytes and into any destination, returns
  an equivalent value, the length of the encoding and no error.\<close>

theorem unmarshal_roundtrip:
  assumes "rtSetup c gs gf ow ot U" and "isTarget (cGen c) n"
    and "wt (cGen c) (cArch c) (TNamed n TStruct) v" and "portable (cGen c) (cArch c) ow ot (TNamed n TStruct) v"
    and "sdepth v \<le> k" and "wt (cGen c) (cArch c) (TNamed n TStruct) d"
    and "lenOK (cArch c) (length (wire (cGen c) (cArch c) ow (TNamed n TStruct) v @ r))"
  shows "\<exists>v'. mUnmarshal (methods c (map_of (gfCodecs gf)) U k) n d
        (wire (cGen c) (cArch c) ow (TNamed n TStruct) v @ r) sp base
      = Ok (v', int (length (wire (cGen c) (cArch c) ow (TNamed n TStruct) v)), None)
      \<and> eqv (cGen c) ot (TNamed n TStruct) v v'"
  by (rule ex_forward [OF methods_rt [OF assms]]) (elim conjE, intro conjI)

theorem unmarshal_roundtrip_witness:
  "\<exists>gf v'. generate (shapesGen True) emit0 = Inr gf \<and>
     mUnmarshal (methods (shapesCtx True) (map_of (gfCodecs gf)) noFuelEnv 2) (nm ''Drawing'') drawing1
       ([2, 104, 105, 2, 5, 0, 0, 0, 0, 0, 0, 0, 2, 0, 1, 6, 0, 0, 0, 0, 0, 0, 0] @ [7]) [] 0 = Ok (v', 23, None)
     \<and> eqv (shapesGen True) (\<lambda>_ _ _. False) (TNamed (nm ''Drawing'') TStruct) drawing1 v'"
proof -
  obtain gf where f: "generate (shapesGen True) emit0 = Inr gf" using shapes_generate by blast
  let ?w = "wire (shapesGen True) amd64 noOwned (TNamed (nm ''Drawing'') TStruct) drawing1"
  have "lenOK amd64 (length (?w @ [7]))" unfolding drawing1_wire by (simp add: lenOK_def amd64_def)
  from unmarshal_roundtrip [OF shapes_setup(1) [OF f], unfolded shapesCtx_sel, OF drawing1_wt(3,1) drawing1_portable
      drawing1_wt(2) drawing1_wt(1) this, where sp = "[]" and base = 0 and ot = "\<lambda>_ _ _. False"]
  obtain v' where "mUnmarshal (methods (shapesCtx True) (map_of (gfCodecs gf)) noFuelEnv 2) (nm ''Drawing'') drawing1 (?w @ [7]) [] 0
      = Ok (v', int (length ?w), None)" "eqv (shapesGen True) (\<lambda>_ _ _. False) (TNamed (nm ''Drawing'') TStruct) drawing1 v'" by blast
  then show ?thesis using f unfolding drawing1_wire by (intro exI [of _ gf] exI [of _ v']) simp
qed

text \<open>C20: \<open>codec.From\<close> reads back what \<open>codec.Bytes\<close> or \<open>codec.Into\<close> produced with a generated codec,
  whatever the destination and the buffer held before.\<close>

theorem helpers_roundtrip:
  assumes "genRtOK c gs gf ow ot U k n v" and "wt (cGen c) (cArch c) (TNamed n TStruct) d"
    and "M = methods c (map_of (gfCodecs gf)) U k"
  shows "(\<exists>b v'. Bytes (genMarshaler M n) v = Ok b
       \<and> From (genUnmarshaler M n) d b [] = Ok (v', None) \<and> eqv (cGen c) ot (TNamed n TStruct) v v')
    \<and> (\<exists>b v'. Into (genMarshaler M n) v buf = Ok b
       \<and> From (genUnmarshaler M n) d (gdat b) (gspare b) = Ok (v', None) \<and> eqv (cGen c) ot (TNamed n TStruct) v v')"
  unfolding assms(3) using genc.From_Bytes [OF assms(1,2)] genc.From_Into [OF assms(1,2), of buf] by (rule conjI)

theorem helpers_roundtrip_witness:
  "\<exists>gf b v'. generate (shapesGen False) emit0 = Inr gf
     \<and> Bytes (genMarshaler (methods (shapesCtx False) (map_of (gfCodecs gf)) noFuelEnv 1) (nm ''CollectionHeavy'')) collection1 = Ok b
     \<and> From (genUnmarshaler (methods (shapesCtx False) (map_of (gfCodecs gf)) noFuelEnv 1) (nm ''CollectionHeavy'')) collection1 b []
       = Ok (v', None)
     \<and> eqv (shapesGen False) (\<lambda>_ _ _. False) (TNamed (nm ''CollectionHeavy'') TStruct) collection1 v'"
proof -
  obtain gf where f: "generate (shapesGen False) emit0 = Inr gf" using shapes_generate by blast
  have len: "lenOK amd64 (length (wire (shapesGen False) amd64 noOwned (TNamed (nm ''CollectionHeavy'') TStruct) collection1))"
    by code_simp
  have "genRtOK (shapesCtx False) emit0 gf noOwned (\<lambda>_ _ _. False) noFuelEnv 1 (nm ''CollectionHeavy'') collection1"
    using f len shapes_setup(1) [OF f] shapes_owned [of False noOwned noFuelEnv] shapes_wf collection1_OK
    by (simp add: genRtOK_def genOK_def shapesCtx_def)
  from helpers_roundtrip [OF this _ refl, of collection1] show ?thesis
    using f collection1_OK(1) [of False] by (auto simp: shapesCtx_def)
qed

text \<open>C24: fields that are not transmitted (tagged \<open>goserde:"-"\<close> or unexported) keep the value the
  destination had.\<close>

theorem skipped_fields_kept:
  assumes "rtSetup c gs gf ow ot U" and "isTarget (cGen c) n" and "\<not> List.member (owned (cGen c)) n"
    and "wt (cGen c) (cArch c) (TNamed n TStruct) v" and "portable (cGen c) (cArch c) ow ot (TNamed n TStruct) v"
    and "sdepth v \<le> k" and "wt (cGen c) (cArch c) (TNamed n TStruct) d"
    and "lenOK (cArch c) (length (wire (cGen c) (cArch c) ow (TNamed n TStruct) v @ r))"
    and "f \<in> set (structs (cGen c) n)" and "skipped f"
  shows "\<exists>ds ds' j. d = VStruct ds
     \<and> mUnmarshal (methods c (map_of (gfCodecs gf)) U k) n d (wire (cGen c) (cArch c) ow (TNamed n TStruct) v @ r) sp base
       = Ok (VStruct ds', j, None) \<and> map_of ds' (sfName f) = map_of ds (sfName f)"
proof -
  note rt = methods_rt [OF assms(1,2,4-8), of sp base]
  from rt assms(3,9,10) show ?thesis by auto
qed

definition tagged1 :: "string \<Rightarrow> bytes \<Rightarrow> val" where
  "tagged1 s b = VStruct [(''ID'', V64 3), (''Secret'', VStr Own b), (''Skip'', VOpaque), (''Name'', VStr Own b)]"

theorem skipped_fields_kept_witness:
  "\<exists>gf ds' j. generate (shapesGen True) emit0 = Inr gf
     \<and> mUnmarshal (methods (shapesCtx True) (map_of (gfCodecs gf)) noFuelEnv 1) (nm ''Tagged'') (tagged1 [] [9])
         (wire (shapesGen True) amd64 noOwned (TNamed (nm ''Tagged'') TStruct) (tagged1 [] []) @ []) [] 0
       = Ok (VStruct ds', j, None) \<and> map_of ds' ''Secret'' = Some (VStr Own [9])"
proof -
  obtain gf where f: "generate (shapesGen True) emit0 = Inr gf" using shapes_generate by blast
  have w: "wt (shapesGen True) amd64 (TNamed (nm ''Tagged'') TStruct) (tagged1 [] [])"
    "wt (shapesGen True) amd64 (TNamed (nm ''Tagged'') TStruct) (tagged1 [] [9])"
    "lenOK amd64 (length (wire (shapesGen True) amd64 noOwned (TNamed (nm ''Tagged'') TStruct) (tagged1 [] []) @ []))"
    "isTarget (shapesGen True) (nm ''Tagged'')" "sdepth (tagged1 [] []) \<le> 1"
    "fldSkip ''Secret'' (TBasic KString) \<in> set (structs (shapesGen True) (nm ''Tagged''))"
    "skipped (fldSkip ''Secret'' (TBasic KString))" by code_simp+
  have p: "portable (shapesGen True) amd64 noOwned ot (TNamed (nm ''Tagged'') TStruct) (tagged1 [] [])" for ot
    by (simp add: portable.simps tagged1_def shapesGen_def shapesDecls_def Tagged_def shapes_types isTime_def skipped_def)
  from skipped_fields_kept [OF shapes_setup(1) [OF f], where n = "nm ''Tagged''" and v = "tagged1 [] []" and d = "tagged1 [] [9]"
      and k = 1 and ot = "\<lambda>_ _ _. False" and r = "[]" and sp = "[]" and base = 0 and f = "fldSkip ''Secret'' (TBasic KString)"]
  show ?thesis using w p f by (auto simp: shapesCtx_def tagged1_def fldSkip_def shapesGen_def)
qed

subsection \<open>Safe mode on arbitrary input\<close>

lemma safe_result:
  assumes "safeSetup c gs gf U" and "isTarget (cGen c) n" and "wt (cGen c) (cArch c) (TNamed n TStruct) d"
    and "enough c b k" and "lenOK (cArch c) (length b)"
  shows "okRes (wt (cGen c) (cArch c) (TNamed n TStruct)) \<lparr>iB = b, iSpare = sp, iBase = base\<rparr> 0
    (ofCall (mUnmarshal (methods c (map_of (gfCodecs gf)) U k) n d b sp base)) (decAll c (decsOf U) k n d b sp' base')"
  using methods_safe [OF assms(1-4), of "[]"] assms(5) by simp

lemma safe_decAll:
  assumes "safeSetup c gs gf U" and "isTarget (cGen c) n" and "wt (cGen c) (cArch c) (TNamed n TStruct) d"
    and "enough c b k" and "lenOK (cArch c) (length b)"
  shows "decAll c (decsOf U) k n d b sp base = ofCall (mUnmarshal (methods c (map_of (gfCodecs gf)) U k) n d b sp base)"
proof -
  have S: "safe (cGen c)" "archOK (cArch c)" "wfGen (cGen c)" "zerosOK c" "generate (cGen c) gs = Inr gf" "ownedSafe c (decsOf U)"
    using assms(1) unfolding safeSetup_def by auto
  have "fuelOK c (cDepth c) (TNamed n TStruct) (length b) k"
    using S(4) assms(2,4) unfolding zerosOK_def isTarget_set by (simp add: fuelOK_def enough_def)
  moreover have "lenOK (cArch c) (length (b @ []))" using assms(5) by simp
  ultimately have "okRes (wt (cGen c) (cArch c) (TNamed n TStruct)) \<lparr>iB = b, iSpare = sp, iBase = base\<rparr> 0
      (decAll c (decsOf U) k n d b sp base) (decAll c (decsOf U) k n d (b @ []) sp base)"
    using decAll_safe [OF S(2,1,3,4) generate_fieldsOK [OF S(5)] S(6), of k] assms(2,3) unfolding decSafe_def by blast
  then have "decAll c (decsOf U) k n d b sp base \<noteq> Und" by (auto simp: okRes_def)
  then show ?thesis using methods_refine [OF S(5)] by simp
qed

lemma ofCall_eqs: "ofCall (Panic p) = Pan" "ofCall NoFuel = Out" "ofCall (Ok (v, j, None)) = Good (v, j)"
  "ofCall (Ok (v, j, Some e)) = Bad e"
  by (simp_all add: ofCall_def)

text \<open>C2: a safe-mode decoder never panics, whatever bytes it is given.\<close>

theorem safe_never_panics:
  assumes "safeSetup c gs gf U" and "isTarget (cGen c) n" and "wt (cGen c) (cArch c) (TNamed n TStruct) d"
    and "enough c b k" and "lenOK (cArch c) (length b)"
  shows "mUnmarshal (methods c (map_of (gfCodecs gf)) U k) n d b sp base \<noteq> Panic p"
  using safe_result [OF assms, of sp base sp base] by (auto simp: okRes_def ofCall_eqs)

lemma shapes_hostile:
  assumes "b = [2, 104]"
  shows "wt (shapesGen True) amd64 (TNamed (nm ''Drawing'') TStruct) drawing1" "isTarget (shapesGen True) (nm ''Drawing'')"
    "enough (shapesCtx True) b 12" "lenOK amd64 (length b)"
  using drawing1_wt by (simp_all add: assms enough_def shapesCtx_def lenOK_def amd64_def)

theorem safe_never_panics_witness:
  "\<exists>gf. generate (shapesGen True) emit0 = Inr gf \<and>
     (\<forall>p. mUnmarshal (methods (shapesCtx True) (map_of (gfCodecs gf)) noFuelEnv 12) (nm ''Drawing'') drawing1 [2, 104] [] 0 \<noteq> Panic p)"
proof -
  obtain gf where f: "generate (shapesGen True) emit0 = Inr gf" using shapes_generate by blast
  then show ?thesis
    using safe_never_panics [OF shapes_setup(2) [OF f], of "nm ''Drawing''" drawing1 "[2, 104]" 12] shapes_hostile [OF refl]
    by (auto simp: shapesCtx_def)
qed

text \<open>C8: a safe-mode decoder always returns: nested calls are never deeper than the by-value nesting
  of the package times one more than the length of the input.\<close>

theorem safe_terminates:
  assumes "safeSetup c gs gf U" and "isTarget (cGen c) n" and "wt (cGen c) (cArch c) (TNamed n TStruct) d"
    and "(length b + 1) * cDepth c \<le> k" and "lenOK (cArch c) (length b)"
  shows "mUnmarshal (methods c (map_of (gfCodecs gf)) U k) n d b sp base \<noteq> NoFuel"
  using safe_result [OF assms(1-3) _ assms(5), of k sp base sp base] assms(4)
  by (auto simp: enough_def okRes_def ofCall_eqs)

theorem safe_terminates_witness:
  "\<exists>gf. generate (shapesGen True) emit0 = Inr gf \<and>
     mUnmarshal (methods (shapesCtx True) (map_of (gfCodecs gf)) noFuelEnv 12) (nm ''Drawing'') drawing1 [2, 104] [] 0 \<noteq> NoFuel"
proof -
  obtain gf where f: "generate (shapesGen True) emit0 = Inr gf" using shapes_generate by blast
  then show ?thesis
    using safe_terminates [OF shapes_setup(2) [OF f], of "nm ''Drawing''" drawing1 "[2, 104]" 12] shapes_hostile [OF refl]
    by (auto simp: shapesCtx_def)
qed

text \<open>The bounds alone: when a safe-mode decoder succeeds, the count it returns lies within the input.\<close>

theorem safe_count_bounds:
  assumes "safeSetup c gs gf U" and "isTarget (cGen c) n" and "wt (cGen c) (cArch c) (TNamed n TStruct) d"
    and "enough c b k" and "lenOK (cArch c) (length b)"
    and "mUnmarshal (methods c (map_of (gfCodecs gf)) U k) n d b sp base = Ok (v, j, None)"
  shows "0 \<le> j \<and> j \<le> int (length b)"
  using safe_result [OF assms(1-5), of sp base sp base] unfolding assms(6) by (simp add: ofCall_eqs)

text \<open>C9: when a safe-mode decoder succeeds, the value it leaves in the destination is a value of the
  struct's type: lengths fit an \<open>int\<close>, union members belong to their union, \<open>int\<close>s to their width.\<close>

theorem safe_result_typed:
  assumes "safeSetup c gs gf U" and "isTarget (cGen c) n" and "wt (cGen c) (cArch c) (TNamed n TStruct) d"
    and "enough c b k" and "lenOK (cArch c) (length b)"
    and "mUnmarshal (methods c (map_of (gfCodecs gf)) U k) n d b sp base = Ok (v, j, None)"
  shows "wt (cGen c) (cArch c) (TNamed n TStruct) v"
  using safe_result [OF assms(1-5), of sp base sp base] unfolding assms(6) by (simp add: ofCall_eqs)

lemma hostile_circle:
  assumes f: "generate (shapesGen True) emit0 = Inr gf"
  shows "mUnmarshal (methods (shapesCtx True) (map_of (gfCodecs gf)) noFuelEnv 40) (nm ''Circle'')
      (VStruct [(''R'', V64 0)]) [6, 0, 0, 0, 0, 0, 0, 0, 9] [] 0 = Ok (VStruct [(''R'', V64 6)], 8, None)"
    and "wt (shapesGen True) amd64 (TNamed (nm ''Circle'') TStruct) (VStruct [(''R'', V64 0)])"
    and "isTarget (shapesGen True) (nm ''Circle'')"
    and "enough (shapesCtx True) [6, 0, 0, 0, 0, 0, 0, 0, 9] 40" "lenOK amd64 (length [6, 0, 0, 0, 0, 0, 0, 0, 9 :: byte])"
proof -
  have g: "generate (cGen (shapesCtx True)) emit0 = Inr gf" using f by (simp add: shapesCtx_def)
  have d: "decAll (shapesCtx True) (decsOf noFuelEnv) (Suc 39) (nm ''Circle'') (VStruct [(''R'', V64 0)]) [6, 0, 0, 0, 0, 0, 0, 0, 9] [] 0
      = Good (VStruct [(''R'', V64 6)], 8)" by code_simp
  from methods_Good [OF g d]
  show "mUnmarshal (methods (shapesCtx True) (map_of (gfCodecs gf)) noFuelEnv 40) (nm ''Circle'')
      (VStruct [(''R'', V64 0)]) [6, 0, 0, 0, 0, 0, 0, 0, 9] [] 0 = Ok (VStruct [(''R'', V64 6)], 8, None)"
    by (simp only: Suc_numeral semiring_norm)
  show "wt (shapesGen True) amd64 (TNamed (nm ''Circle'') TStruct) (VStruct [(''R'', V64 0)])"
    "isTarget (shapesGen True) (nm ''Circle'')" by code_simp+
  show "enough (shapesCtx True) [6, 0, 0, 0, 0, 0, 0, 0, 9] 40" "lenOK amd64 (length [6, 0, 0, 0, 0, 0, 0, 0, 9 :: byte])"
    by (simp_all add: enough_def shapesCtx_def lenOK_def amd64_def)
qed

theorem safe_count_bounds_witness:
  "\<exists>gf j. generate (shapesGen True) emit0 = Inr gf
     \<and> mUnmarshal (methods (shapesCtx True) (map_of (gfCodecs gf)) noFuelEnv 40) (nm ''Circle'')
         (VStruct [(''R'', V64 0)]) [6, 0, 0, 0, 0, 0, 0, 0, 9] [] 0 = Ok (VStruct [(''R'', V64 6)], j, None)
     \<and> 0 \<le> j \<and> j \<le> 9"
proof -
  obtain gf where f: "generate (shapesGen True) emit0 = Inr gf" using shapes_generate by blast
  note h = hostile_circle [OF f]
  from safe_count_bounds [OF shapes_setup(2) [OF f] _ _ h(4) _ h(1)] h(2,3,5)
  have "(0 :: int) \<le> 8 \<and> 8 \<le> int (length [6, 0, 0, 0, 0, 0, 0, 0, 9 :: byte])" by (simp add: shapesCtx_def)
  then show ?thesis using f h(1) by (intro exI [of _ gf] exI [of _ 8]) simp
qed

theorem safe_result_typed_witness:
  "\<exists>gf v. generate (shapesGen True) emit0 = Inr gf
     \<and> mUnmarshal (methods (shapesCtx True) (map_of (gfCodecs gf)) noFuelEnv 40) (nm ''Circle'')
         (VStruct [(''R'', V64 0)]) [6, 0, 0, 0, 0, 0, 0, 0, 9] [] 0 = Ok (v, 8, None)
     \<and> wt (shapesGen True) amd64 (TNamed (nm ''Circle'') TStruct) v"
proof -
  obtain gf where f: "generate (shapesGen True) emit0 = Inr gf" using shapes_generate by blast
  note h = hostile_circle [OF f]
  from safe_result_typed [OF shapes_setup(2) [OF f] _ _ h(4) _ h(1)] h(2,3,5)
  have "wt (shapesGen True) amd64 (TNamed (nm ''Circle'') TStruct) (VStruct [(''R'', V64 6)])" by (simp add: shapesCtx_def)
  then show ?thesis using f h(1) by blast
qed

end
