(* ===== verification/HostileProps.thy ===== *)
theory HostileProps
  imports DecodeProps
begin

text \<open>
  More on safe mode: what a decoder may look at, how its results depend on the bytes that
  follow, and which errors it reports for truncated encodings and unknown union tags.
\<close>

text \<open>C22: a safe-mode decoder never looks beyond the length of its argument: neither the spare
  capacity behind the slice nor its position in a larger buffer changes the outcome.\<close>

theorem safe_ignores_capacity:
  assumes "safeSetup c gs gf U" and "isTarget (cGen c) n" and "wt (cGen c) (cArch c) (TNamed n TStruct) d"
    and "enough c b k" and "lenOK (cArch c) (length b)"
  shows "ofCall (mUnmarshal (methods c (map_of (gfCodecs gf)) U k) n d b sp base)
    = ofCall (mUnmarshal (methods c (map_of (gfCodecs gf)) U k) n d b sp' base')"
  using safe_result [OF assms, of sp base sp' base'] safe_result [OF assms, of sp' base' sp base]
  unfolding safe_decAll [OF assms] by (auto simp: okRes_def)

theorem safe_ignores_capacity_witness:
  "\<exists>gf. generate (shapesGen True) emit0 = Inr gf \<and>
     ofCall (mUnmarshal (methods (shapesCtx True) (map_of (gfCodecs gf)) noFuelEnv 12) (nm ''Drawing'') drawing1 [2, 104] [105] 5)
     = ofCall (mUnmarshal (methods (shapesCtx True) (map_of (gfCodecs gf)) noFuelEnv 12) (nm ''Drawing'') drawing1 [2, 104] [] 0)"
proof -
  obtain gf where f: "generate (shapesGen True) emit0 = Inr gf" using shapes_generate by blast
  then show ?thesis
    using safe_ignores_capacity [OF shapes_setup(2) [OF f], unfolded shapesCtx_sel, OF _ shapes_hostile(2,1,3,4) [OF refl]]
    by blast
qed

text \<open>C21: what a safe-mode decoder reads from an input does not change when more bytes follow:
  records can be decoded one after the other from a stream.\<close>

theorem safe_trailing_bytes:
  assumes "safeSetup c gs gf U" and "isTarget (cGen c) n" and "wt (cGen c) (cArch c) (TNamed n TStruct) d"
    and "enough c b k" and "lenOK (cArch c) (length (b @ s))"
    and "mUnmarshal (methods c (map_of (gfCodecs gf)) U k) n d b sp base = Ok (v, j, None)"
  shows "mUnmarshal (methods c (map_of (gfCodecs gf)) U k) n d (b @ s) sp' base' = Ok (v, j, None)"
proof -
  have g: "generate (cGen c) gs = Inr gf" using assms(1) by (simp add: safeSetup_def)
  from methods_safe [OF assms(1-5) refl, of sp base sp' base'] have "decAll c (decsOf U) k n d (b @ s) sp' base' = Good (v, j)"
    unfolding assms(6) ofCall_eqs by simp
  then show ?thesis by (rule methods_Good [OF g])
qed

theorem safe_trailing_bytes_witness:
  "\<exists>gf. generate (shapesGen True) emit0 = Inr gf \<and>
     mUnmarshal (methods (shapesCtx True) (map_of (gfCodecs gf)) noFuelEnv 40) (nm ''Circle'')
       (VStruct [(''R'', V64 0)]) [6, 0, 0, 0, 0, 0, 0, 0, 9, 1, 2] [] 0 = Ok (VStruct [(''R'', V64 6)], 8, None)"
proof -
  obtain gf where f: "generate (shapesGen True) emit0 = Inr gf" using shapes_generate by blast
  note h = hostile_circle [OF f]
  have "lenOK amd64 (length ([6, 0, 0, 0, 0, 0, 0, 0, 9] @ [1, 2 :: byte]))" by (simp add: lenOK_def amd64_def)
  from safe_trailing_bytes [OF shapes_setup(2) [OF f], unfolded shapesCtx_sel, OF _ h(3,2,4) this h(1)]
  show ?thesis using f by auto
qed

text \<open>C7: every strict prefix of the encoding of a value is reported as \<open>ErrShortBuffer\<close>; a safe-mode
  decoder never takes a truncated message for a complete one.\<close>

theorem truncated_rejected:
  assumes "safeSetup c gs gf U" and "rtSetup c gs gf ow ot U" and "isTarget (cGen c) n"
    and "wt (cGen c) (cArch c) (TNamed n TStruct) v" and "portable (cGen c) (cArch c) ow ot (TNamed n TStruct) v"
    and "wt (cGen c) (cArch c) (TNamed n TStruct) d" and "lenOK (cArch c) (length (wire (cGen c) (cArch c) ow (TNamed n TStruct) v))"
    and "wire (cGen c) (cArch c) ow (TNamed n TStruct) v = b @ s" and "s \<noteq> []" and "sdepth v \<le> k" and "enough c b k"
  shows "\<exists>d' j. mUnmarshal (methods c (map_of (gfCodecs gf)) U k) n d b sp base = Ok (d', j, Some ErrShortBuffer)"
proof -
  have R: "archOK (cArch c)" "wfGen (cGen c)" "smallUnions (cGen c)" "zerosOK c" "generate (cGen c) gs = Inr gf" "ownedRT c ow ot (decsOf U)"
    using assms(2) by (simp_all add: rtSetup_def)
  let ?r = "ofCall (mUnmarshal (methods c (map_of (gfCodecs gf)) U k) n d b sp base)"
  have "\<exists>v'. decAll c (decsOf U) k n d (b @ s) sp base = Good (v', int (length (b @ s)))"
    using decAll_rt [OF R(1-4) generate_fieldsOK [OF R(5)] R(6), of k, unfolded decRT_def, rule_format,
        OF assms(3-6,10), of "[]" sp base] assms(7) by (auto simp: assms(8))
  then obtain v' where "decAll c (decsOf U) k n d (b @ s) sp base = Good (v', int (length (b @ s)))" ..
  moreover have "okRes (wt (cGen c) (cArch c) (TNamed n TStruct)) \<lparr>iB = b, iSpare = sp, iBase = base\<rparr> 0 ?r
      (decAll c (decsOf U) k n d (b @ s) sp base)"
    using assms(7) by (intro methods_safe [OF assms(1,3,6,11) _ refl]) (simp add: assms(8))
  ultimately have "?r = Bad ErrShortBuffer" using assms(9) by (cases ?r) (auto simp: okRes_def)
  then show ?thesis by (auto simp: ofCall_def split: outcome.splits option.splits)
qed

theorem truncated_rejected_witness:
  "\<exists>gf d' j. generate (shapesGen True) emit0 = Inr gf \<and>
     mUnmarshal (methods (shapesCtx True) (map_of (gfCodecs gf)) noFuelEnv 12) (nm ''Drawing'') drawing1 [2, 104] [] 0
       = Ok (d', j, Some ErrShortBuffer)"
proof -
  obtain gf where f: "generate (shapesGen True) emit0 = Inr gf" using shapes_generate by blast
  let ?w = "wire (shapesGen True) amd64 noOwned (TNamed (nm ''Drawing'') TStruct) drawing1"
  have w: "?w = [2, 104] @ [105, 2, 5, 0, 0, 0, 0, 0, 0, 0, 2, 0, 1, 6, 0, 0, 0, 0, 0, 0, 0]" unfolding drawing1_wire by simp
  have len: "lenOK amd64 (length ?w)" unfolding drawing1_wire by (simp add: lenOK_def amd64_def)
  have "sdepth drawing1 \<le> 12" using drawing1_wt(2) by simp
  from truncated_rejected [OF shapes_setup(2) [OF f] shapes_setup(1) [OF f], unfolded shapesCtx_sel, OF _ drawing1_wt(3,1) drawing1_portable
      drawing1_wt(1) len w _ this shapes_hostile(3) [OF refl], of "[]" 0]
  show ?thesis using f by auto
qed

text \<open>C23: in both modes the emitted code of a union returns \<open>ErrUnknownUnionTag\<close> when the tag is not
  the number of one of its members.\<close>

theorem unknown_tag_rejected:
  assumes "\<not> isTime t" and "underlying t = TInterface" and "rd s ref = Ok v" and "refOK ref" and "below ref (varCounter es)"
    and "holds (inpOf s) (sI s) (lenPrefix k)" and "k < 2 ^ 64" and "length (taggedMembers (cGen c) t) < k"
  shows "\<exists>s'. execs (fst (unmarshalExpr (cGen c) ref t es)) c M s = Return s' ErrUnknownUnionTag"
proof -
  let ?D = "decsOf M"
  have k: "unat (of_nat k :: u64) = k" using assms(7) by (simp add: unsigned_of_nat take_bit_nat_eq_self)
  then have nz: "(of_nat k :: u64) \<noteq> 0" using assms(8) by (metis less_nat_zero_code unsigned_0)
  have "map_of (map (\<lambda>(k, m). (of_nat k :: u64, m)) (taggedMembers (cGen c) t)) (of_nat k) = None"
  proof (rule ccontr)
    assume "map_of (map (\<lambda>(k, m). (of_nat k :: u64, m)) (taggedMembers (cGen c) t)) (of_nat k) \<noteq> None"
    then obtain m where "map_of (map (\<lambda>(k, m). (of_nat k :: u64, m)) (taggedMembers (cGen c) t)) (of_nat k) = Some m" by blast
    then obtain j where j: "(j, m) \<in> set (taggedMembers (cGen c) t)" "(of_nat j :: u64) = of_nat k" by (auto dest!: map_of_SomeD)
    then have "j \<le> length (taggedMembers (cGen c) t)"
      by (cases "unionMembersOf (cGen c) t") (auto simp: tagged_nth in_set_enumerate_eq)
    then have "j < 2 ^ 64" using assms(7,8) by simp
    then have "unat (of_nat j :: u64) = j" by (simp add: unsigned_of_nat take_bit_nat_eq_self)
    then show False using j k assms(8) \<open>j \<le> _\<close> by simp
  qed
  then have "dec c ?D (inpOf s) t v (sI s) = Bad ErrUnknownUnionTag"
    using holds_lenPrefix(1) [of "inpOf s" "sI s" k "[]" "cGen c"] assms(6) nz by (simp add: dec_iface [OF assms(1,2)])
  with decOK_run [OF unmarshalExpr_sim [OF envOK_decsOf [of M]] assms(3-5), of c t]
  show ?thesis by (simp add: sim_iffs del: execs.simps)
qed

theorem unknown_tag_rejected_witness:
  "\<exists>s'. execs (fst (unmarshalExpr (shapesGen False) (RField ''Shape'') tGeometry emit0)) (shapesCtx False) noFuelEnv
     ((initSt drawing1)\<lparr>sB := [7, 1, 2]\<rparr>) = Return s' ErrUnknownUnionTag"
proof -
  have t: "\<not> isTime tGeometry" "underlying tGeometry = TInterface" "length (taggedMembers (cGen (shapesCtx False)) tGeometry) < 7"
    by code_simp+
  have p: "lenPrefix 7 = [7]" by code_simp
  have "holds (inpOf ((initSt drawing1)\<lparr>sB := [7, 1, 2]\<rparr>)) (sI ((initSt drawing1)\<lparr>sB := [7, 1, 2]\<rparr>)) (lenPrefix 7)"
    unfolding p by (simp add: holds_def initSt_def inpOf_def)
  from unknown_tag_rejected [OF t(1,2) _ _ _ this _ t(3)] show ?thesis
    by (simp add: initSt_def drawing1_def shapesCtx_sel below_def)
qed

end
