(* ===== verification/Reencode.thy ===== *)
theory Reencode
  imports HostileProps
begin

text \<open>
  Decoded copies encode to the bytes they were decoded from, and where decoded strings live.
\<close>

subsection \<open>Equivalent values have the same encoding\<close>

lemma eqv_fixed_eq:
  "isFixedWidth t \<Longrightarrow> eqv g ot t v v' \<Longrightarrow> v' = v"
proof (induction t arbitrary: v v' rule: isFixedWidth.induct)
  case (1 t)
  have nt: "\<not> isTime t" using 1(2) by (auto simp: isFixedWidth.simps [of t])
  from 1(3) show ?case
  proof (cases rule: eqv.cases)
    case (eqv_array n e xs xs')
    have "isFixedWidth e" using 1(2) eqv_array nt by (simp add: isFixedWidth.simps [of t])
    then have "list_all2 (=) xs xs'" using eqv_array(5) 1(1) [OF nt eqv_array(4)] by (auto elim!: list_all2_mono)
    then show ?thesis using eqv_array by (simp add: list.rel_eq)
  next
    case (eqv_owned n u)
    then show ?thesis using 1(2) by (simp add: isFixedWidth.simps [of "TNamed n u"])
  next
    case (eqv_struct n u)
    then show ?thesis using 1(2) by (simp add: isFixedWidth.simps [of "TNamed n u"])
  qed (use 1(2) nt in \<open>auto simp: isFixedWidth.simps [of t] basicFixedWidth_def\<close>)
qed

lemma copied_eq:
  assumes "list_all2 (\<lambda>x y. eqv g ot e x y \<and> Q x y) xs xs'" "bulk g e"
  shows "xs' = xs"
proof -
  have "isFixedWidth e" using assms(2) memCopyable_isFixedWidth by (simp add: bulk_def)
  then have "list_all2 (=) xs xs'" using assms(1) eqv_fixed_eq by (fastforce elim!: list_all2_mono)
  then show ?thesis by (simp add: list.rel_eq)
qed

lemma concat_list_all2:
  "list_all2 (\<lambda>x y. f x = h y) xs ys \<Longrightarrow> concat (map f xs) = concat (map h ys)"
  by (induction xs ys rule: list_all2_induct) auto

lemma list_all2_set: "list_all2 P xs ys \<Longrightarrow> list_all2 (\<lambda>x y. P x y \<and> x \<in> set xs) xs ys"
  by (auto simp: list_all2_conv_all_nth)

lemma eqv_wire:
  assumes o: "\<And>n v v'. List.member (owned g) n \<Longrightarrow> ot n v v' \<Longrightarrow> ow n v' = ow n v"
  shows "eqv g ot t v v' \<Longrightarrow> wt g A t v \<Longrightarrow> wire g A ow t v' = wire g A ow t v"
proof (induction rule: eqv.induct)
  case (eqv_slice t e xs xs' p ys q zs)
  have w: "\<forall>x \<in> set xs. wt g A e x" using eqv_slice by (simp add: wt.simps [of g A t])
  have "list_all2 (\<lambda>x y. wire g A ow e x = wire g A ow e y) xs xs'"
    using list_all2_set [OF eqv_slice(4)] w by (auto elim!: list_all2_mono)
  moreover have "bulk g e \<Longrightarrow> xs' = xs" using copied_eq [OF eqv_slice(4)] .
  moreover have "length xs' = length xs" using eqv_slice(4) by (auto dest: list_all2_lengthD)
  ultimately show ?case using eqv_slice(1,2) by (simp add: wire.simps [of g A ow t] concat_list_all2)
next
  case (eqv_array t n e xs xs')
  have w: "\<forall>x \<in> set xs. wt g A e x" using eqv_array by (simp add: wt.simps [of g A t])
  have "list_all2 (\<lambda>x y. wire g A ow e x = wire g A ow e y) xs xs'"
    using list_all2_set [OF eqv_array(3)] w by (auto elim!: list_all2_mono)
  moreover have "bulk g e \<Longrightarrow> xs' = xs" using copied_eq [OF eqv_array(3)] .
  ultimately show ?case using eqv_array(1,2) by (simp add: wire.simps [of g A ow t] concat_list_all2)
next
  case (eqv_map t k e kvs kvs')
  have w: "\<forall>p \<in> set kvs. wt g A k (fst p) \<and> wt g A e (snd p)"
    using eqv_map by (auto simp: wt.simps [of g A t])
  have "list_all2 (\<lambda>p q. (\<lambda>(a, b). wire g A ow k a @ wire g A ow e b) p = (\<lambda>(a, b). wire g A ow k a @ wire g A ow e b) q) kvs kvs'"
    using list_all2_set [OF eqv_map(4)] w by (fastforce simp: case_prod_beta' elim!: list_all2_mono)
  moreover have "length kvs' = length kvs" using eqv_map(4) by (auto dest: list_all2_lengthD)
  ultimately show ?case using eqv_map(1,2) by (simp add: wire.simps [of g A ow t] concat_list_all2)
next
  case (eqv_owned n u v v')
  then show ?case using o by (simp add: wire.simps [of g A ow "TNamed n u"])
next
  case (eqv_struct n u vs' vs)
  let ?sf = "structs g n"
  have names: "map fst vs = map sfName ?sf" "\<And>f x. (f, x) \<in> set (zip ?sf vs) \<Longrightarrow> skipped f \<or> wt g A (sfType f) (snd x)"
    using eqv_struct by (auto simp: wt.simps [of g A "TNamed n u"])
  have len: "length vs = length ?sf" "length vs' = length ?sf" using names(1) eqv_struct(4) by (metis length_map)+
  have q: "skipped (?sf ! i) \<or> (eqv g ot (sfType (?sf ! i)) (snd (vs ! i)) (snd (vs' ! i))
       \<and> wire g A ow (sfType (?sf ! i)) (snd (vs' ! i)) = wire g A ow (sfType (?sf ! i)) (snd (vs ! i)))" if "i < length ?sf" for i
  proof -
    have "(?sf ! i, vs ! i) \<in> set (zip ?sf vs)" using that len by (auto simp: set_zip)
    then show ?thesis using names(2) list_all2_nthD2 [OF eqv_struct(5), of i] that len by fastforce
  qed
  show ?case
  proof (cases "isBlit g n")
    case True
    have "snd (vs' ! i) = snd (vs ! i)" if "i < length ?sf" for i
      using q [OF that] isBlit_fields(4) [OF True, of "?sf ! i"] that eqv_fixed_eq by auto
    then have "map snd vs' = map snd vs" using len by (intro nth_equalityI) simp_all
    then show ?thesis using eqv_struct(1-3) True by (simp add: wire.simps [of g A ow "TNamed n u"] structImage_def)
  next
    case False
    have "map (\<lambda>(f, x). if skipped f then [] else wire g A ow (sfType f) (snd x)) (zip ?sf vs')
        = map (\<lambda>(f, x). if skipped f then [] else wire g A ow (sfType f) (snd x)) (zip ?sf vs)"
    proof (rule nth_equalityI)
      fix i assume "i < length (map (\<lambda>(f, x). if skipped f then [] else wire g A ow (sfType f) (snd x)) (zip ?sf vs'))"
      then have i: "i < length ?sf" by simp
      from q [OF i] i len
      show "map (\<lambda>(f, x). if skipped f then [] else wire g A ow (sfType f) (snd x)) (zip ?sf vs') ! i
          = map (\<lambda>(f, x). if skipped f then [] else wire g A ow (sfType f) (snd x)) (zip ?sf vs) ! i" by auto
    qed (simp add: len)
    then show ?thesis using eqv_struct(1-3) False by (simp add: wire.simps [of g A ow "TNamed n u"])
  qed
next
  case (eqv_iface t m x y)
  then show ?case by (simp add: wt.simps [of g A t] wire.simps [of g A ow t])
qed (auto simp: wire.simps wt.simps wireBasic_def bulk_def split: option.splits)

subsection \<open>Properties\<close>

text \<open>The value a decoder produces from an encoding has, byte for byte, the encoding it was
  decoded from; decoding and encoding again changes nothing on the wire.\<close>

theorem decoded_same_encoding:
  assumes "rtSetup c gs gf ow ot U" and "isTarget (cGen c) n"
    and "wt (cGen c) (cArch c) (TNamed n TStruct) v" and "portable (cGen c) (cArch c) ow ot (TNamed n TStruct) v"
    and "sdepth v \<le> k" and "wt (cGen c) (cArch c) (TNamed n TStruct) d"
    and "lenOK (cArch c) (length (wire (cGen c) (cArch c) ow (TNamed n TStruct) v @ r))"
    and "\<And>n v v'. List.member (owned (cGen c)) n \<Longrightarrow> ot n v v' \<Longrightarrow> ow n v' = ow n v"
  shows "\<exists>v'. mUnmarshal (methods c (map_of (gfCodecs gf)) U k) n d
        (wire (cGen c) (cArch c) ow (TNamed n TStruct) v @ r) sp base
      = Ok (v', int (length (wire (cGen c) (cArch c) ow (TNamed n TStruct) v)), None)
      \<and> wire (cGen c) (cArch c) ow (TNamed n TStruct) v' = wire (cGen c) (cArch c) ow (TNamed n TStruct) v"
  by (rule ex_forward [OF methods_rt [OF assms(1-7)]]) (elim conjE, intro conjI, assumption, rule eqv_wire [OF assms(8) _ assms(3)])

theorem decoded_same_encoding_witness:
  "\<exists>gf v'. generate (shapesGen True) emit0 = Inr gf \<and>
     mUnmarshal (methods (shapesCtx True) (map_of (gfCodecs gf)) noFuelEnv 2) (nm ''Drawing'') drawing1
       [2, 104, 105, 2, 5, 0, 0, 0, 0, 0, 0, 0, 2, 0, 1, 6, 0, 0, 0, 0, 0, 0, 0] [] 0 = Ok (v', 23, None)
     \<and> wire (shapesGen True) amd64 noOwned (TNamed (nm ''Drawing'') TStruct) v'
       = [2, 104, 105, 2, 5, 0, 0, 0, 0, 0, 0, 0, 2, 0, 1, 6, 0, 0, 0, 0, 0, 0, 0]"
proof -
  obtain gf where f: "generate (shapesGen True) emit0 = Inr gf" using shapes_generate by blast
  let ?w = "wire (shapesGen True) amd64 noOwned (TNamed (nm ''Drawing'') TStruct) drawing1"
  have len: "lenOK amd64 (length (?w @ []))" unfolding drawing1_wire by (simp add: lenOK_def amd64_def)
  have "\<not> List.member (owned (shapesGen True)) n" for n by (simp add: shapesGen_def)
  then have "\<exists>v'. mUnmarshal (methods (shapesCtx True) (map_of (gfCodecs gf)) noFuelEnv 2) (nm ''Drawing'') drawing1 (?w @ []) [] 0
      = Ok (v', int (length ?w), None)
      \<and> wire (shapesGen True) amd64 noOwned (TNamed (nm ''Drawing'') TStruct) v' = ?w"
    using decoded_same_encoding [OF shapes_setup(1) [OF f, where ot = "\<lambda>_ _ _. False"], unfolded shapesCtx_sel,
        OF drawing1_wt(3,1) drawing1_portable drawing1_wt(2) drawing1_wt(1) len] by blast
  then show ?thesis using f unfolding drawing1_wire by auto
qed

text \<open>C25: a decoded string is a view of the input in fast mode, right behind its length prefix, and a
  copy of its own in safe mode; in both it has the bytes that were written.\<close>

theorem string_decode:
  assumes "archOK (cArch c)" and "lenOK (cArch c) (length (sB s))" and "\<not> isTime t" and "underlying t = TBasic KString"
    and "rd s ref = Ok v" and "refOK ref" and "below ref (varCounter es)" and "holds (inpOf s) (sI s) (lenPrefix (length b) @ b)"
  shows "\<exists>s'. execs (fst (unmarshalExpr (cGen c) ref t es)) c M s = Next s'
    \<and> rd s' ref = Ok (VStr (if safe (cGen c) then Own else Input (sBase s + nat (sI s) + UvarintSize (of_nat (length b)))) b)
    \<and> sI s' = sI s + int (UvarintSize (of_nat (length b))) + int (length b)"
proof -
  note hl = holds_lenPrefix [OF assms(8)]
  let ?i = "sI s + int (UvarintSize (of_nat (length b)))"
  have i: "sI s + int (length (lenPrefix (length b))) = ?i" by (simp add: length_lenPrefix)
  have nn: "0 \<le> sI s" using assms(8) by (simp add: holds_def)
  obtain r where "length (iB (inpOf s)) = nat ?i + length (b @ r)" using hl(2) unfolding i by (rule holds_tail)
  then have len: "lenOK (cArch c) (length b)" using assms(2) by (auto elim: lenOK_mono)
  have "needLen (cGen c) (inpOf s) ?i (of_nat (length b)) d' = d'" for d' :: "(val \<times> int) dres"
    by (rule holds_needLen [OF assms(1) _ hl(2) [unfolded i]]) (simp_all add: assms(2) unat_len [OF assms(1) len])
  then have "decBasic c (inpOf s) t KString v (sI s)
      = Good (VStr (if safe (cGen c) then Own else Input (sBase s + nat ?i)) b, ?i + int (length b))"
    using hl(1) holds_window [OF hl(2) [unfolded i]] goInt_len [OF assms(1) len] by (simp add: decBasic_def i)
  moreover have "nat ?i = nat (sI s) + UvarintSize (of_nat (length b))" using nn by simp
  ultimately have "dec c (decsOf M) (inpOf s) t v (sI s) = Good
      (VStr (if safe (cGen c) then Own else Input (sBase s + nat (sI s) + UvarintSize (of_nat (length b)))) b, ?i + int (length b))"
    using assms(3,4) by (simp add: dec.simps [of c _ _ t] add.assoc)
  with decOK_run [OF unmarshalExpr_sim [OF envOK_decsOf [of M]] assms(5-7), of c t]
  obtain s' where s': "execs (fst (unmarshalExpr (cGen c) ref t es)) c M s = Next s'"
    "into (varCounter es) s ref (VStr (if safe (cGen c) then Own else Input (sBase s + nat (sI s) + UvarintSize (of_nat (length b)))) b,
       ?i + int (length b)) s'"
    by (auto simp: sim_iffs simp del: execs.simps)
  from into_rd [OF s'(2) assms(5-7)] s' show ?thesis by (auto simp: into_def)
qed

theorem string_decode_witness:
  "\<exists>s'. execs (fst (unmarshalExpr (shapesGen False) (RField ''Name'') (TBasic KString) emit0)) (shapesCtx False) noFuelEnv
     ((initSt drawing1)\<lparr>sB := [3, 97, 98, 99, 9], sBase := 100\<rparr>) = Next s'
   \<and> rd s' (RField ''Name'') = Ok (VStr (Input 101) [97, 98, 99]) \<and> sI s' = 4"
proof -
  let ?s = "(initSt drawing1)\<lparr>sB := [3, 97, 98, 99, 9], sBase := 100\<rparr>"
  have n: "length [97, 98, 99 :: byte] = 3" "Suc (Suc (Suc 0)) = 3" by simp_all
  have p: "lenPrefix 3 = [3]" "UvarintSize 3 = 1" by code_simp+
  have "holds (inpOf ?s) (sI ?s) (lenPrefix (length [97, 98, 99 :: byte]) @ [97, 98, 99])"
    by (simp only: n p) (simp add: holds_def initSt_def inpOf_def)
  from string_decode [OF _ _ _ _ _ _ _ this, of "shapesCtx False" "TBasic KString" "RField ''Name''" _ emit0 noFuelEnv] show ?thesis
    by (simp add: initSt_def drawing1_def shapesCtx_sel below_def isTime_def n p lenOK_def amd64_def archOK_def
        shapesGen_def [of False] del: execs.simps)
qed

end
