(* ===== verification/RunProps.thy ===== *)
theory RunProps
  imports CommandProps DecodeProps
begin

text \<open>
  From the command line to the decoder: what a run with \<open>-safe\<close> promises of the file it writes.
\<close>

lemma run_safeSetup:
  assumes "rFile (run w args) = Some (d, out, gf)" and "checker w"
    and "parseFlags (tl args) defaultFlags = Inr f" and "fSafe f"
  obtains g where "load w d out (codecPkgPath w) True = Inr g" "generate g emit0 = Inr gf"
    "\<And>c U. pkgName g \<noteq> ''time'' \<Longrightarrow> cGen c = g \<Longrightarrow> archOK (cArch c) \<Longrightarrow> zerosOK c \<Longrightarrow> ownedSafe c (decsOf U)
       \<Longrightarrow> safeSetup c emit0 gf U"
proof -
  obtain g where l: "load w d out (codecPkgPath w) True = Inr g" "generate g emit0 = Inr gf"
    using assms(3,4) by (auto intro: run_cases [OF assms(1)])
  have "safe g" using load_facts [OF l(1) assms(2)] by blast
  then show ?thesis
    using that [OF l] load_wfGen [OF l(1) assms(2)] l(2) by (simp add: safeSetup_def)
qed

text \<open>C11: when a run with \<open>-safe\<close> writes a file, every codec in it can be given any bytes: for each
  target of the package and any destination, \<open>Unmarshal\<close> returns, with a value of the type and a
  count within the input or with an error, on every machine and whatever follows the input in
  memory.\<close>

theorem run_safe_decodes:
  assumes "rFile (run w args) = Some (d, out, gf)" and "checker w"
    and "parseFlags (tl args) defaultFlags = Inr f" and "fSafe f"
  shows "\<exists>g. load w d out (codecPkgPath w) True = Inr g \<and> (pkgName g \<noteq> ''time'' \<longrightarrow>
     (\<forall>c U n x b sp base k. cGen c = g \<longrightarrow> archOK (cArch c) \<longrightarrow> zerosOK c \<longrightarrow> ownedSafe c (decsOf U)
        \<longrightarrow> isTarget g n \<longrightarrow> wt g (cArch c) (TNamed n TStruct) x \<longrightarrow> enough c b k \<longrightarrow> lenOK (cArch c) (length b)
        \<longrightarrow> (\<exists>x' j e. mUnmarshal (methods c (map_of (gfCodecs gf)) U k) n x b sp base = Ok (x', j, e)
              \<and> (e = None \<longrightarrow> wt g (cArch c) (TNamed n TStruct) x' \<and> 0 \<le> j \<and> j \<le> int (length b)))))"
proof -
  obtain g where l: "load w d out (codecPkgPath w) True = Inr g" and "generate g emit0 = Inr gf"
    and s: "\<And>c U. pkgName g \<noteq> ''time'' \<Longrightarrow> cGen c = g \<Longrightarrow> archOK (cArch c) \<Longrightarrow> zerosOK c
       \<Longrightarrow> ownedSafe c (decsOf U) \<Longrightarrow> safeSetup c emit0 gf U"
    by (rule run_safeSetup [OF assms]) (rule that)
  have "\<exists>x' j e. mUnmarshal (methods c (map_of (gfCodecs gf)) U k) n x b sp base = Ok (x', j, e)
      \<and> (e = None \<longrightarrow> wt g (cArch c) (TNamed n TStruct) x' \<and> 0 \<le> j \<and> j \<le> int (length b))"
    if "pkgName g \<noteq> ''time''" "cGen c = g" "archOK (cArch c)" "zerosOK c" "ownedSafe c (decsOf U)" "isTarget g n"
      "wt g (cArch c) (TNamed n TStruct) x" "enough c b k" "lenOK (cArch c) (length b)" for c U n x b sp base k
  proof -
    let ?r = "mUnmarshal (methods c (map_of (gfCodecs gf)) U k) n x b sp base"
    have ok: "okRes (wt g (cArch c) (TNamed n TStruct)) \<lparr>iB = b, iSpare = sp, iBase = base\<rparr> 0 (ofCall ?r)
        (decAll c (decsOf U) k n x b sp base)"
      using safe_result [OF s [OF that(1-5)], of n x b k sp base sp base] that by simp
    show ?thesis
    proof (cases ?r)
      case (Ok y)
      then show ?thesis using ok by (cases y; cases "snd (snd y)") (auto simp: ofCall_eqs)
    qed (use ok in \<open>simp_all add: ofCall_eqs okRes_def\<close>)
  qed
  with l show ?thesis by (intro exI [of _ g] conjI impI allI)
qed

theorem run_safe_decodes_witness:
  "\<exists>gf x' j e. rFile (run shapesWorld [''goserdegen'', ''-safe'']) = Some (''.'', ''goserde_gen.go'', gf)
     \<and> mUnmarshal (methods (shapesCtx True) (map_of (gfCodecs gf)) noFuelEnv 12) (nm ''Drawing'') drawing1 [2, 104] [] 0
       = Ok (x', j, e)"
proof -
  obtain gf where gf: "rFile (run shapesWorld [''goserdegen'', ''-safe'']) = Some (''.'', ''goserde_gen.go'', gf)"
    using shapes_run by blast
  have f: "parseFlags (tl [''goserdegen'', ''-safe'']) defaultFlags = Inr (defaultFlags\<lparr>fSafe := True\<rparr>)"
    by code_simp
  have c: "codecPkgPath shapesWorld = defaultCodecPkg" by (simp add: codecPkgPath_def shapesWorld_def)
  have p: "pkgName (shapesGen True) \<noteq> ''time''" "cGen (shapesCtx True) = shapesGen True" "cArch (shapesCtx True) = amd64"
    "archOK amd64" "zerosOK (shapesCtx True)" "ownedSafe (shapesCtx True) (decsOf noFuelEnv)"
    using shapes_zeros by (simp_all add: shapesCtx_def shapesGen_def amd64_def archOK_def ownedSafe_def)
  obtain g where g: "load shapesWorld ''.'' ''goserde_gen.go'' (codecPkgPath shapesWorld) True = Inr g"
    and d: "pkgName g \<noteq> ''time'' \<longrightarrow> (\<forall>c U n x b sp base k. cGen c = g \<longrightarrow> archOK (cArch c) \<longrightarrow> zerosOK c
        \<longrightarrow> ownedSafe c (decsOf U) \<longrightarrow> isTarget g n \<longrightarrow> wt g (cArch c) (TNamed n TStruct) x \<longrightarrow> enough c b k
        \<longrightarrow> lenOK (cArch c) (length b)
        \<longrightarrow> (\<exists>x' j e. mUnmarshal (methods c (map_of (gfCodecs gf)) U k) n x b sp base = Ok (x', j, e)
              \<and> (e = None \<longrightarrow> wt g (cArch c) (TNamed n TStruct) x' \<and> 0 \<le> j \<and> j \<le> int (length b))))"
    using run_safe_decodes [OF gf shapes_checker f] by auto
  have "g = shapesGen True" using g shapes_load [of True] c by simp
  then have "\<exists>x' j e. mUnmarshal (methods (shapesCtx True) (map_of (gfCodecs gf)) noFuelEnv 12) (nm ''Drawing'') drawing1
      [2, 104] [] 0 = Ok (x', j, e)"
    using d [rule_format, of "shapesCtx True" noFuelEnv "nm ''Drawing''" drawing1 "[2, 104]" 12 "[]" 0] shapes_hostile [OF refl] p
    by auto
  then show ?thesis using gf by blast
qed

end
