(* ===== verification/Scope.thy ===== *)
theory Scope
  imports DecLoops EncPut EncSize
begin

text \<open>
  Go's declaration rules for the temporaries of the emitted code: a name is declared before it is
  mentioned, its scope ends with its block, and a declared variable that is never used is a
  compile-time error.  Assigning to a variable does not count as a use.
\<close>

subsection \<open>Mentions and uses\<close>

fun ieVars :: "iexp \<Rightarrow> var set" where
  "ieVars (INum n) = {}"
| "ieVars (ILen r) = refVars r"
| "ieVars (IUvarintSize e) = ieVars e"
| "ieVars (IAdd a b) = ieVars a \<union> ieVars b"
| "ieVars (IMul a b) = ieVars a \<union> ieVars b"
| "ieVars (ISizeofElem t r) = refVars r"
| "ieVars (ISizeof t r) = refVars r"
| "ieVars IIntNN = {}"
| "ieVars (IVar v) = {v}"
| "ieVars (ISize rc n) = refVars (recvLoc rc)"

fun weVars :: "wexp \<Rightarrow> var set" where
  "weVars (WConv r) = refVars r" | "weVars (WF32bits r) = refVars r"
| "weVars (WF64bits r) = refVars r" | "weVars (WUnixNano r) = refVars r"

fun beVars :: "bexp \<Rightarrow> var set" where
  "beVars (BNum n) = {}" | "beVars (BConv r) = refVars r"

fun srcVars :: "bsrc \<Rightarrow> var set" where
  "srcVars (SrcStr r) = refVars r" | "srcVars (SrcBytes r) = refVars r" | "srcVars (SrcArr r) = refVars r"
| "srcVars (SrcMem t r e) = refVars r \<union> ieVars e"

definition deVars :: "dexp \<Rightarrow> var set" where
  "deVars d = (case d of DBytesCopy r \<Rightarrow> refVars r | DIface v n \<Rightarrow> {v} | _ \<Rightarrow> {})"

fun muses :: "mstmt \<Rightarrow> var set" where
  "muses (SPut16 w) = weVars w" | "muses (SPut32 w) = weVars w" | "muses (SPut64 w) = weVars w"
| "muses (SSetByte b) = beVars b" | "muses (SPutUvarint e) = ieVars e" | "muses (SCopy q) = srcVars q"
| "muses (SMarshal rc n) = refVars (recvLoc rc)" | "muses (SIncI n) = {}"

fun auses :: "astmt \<Rightarrow> var set" where
  "auses (SApp16 w) = weVars w" | "auses (SApp32 w) = weVars w" | "auses (SApp64 w) = weVars w"
| "auses (SAppByte b) = beVars b" | "auses (SAppUvarint e) = ieVars e" | "auses (SApp q) = srcVars q"
| "auses (SAppend rc n) = refVars (recvLoc rc)"

definition guses :: "gstmt \<Rightarrow> var set" where
  "guses x = (case x of SIncE e \<Rightarrow> ieVars e | _ \<Rightarrow> {})"

text \<open>\<open>x = e\<close> does not use \<open>x\<close>; \<open>x[j] = e\<close> and \<open>*x = e\<close> do.\<close>

definition destUses :: "ref \<Rightarrow> var set" where
  "destUses r = (case r of RVar v \<Rightarrow> {} | _ \<Rightarrow> refVars r)"

fun uuses :: "ustmt \<Rightarrow> var set" where
  "uuses (SAssign r d) = destUses r \<union> deVars d"
| "uuses (SReuseOrMake r t) = refVars r"
| "uuses (SReuseOrMakeMap r t v) = insert v (refVars r)"
| "uuses (SNewIfNil r t) = refVars r"
| "uuses (SCopyArr r n) = refVars r"
| "uuses (SCopyMem t r e) = refVars r \<union> ieVars e"
| "uuses (SLetInt v e) = ieVars e"
| "uuses (SLetNN v) = {}"
| "uuses (SVar v t) = {}"
| "uuses (SMapSet t r k v) = {k, v} \<union> refVars r"
| "uuses (SUnmarshalSafe rc n) = refVars (recvLoc rc)"
| "uuses (SUnmarshalFast rc n) = refVars (recvLoc rc)"
| "uuses (STypeAssert v r n) = refVars r"

definition uassigns :: "ustmt \<Rightarrow> var set" where
  "uassigns u = (case u of SAssign r d \<Rightarrow> refVars r | _ \<Rightarrow> {})"

text \<open>The variables a statement or block uses of those declared outside it.\<close>

fun uses :: "stmt \<Rightarrow> var set" and usesB :: "stmt list \<Rightarrow> var set" where
  "uses (SAddS e) = ieVars e"
| "uses (SUse x) = {x}"
| "uses (SM m) = muses m"
| "uses (SA a) = auses a"
| "uses (SG g) = guses g"
| "uses (SU u) = uuses u"
| "uses (SForIdx iv r b) = refVars r \<union> (usesB b - {iv})"
| "uses (SForVal iv r b) = refVars r \<union> (usesB b - {iv})"
| "uses (SForN iv n b) = usesB b - {iv}"
| "uses (SForMap kv vv r b) = refVars r \<union> (usesB b - {kv, vv})"
| "uses (SForCnt iv cnt b) = insert cnt (usesB b - {iv})"
| "uses (SIfNotNil r a b) = refVars r \<union> usesB a \<union> usesB b"
| "uses (SIfTrue r a b) = refVars r \<union> usesB a \<union> usesB b"
| "uses (SIfNonEmpty r a) = refVars r \<union> usesB a"
| "uses (SIfNN0 a b) = usesB a \<union> usesB b"
| "uses (SIfFlag a b) = usesB a \<union> usesB b"
| "uses (STypeSwitch r cs nl msg) =
     refVars r \<union> (\<Union> (set (map (\<lambda>(m, b). usesB b - {VV}) cs)) \<union> (usesB nl - {VV}))"
| "uses (SSwitchNN cs) = \<Union> (set (map (\<lambda>(k, b). usesB b) cs))"
| "usesB [] = {}"
| "usesB (x # xs) = uses x \<union> (usesB xs - set (declared x))"

subsection \<open>The rules\<close>

text \<open>\<open>okB A b\<close>: block \<open>b\<close> is legal where the variables \<open>A\<close> are in scope.  Go allows a name to be
  shadowed in an inner block; the rule here is stricter and does not.  In a type switch the
  variable \<open>v\<close> must be used in some clause.\<close>

fun okS :: "var set \<Rightarrow> stmt \<Rightarrow> bool" and okB :: "var set \<Rightarrow> stmt list \<Rightarrow> bool" where
  "okS A (SAddS e) = (ieVars e \<subseteq> A)"
| "okS A (SUse x) = (x \<in> A)"
| "okS A (SM m) = (muses m \<subseteq> A)"
| "okS A (SA a) = (auses a \<subseteq> A)"
| "okS A (SG g) = (guses g \<subseteq> A)"
| "okS A (SU u) = (uuses u \<union> uassigns u \<subseteq> A)"
| "okS A (SForIdx iv r b) = (refVars r \<subseteq> A \<and> iv \<notin> A \<and> iv \<in> usesB b \<and> okB (insert iv A) b)"
| "okS A (SForVal iv r b) = (refVars r \<subseteq> A \<and> iv \<notin> A \<and> iv \<in> usesB b \<and> okB (insert iv A) b)"
| "okS A (SForN iv n b) = (iv \<notin> A \<and> okB (insert iv A) b)"
| "okS A (SForMap kv vv r b) =
     (refVars r \<subseteq> A \<and> kv \<noteq> vv \<and> kv \<notin> A \<and> vv \<notin> A \<and> kv \<in> usesB b \<and> vv \<in> usesB b
      \<and> okB (insert kv (insert vv A)) b)"
| "okS A (SForCnt iv cnt b) = (cnt \<in> A \<and> iv \<notin> A \<and> okB (insert iv A) b)"
| "okS A (SIfNotNil r a b) = (refVars r \<subseteq> A \<and> okB A a \<and> okB A b)"
| "okS A (SIfTrue r a b) = (refVars r \<subseteq> A \<and> okB A a \<and> okB A b)"
| "okS A (SIfNonEmpty r a) = (refVars r \<subseteq> A \<and> okB A a)"
| "okS A (SIfNN0 a b) = (okB A a \<and> okB A b)"
| "okS A (SIfFlag a b) = (okB A a \<and> okB A b)"
| "okS A (STypeSwitch r cs nl msg) =
     (refVars r \<subseteq> A \<and> VV \<notin> A \<and> list_all (\<lambda>(m, b). okB (insert VV A) b) cs \<and> okB (insert VV A) nl
      \<and> list_ex (\<lambda>(m, b). VV \<in> usesB b) cs)"
| "okS A (SSwitchNN cs) = list_all (\<lambda>(k, b). okB A b) cs"
| "okB A [] = True"
| "okB A (x # xs) =
     (okS A x \<and> set (declared x) \<inter> A = {} \<and> set (declared x) \<subseteq> usesB xs
      \<and> okB (A \<union> set (declared x)) xs)"

text \<open>All temporaries that a statement declares, at any depth.\<close>

fun binders :: "stmt \<Rightarrow> var list" and bindersB :: "stmt list \<Rightarrow> var list" where
  "binders (SForIdx iv r b) = iv # bindersB b"
| "binders (SForVal iv r b) = iv # bindersB b"
| "binders (SForN iv n b) = iv # bindersB b"
| "binders (SForMap kv vv r b) = kv # vv # bindersB b"
| "binders (SForCnt iv cnt b) = iv # bindersB b"
| "binders (SIfNotNil r a b) = bindersB a @ bindersB b"
| "binders (SIfTrue r a b) = bindersB a @ bindersB b"
| "binders (SIfNonEmpty r a) = bindersB a"
| "binders (SIfNN0 a b) = bindersB a @ bindersB b"
| "binders (SIfFlag a b) = bindersB a @ bindersB b"
| "binders (STypeSwitch r cs nl msg) = concat (map (\<lambda>(m, b). bindersB b) cs) @ bindersB nl"
| "binders (SSwitchNN cs) = concat (map (\<lambda>(k, b). bindersB b) cs)"
| "binders (SU u) = declared (SU u)"
| "binders x = []"
| "bindersB [] = []"
| "bindersB (x # xs) = binders x @ bindersB xs"

definition methodBinders :: "gomethod \<Rightarrow> var list" where
  "methodBinders m = (case m of MBody b \<Rightarrow> bindersB b | MBlit n f \<Rightarrow> [])"

definition codecBinders :: "codec \<Rightarrow> var list" where
  "codecBinders c = methodBinders (cSize c) @ methodBinders (cMarshal c) @ methodBinders (cAppend c)
     @ methodBinders (cUnmarshal c)"

definition okMethod :: "gomethod \<Rightarrow> bool" where
  "okMethod m = (case m of MBody b \<Rightarrow> okB {} b | MBlit n f \<Rightarrow> True)"

definition okCodec :: "codec \<Rightarrow> bool" where
  "okCodec c \<longleftrightarrow> okMethod (cSize c) \<and> okMethod (cMarshal c) \<and> okMethod (cAppend c) \<and> okMethod (cUnmarshal c)"

text \<open>A whole file: every method is legal, and no temporary is declared twice in it.\<close>

definition fileBinders :: "genfile \<Rightarrow> var list" where
  "fileBinders gf = concat (map (codecBinders \<circ> snd) (gfCodecs gf))"

definition okFile :: "genfile \<Rightarrow> bool" where
  "okFile gf \<longleftrightarrow> list_all (okCodec \<circ> snd) (gfCodecs gf) \<and> distinct (fileBinders gf)"

subsection \<open>Composition\<close>

lemma usesB_append: "usesB (a @ b) = usesB a \<union> (usesB b - set (decls a))"
  by (induction a) auto

lemma okB_append: "okB A a \<Longrightarrow> okB (A \<union> set (decls a)) b \<Longrightarrow> okB A (a @ b)"
  by (induction a arbitrary: A) (auto simp: usesB_append Un_assoc)

lemma bindersB_append [simp]: "bindersB (a @ b) = bindersB a @ bindersB b"
  by (induction a) auto

lemma decls_binders: "set (decls b) \<subseteq> set (bindersB b)"
proof (induction b)
  case (Cons x b)
  have "set (declared x) \<subseteq> set (binders x)" by (cases x) (auto simp: declared_def)
  then show ?case using Cons by auto
qed simp

definition between :: "nat \<Rightarrow> nat \<Rightarrow> var set" where
  "between lo hi = {v. lo < varNo v \<and> varNo v \<le> hi}"

lemma between_I: "lo < varNo v \<Longrightarrow> varNo v \<le> hi \<Longrightarrow> v \<in> between lo hi"
  by (simp add: between_def)

lemma between_insert: "A \<subseteq> between 0 n \<Longrightarrow> varNo v = Suc n \<Longrightarrow> insert v A \<subseteq> between 0 (Suc n)"
  by (auto simp: between_def)

lemma between_VV: "A \<subseteq> between 0 n \<Longrightarrow> VV \<notin> A"
  by (auto simp: between_def)

lemma between_fresh: "A \<subseteq> between 0 n \<Longrightarrow> n < varNo x \<Longrightarrow> x \<notin> A"
  by (auto simp: between_def)

lemma between_below: "refVars r \<subseteq> A \<Longrightarrow> A \<subseteq> between 0 n \<Longrightarrow> below r n"
  by (auto simp: between_def below_def)

text \<open>Legal code that declares distinct temporaries with numbers in \<open>(lo, hi]\<close>.\<close>

definition tidy :: "var set \<Rightarrow> nat \<Rightarrow> nat \<Rightarrow> block \<Rightarrow> bool" where
  "tidy A lo hi b \<longleftrightarrow>
     lo \<le> hi \<and> okB A b \<and> distinct (bindersB b) \<and> set (bindersB b) \<subseteq> between lo hi"

lemma tidy_append:
  assumes "tidy A lo m a" "tidy (A \<union> set (decls a)) m hi b"
  shows "tidy A lo hi (a @ b)"
proof -
  have "set (bindersB a) \<inter> set (bindersB b) = {}"
    using assms unfolding tidy_def between_def by force
  then show ?thesis using assms by (auto simp: tidy_def okB_append between_def)
qed

lemma tidy_nil [simp]: "tidy A lo hi [] \<longleftrightarrow> lo \<le> hi"
  by (simp add: tidy_def)

text \<open>Statements that declare nothing, and the blocks under a loop.\<close>

lemma binders_none: "binders x = [] \<Longrightarrow> declared x = []"
  by (cases x) (auto simp: declared_def)

lemma declared_more [simp]:
  "declared (SAddS e) = []" "declared (SUse v) = []" "declared (SA x) = []" "declared (SForVal v r b) = []"
  "declared (SForMap v w r b) = []" "declared (SIfNotNil r a b) = []" "declared (SIfTrue r a b) = []"
  "declared (SIfNonEmpty r b) = []" "declared (STypeSwitch r cs b msg) = []"
  by (simp_all add: declared_def)

lemma tidy_simps [simp]:
  "tidy A lo hi (SAddS e # b) \<longleftrightarrow> ieVars e \<subseteq> A \<and> tidy A lo hi b"
  "tidy A lo hi (SUse v # b) \<longleftrightarrow> v \<in> A \<and> tidy A lo hi b"
  "tidy A lo hi (SM m # b) \<longleftrightarrow> muses m \<subseteq> A \<and> tidy A lo hi b"
  "tidy A lo hi (SA a # b) \<longleftrightarrow> auses a \<subseteq> A \<and> tidy A lo hi b"
  "tidy A lo hi (SG x # b) \<longleftrightarrow> guses x \<subseteq> A \<and> tidy A lo hi b"
  by (auto simp: tidy_def)

lemma tidy_mono: "tidy A m n b \<Longrightarrow> lo \<le> m \<Longrightarrow> n \<le> hi \<Longrightarrow> tidy A lo hi b"
  by (auto simp: tidy_def between_def)

lemma tidy_loop:
  assumes "tidy (insert iv A) m hi body" "lo < varNo iv" "varNo iv \<le> m" "A \<subseteq> between 0 lo"
  shows "refVars r \<subseteq> A \<Longrightarrow> iv \<in> usesB body \<Longrightarrow> tidy A lo hi [SForIdx iv r body]"
    and "refVars r \<subseteq> A \<Longrightarrow> iv \<in> usesB body \<Longrightarrow> tidy A lo hi [SForVal iv r body]"
    and "tidy A lo hi [SForN iv n body]"
    and "cnt \<in> A \<Longrightarrow> tidy A lo hi [SForCnt iv cnt body]"
  using assms by (auto simp: tidy_def between_def declared_def)

lemma tidy_forMap:
  assumes "tidy (insert kv (insert vv A)) m hi body" "lo < varNo kv" "varNo kv < varNo vv" "varNo vv \<le> m"
    and "A \<subseteq> between 0 lo" "refVars r \<subseteq> A" "kv \<in> usesB body" "vv \<in> usesB body"
  shows "tidy A lo hi [SForMap kv vv r body]"
  using assms by (auto simp: tidy_def between_def declared_def)

lemma tidy_if:
  assumes "tidy A lo hi a" "set (bindersB b) = {}" "okB A b"
  shows "refVars r \<subseteq> A \<Longrightarrow> tidy A lo hi [SIfNotNil r a b]"
    and "refVars r \<subseteq> A \<Longrightarrow> tidy A lo hi [SIfTrue r a b]"
    and "tidy A lo hi [SIfFlag a b]" and "tidy A lo hi [SIfNN0 b a]"
  using assms by (auto simp: tidy_def)

lemma tidy_nonEmpty: "tidy A lo hi [SIfNonEmpty r b] \<longleftrightarrow> refVars r \<subseteq> A \<and> tidy A lo hi b"
  by (auto simp: tidy_def)

lemma tidy_switch:
  assumes "refVars r \<subseteq> A" "A \<subseteq> between 0 lo" "ms \<noteq> []"
    and "\<And>k m. bindersB (f k m) = []" "\<And>k m. VV \<in> usesB (f k m)" "\<And>k m. okB (insert VV A) (f k m)"
    and "bindersB nl = []" "okB (insert VV A) nl"
  shows "tidy A lo lo [STypeSwitch r (map (\<lambda>(k, m). (m, f k m)) ms) nl msg]"
proof -
  let ?cs = "map (\<lambda>(k, m). (m, f k m)) ms"
  have "list_ex (\<lambda>(m, b). VV \<in> usesB b) ?cs"
    using assms(3,5) by (cases ms) (simp_all add: split_beta)
  moreover have "list_all (\<lambda>(m, b). okB (insert VV A) b) ?cs"
    using assms(6) by (simp add: list_all_iff split_beta)
  ultimately have ok: "okB A [STypeSwitch r ?cs nl msg]"
    using assms(1,2,8) between_VV by simp
  have "bindersB [STypeSwitch r ?cs nl msg] = []"
    using assms(4,7) by (auto simp: split_beta)
  then show ?thesis unfolding tidy_def by (simp only: ok order.refl distinct.simps list.set empty_subsetI simp_thms)
qed

text \<open>What an emission function does for one type: the code for any reference in scope is tidy.\<close>

definition tidyAt :: "(ref \<Rightarrow> gotype \<Rightarrow> gstate \<Rightarrow> block \<times> gstate) \<Rightarrow> gotype \<Rightarrow> bool" where
  "tidyAt ex t \<longleftrightarrow> (\<forall>ref A es. refVars ref \<subseteq> A \<longrightarrow> A \<subseteq> between 0 (varCounter es)
     \<longrightarrow> tidy A (varCounter es) (varCounter (snd (ex ref t es))) (fst (ex ref t es)))"

lemma tidyAt_D:
  "tidyAt ex t \<Longrightarrow> refVars ref \<subseteq> A \<Longrightarrow> A \<subseteq> between 0 (varCounter es)
     \<Longrightarrow> tidy A (varCounter es) (varCounter (snd (ex ref t es))) (fst (ex ref t es))"
  by (simp add: tidyAt_def)

lemma freshVar_facts:
  "varNo (fst (freshVar es)) = Suc (varCounter es)" "varCounter (snd (freshVar es)) = Suc (varCounter es)"
  by (simp_all add: freshVar_def Let_def)

text \<open>Every union has members, as \<open>resolveUnions\<close> demands.\<close>

definition inhabited :: "generator \<Rightarrow> bool" where
  "inhabited g \<longleftrightarrow> (\<forall>(n, ms) \<in> set (unions g). ms \<noteq> [])"

lemma inhabited_members:
  assumes "inhabited g" "supported g t = None" "\<not> isTime t" "underlying t = TInterface"
  shows "taggedMembers g t \<noteq> []"
proof -
  obtain n u ms where "t = TNamed n u" "map_of (unions g) n = Some ms"
    using assms(2-4)
    by (auto simp: supported.simps [of g t] unionMembersOf_def split: option.splits gotype.splits)
  then show ?thesis
    using assms(1) map_of_SomeD [of "unions g" n ms]
    by (cases ms) (auto simp: inhabited_def taggedMembers_def unionMembersOf_def)
qed

lemma addrOf_vars [simp]: "refVars (recvLoc (addrOf r)) = refVars r"
  by (cases r) (simp_all add: addrOf_def)

lemma byteCount_vars [simp]: "ieVars (byteCount n e) = ieVars e"
  by (simp add: byteCount_def)

text \<open>A block that declares nothing and mentions exactly the variables \<open>X\<close>.\<close>

definition plain :: "block \<Rightarrow> var set \<Rightarrow> bool" where
  "plain b X \<longleftrightarrow> bindersB b = [] \<and> usesB b = X \<and> (\<forall>A. okB A b \<longleftrightarrow> X \<subseteq> A)"

lemma plain_decls: "plain b X \<Longrightarrow> decls b = []"
  using decls_binders [of b] by (simp add: plain_def)

lemma plain_append: "plain a X \<Longrightarrow> plain b Y \<Longrightarrow> plain (a @ b) (X \<union> Y)"
proof -
  have "okB A (a @ b) \<longleftrightarrow> okB A a \<and> okB A b" if "decls a = []" for A
    using that by (induction a) (auto simp: usesB_append)
  then show "plain a X \<Longrightarrow> plain b Y \<Longrightarrow> plain (a @ b) (X \<union> Y)"
    using plain_decls [of a X] by (auto simp: plain_def usesB_append)
qed

lemma plain_tidy: "plain a X \<Longrightarrow> tidy A lo hi (a @ b) \<longleftrightarrow> X \<subseteq> A \<and> tidy A lo hi b"
proof -
  assume p: "plain a X"
  have "okB A (a @ b) \<longleftrightarrow> okB A a \<and> okB A b" if "decls a = []"
    using that by (induction a) (auto simp: usesB_append)
  then show ?thesis using p plain_decls [OF p] by (auto simp: tidy_def plain_def)
qed

text \<open>The loop over a map: two range variables, the code of the key and of the value.\<close>

lemma map_tidy:
  fixes es :: gstate and k e :: gotype and ex :: "ref \<Rightarrow> gotype \<Rightarrow> gstate \<Rightarrow> block \<times> gstate"
  defines "kv \<equiv> fst (freshVar es)" and "vv \<equiv> fst (freshVar (snd (freshVar es)))"
    and "s2 \<equiv> snd (freshVar (snd (freshVar es)))"
  defines "kb \<equiv> ex (RVar kv) k s2"
  defines "vb \<equiv> ex (RVar vv) e (snd kb)"
  assumes t: "tidyAt ex k" "tidyAt ex e" and d: "decls (fst kb) = []"
    and A: "refVars ref \<subseteq> A" "A \<subseteq> between 0 (varCounter es)"
    and p: "plain pre X" "X \<subseteq> {kv, vv}" and used: "kv \<in> usesB (pre @ fst kb @ fst vb)" "vv \<in> usesB (pre @ fst kb @ fst vb)"
  shows "tidy A (varCounter es) (varCounter (snd vb)) [SForMap kv vv ref (pre @ fst kb @ fst vb)]"
proof -
  let ?A = "insert kv (insert vv A)"
  have v: "varNo kv = Suc (varCounter es)" "varNo vv = Suc (varNo kv)" "varCounter s2 = varNo vv"
    by (simp_all add: kv_def vv_def s2_def freshVar_facts)
  have A2: "?A \<subseteq> between 0 (varCounter s2)" using A(2) v by (auto simp: between_def)
  have kb: "tidy ?A (varCounter s2) (varCounter (snd kb)) (fst kb)"
    unfolding kb_def by (rule tidyAt_D [OF t(1) _ A2]) simp
  have "varCounter s2 \<le> varCounter (snd kb)" using kb by (simp add: tidy_def)
  then have "?A \<subseteq> between 0 (varCounter (snd kb))" using A2 by (auto simp: between_def)
  then have "tidy ?A (varCounter (snd kb)) (varCounter (snd vb)) (fst vb)"
    unfolding vb_def by (intro tidyAt_D [OF t(2)]) simp_all
  then have "tidy ?A (varCounter s2) (varCounter (snd vb)) (pre @ fst kb @ fst vb)"
    using kb d p(2) by (simp add: plain_tidy [OF p(1)] tidy_append) blast
  then show ?thesis using used A v by (intro tidy_forMap [where m = "varCounter s2"]) simp_all
qed

subsection \<open>Size\<close>

lemma size_decls: "decls (fst (sizeExpr g ref t es)) = []"
  by (cases "underlying t")
    (auto simp: sizeExpr.simps [of g ref t] Let_def split_beta declared_def sizeBasic_def
      split: gotype.split option.split bkind.split)

lemma size_uses:
  assumes "supported g t = None" "fixedSize t = None" "below ref (varCounter es)"
  shows "refVars ref \<subseteq> usesB (fst (sizeExpr g ref t es))"
  using assms
proof (induction t arbitrary: ref es rule: measure_induct_rule [where f = size])
  case (less t)
  note u = underlying_size_less supported.simps [of g t] fixedSize.simps [of t] sizeExpr.simps [of g ref t es]
  have nt: "\<not> isTime t" using less.prems(2) by (auto simp: u)
  show ?case
  proof (cases "underlying t")
    case (TBasic k)
    then show ?thesis using less.prems nt by (cases k) (auto simp: u supportedBasic_def basicFixedSize_def sizeBasic_def)
  next
    case (TArray n e)
    let ?r = "RIdx ref (fst (freshIdx es))" and ?es = "snd (freshIdx es)"
    have "fst (freshIdx es) \<notin> refVars ref" using less.prems(3) by (simp add: below_fresh freshIdx_facts)
    moreover have "refVars ?r \<subseteq> usesB (fst (sizeExpr g ?r e ?es))" if "fixedSize e = None"
      using less.prems nt TArray that
      by (intro less.IH) (auto simp: u freshIdx_facts intro: below_mono)
    ultimately show ?thesis using less.prems nt TArray
      by (auto simp: u Let_def split_beta split: option.splits)
  next
    case TStruct
    then show ?thesis using less.prems nt by (auto simp: u split: gotype.splits)
  qed (use less.prems nt in \<open>auto simp: u Let_def split_beta split: option.splits\<close>)
qed

lemma size_map_tidy:
  assumes "\<not> isTime t" "underlying t = TMap k e" "tidyAt (sizeExpr g) k" "tidyAt (sizeExpr g) e"
    and "refVars ref \<subseteq> A" "A \<subseteq> between 0 (varCounter es)"
  shows "tidy A (varCounter es) (varCounter (snd (sizeExpr g ref t es))) (fst (sizeExpr g ref t es))"
proof -
  have "plain [SUse v, SUse w] {v, w}" for v w by (auto simp: plain_def)
  from map_tidy [OF assms(3,4) size_decls assms(5,6) this] show ?thesis
    using assms(1,2,5) by (simp add: sizeExpr.simps [of g ref t es] Let_def split_beta)
qed

lemma size_tidy:
  assumes "inhabited g"
  shows "supported g t = None \<Longrightarrow> refVars ref \<subseteq> A \<Longrightarrow> A \<subseteq> between 0 (varCounter es)
    \<Longrightarrow> tidy A (varCounter es) (varCounter (snd (sizeExpr g ref t es))) (fst (sizeExpr g ref t es))"
proof (induction t arbitrary: ref es A rule: measure_induct_rule [where f = size])
  case (less t)
  note u = underlying_size_less [of t] supported.simps [of g t] sizeExpr.simps [of g ref t es]
  have loop: "tidy (insert iv A) (Suc (varCounter es)) (varCounter (snd (sizeExpr g r e es1))) (fst (sizeExpr g r e es1))"
    if "size e < size t" "supported g e = None" "refVars r \<subseteq> insert iv (refVars ref)" "varNo iv = Suc (varCounter es)"
      "varCounter es1 = Suc (varCounter es)" for e iv r es1
    using less.IH [OF that(1,2), of r "insert iv A" es1] between_insert [OF less.prems(3) that(4)] less.prems(2) that(3,5)
    by auto
  have used: "iv \<in> usesB (fst (sizeExpr g r e es1))"
    if "supported g e = None" "fixedSize e = None" "iv \<in> refVars r" "below r (varCounter es1)" for e iv r es1
    using size_uses [OF that(1,2,4)] that(3) by blast
  have below: "below ref n" if "varCounter es \<le> n" for n
    using between_below [OF less.prems(2,3)] that by (rule below_mono)
  show ?case
  proof (cases "isTime t")
    case False
    show ?thesis
    proof (cases "underlying t")
      case (TBasic k)
      then show ?thesis using less.prems False by (cases k) (auto simp: u sizeBasic_def)
    next
      case (TMap k e)
      then have "tidyAt (sizeExpr g) k" "tidyAt (sizeExpr g) e"
        using less.prems(1) False less.IH unfolding tidyAt_def by (auto simp: u split: option.splits)
      then show ?thesis using size_map_tidy [OF False TMap _ _ less.prems(2,3)] by simp
    next
      case TInterface
      then show ?thesis
        using less.prems(2,3) False inhabited_members [OF assms less.prems(1) False TInterface]
        by (simp add: u tidy_switch)
    qed (use less.prems False in \<open>auto simp: u Let_def split_beta freshIdx_facts freshVar_facts below
           intro!: tidy_loop tidy_if loop used less.IH
           split: option.split gotype.splits\<close>)
  qed (use less.prems in \<open>simp add: u\<close>)
qed

subsection \<open>Marshal and Append\<close>

text \<open>How the counter runs through an emission function of the common shape.\<close>

definition looped :: "generator \<Rightarrow> gotype \<Rightarrow> bool" where
  "looped g e \<longleftrightarrow> \<not> isBytes e \<and> \<not> (\<not> safe g \<and> memCopyable e) \<and> \<not> blitElem g e"

definition encFlowAt ::
  "generator \<Rightarrow> (ref \<Rightarrow> gotype \<Rightarrow> gstate \<Rightarrow> block \<times> gstate) \<Rightarrow> ref \<Rightarrow> gotype \<Rightarrow> gstate \<Rightarrow> bool" where
  "encFlowAt g ex ref t s \<longleftrightarrow> (let c = varCounter (snd (ex ref t s)); v = fst (freshIdx s) in
     case underlying t of
        TSlice e \<Rightarrow> looped g e \<longrightarrow>
          varCounter (snd (if indexElems e then ex (RIdx ref v) e (snd (freshIdx s))
                           else ex (RVar (fst (freshVar s))) e (snd (freshVar s)))) \<le> c
      | TArray n e \<Rightarrow> \<not> isByteArray e \<and> \<not> (\<not> safe g \<and> n > 0 \<and> memCopyable e) \<and> \<not> (n > 0 \<and> blitElem g e) \<longrightarrow>
          varCounter (snd (ex (RIdx ref v) e (snd (freshIdx s)))) \<le> c
      | TPointer e \<Rightarrow> varCounter (snd (ex (RDeref ref) e s)) \<le> c
      | TMap k e \<Rightarrow> (let s2 = snd (freshVar (snd (freshVar s))); kv = fst (freshVar s);
            vv = fst (freshVar (snd (freshVar s)))
          in varCounter (snd (ex (RVar vv) e (snd (ex (RVar kv) k s2)))) \<le> c)
      | _ \<Rightarrow> True)"

lemma marshal_flow: "\<not> isTime t \<Longrightarrow> encFlowAt g (marshalExpr g) ref t s"
  by (auto simp: encFlowAt_def looped_def marshalExpr.simps [of g ref t s] Let_def split_beta split: gotype.split)

lemma append_flow: "\<not> isTime t \<Longrightarrow> encFlowAt g (appendExpr g) ref t s"
  by (auto simp: encFlowAt_def looped_def appendExpr.simps [of g ref t s] Let_def split_beta split: gotype.split)

text \<open>Store statements that declare nothing and mention what they are given.\<close>

locale quiet_atoms =
  fixes a :: atoms
  assumes plain_bool: "plain (aBool a r) (refVars r)"
    and plain_byte: "plain (aByte a x) (beVars x)"
    and plain_16: "plain (a16 a w) (weVars w)"
    and plain_32: "plain (a32 a w) (weVars w)"
    and plain_64: "plain (a64 a w) (weVars w)"
    and plain_uv: "plain (aUv a i) (ieVars i)"
    and plain_src: "plain (aSrc a q) (srcVars q)"
    and plain_call: "plain (aCall a rc m) (refVars (recvLoc rc))"
begin

lemmas atoms_plain = plain_bool plain_byte plain_16 plain_32 plain_64 plain_uv plain_src plain_call
lemmas atoms_tidy = atoms_plain [THEN plain_tidy]

lemma atoms_last: "tidy A lo hi (aSrc a q) \<longleftrightarrow> srcVars q \<subseteq> A \<and> lo \<le> hi"
  "tidy A lo hi (aByte a x) \<longleftrightarrow> beVars x \<subseteq> A \<and> lo \<le> hi"
  "tidy A lo hi (a64 a w) \<longleftrightarrow> weVars w \<subseteq> A \<and> lo \<le> hi"
  "tidy A lo hi (aCall a rc m) \<longleftrightarrow> refVars (recvLoc rc) \<subseteq> A \<and> lo \<le> hi"
  using atoms_tidy [where b = "[]"] by simp_all

lemma basic_plain: "supportedBasic k \<Longrightarrow> plain (encBasic a ref k) (refVars ref)"
  using atoms_plain plain_append [OF plain_uv [of "ILen ref"] plain_src [of "SrcStr ref"]]
    plain_16 [of "WConv ref"] plain_32 [of "WConv ref"] plain_64 [of "WConv ref"] plain_byte [of "BConv ref"]
    plain_32 [of "WF32bits ref"] plain_64 [of "WF64bits ref"]
  by (cases k) (simp_all add: supportedBasic_def encBasic_def)

lemma enc_uses:
  assumes shape: "encShape a g ex"
  shows "supported g t = None \<Longrightarrow> below ref (varCounter es) \<Longrightarrow> refVars ref \<subseteq> usesB (fst (ex ref t es))"
proof (induction t arbitrary: ref es rule: measure_induct_rule [where f = size])
  case (less t)
  note u = underlying_size_less [of t] supported.simps [of g t] encShape_D [OF shape, where ref = ref and t = t and s = es]
  have uses: "usesB (x @ b) = X \<union> usesB b" "usesB x = X" if "plain x X" for x b X
    using that plain_decls [OF that] by (simp_all add: plain_def usesB_append)
  note atoms_uses = atoms_plain [THEN uses(1)] atoms_plain [THEN uses(2)]
  show ?case
  proof (cases "isTime t")
    case True
    then show ?thesis using u by (simp add: atoms_uses)
  next
    case False
    show ?thesis
    proof (cases "underlying t")
      case (TBasic k)
      then show ?thesis using less.prems False u uses(2) [OF basic_plain, of k ref] by (simp split: if_splits)
    next
      case (TArray n e)
      let ?r = "RIdx ref (fst (freshIdx es))" and ?es = "snd (freshIdx es)"
      have "fst (freshIdx es) \<notin> refVars ref" using less.prems(2) by (simp add: below_fresh freshIdx_facts)
      moreover have "refVars ?r \<subseteq> usesB (fst (ex ?r e ?es))"
        using less.prems False TArray u by (intro less.IH) (auto simp: freshIdx_facts intro: below_mono)
      ultimately show ?thesis using False TArray u by (auto simp: encArray_def atoms_uses)
    next
      case (TSlice e)
      then show ?thesis using False u by (auto simp: encSlice_def atoms_uses)
    next
      case (TMap k e)
      then show ?thesis using False u by (auto simp: encMap_def atoms_uses Let_def)
    next
      case TStruct
      then show ?thesis using less.prems(1) False u by (auto simp: atoms_uses split: gotype.splits)
    next
      case TInterface
      then show ?thesis using False u by (auto simp: encUnion_def atoms_uses)
    qed (use less.prems False u in \<open>auto simp: atoms_uses\<close>)
  qed
qed

lemma enc_decls:
  assumes "encShape a g ex" "supported g t = None"
  shows "decls (fst (ex ref t es)) = []"
proof -
  note code = encShape_D [OF assms(1), where ref = ref and t = t and s = es]
  note u = supported.simps [of g t] plain_decls [OF plain_uv] plain_decls [OF plain_src] plain_decls [OF plain_64]
    plain_decls [OF plain_call]
  show ?thesis
  proof (cases "isTime t")
    case True
    then show ?thesis using code by (simp add: u)
  next
    case False
    have "supportedBasic k \<Longrightarrow> decls (encBasic a ref k) = []" for k
      by (rule plain_decls [OF basic_plain])
    then show ?thesis using code False assms(2)
      by (cases "underlying t")
        (auto simp: u encSlice_def encArray_def encMap_def encUnion_def Let_def split: if_splits gotype.splits)
  qed
qed

lemma enc_map_tidy:
  assumes shape: "encShape a g ex" and flow: "encFlowAt g ex ref t es" and t: "\<not> isTime t" "underlying t = TMap k e"
    and sup: "supported g k = None" "supported g e = None" and IH: "tidyAt ex k" "tidyAt ex e"
    and A: "refVars ref \<subseteq> A" "A \<subseteq> between 0 (varCounter es)"
  shows "tidy A (varCounter es) (varCounter (snd (ex ref t es))) (fst (ex ref t es))"
proof -
  let ?kv = "fst (freshVar es)" and ?vv = "fst (freshVar (snd (freshVar es)))"
  let ?kb = "ex (RVar ?kv) k (snd (freshVar (snd (freshVar es))))"
  let ?vb = "ex (RVar ?vv) e (snd ?kb)"
  have "Suc (Suc (varCounter es)) \<le> varCounter (snd ?kb)"
    using encShape_at [OF shape, of "RVar ?kv" k "snd (freshVar (snd (freshVar es)))"]
    by (simp add: encShapeAt_def freshVar_facts)
  then have used: "?kv \<in> usesB ([] @ fst ?kb @ fst ?vb)" "?vv \<in> usesB ([] @ fst ?kb @ fst ?vb)"
    using enc_uses [OF shape sup(1), of "RVar ?kv"] enc_uses [OF shape sup(2), of "RVar ?vv" "snd ?kb"]
      enc_decls [OF shape sup(1)]
    by (auto simp: freshVar_facts usesB_append)
  have "tidy A (varCounter es) (varCounter (snd ?vb)) [SForMap ?kv ?vv ref (fst ?kb @ fst ?vb)]"
    using map_tidy [OF IH enc_decls [OF shape sup(1)] A _ _ used, of "{}"] by (simp add: plain_def)
  moreover have "varCounter (snd ?vb) \<le> varCounter (snd (ex ref t es))"
    using flow t by (simp add: encFlowAt_def Let_def)
  ultimately show ?thesis
    using encShape_D [OF shape, where ref = ref and t = t and s = es] t A(1)
    by (auto simp: encMap_def Let_def atoms_tidy intro: tidy_mono)
qed

lemma enc_tidy:
  assumes shape: "encShape a g ex" and flow: "\<And>ref t s. \<not> isTime t \<Longrightarrow> encFlowAt g ex ref t s" and inh: "inhabited g"
  shows "supported g t = None \<Longrightarrow> refVars ref \<subseteq> A \<Longrightarrow> A \<subseteq> between 0 (varCounter es)
    \<Longrightarrow> tidy A (varCounter es) (varCounter (snd (ex ref t es))) (fst (ex ref t es))"
proof (induction t arbitrary: ref es A rule: measure_induct_rule [where f = size])
  case (less t)
  note u = underlying_size_less [of t] supported.simps [of g t]
  note code = encShape_D [OF shape, where ref = ref and t = t and s = es]
  have fl: "encFlowAt g ex ref t es" if "\<not> isTime t" using flow [OF that] .
  have loop: "tidy (insert iv A) (Suc (varCounter es)) hi (fst (ex r e es1))"
    "iv \<in> refVars r \<Longrightarrow> iv \<in> usesB (fst (ex r e es1))"
    if "size e < size t" "supported g e = None" "refVars r \<subseteq> insert iv (refVars ref)" "varNo iv = Suc (varCounter es)"
      "varCounter es1 = Suc (varCounter es)" "varCounter (snd (ex r e es1)) \<le> hi" for e iv r es1 hi
  proof -
    have A: "insert iv A \<subseteq> between 0 (varCounter es1)" using between_insert [OF less.prems(3) that(4)] that(5) by simp
    have r: "refVars r \<subseteq> insert iv A" using that(3) less.prems(2) by blast
    show "tidy (insert iv A) (Suc (varCounter es)) hi (fst (ex r e es1))"
      using less.IH [OF that(1,2) r A] that(5,6) by (auto intro: tidy_mono)
    show "iv \<in> refVars r \<Longrightarrow> iv \<in> usesB (fst (ex r e es1))"
      using enc_uses [OF shape that(2) between_below [OF r A]] by blast
  qed
  show ?case
  proof (cases "isTime t")
    case True
    then show ?thesis using code less.prems(2) by (simp add: atoms_last)
  next
    case False
    show ?thesis
    proof (cases "underlying t")
      case (TBasic k)
      then have k: "plain (encBasic a ref k) (refVars ref)"
        using less.prems(1) False by (intro basic_plain) (simp add: u split: if_splits)
      show ?thesis using code False TBasic less.prems(2) plain_tidy [OF k, where b = "[]"] by simp
    next
      case (TSlice e)
      have "fst (ex ref t es) = encSlice a g ref e ex es" using code False TSlice by simp
      then show ?thesis using less.prems False TSlice fl code
        by (auto simp: encSlice_def encFlowAt_def looped_def u atoms_tidy atoms_last freshIdx_facts freshVar_facts
            tidy_nonEmpty split: if_splits intro!: tidy_loop loop)
    next
      case (TArray n e)
      have "fst (ex ref t es) = encArray a g ref t n e ex es" using code False TArray by simp
      then show ?thesis using less.prems False TArray fl code
        by (auto simp: encArray_def encFlowAt_def u atoms_tidy atoms_last freshIdx_facts freshVar_facts Let_def
            split: if_splits intro!: tidy_loop loop)
    next
      case (TPointer e)
      have "varCounter (snd (ex (RDeref ref) e es)) \<le> varCounter (snd (ex ref t es))"
        using fl False TPointer by (simp add: encFlowAt_def)
      then have "tidy A (varCounter es) (varCounter (snd (ex ref t es))) (fst (ex (RDeref ref) e es))"
        using less.prems False TPointer by (intro tidy_mono [OF less.IH]) (auto simp: u)
      then show ?thesis using code False TPointer less.prems(2) plain_byte [of "BNum 0"]
        by (auto simp: plain_def atoms_tidy intro!: tidy_if)
    next
      case (TMap k e)
      then have "tidyAt ex k" "tidyAt ex e" "supported g k = None" "supported g e = None"
        using less.prems(1) False less.IH unfolding tidyAt_def by (auto simp: u split: option.splits)
      then show ?thesis using enc_map_tidy [OF shape fl [OF False] False TMap _ _ _ _ less.prems(2,3)] by simp
    next
      case TStruct
      then show ?thesis using less.prems False code by (auto simp: u atoms_last split: gotype.splits)
    next
      case TInterface
      have "tidy A (varCounter es) (varCounter es) (encUnion a g ref t)"
        unfolding encUnion_def
        using less.prems(2,3) inhabited_members [OF inh less.prems(1) False TInterface] plain_append [OF plain_uv plain_call]
          plain_uv [of "INum 0"]
        by (intro tidy_switch) (auto simp: plain_def)
      then show ?thesis using code False TInterface by (auto intro: tidy_mono)
    qed (use less.prems False in \<open>simp_all add: u\<close>)
  qed
qed

end

interpretation marq: quiet_atoms marshalAtoms
  by unfold_locales (auto simp: marshalAtoms_def plain_def)

interpretation appq: quiet_atoms appendAtoms
  by unfold_locales (auto simp: appendAtoms_def plain_def)

lemmas marshal_tidy = marq.enc_tidy [OF marshal_shape marshal_flow]
lemmas append_tidy = appq.enc_tidy [OF append_shape append_flow]

subsection \<open>Unmarshal\<close>

lemma guards_plain: "plain (guardN g n) {}" "plain (guardLen g) {}" "plain (emitVarint g) {}"
  by (auto simp: guardN_def guardLen_def emitVarint_def plain_def guses_def)

lemmas guards_tidy = guards_plain [THEN plain_tidy]

lemma guards_uses: "usesB (guardN g n @ b) = usesB b" "usesB (guardLen g @ b) = usesB b" "usesB (emitVarint g @ b) = usesB b"
  using guards_plain by (simp_all add: plain_def usesB_append)

lemma tidy_unmarshal_simps [simp]:
  "tidy A lo hi (SU (SAssign r d) # b) \<longleftrightarrow> refVars r \<subseteq> A \<and> deVars d \<subseteq> A \<and> tidy A lo hi b"
  "tidy A lo hi (SU (SReuseOrMake r t) # b) \<longleftrightarrow> refVars r \<subseteq> A \<and> tidy A lo hi b"
  "tidy A lo hi (SU (SReuseOrMakeMap r t v) # b) \<longleftrightarrow> v \<in> A \<and> refVars r \<subseteq> A \<and> tidy A lo hi b"
  "tidy A lo hi (SU (SNewIfNil r t) # b) \<longleftrightarrow> refVars r \<subseteq> A \<and> tidy A lo hi b"
  "tidy A lo hi (SU (SCopyArr r n) # b) \<longleftrightarrow> refVars r \<subseteq> A \<and> tidy A lo hi b"
  "tidy A lo hi (SU (SCopyMem t r e) # b) \<longleftrightarrow> refVars r \<subseteq> A \<and> ieVars e \<subseteq> A \<and> tidy A lo hi b"
  "tidy A lo hi (SU (SMapSet t r v w) # b) \<longleftrightarrow> {v, w} \<subseteq> A \<and> refVars r \<subseteq> A \<and> tidy A lo hi b"
  "tidy A lo hi (SU (SUnmarshalSafe rc m) # b) \<longleftrightarrow> refVars (recvLoc rc) \<subseteq> A \<and> tidy A lo hi b"
  "tidy A lo hi (SU (SUnmarshalFast rc m) # b) \<longleftrightarrow> refVars (recvLoc rc) \<subseteq> A \<and> tidy A lo hi b"
  by (auto simp: tidy_def uassigns_def destUses_def split: ref.splits)

lemma tidy_declare:
  assumes "declared (SU u) = [v]" "uuses u \<union> uassigns u \<subseteq> A" "v \<in> usesB b" "tidy (insert v A) m hi b"
    and "lo < varNo v" "varNo v \<le> m" "A \<subseteq> between 0 lo"
  shows "tidy A lo hi (SU u # b)"
  using assms by (auto simp: tidy_def between_def)

lemma destUses_ref [simp]: "\<forall>v. r \<noteq> RVar v \<Longrightarrow> destUses r = refVars r"
  by (cases r) (auto simp: destUses_def)

lemma destUses_sub: "refVars r \<subseteq> A \<Longrightarrow> destUses r \<subseteq> A"
  by (auto simp: destUses_def split: ref.splits)

lemma blit_tidy:
  assumes "refVars r \<subseteq> A" "ieVars e \<subseteq> A" "A \<subseteq> between 0 lo" "varNo tv = Suc lo"
  shows "tidy A lo (Suc lo) [SU (SLetInt tv e), SU (SCopyMem t r (IVar tv)), SG (SIncE (IVar tv))]"
  by (rule tidy_declare [where v = tv and m = "Suc lo"]) (use assms in \<open>auto simp: uassigns_def guses_def\<close>)

lemma basic_uses:
  "supportedBasic k \<Longrightarrow> \<forall>v. ref \<noteq> RVar v \<Longrightarrow> refVars ref \<subseteq> usesB (unmarshalBasic g ref t k)"
  by (cases k) (auto simp: supportedBasic_def unmarshalBasic_def guards_uses)

lemma basic_tidy: "refVars ref \<subseteq> A \<Longrightarrow> lo \<le> hi \<Longrightarrow> tidy A lo hi (unmarshalBasic g ref t k)"
  by (cases k) (auto simp: unmarshalBasic_def guards_tidy deVars_def guses_def)

lemma unmarshal_uses:
  "supported g t = None \<Longrightarrow> below ref (varCounter es) \<Longrightarrow> \<forall>v. ref \<noteq> RVar v
     \<Longrightarrow> refVars ref \<subseteq> usesB (fst (unmarshalExpr g ref t es))"
proof (induction t arbitrary: ref es rule: measure_induct_rule [where f = size])
  case (less t)
  note u = underlying_size_less [of t] supported.simps [of g t] unmarshalExpr.simps [of g ref t es]
  show ?case
  proof (cases "isTime t")
    case True
    then show ?thesis using less.prems by (auto simp: u guards_uses)
  next
    case False
    show ?thesis
    proof (cases "underlying t")
      case (TBasic k)
      then show ?thesis using less.prems False basic_uses [of k ref g t] by (simp add: u split: if_splits)
    next
      case (TArray n e)
      let ?r = "RIdx ref (fst (freshIdx es))" and ?es = "snd (freshIdx es)"
      have f: "fst (freshIdx es) \<notin> refVars ref" using less.prems(2) by (simp add: below_fresh freshIdx_facts)
      have "refVars ?r \<subseteq> usesB (fst (unmarshalExpr g ?r e ?es))"
        using less.prems False TArray by (intro less.IH) (auto simp: u freshIdx_facts intro: below_mono)
      then show ?thesis using False TArray f
        by (auto simp: u guards_uses Let_def split_beta)
    next
      case TStruct
      then show ?thesis using less.prems(1) False by (auto simp: u split: gotype.splits)
    qed (use less.prems False in \<open>auto simp: u guards_uses Let_def split_beta\<close>)
  qed
qed

lemma members_tidy:
  "refVars ref \<subseteq> A \<Longrightarrow> A \<subseteq> between 0 (varCounter es) \<Longrightarrow>
    (let (cs, es') = unmarshalMembers g ref ms es
     in varCounter es \<le> varCounter es' \<and> list_all (\<lambda>(k, b). okB A b) cs
       \<and> distinct (concat (map (\<lambda>(k, b). bindersB b) cs))
       \<and> set (concat (map (\<lambda>(k, b). bindersB b) cs)) \<subseteq> between (varCounter es) (varCounter es'))"
proof (induction ms arbitrary: es)
  case (Cons p ms)
  have "A \<subseteq> between 0 (varCounter (snd (freshIdx es)))"
    using Cons.prems(2) by (auto simp: between_def freshIdx_facts)
  note IH = Cons.IH [OF Cons.prems(1) this]
  have "fst (freshIdx es) \<notin> A" using between_fresh [OF Cons.prems(2)] by (simp add: freshIdx_facts)
  then show ?case using IH Cons.prems(1)
    by (cases p) (auto simp: Let_def split_beta uassigns_def destUses_def deVars_def freshIdx_facts between_def
        split: ref.splits)
qed simp

lemma tidy_nn0: "bindersB a = [] \<Longrightarrow> okB A a \<Longrightarrow> tidy A lo hi b \<Longrightarrow> tidy A lo hi [SIfNN0 a b]"
  by (rule tidy_if) auto

lemma tidy_flag: "bindersB b = [] \<Longrightarrow> okB A b \<Longrightarrow> tidy A lo hi a \<Longrightarrow> tidy A lo hi [SIfFlag a b]"
  by (rule tidy_if) auto

text \<open>The loop that fills a map: two temporaries for the entry, decoded in order and stored.\<close>

lemma entry_tidy:
  assumes kb: "tidy (insert kt (insert vt A)) n m kb" and vb: "tidy (insert kt (insert vt A) \<union> set (decls kb)) m hi vb"
    and v: "lo < varNo kt" "varNo kt < varNo vt" "varNo vt \<le> n" and A: "A \<subseteq> between 0 lo" and r: "refVars ref \<subseteq> A"
  shows "tidy A lo hi ([SU (SVar kt k), SU (SVar vt e)] @ kb @ vb @ [SU (SMapSet t ref kt vt)])"
proof -
  let ?A = "insert kt (insert vt A)" and ?b = "kb @ vb @ [SU (SMapSet t ref kt vt)]"
  have le: "n \<le> m" "m \<le> hi" using kb vb by (simp_all add: tidy_def)
  have "tidy (?A \<union> set (decls kb)) m hi (vb @ [SU (SMapSet t ref kt vt)])"
    using vb r by (intro tidy_append [where m = hi]) auto
  then have b: "tidy ?A n hi ?b" by (intro tidy_append [OF kb])
  have "set (decls kb) \<subseteq> between n m" "set (decls vb) \<subseteq> between m hi"
    using kb vb decls_binders by (auto simp: tidy_def)
  then have used: "kt \<in> usesB ?b" "vt \<in> usesB ?b"
    using v le by (auto simp: usesB_append between_def)
  have A': "insert kt A \<subseteq> between 0 (varNo kt)" using A v(1) by (auto simp: between_def)
  have "tidy (insert kt A) (varNo kt) hi (SU (SVar vt e) # ?b)"
    using used b A' v by (intro tidy_declare [where v = vt and m = n]) (auto simp: uassigns_def insert_commute)
  then show ?thesis
    using used(1) v A by (auto simp: uassigns_def intro!: tidy_declare [where v = kt and m = "varNo kt"])
qed

lemma unmarshal_map_tidy:
  assumes t: "\<not> isTime t" "underlying t = TMap k e" and IH: "tidyAt (unmarshalExpr g) k" "tidyAt (unmarshalExpr g) e"
    and A: "refVars ref \<subseteq> A" "A \<subseteq> between 0 (varCounter es)"
  shows "tidy A (varCounter es) (varCounter (snd (unmarshalExpr g ref t es))) (fst (unmarshalExpr g ref t es))"
proof -
  let ?cnt = "fst (freshIdx es)" and ?s1 = "snd (freshIdx es)"
  let ?iv = "fst (freshIdx ?s1)" and ?s2 = "snd (freshIdx ?s1)"
  let ?kt = "fst (freshIdx ?s2)" and ?s3 = "snd (freshIdx ?s2)"
  let ?vt = "fst (freshIdx ?s3)" and ?s4 = "snd (freshIdx ?s3)"
  let ?kb = "unmarshalExpr g (RVar ?kt) k ?s4"
  let ?vb = "unmarshalExpr g (RVar ?vt) e (snd ?kb)"
  let ?A = "insert ?iv (insert ?cnt A)" and ?hi = "varCounter (snd ?vb)"
  let ?body = "[SU (SVar ?kt k), SU (SVar ?vt e)] @ fst ?kb @ fst ?vb @ [SU (SMapSet t ref ?kt ?vt)]"
  have B: "insert ?kt (insert ?vt ?A) \<subseteq> between 0 (varCounter ?s4)" "?A \<subseteq> between 0 (varCounter ?s2)"
      "insert ?cnt A \<subseteq> between 0 (varCounter ?s1)"
    using A(2) by (auto simp: between_def freshIdx_facts)
  have kb: "tidy (insert ?kt (insert ?vt ?A)) (varCounter ?s4) (varCounter (snd ?kb)) (fst ?kb)"
    by (rule tidyAt_D [OF IH(1) _ B(1)]) simp
  have "insert ?kt (insert ?vt ?A) \<union> set (decls (fst ?kb)) \<subseteq> between 0 (varCounter (snd ?kb))"
    using B(1) kb decls_binders [of "fst ?kb"] unfolding tidy_def between_def by force
  then have "tidy (insert ?kt (insert ?vt ?A) \<union> set (decls (fst ?kb))) (varCounter (snd ?kb)) ?hi (fst ?vb)"
    by (intro tidyAt_D [OF IH(2)]) simp_all
  then have "tidy ?A (varCounter ?s2) ?hi ?body"
    using A(1) B by (intro entry_tidy [OF kb]) (auto simp: freshIdx_facts)
  then have loop: "tidy (insert ?cnt A) (varCounter ?s1) ?hi [SForCnt ?iv ?cnt ?body]"
    using B by (intro tidy_loop) (auto simp: freshIdx_facts)
  have "tidy A (varCounter es) ?hi [SU (SLetNN ?cnt), SU (SReuseOrMakeMap ref t ?cnt), SForCnt ?iv ?cnt ?body]"
    by (rule tidy_declare [where v = ?cnt and m = "varCounter ?s1"])
      (use loop A in \<open>auto simp: freshIdx_facts uassigns_def\<close>)
  moreover have "okB A [SU (SAssign ref (DNil t))]"
    using A(1) by (simp add: uassigns_def destUses_sub deVars_def)
  ultimately show ?thesis using t
    by (simp add: unmarshalExpr.simps [of g ref t es] Let_def split_beta guards_tidy tidy_nn0 del: tidy_unmarshal_simps)
qed

lemma unmarshal_tidy:
  "supported g t = None \<Longrightarrow> refVars ref \<subseteq> A \<Longrightarrow> A \<subseteq> between 0 (varCounter es)
    \<Longrightarrow> tidy A (varCounter es) (varCounter (snd (unmarshalExpr g ref t es))) (fst (unmarshalExpr g ref t es))"
proof (induction t arbitrary: ref es A rule: measure_induct_rule [where f = size])
  case (less t)
  note u = underlying_size_less [of t] supported.simps [of g t] unmarshalExpr.simps [of g ref t es]
  have loop: "tidy (insert iv A) (Suc (varCounter es)) (varCounter (snd (unmarshalExpr g r e es1))) (fst (unmarshalExpr g r e es1))"
    "iv \<in> refVars r \<Longrightarrow> \<forall>v. r \<noteq> RVar v \<Longrightarrow> iv \<in> usesB (fst (unmarshalExpr g r e es1))"
    if "size e < size t" "supported g e = None" "refVars r \<subseteq> insert iv (refVars ref)" "varNo iv = Suc (varCounter es)"
      "varCounter es1 = Suc (varCounter es)" for e iv r es1
  proof -
    have A: "insert iv A \<subseteq> between 0 (varCounter es1)" using between_insert [OF less.prems(3) that(4)] that(5) by simp
    have r: "refVars r \<subseteq> insert iv A" using that(3) less.prems(2) by blast
    show "tidy (insert iv A) (Suc (varCounter es)) (varCounter (snd (unmarshalExpr g r e es1))) (fst (unmarshalExpr g r e es1))"
      using less.IH [OF that(1,2) r A] that(5) by simp
    show "iv \<in> refVars r \<Longrightarrow> \<forall>v. r \<noteq> RVar v \<Longrightarrow> iv \<in> usesB (fst (unmarshalExpr g r e es1))"
      using unmarshal_uses [OF that(2) between_below [OF r A]] by blast
  qed
  have nil: "okB A [SU (SAssign ref (DNil t))]"
    using less.prems(2) by (simp add: uassigns_def destUses_sub deVars_def)
  note rules = guards_tidy destUses_sub uassigns_def deVars_def guses_def
  show ?case
  proof (cases "isTime t")
    case True
    then show ?thesis using less.prems by (simp add: u rules)
  next
    case False
    show ?thesis
    proof (cases "underlying t")
      case (TBasic k)
      then show ?thesis using less.prems(2) False by (simp add: u basic_tidy)
    next
      case (TMap k e)
      then have "tidyAt (unmarshalExpr g) k" "tidyAt (unmarshalExpr g) e"
        using less.prems(1) False less.IH unfolding tidyAt_def by (auto simp: u split: option.splits)
      then show ?thesis using unmarshal_map_tidy [OF False TMap _ _ less.prems(2,3)] by simp
    next
      case TStruct
      then show ?thesis using less.prems False by (auto simp: u split: gotype.splits)
    next
      case TInterface
      let ?m = "unmarshalMembers g ref (taggedMembers g t) es"
      have "tidy A (varCounter es) (varCounter (snd ?m)) [SSwitchNN ((0, [SU (SAssign ref (DNil t))]) # fst ?m)]"
        using members_tidy [OF less.prems(2,3), of g "taggedMembers g t"] nil
        by (auto simp: tidy_def Let_def split: prod.splits)
      then show ?thesis using False TInterface by (simp add: u split_beta guards_tidy)
    qed (use less.prems False in \<open>auto simp: u Let_def split_beta freshIdx_facts rules
      del: subsetI intro!: tidy_nn0 tidy_flag tidy_loop [where m = "Suc (varCounter es)"] blit_tidy loop less.IH\<close>)
  qed
qed

subsection \<open>Methods and files\<close>

lemma fields_supported: "fieldsOf g n = Inr fs \<Longrightarrow> \<forall>f \<in> set fs. supported g (fldTyp f) = None"
  using fieldsLoop_Inr [of g n "structs g n" fs] by (auto simp: fieldsOf_def)

text \<open>What is common to the four emission functions.\<close>

definition tidyExpr :: "generator \<Rightarrow> (ref \<Rightarrow> gotype \<Rightarrow> gstate \<Rightarrow> block \<times> gstate) \<Rightarrow> bool" where
  "tidyExpr g ex \<longleftrightarrow> (\<forall>t. supported g t = None \<longrightarrow> tidyAt ex t)"

lemma tidyExprs:
  "inhabited g \<Longrightarrow> tidyExpr g (sizeExpr g)" "inhabited g \<Longrightarrow> tidyExpr g (marshalExpr g)"
  "inhabited g \<Longrightarrow> tidyExpr g (appendExpr g)" "tidyExpr g (unmarshalExpr g)"
  unfolding tidyExpr_def tidyAt_def by (blast intro: size_tidy marshal_tidy append_tidy unmarshal_tidy)+

lemma fields_tidy:
  assumes "tidyExpr g ex"
  shows "\<forall>f \<in> set fs. supported g (fldTyp f) = None \<Longrightarrow> A \<subseteq> between 0 (varCounter es)
    \<Longrightarrow> tidy A (varCounter es) (varCounter (snd (emitFields ex fs es))) (fst (emitFields ex fs es))"
proof (induction fs arbitrary: A es)
  case (Cons f fs)
  let ?p = "ex (RField (fldName f)) (fldTyp f) es"
  have p: "tidy A (varCounter es) (varCounter (snd ?p)) (fst ?p)"
    using assms Cons.prems by (simp add: tidyExpr_def tidyAt_D)
  then have "A \<union> set (decls (fst ?p)) \<subseteq> between 0 (varCounter (snd ?p))"
    using Cons.prems(2) decls_binders [of "fst ?p"] unfolding tidy_def between_def by force
  then show ?case using Cons tidy_append [OF p] by (simp add: Let_def split_beta)
qed simp

definition tidyMethod :: "nat \<Rightarrow> nat \<Rightarrow> gomethod \<Rightarrow> bool" where
  "tidyMethod lo hi m \<longleftrightarrow> (case m of MBody b \<Rightarrow> tidy {} lo hi b | MBlit n f \<Rightarrow> lo \<le> hi)"

text \<open>Distinct temporaries with numbers in \<open>(lo, hi]\<close>.\<close>

definition ranged :: "nat \<Rightarrow> nat \<Rightarrow> var list \<Rightarrow> bool" where
  "ranged lo hi xs \<longleftrightarrow> lo \<le> hi \<and> distinct xs \<and> set xs \<subseteq> between lo hi"

lemma ranged_append:
  assumes "ranged lo m xs" "ranged m hi ys"
  shows "ranged lo hi (xs @ ys)"
proof -
  have "set xs \<inter> set ys = {}" using assms unfolding ranged_def between_def by force
  then show ?thesis using assms unfolding ranged_def between_def by force
qed

lemma tidy_ranged: "tidy A lo hi b \<Longrightarrow> ranged lo hi (bindersB b)"
  by (simp add: tidy_def ranged_def)

lemma codec_tidy:
  assumes "inhabited g" "fieldsOf g n = Inr fs"
  shows "okCodec (fst (emitCodec g n fs s))"
    and "ranged (varCounter s) (varCounter (snd (emitCodec g n fs s))) (codecBinders (fst (emitCodec g n fs s)))"
proof -
  let ?a = "emitFields (sizeExpr g) fs s" let ?b = "emitFields (marshalExpr g) fs (snd ?a)"
  let ?c = "emitFields (appendExpr g) fs (snd ?b)" let ?d = "emitFields (unmarshalExpr g) fs (snd ?c)"
  note f = fields_supported [OF assms(2)]
  note defs = emitCodec_def okCodec_def okMethod_def codecBinders_def methodBinders_def emitBlitSize_def
    emitBlitMarshal_def emitBlitAppend_def emitBlitUnmarshal_def emitSize_def emitMarshal_def emitAppend_def
    emitUnmarshal_def Let_def split_beta
  have t: "tidy {} (varCounter s) (varCounter (snd ?a)) (fst ?a)"
    "tidy {} (varCounter (snd ?a)) (varCounter (snd ?b)) (fst ?b)"
    "tidy {} (varCounter (snd ?b)) (varCounter (snd ?c)) (fst ?c)"
    "tidy {} (varCounter (snd ?c)) (varCounter (snd ?d)) (fst ?d)"
    using tidyExprs assms(1) f by (auto intro!: fields_tidy)
  then show "okCodec (fst (emitCodec g n fs s))" by (simp add: defs tidy_def)
  have "ranged (varCounter s) (varCounter (snd ?d))
      (bindersB (fst ?a) @ bindersB (fst ?b) @ bindersB (fst ?c) @ bindersB (fst ?d))"
    using t by (intro ranged_append tidy_ranged)
  then show "ranged (varCounter s) (varCounter (snd (emitCodec g n fs s))) (codecBinders (fst (emitCodec g n fs s)))"
    by (simp add: defs ranged_def)
qed

lemma generateLoop_ok:
  assumes "inhabited g"
  shows "generateLoop g ns s = Inr (cs, s') \<Longrightarrow> list_all (okCodec \<circ> snd) cs
    \<and> ranged (varCounter s) (varCounter s') (concat (map (codecBinders \<circ> snd) cs))"
proof (induction ns arbitrary: s cs)
  case Nil
  then show ?case by (simp add: ranged_def)
next
  case (Cons n ns)
  show ?case
  proof (cases "List.member (owned g) n")
    case False
    obtain fs cs1 where fs: "fieldsOf g n = Inr fs"
      and loop: "generateLoop g ns (snd (emitCodec g n fs s)) = Inr (cs1, s')"
      and cs: "cs = (n, fst (emitCodec g n fs s)) # cs1"
      using Cons.prems False by (auto simp: Let_def split_beta split: sum.splits)
    show ?thesis
      using codec_tidy [OF assms fs, of s] Cons.IH [OF loop] by (simp add: cs ranged_append)
  qed (use Cons in simp)
qed

lemma generate_okFile:
  assumes "inhabited g" "generate g s = Inr gf"
  shows "okFile gf"
proof -
  obtain cs s' where "generateLoop g (targets g) s = Inr (cs, s')" "gfCodecs gf = cs"
    using assms(2) by (auto simp: generate_def split: sum.splits)
  then show ?thesis using generateLoop_ok [OF assms(1)] by (auto simp: okFile_def fileBinders_def ranged_def)
qed

end
