(* ===== verification/GoText.thy ===== *)
theory GoText
  imports Loader
begin

text \<open>
  The text of the generated file: what \<open>emitf\<close> writes for every fragment of the syntax tree of
  \<open>GoIR\<close>, line by line.  Lines carry no indentation, and blanks inside a line are those of the
  format strings; \<open>sameText\<close> compares texts up to blanks and empty lines, which is all that
  \<open>go/format\<close> changes in this code.  The type checker reads \<open>byte\<close> and \<open>rune\<close> as \<open>uint8\<close> and \<open>int32\<close>
  here, and the text of a type says the latter.
\<close>

subsection \<open>Numbers, quoting and names\<close>

definition digit :: "nat \<Rightarrow> char" where
  "digit n = ''0123456789'' ! (n mod 10)"

text \<open>\<open>%d\<close> for a number that is not negative.\<close>

fun numText :: "nat \<Rightarrow> string" where
  "numText n = (if n < 10 then [] else numText (n div 10)) @ [digit n]"

declare numText.simps [simp del]

text \<open>\<open>%q\<close> for printable ASCII without quotes and backslashes.\<close>

definition quoted :: "string \<Rightarrow> string" where
  "quoted s = CHR 0x22 # s @ [CHR 0x22]"

definition TrimSuffix :: "string \<Rightarrow> string \<Rightarrow> string" where
  "TrimSuffix s p = (if HasSuffix s p then take (length s - length p) s else s)"

text \<open>The names \<open>freshVar\<close> and \<open>freshIdx\<close> return; the \<open>v\<close> of a type switch.\<close>

fun varText :: "var \<Rightarrow> string" where
  "varText (VE n) = ''e'' @ numText n"
| "varText (VJ n) = ''j'' @ numText n"
| "varText VV = ''v''"

text \<open>The \<open>ref\<close> strings, and \<open>addrOf\<close> as the emitter computes it, on the string.\<close>

fun refText :: "ref \<Rightarrow> string" where
  "refText (RField f) = ''r.'' @ f"
| "refText (RVar v) = varText v"
| "refText (RIdx r v) = refText r @ ''['' @ varText v @ '']''"
| "refText (RDeref r) = ''(*'' @ refText r @ '')''"

fun recvText :: "recv \<Rightarrow> string" where
  "recvText (RecvPtr r) = refText r"
| "recvText (RecvAddr r) = ''(&'' @ refText r @ '')''"

definition addrOfText :: "string \<Rightarrow> string" where
  "addrOfText ref =
     (case CutPrefix ref ''(*'' of
        Some inner \<Rightarrow> if HasSuffix inner '')'' then TrimSuffix inner '')'' else ''(&'' @ ref @ '')''
      | None \<Rightarrow> ''(&'' @ ref @ '')'')"

subsection \<open>Types\<close>

text \<open>\<open>relativeTo\<close>: names of the generator's package stay unqualified.  \<open>nameOf\<close> gives the name of
  the package with a path (\<open>p.Name()\<close>).\<close>

definition relativeTo :: "(string \<Rightarrow> string) \<Rightarrow> generator \<Rightarrow> string \<Rightarrow> string" where
  "relativeTo nameOf g p = (if p = pkg g then [] else nameOf p)"

definition qualName :: "(string \<Rightarrow> string) \<Rightarrow> tname \<Rightarrow> string" where
  "qualName Q n = (if Q (fst n) = [] then snd n else Q (fst n) @ ''.'' @ snd n)"

definition basicText :: "bkind \<Rightarrow> string" where
  "basicText k = (case k of
     KBool \<Rightarrow> ''bool'' | KInt \<Rightarrow> ''int'' | KInt8 \<Rightarrow> ''int8'' | KInt16 \<Rightarrow> ''int16'' | KInt32 \<Rightarrow> ''int32''
   | KInt64 \<Rightarrow> ''int64'' | KUint \<Rightarrow> ''uint'' | KUint8 \<Rightarrow> ''uint8'' | KUint16 \<Rightarrow> ''uint16'' | KUint32 \<Rightarrow> ''uint32''
   | KUint64 \<Rightarrow> ''uint64'' | KUintptr \<Rightarrow> ''uintptr'' | KFloat32 \<Rightarrow> ''float32'' | KFloat64 \<Rightarrow> ''float64''
   | KComplex64 \<Rightarrow> ''complex64'' | KComplex128 \<Rightarrow> ''complex128'' | KString \<Rightarrow> ''string''
   | KUnsafePointer \<Rightarrow> ''unsafe.Pointer'')"

text \<open>\<open>types.TypeString\<close>.  Unnamed structs, interfaces, channels and functions are unsupported, and
  the emitter writes none.\<close>

fun TypeString :: "(string \<Rightarrow> string) \<Rightarrow> gotype \<Rightarrow> string" where
  "TypeString Q (TBasic k) = basicText k"
| "TypeString Q (TSlice e) = ''[]'' @ TypeString Q e"
| "TypeString Q (TArray n e) = ''['' @ numText n @ '']'' @ TypeString Q e"
| "TypeString Q (TPointer e) = ''*'' @ TypeString Q e"
| "TypeString Q (TMap k e) = ''map['' @ TypeString Q k @ '']'' @ TypeString Q e"
| "TypeString Q (TNamed n u) = qualName Q n"
| "TypeString Q (TAlias n u) = qualName Q n"
| "TypeString Q _ = []"

subsection \<open>Expressions\<close>

text \<open>\<open>q\<close> is the qualifier of package \<open>codec\<close>.\<close>

fun iexpText :: "string \<Rightarrow> iexp \<Rightarrow> string" where
  "iexpText q (INum n) = numText n"
| "iexpText q (ILen r) = ''len('' @ refText r @ '')''"
| "iexpText q (IUvarintSize e) = q @ ''.UvarintSize(uint64('' @ iexpText q e @ ''))''"
| "iexpText q (IAdd a b) = iexpText q a @ '' + '' @ iexpText q b"
| "iexpText q (IMul a b) = iexpText q a @ ''*'' @ iexpText q b"
| "iexpText q (ISizeofElem t r) = ''int(unsafe.Sizeof('' @ refText r @ ''[0]))''"
| "iexpText q (ISizeof t r) = ''int(unsafe.Sizeof('' @ refText r @ ''))''"
| "iexpText q IIntNN = ''int(nn)''"
| "iexpText q (IVar v) = varText v"
| "iexpText q (ISize x n) = recvText x @ ''.Size()''"

text \<open>The argument of a varint: constants stand for themselves.\<close>

definition uint64Text :: "string \<Rightarrow> iexp \<Rightarrow> string" where
  "uint64Text q e = (case e of INum n \<Rightarrow> numText n | _ \<Rightarrow> ''uint64('' @ iexpText q e @ '')'')"

definition wexpText :: "string \<Rightarrow> nat \<Rightarrow> wexp \<Rightarrow> string" where
  "wexpText q w e = (case e of
     WConv r \<Rightarrow> ''uint'' @ numText w @ ''('' @ refText r @ '')''
   | WF32bits r \<Rightarrow> q @ ''.F32bits('' @ refText r @ '')''
   | WF64bits r \<Rightarrow> q @ ''.F64bits('' @ refText r @ '')''
   | WUnixNano r \<Rightarrow> ''uint64('' @ refText r @ ''.UnixNano())'')"

definition bexpText :: "bexp \<Rightarrow> string" where
  "bexpText e = (case e of BNum n \<Rightarrow> numText n | BConv r \<Rightarrow> ''byte('' @ refText r @ '')'')"

definition memText :: "ref \<Rightarrow> string \<Rightarrow> string" where
  "memText r n = ''unsafe.Slice((*byte)(unsafe.Pointer(&'' @ refText r @ ''[0])), '' @ n @ '')''"

text \<open>The source of a copy; \<open>append\<close> takes a string as it is.\<close>

definition copyText :: "string \<Rightarrow> bsrc \<Rightarrow> string" where
  "copyText q e = (case e of
     SrcStr r \<Rightarrow> q @ ''.S2B('' @ refText r @ '')'' | SrcBytes r \<Rightarrow> refText r
   | SrcArr r \<Rightarrow> refText r @ ''[:]'' | SrcMem t r n \<Rightarrow> memText r (iexpText q n))"

definition appendText :: "string \<Rightarrow> bsrc \<Rightarrow> string" where
  "appendText q e = (case e of SrcStr r \<Rightarrow> refText r | _ \<Rightarrow> copyText q e)"

definition dexpText :: "string \<Rightarrow> (string \<Rightarrow> string) \<Rightarrow> dexp \<Rightarrow> string" where
  "dexpText q Q e = (case e of
     DTime \<Rightarrow> ''time.Unix(0, int64('' @ q @ ''.U64(b[i:]))).UTC()''
   | DBool \<Rightarrow> ''b[i] != 0''
   | DByte t \<Rightarrow> TypeString Q t @ ''(b[i])''
   | DU16 t \<Rightarrow> TypeString Q t @ ''('' @ q @ ''.U16(b[i:]))''
   | DU32 t \<Rightarrow> TypeString Q t @ ''('' @ q @ ''.U32(b[i:]))''
   | DU64 t \<Rightarrow> TypeString Q t @ ''('' @ q @ ''.U64(b[i:]))''
   | DF32 \<Rightarrow> q @ ''.Bitsf32('' @ q @ ''.U32(b[i:]))''
   | DF64 \<Rightarrow> q @ ''.Bitsf64('' @ q @ ''.U64(b[i:]))''
   | DStrCopy \<Rightarrow> ''string(b[i : i+int(nn)])''
   | DStrAlias \<Rightarrow> q @ ''.B2S(b[i : i+int(nn)])''
   | DBytesCopy r \<Rightarrow> ''append('' @ refText r @ ''[:0], b[i:i+int(nn)]...)''
   | DBytesAlias \<Rightarrow> ''b[i : i+int(nn)]''
   | DNil t \<Rightarrow> ''nil''
   | DIface v n \<Rightarrow> varText v)"

subsection \<open>Statements\<close>

text \<open>\<open>i++\<close>, except behind a bulk copy, where the number of bytes is spelled out.\<close>

definition incText :: "bool \<Rightarrow> nat \<Rightarrow> string" where
  "incText copied n = (if n = 1 \<and> \<not> copied then ''i++'' else ''i += '' @ numText n)"

definition mstmtText :: "string \<Rightarrow> bool \<Rightarrow> mstmt \<Rightarrow> string" where
  "mstmtText q copied x = (case x of
     SPut16 e \<Rightarrow> q @ ''.PutU16(b[i:], '' @ wexpText q 16 e @ '')''
   | SPut32 e \<Rightarrow> q @ ''.PutU32(b[i:], '' @ wexpText q 32 e @ '')''
   | SPut64 e \<Rightarrow> q @ ''.PutU64(b[i:], '' @ wexpText q 64 e @ '')''
   | SSetByte e \<Rightarrow> ''b[i] = '' @ bexpText e
   | SPutUvarint e \<Rightarrow> ''i += '' @ q @ ''.PutUvarint(b[i:], '' @ uint64Text q e @ '')''
   | SCopy e \<Rightarrow> ''i += copy(b[i:], '' @ copyText q e @ '')''
   | SMarshal r n \<Rightarrow> ''i += '' @ recvText r @ ''.Marshal(b[i:])''
   | SIncI n \<Rightarrow> incText copied n)"

definition astmtText :: "string \<Rightarrow> astmt \<Rightarrow> string" where
  "astmtText q x = (case x of
     SApp16 e \<Rightarrow> ''b = '' @ q @ ''.AppendU16(b, '' @ wexpText q 16 e @ '')''
   | SApp32 e \<Rightarrow> ''b = '' @ q @ ''.AppendU32(b, '' @ wexpText q 32 e @ '')''
   | SApp64 e \<Rightarrow> ''b = '' @ q @ ''.AppendU64(b, '' @ wexpText q 64 e @ '')''
   | SAppByte e \<Rightarrow> ''b = append(b, '' @ bexpText e @ '')''
   | SAppUvarint e \<Rightarrow> ''b = '' @ q @ ''.AppendUvarint(b, '' @ uint64Text q e @ '')''
   | SApp e \<Rightarrow> ''b = append(b, '' @ appendText q e @ ''...)''
   | SAppend r n \<Rightarrow> ''b = '' @ recvText r @ ''.Append(b)'')"

text \<open>\<open>guardN\<close>, \<open>guardLen\<close> and the pieces of \<open>emitVarint\<close>.\<close>

definition shortText :: "string \<Rightarrow> string \<Rightarrow> string list" where
  "shortText q cond = [''if '' @ cond @ '' {'', ''return i, '' @ q @ ''.ErrShortBuffer'', ''}'']"

definition gstmtText :: "string \<Rightarrow> gstmt \<Rightarrow> string list" where
  "gstmtText q x = (case x of
     SGuardN n \<Rightarrow> shortText q (''len(b)-i < '' @ numText n)
   | SGuardLen \<Rightarrow> shortText q ''uint64(len(b)-i) < nn''
   | SUvarint \<Rightarrow> [''nn, cc = '' @ q @ ''.Uvarint(b[i:])'']
   | SGuardVarint \<Rightarrow> shortText q ''cc <= 0''
   | SIncCC \<Rightarrow> [''i += cc'']
   | SIncE e \<Rightarrow> [''i += '' @ iexpText q e])"

text \<open>The counter of the bytes a bulk copy reads, and the call of a nested \<open>Unmarshal\<close>, which is a
  block of its own unless it stands in a case of a union (\<open>inCase\<close>).\<close>

definition callText :: "bool \<Rightarrow> string list \<Rightarrow> string list" where
  "callText inCase ls = (if inCase then ls else [''{''] @ ls @ [''}''])"

definition ustmtText :: "string \<Rightarrow> (string \<Rightarrow> string) \<Rightarrow> bool \<Rightarrow> ustmt \<Rightarrow> string list" where
  "ustmtText q Q inCase x = (case x of
     SAssign r e \<Rightarrow> [refText r @ '' = '' @ dexpText q Q e]
   | SReuseOrMake r t \<Rightarrow>
       [''if cap('' @ refText r @ '') >= int(nn) {'', refText r @ '' = '' @ refText r @ ''[:nn]'', ''} else {'',
        refText r @ '' = make('' @ TypeString Q t @ '', nn)'', ''}'']
   | SReuseOrMakeMap r t c \<Rightarrow>
       [''if '' @ refText r @ '' != nil {'', ''clear('' @ refText r @ '')'', ''} else {'',
        refText r @ '' = make('' @ TypeString Q t @ '', '' @ varText c @ '')'', ''}'']
   | SNewIfNil r t \<Rightarrow>
       [''if '' @ refText r @ '' == nil {'', refText r @ '' = new('' @ TypeString Q t @ '')'', ''}'']
   | SCopyArr r n \<Rightarrow> [''copy('' @ refText r @ ''[:], b[i:i+'' @ numText n @ ''])'']
   | SCopyMem t r n \<Rightarrow> [''copy('' @ memText r (iexpText q n) @ '', b[i:i+'' @ iexpText q n @ ''])'']
   | SLetInt v e \<Rightarrow> [varText v @ '' := '' @ iexpText q e]
   | SLetNN v \<Rightarrow> [varText v @ '' := nn'']
   | SVar v t \<Rightarrow> [''var '' @ varText v @ '' '' @ TypeString Q t]
   | SMapSet t r k v \<Rightarrow> [refText r @ ''['' @ varText k @ ''] = '' @ varText v]
   | SUnmarshalSafe r n \<Rightarrow> callText inCase
       [''nnn, err := '' @ recvText r @ ''.Unmarshal(b[i:])'', ''if err != nil {'', ''return i, err'', ''}'', ''i += nnn'']
   | SUnmarshalFast r n \<Rightarrow> callText inCase
       [''nnn, _ := '' @ recvText r @ ''.Unmarshal(b[i:])'', ''i += nnn'']
   | STypeAssert v r n \<Rightarrow> [varText v @ '', _ := '' @ refText r @ ''.(*'' @ qualName Q n @ '')''])"

definition bulkCopy :: "stmt \<Rightarrow> bool" where
  "bulkCopy x = (case x of SU (SCopyArr _ _) \<Rightarrow> True | SU (SCopyMem _ _ _) \<Rightarrow> True | _ \<Rightarrow> False)"

definition ifText :: "string \<Rightarrow> string list \<Rightarrow> string list \<Rightarrow> string list" where
  "ifText cond a b = [''if '' @ cond @ '' {''] @ a @ [''} else {''] @ b @ [''}'']"

fun stmtText :: "string \<Rightarrow> (string \<Rightarrow> string) \<Rightarrow> bool \<Rightarrow> bool \<Rightarrow> stmt \<Rightarrow> string list"
  and blockText :: "string \<Rightarrow> (string \<Rightarrow> string) \<Rightarrow> bool \<Rightarrow> bool \<Rightarrow> stmt list \<Rightarrow> string list" where
  "stmtText q Q c p (SAddS e) = [''s += '' @ iexpText q e]"
| "stmtText q Q c p (SUse v) = [''_ = '' @ varText v]"
| "stmtText q Q c p (SM x) = [mstmtText q p x]"
| "stmtText q Q c p (SA x) = [astmtText q x]"
| "stmtText q Q c p (SG x) = gstmtText q x"
| "stmtText q Q c p (SU x) = ustmtText q Q c x"
| "stmtText q Q c p (SForIdx v r b) =
     [''for '' @ varText v @ '' := range '' @ refText r @ '' {''] @ blockText q Q False False b @ [''}'']"
| "stmtText q Q c p (SForVal v r b) =
     [''for _, '' @ varText v @ '' := range '' @ refText r @ '' {''] @ blockText q Q False False b @ [''}'']"
| "stmtText q Q c p (SForN v n b) =
     [''for '' @ varText v @ '' := 0; '' @ varText v @ '' < '' @ numText n @ ''; '' @ varText v @ ''++ {'']
     @ blockText q Q False False b @ [''}'']"
| "stmtText q Q c p (SForMap k v r b) =
     [''for '' @ varText k @ '', '' @ varText v @ '' := range '' @ refText r @ '' {'']
     @ blockText q Q False False b @ [''}'']"
| "stmtText q Q c p (SForCnt v n b) =
     [''for '' @ varText v @ '' := uint64(0); '' @ varText v @ '' < '' @ varText n @ ''; '' @ varText v @ ''++ {'']
     @ blockText q Q False False b @ [''}'']"
| "stmtText q Q c p (SIfNotNil r a b) =
     (if b = [] then [''if '' @ refText r @ '' != nil {''] @ blockText q Q False False a @ [''}'']
      else ifText (refText r @ '' != nil'') (blockText q Q False False a) (blockText q Q False False b))"
| "stmtText q Q c p (SIfTrue r a b) = ifText (refText r) (blockText q Q False False a) (blockText q Q False False b)"
| "stmtText q Q c p (SIfNonEmpty r b) =
     [''if len('' @ refText r @ '') > 0 {''] @ blockText q Q False False b @ [''}'']"
| "stmtText q Q c p (SIfNN0 a b) = ifText ''nn == 0'' (blockText q Q False False a) (blockText q Q False False b)"
| "stmtText q Q c p (SIfFlag a b) = ifText ''b[i] != 0'' (blockText q Q False False a) (blockText q Q False False b)"
| "stmtText q Q c p (STypeSwitch r cs b msg) =
     [''switch v := '' @ refText r @ ''.(type) {'']
     @ concat (map (\<lambda>(n, b). (''case *'' @ qualName Q n @ '':'') # blockText q Q False False b) cs)
     @ [''case nil:''] @ blockText q Q False False b @ [''default:'', ''panic('' @ quoted msg @ '')'', ''}'']"
| "stmtText q Q c p (SSwitchNN cs) =
     [''switch nn {'']
     @ concat (map (\<lambda>(k, b). (''case '' @ numText k @ '':'') # blockText q Q True False b) cs)
     @ [''default:'', ''return i, '' @ q @ ''.ErrUnknownUnionTag'', ''}'']"
| "blockText q Q c p [] = []"
| "blockText q Q c p (x # b) = stmtText q Q c p x @ blockText q Q c (bulkCopy x) b"

subsection \<open>Methods\<close>

text \<open>\<open>emitSize\<close>, \<open>emitMarshal\<close>, \<open>emitAppend\<close>, \<open>emitUnmarshal\<close> and their variants for blittable structs;
  \<open>t\<close> is the name of the receiver's type.\<close>

definition sizeText :: "string \<Rightarrow> (string \<Rightarrow> string) \<Rightarrow> string \<Rightarrow> gomethod \<Rightarrow> string list" where
  "sizeText q Q t m = (case m of
     MBody b \<Rightarrow>
       [''// Size returns the exact number of bytes Marshal will write for the receiver.'',
        ''func (r *'' @ t @ '') Size() int {'', ''s := 0''] @ blockText q Q False False b @ [''return s'', ''}'', '''']
   | MBlit n guarded \<Rightarrow>
       [''// Size returns the fixed wire size of '' @ t @ '' (blittable fast path).'',
        ''func (r *'' @ t @ '') Size() int {'', ''return int(unsafe.Sizeof(*r))'', ''}'', ''''])"

definition marshalText :: "string \<Rightarrow> (string \<Rightarrow> string) \<Rightarrow> string \<Rightarrow> gomethod \<Rightarrow> string list" where
  "marshalText q Q t m = (case m of
     MBody b \<Rightarrow>
       [''// Marshal encodes the receiver into b, which must be at least Size() bytes,'',
        ''// and returns the number of bytes written.'',
        ''func (r *'' @ t @ '') Marshal(b []byte) int {'', ''i := 0''] @ blockText q Q False False b
       @ [''_ = '' @ q @ ''.PutU64'', ''return i'', ''}'', '''']
   | MBlit n guarded \<Rightarrow>
       [''// Marshal copies '' @ t @ '' as raw memory into b (trusted bytes, same arch).'',
        ''func (r *'' @ t @ '') Marshal(b []byte) int {'', ''n := int(unsafe.Sizeof(*r))'',
        ''copy(b, unsafe.Slice((*byte)(unsafe.Pointer(r)), n))'', ''return n'', ''}'', ''''])"

definition appendMethodText :: "string \<Rightarrow> (string \<Rightarrow> string) \<Rightarrow> string \<Rightarrow> gomethod \<Rightarrow> string list" where
  "appendMethodText q Q t m = (case m of
     MBody b \<Rightarrow>
       [''// Append appends the receiver'' @ [CHR 0x27] @ ''s encoding to b, growing it as needed, and'',
        ''// returns the extended slice. It writes the same bytes as Marshal without'',
        ''// needing a Size() pass first.'',
        ''func (r *'' @ t @ '') Append(b []byte) []byte {''] @ blockText q Q False False b @ [''return b'', ''}'', '''']
   | MBlit n guarded \<Rightarrow>
       [''// Append appends '' @ t @ '' as raw memory to b and returns the extended slice.'',
        ''func (r *'' @ t @ '') Append(b []byte) []byte {'',
        ''return append(b, unsafe.Slice((*byte)(unsafe.Pointer(r)), int(unsafe.Sizeof(*r)))...)'', ''}'', ''''])"

definition unmarshalText :: "generator \<Rightarrow> (string \<Rightarrow> string) \<Rightarrow> string \<Rightarrow> gomethod \<Rightarrow> string list" where
  "unmarshalText g Q t m = (let q = codecQual g in case m of
     MBody b \<Rightarrow>
       [''// Unmarshal decodes the receiver from b and returns the number of bytes consumed.'',
        (if safe g then ''// It returns '' @ q @ ''.ErrShortBuffer if b is truncated (safe mode).''
         else ''// The returned error is always nil; truncated input may panic (fast mode).''),
        ''func (r *'' @ t @ '') Unmarshal(b []byte) (int, error) {'', ''i := 0'', ''var nn uint64'', ''var cc int'',
        ''_ = nn'', ''_ = cc''] @ blockText q Q False False b
       @ [''_ = '' @ q @ ''.U64'', ''return i, nil'', ''}'', '''']
   | MBlit n guarded \<Rightarrow>
       [''// Unmarshal copies raw memory from b back into '' @ t @ ''.'',
        ''func (r *'' @ t @ '') Unmarshal(b []byte) (int, error) {'', ''n := int(unsafe.Sizeof(*r))'']
       @ (if guarded then [''if len(b) < n {'', ''return 0, '' @ q @ ''.ErrShortBuffer'', ''}''] else [])
       @ [''copy(unsafe.Slice((*byte)(unsafe.Pointer(r)), n), b)'', ''return n, nil'', ''}'', ''''])"

definition codecText :: "generator \<Rightarrow> (string \<Rightarrow> string) \<Rightarrow> tname \<Rightarrow> codec \<Rightarrow> string list" where
  "codecText g Q n c = (let q = codecQual g; t = snd n in
     sizeText q Q t (cSize c) @ marshalText q Q t (cMarshal c) @ appendMethodText q Q t (cAppend c)
     @ unmarshalText g Q t (cUnmarshal c))"

subsection \<open>The file\<close>

definition headText :: "generator \<Rightarrow> genfile \<Rightarrow> string list" where
  "headText g f =
     [''// Code generated by goserdegen '' @ version @ ''. DO NOT EDIT.'', '''',
      ''package '' @ gfPackage f, '''',
      ''import ('', quoted (gfCodecPkg f)]
     @ (if gfImportTime f then [quoted ''time''] else [])
     @ (if gfImportUnsafe f then [quoted ''unsafe''] else [])
     @ ['')'', '''', ''var _ = '' @ codecQual g @ ''.UvarintSize // keep import if unused'', '''']
     @ (if gfImportUnsafe f then [''var _ unsafe.Pointer'', ''''] else [])"

definition fileText :: "(string \<Rightarrow> string) \<Rightarrow> generator \<Rightarrow> genfile \<Rightarrow> string list" where
  "fileText nameOf g f =
     headText g f @ concat (map (\<lambda>(n, c). codecText g (relativeTo nameOf g) n c) (gfCodecs f))"

text \<open>Texts that differ in blanks and empty lines only.\<close>

definition dense :: "string list \<Rightarrow> string list" where
  "dense ls = filter (\<lambda>l. l \<noteq> []) (map (filter (\<lambda>c. c \<noteq> CHR 0x20 \<and> c \<noteq> CHR 0x09)) ls)"

definition sameText :: "string list \<Rightarrow> string list \<Rightarrow> bool" where
  "sameText a b \<longleftrightarrow> dense a = dense b"

subsection \<open>The names of the temporaries\<close>

lemma digit_code: "of_char (digit n) = (48 + n mod 10 :: nat)"
proof -
  have "n mod 10 \<in> {0, 1, 2, 3, 4, 5, 6, 7, 8, 9}" by simp presburger
  then show ?thesis by (auto simp: digit_def)
qed

text \<open>Reading a number back.\<close>

definition numVal :: "string \<Rightarrow> nat" where
  "numVal s = foldl (\<lambda>a c. 10 * a + (of_char c - 48)) 0 s"

lemma numVal_numText [simp]: "numVal (numText n) = n"
proof (induction n rule: numText.induct)
  case (1 n)
  then show ?case by (subst numText.simps) (simp add: numVal_def digit_code)
qed

lemma numText_inject [simp]: "numText m = numText n \<longleftrightarrow> m = n"
  by (metis numVal_numText)

lemma varText_inject [simp]: "varText x = varText y \<longleftrightarrow> x = y"
  by (cases x; cases y) auto

lemma distinct_varText [simp]: "distinct (map varText xs) \<longleftrightarrow> distinct xs"
  by (simp add: distinct_map inj_on_def)

lemma last_numText: "last (numText n) = digit n" "numText n \<noteq> []"
  by (subst numText.simps, simp)+

text \<open>The names a temporary must not take: the fixed locals of the generated methods, the packages
  they call, the predeclared names they use and Go's keywords.\<close>

definition fixedNames :: "string list" where
  "fixedNames =
     [''r'', ''b'', ''i'', ''s'', ''n'', ''nn'', ''cc'', ''nnn'', ''err'', ''codec'', ''time'', ''unsafe'',
      ''nil'', ''append'', ''cap'', ''clear'', ''copy'', ''len'', ''make'', ''new'', ''panic'', ''byte'', ''int'',
      ''string'', ''uint16'', ''uint32'', ''uint64'', ''error'', ''break'', ''case'', ''chan'', ''const'', ''continue'',
      ''default'', ''defer'', ''else'', ''fallthrough'', ''for'', ''func'', ''go'', ''goto'', ''if'', ''import'',
      ''interface'', ''map'', ''package'', ''range'', ''return'', ''select'', ''struct'', ''switch'', ''type'', ''var'']"

lemma temp_not_fixed: "varText x \<notin> set fixedNames"
proof -
  have l: "(of_char (last (varText x)) :: nat) < 58 \<or> x = VV"
    by (cases x; simp add: last_numText digit_code)
  have "\<forall>s \<in> set fixedNames. s \<in> {''uint16'', ''uint32'', ''uint64''} \<or> \<not> (of_char (last s) :: nat) < 58"
    by code_simp
  moreover have "\<forall>s \<in> set fixedNames. s \<noteq> ''v''" by code_simp
  moreover have "varText x \<noteq> ''u'' @ s" for s by (cases x) auto
  ultimately show ?thesis using l by (cases x) fastforce+
qed

text \<open>The names a generated method declares: its fixed locals and anything that looks like a temporary.\<close>

definition fixedLocals :: "string list" where
  "fixedLocals = [''r'', ''b'', ''i'', ''s'', ''n'', ''nn'', ''cc'', ''nnn'', ''err'', ''v'']"

definition decimal :: "char \<Rightarrow> bool" where
  "decimal d \<longleftrightarrow> List.member ''0123456789'' d"

definition localName :: "string \<Rightarrow> bool" where
  "localName s \<longleftrightarrow> List.member fixedLocals s \<or>
     (case s of [] \<Rightarrow> False
      | c # ds \<Rightarrow> (c = CHR ''e'' \<or> c = CHR ''j'') \<and> ds \<noteq> [] \<and> list_all decimal ds)"

lemma digits_numText: "list_all decimal (numText n)"
proof (induction n rule: numText.induct)
  case (1 n)
  have "digit n \<in> set ''0123456789''" unfolding digit_def by (rule nth_mem) simp
  then have "decimal (digit n)" by (simp only: decimal_def List.member_iff)
  then show ?case using 1 by (subst numText.simps) simp
qed

lemma localName_varText: "localName (varText v)"
  by (cases v) (simp_all add: localName_def last_numText(2) digits_numText fixedLocals_def List.member_iff)

text \<open>On every \<open>ref\<close> string the emitter makes, \<open>addrOf\<close>, which looks at the string's ends, does what
  \<open>Emit.addrOf\<close> does on the tree: \<open>(*x)[j1]\<close> begins like a dereference and is none.\<close>

lemma addrOf_text: "addrOfText (refText r) = recvText (addrOf r)"
proof (cases r)
  case (RVar v)
  then show ?thesis
    by (cases v) (simp_all add: addrOfText_def addrOf_def CutPrefix_def HasPrefix_def)
qed (auto simp: addrOfText_def addrOf_def CutPrefix_def HasPrefix_def HasSuffix_def TrimSuffix_def)

end
