(* ===== verification/Typing.thy ===== *)
theory Typing
  imports Scope Package GoText
begin

text \<open>
  Go's static types of the emitted code: the type of a reference, the assignability rule and the
  typing of statements, for the fragment of Go that \<open>emit.go\<close> writes.  The static types which the
  tree carries because the text does not name them are checked against the ones Go infers.  A type
  that the text names must not be captured by a local of the method (\<open>localName\<close>), the cases of a
  switch must be distinct, and a codec must neither be declared twice nor give a struct a method
  with the name of one of its fields.
\<close>

subsection \<open>Types\<close>

text \<open>Identical types are equal up to aliases.\<close>

fun unalias :: "gotype \<Rightarrow> gotype" where
  "unalias (TAlias n u) = unalias u"
| "unalias (TSlice e) = TSlice (unalias e)"
| "unalias (TArray n e) = TArray n (unalias e)"
| "unalias (TPointer e) = TPointer (unalias e)"
| "unalias (TMap k e) = TMap (unalias k) (unalias e)"
| "unalias t = t"

text \<open>Named types in the sense of the assignability rule: predeclared and defined types.\<close>

definition named :: "gotype \<Rightarrow> bool" where
  "named t = (case unalias t of TBasic k \<Rightarrow> True | TNamed n u \<Rightarrow> True | _ \<Rightarrow> False)"

text \<open>\<open>*M\<close> implements an interface when \<open>M\<close> is registered for it: \<open>resolveUnions\<close> has asked
  \<open>types.Implements\<close>.\<close>

definition implements :: "generator \<Rightarrow> tname \<Rightarrow> gotype \<Rightarrow> bool" where
  "implements g m t \<longleftrightarrow> underlying t = TInterface
     \<and> (case unionMembersOf g t of Some ms \<Rightarrow> List.member ms m | None \<Rightarrow> False)"

definition assignable :: "gotype \<Rightarrow> gotype \<Rightarrow> bool" where
  "assignable v t \<longleftrightarrow> unalias v = unalias t
     \<or> (unalias (underlying v) = unalias (underlying t) \<and> (\<not> named v \<or> \<not> named t))"

definition kindIn :: "bkind list \<Rightarrow> gotype \<Rightarrow> bool" where
  "kindIn ks t = (case underlying t of TBasic k \<Rightarrow> List.member ks k | _ \<Rightarrow> False)"

definition intKinds :: "bkind list" where
  "intKinds = [KInt, KInt8, KInt16, KInt32, KInt64, KUint, KUint8, KUint16, KUint32, KUint64, KUintptr]"

text \<open>A conversion \<open>uintN(x)\<close> or \<open>T(x)\<close> between integer types is always legal.\<close>

definition integral :: "gotype \<Rightarrow> bool" where
  "integral t = kindIn intKinds t"

definition elemOf :: "gotype \<Rightarrow> gotype option" where
  "elemOf t = (case underlying t of TSlice e \<Rightarrow> Some e | TArray n e \<Rightarrow> Some e | _ \<Rightarrow> None)"

definition pointee :: "gotype \<Rightarrow> gotype option" where
  "pointee t = (case underlying t of TPointer e \<Rightarrow> Some e | _ \<Rightarrow> None)"

definition hasLen :: "gotype \<Rightarrow> bool" where
  "hasLen t = (case underlying t of TBasic k \<Rightarrow> k = KString | TSlice e \<Rightarrow> True | TArray n e \<Rightarrow> True
     | TMap k e \<Rightarrow> True | _ \<Rightarrow> False)"

definition nillable :: "gotype \<Rightarrow> bool" where
  "nillable t = (case underlying t of TSlice e \<Rightarrow> True | TPointer e \<Rightarrow> True | TMap k e \<Rightarrow> True
     | TInterface \<Rightarrow> True | _ \<Rightarrow> False)"

text \<open>The type of a reference, for the receiver's struct type and the types of the temporaries.\<close>

type_synonym tenv = "var \<Rightarrow> gotype option"

fun refType :: "generator \<Rightarrow> tname \<Rightarrow> tenv \<Rightarrow> ref \<Rightarrow> gotype option" where
  "refType g n E (RField f) = map_of (map (\<lambda>x. (sfName x, sfType x)) (structs g n)) f"
| "refType g n E (RVar v) = E v"
| "refType g n E (RIdx r j) =
     (case E j of Some u \<Rightarrow> if integral u then Option.bind (refType g n E r) elemOf else None | None \<Rightarrow> None)"
| "refType g n E (RDeref r) = Option.bind (refType g n E r) pointee"

lemma refType_upd [simp]: "v \<notin> refVars r \<Longrightarrow> refType g n (E(v := t)) r = refType g n E r"
  by (induction r) (auto split: option.split)

text \<open>A name in the text of a type that a local of the method may hide.\<close>

fun captured :: "gotype \<Rightarrow> bool" where
  "captured (TNamed n u) = localName (snd n)"
| "captured (TAlias n u) = localName (snd n)"
| "captured (TSlice e) = captured e"
| "captured (TArray n e) = captured e"
| "captured (TPointer e) = captured e"
| "captured (TMap k e) = (captured k \<or> captured e)"
| "captured t = False"

subsection \<open>Expressions\<close>

definition has :: "('a \<Rightarrow> bool) \<Rightarrow> 'a option \<Rightarrow> bool" where
  "has P x = (case x of Some y \<Rightarrow> P y | None \<Rightarrow> False)"

lemma has_simps [simp]: "has P (Some y) = P y" "has P None = False"
  by (simp_all add: has_def)

text \<open>The static type of a call's receiver.  A method of \<open>M\<close> can be called on an addressable \<open>M\<close>
  and on a \<open>*M\<close>, but not on a defined type whose underlying type is \<open>*M\<close>.\<close>

definition isNamed :: "tname \<Rightarrow> gotype \<Rightarrow> bool" where
  "isNamed m t = (case unalias t of TNamed k u \<Rightarrow> k = m | _ \<Rightarrow> False)"

definition isPtrTo :: "tname \<Rightarrow> gotype \<Rightarrow> bool" where
  "isPtrTo m t = (case unalias t of TPointer e \<Rightarrow> isNamed m e | _ \<Rightarrow> False)"

type_synonym rty = "ref \<Rightarrow> gotype option"

definition tyRecv :: "generator \<Rightarrow> rty \<Rightarrow> recv \<Rightarrow> tname \<Rightarrow> bool" where
  "tyRecv g ty rc m \<longleftrightarrow> isTarget g m \<and>
     (case rc of RecvPtr x \<Rightarrow> has (isPtrTo m) (ty x) | RecvAddr r \<Rightarrow> has (isNamed m) (ty r))"

definition intT :: gotype where "intT = TBasic KInt"
definition uint64T :: gotype where "uint64T = TBasic KUint64"
definition bytesT :: gotype where "bytesT = TSlice (TBasic KUint8)"
definition stringT :: gotype where "stringT = TBasic KString"
definition ptrT :: "tname \<Rightarrow> gotype" where "ptrT m = TPointer (TNamed m TStruct)"

fun tyI :: "generator \<Rightarrow> rty \<Rightarrow> iexp \<Rightarrow> bool" where
  "tyI g ty (INum n) = True"
| "tyI g ty (ILen r) = has hasLen (ty r)"
| "tyI g ty (IUvarintSize e) = tyI g ty e"
| "tyI g ty (IAdd a b) = (tyI g ty a \<and> tyI g ty b)"
| "tyI g ty (IMul a b) = (tyI g ty a \<and> tyI g ty b)"
| "tyI g ty (ISizeofElem t r) = has (\<lambda>u. elemOf u = Some t) (ty r)"
| "tyI g ty (ISizeof t r) = (ty r = Some t)"
| "tyI g ty IIntNN = True"
| "tyI g ty (IVar v) = (ty (RVar v) = Some intT)"
| "tyI g ty (ISize rc m) = tyRecv g ty rc m"

fun tyW :: "rty \<Rightarrow> wexp \<Rightarrow> bool" where
  "tyW ty (WConv r) = has integral (ty r)"
| "tyW ty (WF32bits r) = has (\<lambda>t. assignable t (TBasic KFloat32)) (ty r)"
| "tyW ty (WF64bits r) = has (\<lambda>t. assignable t (TBasic KFloat64)) (ty r)"
| "tyW ty (WUnixNano r) = has isTime (ty r)"

fun tyBy :: "rty \<Rightarrow> bexp \<Rightarrow> bool" where
  "tyBy ty (BNum n) = True"
| "tyBy ty (BConv r) = has integral (ty r)"

text \<open>A source of bytes.  \<open>copy\<close> goes through \<open>codec.S2B\<close>, which takes a \<open>string\<close>;
  \<open>append(b, s...)\<close> takes any string type.\<close>

fun tySrc :: "generator \<Rightarrow> rty \<Rightarrow> bsrc \<Rightarrow> bool" where
  "tySrc g ty (SrcStr r) = has (kindIn [KString]) (ty r)"
| "tySrc g ty (SrcBytes r) = has (\<lambda>t. underlying t = bytesT) (ty r)"
| "tySrc g ty (SrcArr r) = has (\<lambda>t. case underlying t of TArray n e \<Rightarrow> e = TBasic KUint8 | _ \<Rightarrow> False) (ty r)"
| "tySrc g ty (SrcMem t r e) = (has (\<lambda>u. elemOf u = Some t) (ty r) \<and> tyI g ty e)"

definition tyCopy :: "generator \<Rightarrow> rty \<Rightarrow> bsrc \<Rightarrow> bool" where
  "tyCopy g ty q = (case q of SrcStr r \<Rightarrow> has (\<lambda>t. assignable t stringT) (ty r) | _ \<Rightarrow> tySrc g ty q)"

text \<open>The right-hand side \<open>d\<close> can be assigned to a destination of type \<open>t\<close>.\<close>

fun tyD :: "generator \<Rightarrow> rty \<Rightarrow> dexp \<Rightarrow> gotype \<Rightarrow> bool" where
  "tyD g ty DTime t = isTime t"
| "tyD g ty DBool t = kindIn [KBool] t"
| "tyD g ty (DByte u) t = (integral u \<and> assignable u t \<and> \<not> captured u)"
| "tyD g ty (DU16 u) t = (integral u \<and> assignable u t \<and> \<not> captured u)"
| "tyD g ty (DU32 u) t = (integral u \<and> assignable u t \<and> \<not> captured u)"
| "tyD g ty (DU64 u) t = (integral u \<and> assignable u t \<and> \<not> captured u)"
| "tyD g ty DF32 t = assignable (TBasic KFloat32) t"
| "tyD g ty DF64 t = assignable (TBasic KFloat64) t"
| "tyD g ty DStrCopy t = assignable stringT t"
| "tyD g ty DStrAlias t = assignable stringT t"
| "tyD g ty (DBytesCopy r) t = has (\<lambda>u. underlying u = bytesT \<and> assignable u t) (ty r)"
| "tyD g ty DBytesAlias t = assignable bytesT t"
| "tyD g ty (DNil u) t = (u = t \<and> nillable t)"
| "tyD g ty (DIface v m) t = (ty (RVar v) = Some (ptrT m) \<and> implements g m t)"

subsection \<open>Statements\<close>

fun tyM :: "generator \<Rightarrow> rty \<Rightarrow> mstmt \<Rightarrow> bool" where
  "tyM g ty (SPut16 w) = tyW ty w" | "tyM g ty (SPut32 w) = tyW ty w" | "tyM g ty (SPut64 w) = tyW ty w"
| "tyM g ty (SSetByte b) = tyBy ty b" | "tyM g ty (SPutUvarint e) = tyI g ty e"
| "tyM g ty (SCopy q) = tyCopy g ty q" | "tyM g ty (SMarshal rc m) = tyRecv g ty rc m" | "tyM g ty (SIncI n) = True"

fun tyA :: "generator \<Rightarrow> rty \<Rightarrow> astmt \<Rightarrow> bool" where
  "tyA g ty (SApp16 w) = tyW ty w" | "tyA g ty (SApp32 w) = tyW ty w" | "tyA g ty (SApp64 w) = tyW ty w"
| "tyA g ty (SAppByte b) = tyBy ty b" | "tyA g ty (SAppUvarint e) = tyI g ty e"
| "tyA g ty (SApp q) = tySrc g ty q" | "tyA g ty (SAppend rc m) = tyRecv g ty rc m"

definition tyG :: "generator \<Rightarrow> rty \<Rightarrow> gstmt \<Rightarrow> bool" where
  "tyG g ty x = (case x of SIncE e \<Rightarrow> tyI g ty e | _ \<Rightarrow> True)"

fun tyU :: "generator \<Rightarrow> rty \<Rightarrow> ustmt \<Rightarrow> bool" where
  "tyU g ty (SAssign r d) = has (tyD g ty d) (ty r)"
| "tyU g ty (SReuseOrMake r t) = (ty r = Some t \<and> (case underlying t of TSlice e \<Rightarrow> True | _ \<Rightarrow> False) \<and> \<not> captured t)"
| "tyU g ty (SReuseOrMakeMap r t v) =
     (ty r = Some t \<and> (case underlying t of TMap k e \<Rightarrow> True | _ \<Rightarrow> False) \<and> has integral (ty (RVar v)) \<and> \<not> captured t)"
| "tyU g ty (SNewIfNil r t) = (has (\<lambda>u. assignable (TPointer t) u) (ty r) \<and> \<not> captured t)"
| "tyU g ty (SCopyArr r n) = has (\<lambda>t. underlying t = TArray n (TBasic KUint8)) (ty r)"
| "tyU g ty (SCopyMem t r e) = (has (\<lambda>u. elemOf u = Some t) (ty r) \<and> tyI g ty e)"
| "tyU g ty (SLetInt v e) = tyI g ty e"
| "tyU g ty (SLetNN v) = True"
| "tyU g ty (SVar v t) = (\<not> captured t)"
| "tyU g ty (SMapSet t r k v) =
     (ty r = Some t \<and> (case underlying t of TMap kt et \<Rightarrow>
        has (\<lambda>u. assignable u kt) (ty (RVar k)) \<and> has (\<lambda>u. assignable u et) (ty (RVar v)) | _ \<Rightarrow> False))"
| "tyU g ty (SUnmarshalSafe rc m) = tyRecv g ty rc m"
| "tyU g ty (SUnmarshalFast rc m) = tyRecv g ty rc m"
| "tyU g ty (STypeAssert v r m) = (has (implements g m) (ty r) \<and> \<not> localName (snd m))"

text \<open>The types of what a statement declares.\<close>

definition declares :: "stmt \<Rightarrow> tenv \<Rightarrow> tenv" where
  "declares x E = (case x of
     SU u \<Rightarrow> (case u of SLetInt v e \<Rightarrow> E(v \<mapsto> intT) | SLetNN v \<Rightarrow> E(v \<mapsto> uint64T) | SVar v t \<Rightarrow> E(v \<mapsto> t)
                     | STypeAssert v r m \<Rightarrow> E(v \<mapsto> ptrT m) | _ \<Rightarrow> E)
   | _ \<Rightarrow> E)"

fun tyS :: "generator \<Rightarrow> tname \<Rightarrow> tenv \<Rightarrow> stmt \<Rightarrow> bool"
and tyB :: "generator \<Rightarrow> tname \<Rightarrow> tenv \<Rightarrow> stmt list \<Rightarrow> bool" where
  "tyS g n E (SAddS e) = tyI g (refType g n E) e"
| "tyS g n E (SUse x) = (E x \<noteq> None)"
| "tyS g n E (SM m) = tyM g (refType g n E) m"
| "tyS g n E (SA a) = tyA g (refType g n E) a"
| "tyS g n E (SG x) = tyG g (refType g n E) x"
| "tyS g n E (SU u) = tyU g (refType g n E) u"
| "tyS g n E (SForIdx iv r b) = (has (\<lambda>t. elemOf t \<noteq> None) (refType g n E r) \<and> tyB g n (E(iv \<mapsto> intT)) b)"
| "tyS g n E (SForVal iv r b) =
     (case Option.bind (refType g n E r) elemOf of Some e \<Rightarrow> tyB g n (E(iv \<mapsto> e)) b | None \<Rightarrow> False)"
| "tyS g n E (SForN iv k b) = tyB g n (E(iv \<mapsto> intT)) b"
| "tyS g n E (SForMap kv vv r b) =
     (case refType g n E r of None \<Rightarrow> False | Some t \<Rightarrow>
        (case underlying t of TMap k e \<Rightarrow> tyB g n (E(kv \<mapsto> k, vv \<mapsto> e)) b | _ \<Rightarrow> False))"
| "tyS g n E (SForCnt iv cnt b) = (E cnt = Some uint64T \<and> tyB g n (E(iv \<mapsto> uint64T)) b)"
| "tyS g n E (SIfNotNil r a b) = (has nillable (refType g n E r) \<and> tyB g n E a \<and> tyB g n E b)"
| "tyS g n E (SIfTrue r a b) = (has (kindIn [KBool]) (refType g n E r) \<and> tyB g n E a \<and> tyB g n E b)"
| "tyS g n E (SIfNonEmpty r a) = (has hasLen (refType g n E r) \<and> tyB g n E a)"
| "tyS g n E (SIfNN0 a b) = (tyB g n E a \<and> tyB g n E b)"
| "tyS g n E (SIfFlag a b) = (tyB g n E a \<and> tyB g n E b)"
| "tyS g n E (STypeSwitch r cs nl msg) =
     (case refType g n E r of None \<Rightarrow> False | Some t \<Rightarrow> underlying t = TInterface \<and> distinct (map fst cs)
        \<and> list_all (\<lambda>(m, b). implements g m t \<and> \<not> localName (snd m) \<and> tyB g n (E(VV \<mapsto> ptrT m)) b) cs
        \<and> tyB g n (E(VV \<mapsto> t)) nl)"
| "tyS g n E (SSwitchNN cs) = (distinct (map fst cs) \<and> list_all (\<lambda>(k, b). tyB g n E b) cs)"
| "tyB g n E [] = True"
| "tyB g n E (x # xs) = (tyS g n E x \<and> tyB g n (declares x E) xs)"

text \<open>A file type-checks when each body does, for its receiver.\<close>

definition tyMethod :: "generator \<Rightarrow> tname \<Rightarrow> gomethod \<Rightarrow> bool" where
  "tyMethod g n m = (case m of MBody b \<Rightarrow> tyB g n (\<lambda>v. None) b | MBlit k f \<Rightarrow> k = n)"

definition tyCodec :: "generator \<Rightarrow> tname \<Rightarrow> codec \<Rightarrow> bool" where
  "tyCodec g n c \<longleftrightarrow> tyMethod g n (cSize c) \<and> tyMethod g n (cMarshal c) \<and> tyMethod g n (cAppend c)
     \<and> tyMethod g n (cUnmarshal c)"

text \<open>A struct has no field with the name of a method of its codec.\<close>

definition methodsFree :: "generator \<Rightarrow> tname \<Rightarrow> bool" where
  "methodsFree g n \<longleftrightarrow> list_all (\<lambda>f. \<not> List.member codecMethodNames (sfName f)) (structs g n)"

definition tyFile :: "generator \<Rightarrow> genfile \<Rightarrow> bool" where
  "tyFile g gf \<longleftrightarrow> distinct (map fst (gfCodecs gf))
     \<and> list_all (\<lambda>(n, c). tyCodec g n c \<and> methodsFree g n) (gfCodecs gf)"

subsection \<open>Field types for which the emitted code type-checks\<close>

text \<open>\<open>supported\<close> looks at underlying types only, but the code for strings and floats passes values
  to and from functions of \<open>codec\<close> without a conversion, and a method is called on a pointer
  without dereferencing it: defined types over \<open>string\<close>, \<open>float32\<close>, \<open>float64\<close> and over pointers to
  structs are not handled.  Nor are types whose names a local of the generated method hides.\<close>

definition structPtr :: "gotype \<Rightarrow> bool" where
  "structPtr t = (case underlying t of TPointer e \<Rightarrow> \<not> isTime e \<and> underlying e = TStruct | _ \<Rightarrow> False)"

fun compiles :: "gotype \<Rightarrow> bool" where
  "compiles (TNamed n u) = (\<not> localName (snd n) \<and> \<not> kindIn [KString, KFloat32, KFloat64] u \<and> \<not> structPtr u \<and> compiles u)"
| "compiles (TAlias n u) = (\<not> localName (snd n) \<and> compiles u)"
| "compiles (TSlice e) = compiles e"
| "compiles (TArray n e) = compiles e"
| "compiles (TPointer e) = compiles e"
| "compiles (TMap k e) = (compiles k \<and> compiles e)"
| "compiles t = True"

lemma compiles_underlying: "compiles t \<Longrightarrow> compiles (underlying t)"
  by (induction t) auto

lemma compiles_free [simp]: "compiles t \<Longrightarrow> \<not> captured t"
  by (induction t) auto

text \<open>Unions: no member twice, and none with a name that is hidden.\<close>

definition plainUnions :: "generator \<Rightarrow> bool" where
  "plainUnions g \<longleftrightarrow> list_all (\<lambda>(u, ms). distinct ms \<and> list_all (\<lambda>m. \<not> localName (snd m)) ms) (unions g)"

lemma compiles_elems:
  "compiles t \<Longrightarrow> underlying t = TSlice e \<Longrightarrow> compiles e"
  "compiles t \<Longrightarrow> underlying t = TArray n e \<Longrightarrow> compiles e"
  "compiles t \<Longrightarrow> underlying t = TPointer e \<Longrightarrow> compiles e"
  "compiles t \<Longrightarrow> underlying t = TMap k e \<Longrightarrow> compiles k"
  "compiles t \<Longrightarrow> underlying t = TMap k e \<Longrightarrow> compiles e"
  using compiles_underlying [of t] by auto

lemma compiles_basic:
  "compiles t \<Longrightarrow> underlying t = TBasic k \<Longrightarrow> k \<in> {KString, KFloat32, KFloat64} \<Longrightarrow> unalias t = TBasic k"
  by (induction t) (auto simp: kindIn_def)

lemma compiles_pointer:
  "compiles t \<Longrightarrow> underlying t = TPointer e \<Longrightarrow> \<not> isTime e \<Longrightarrow> underlying e = TStruct
     \<Longrightarrow> unalias t = TPointer (unalias e)"
  by (induction t) (auto simp: structPtr_def)

subsection \<open>Composition\<close>

definition declaresB :: "block \<Rightarrow> tenv \<Rightarrow> tenv" where
  "declaresB b E = fold declares b E"

lemma tyB_append: "tyB g n E (a @ b) \<longleftrightarrow> tyB g n E a \<and> tyB g n (declaresB a E) b"
  by (induction a arbitrary: E) (auto simp: declaresB_def)

lemma declares_other: "v \<notin> set (declared x) \<Longrightarrow> declares x E v = E v"
  by (auto simp: declares_def declared_def split: stmt.splits ustmt.splits)

lemma declaresB_other: "v \<notin> set (decls b) \<Longrightarrow> declaresB b E v = E v"
  by (induction b arbitrary: E) (auto simp: declaresB_def declares_other)

lemma refType_cong: "\<forall>v \<in> refVars r. E v = E' v \<Longrightarrow> refType g n E r = refType g n E' r"
  by (induction r) (auto split: option.split)

lemma refType_declaresB:
  "below r c \<Longrightarrow> fresher c (decls b) \<Longrightarrow> refType g n (declaresB b E) r = refType g n E r"
  by (rule refType_cong) (force simp: below_def fresher_def intro: declaresB_other)

lemma declares_simps [simp]:
  "declares (SU (SLetInt v e)) E = E(v \<mapsto> intT)" "declares (SU (SLetNN v)) E = E(v \<mapsto> uint64T)"
  "declares (SU (SVar v t)) E = E(v \<mapsto> t)" "declares (SU (STypeAssert v r m)) E = E(v \<mapsto> ptrT m)"
  by (simp_all add: declares_def)

lemma declares_none [simp]: "declared x = [] \<Longrightarrow> declares x E = E"
  by (rule ext) (simp add: declares_other)

lemma declaresB_nil: "decls b = [] \<Longrightarrow> declaresB b E = E"
  by (rule ext) (simp add: declaresB_other)

lemma indexed:
  "refType g n E r = Some t \<Longrightarrow> elemOf t = Some e \<Longrightarrow> j \<notin> refVars r \<Longrightarrow> refType g n (E(j \<mapsto> intT)) (RIdx r j) = Some e"
  by (simp add: intT_def integral_def kindIn_def intKinds_def)

text \<open>A method call on a reference of struct type.\<close>

definition callable :: "generator \<Rightarrow> tname \<Rightarrow> tenv \<Rightarrow> ref \<Rightarrow> gotype \<Rightarrow> bool" where
  "callable g n E r t \<longleftrightarrow> isTime t \<or> underlying t \<noteq> TStruct \<or>
     (case r of RDeref x \<Rightarrow> has (\<lambda>p. unalias p = TPointer (unalias t)) (refType g n E x) | _ \<Rightarrow> True)"

lemma callable_simps [simp]: "callable g n E (RField f) t" "callable g n E (RVar v) t" "callable g n E (RIdx r j) t"
  by (simp_all add: callable_def)

lemma callable_deref:
  "refType g n E r = Some t \<Longrightarrow> compiles t \<Longrightarrow> underlying t = TPointer e \<Longrightarrow> callable g n E (RDeref r) e"
  using compiles_pointer by (auto simp: callable_def)

lemma addrOf_typed:
  assumes "refType g n E r = Some t" "callable g n E r t" "t = TNamed m u" "underlying t = TStruct" "\<not> isTime t"
    and "isTarget g m"
  shows "tyRecv g (refType g n E) (addrOf r) m"
proof (cases r)
  case (RDeref x)
  then show ?thesis using assms
    by (auto simp: tyRecv_def addrOf_def callable_def isPtrTo_def isNamed_def has_def split: option.splits)
qed (use assms in \<open>auto simp: tyRecv_def addrOf_def isNamed_def\<close>)

text \<open>The members of a union.\<close>

lemma members_typed:
  assumes "wfGen g" "plainUnions g" "supported g t = None" "\<not> isTime t" "underlying t = TInterface"
    and "(k, m) \<in> set (taggedMembers g t)"
  shows "implements g m t" and "isTarget g m" and "\<not> localName (snd m)"
proof -
  obtain n u ms where t: "t = TNamed n u" "map_of (unions g) n = Some ms"
    using assms(3-5)
    by (auto simp: supported.simps [of g t] unionMembersOf_def split: option.splits gotype.splits)
  then have m: "m \<in> set ms"
    using assms(6) by (auto simp: taggedMembers_def unionMembersOf_def in_set_enumerate_eq)
  then show "implements g m t" using t assms(5) by (simp add: implements_def unionMembersOf_def)
  show "isTarget g m" using assms(1) map_of_SomeD [OF t(2)] m unfolding wfGen_def by force
  show "\<not> localName (snd m)" using assms(2) map_of_SomeD [OF t(2)] m by (auto simp: plainUnions_def list_all_iff)
qed

lemma members_distinct:
  assumes "plainUnions g"
  shows "distinct (map snd (taggedMembers g t))" "distinct (0 # map fst (taggedMembers g t))"
proof -
  have "distinct ms" if "unionMembersOf g t = Some ms" for ms
    using assms that map_of_SomeD [of "unions g" _ ms]
    by (fastforce simp: unionMembersOf_def plainUnions_def list_all_iff split: gotype.splits)
  then show "distinct (map snd (taggedMembers g t))" "distinct (0 # map fst (taggedMembers g t))"
    by (auto simp: taggedMembers_def in_set_enumerate_eq split: option.split)
qed

lemma switch_typed:
  assumes "refType g n E r = Some t" "underlying t = TInterface"
    and "distinct (map snd ms)"
    and "\<And>k m. (k, m) \<in> set ms \<Longrightarrow> implements g m t \<and> \<not> localName (snd m) \<and> tyB g n (E(VV \<mapsto> ptrT m)) (f k m)"
    and "tyB g n (E(VV \<mapsto> t)) nl"
  shows "tyB g n E [STypeSwitch r (map (\<lambda>(k, m). (m, f k m)) ms) nl msg]"
  using assms by (auto simp: list_all_iff case_prod_beta comp_def)

lemma vv_recv: "isTarget g m \<Longrightarrow> tyRecv g (refType g n (E(VV \<mapsto> ptrT m))) (RecvPtr (RVar VV)) m"
  by (simp add: tyRecv_def ptrT_def isPtrTo_def isNamed_def)

subsection \<open>Size\<close>

definition typedExpr ::
  "generator \<Rightarrow> tname \<Rightarrow> (ref \<Rightarrow> gotype \<Rightarrow> gstate \<Rightarrow> block \<times> gstate) \<Rightarrow> gotype \<Rightarrow> bool" where
  "typedExpr g n ex t \<longleftrightarrow> (\<forall>ref es E. refType g n E ref = Some t \<longrightarrow> callable g n E ref t
     \<longrightarrow> below ref (varCounter es) \<longrightarrow> tyB g n E (fst (ex ref t es)))"

lemma typedExpr_D:
  "typedExpr g n ex t \<Longrightarrow> refType g n E ref = Some t \<Longrightarrow> callable g n E ref t \<Longrightarrow> below ref (varCounter es)
     \<Longrightarrow> tyB g n E (fst (ex ref t es))"
  by (simp add: typedExpr_def)

lemma size_map_typed:
  assumes t: "\<not> isTime t" "underlying t = TMap k e" and IH: "typedExpr g n (sizeExpr g) k" "typedExpr g n (sizeExpr g) e"
    and r: "refType g n E ref = Some t"
  shows "tyB g n E (fst (sizeExpr g ref t es))"
proof -
  let ?kv = "fst (freshVar es)" and ?e1 = "snd (freshVar es)"
  let ?vv = "fst (freshVar ?e1)" and ?e2 = "snd (freshVar ?e1)"
  let ?kb = "sizeExpr g (RVar ?kv) k ?e2" and ?E = "E(?kv \<mapsto> k, ?vv \<mapsto> e)"
  let ?vb = "sizeExpr g (RVar ?vv) e (snd ?kb)"
  have m: "Suc (Suc (varCounter es)) \<le> varCounter (snd ?kb)"
    using sizeExpr_mono [of ?e2 g "RVar ?kv" k] by (simp add: freshVar_facts)
  have ne: "?kv \<noteq> ?vv" using freshVar_facts [of es] freshVar_facts [of ?e1] by (metis n_not_Suc_n)
  then have "tyB g n ?E (fst ?kb)" "tyB g n ?E (fst ?vb)"
    using m by (auto simp: freshVar_facts intro!: typedExpr_D [OF IH(1)] typedExpr_D [OF IH(2)])
  then show ?thesis using t r ne
    by (simp add: sizeExpr.simps [of g ref t es] Let_def split_beta hasLen_def tyB_append declaresB_nil size_decls)
qed

lemma size_typed:
  assumes "wfGen g" "plainUnions g"
  shows "compiles t \<Longrightarrow> supported g t = None \<Longrightarrow> typedExpr g n (sizeExpr g) t"
proof (induction t rule: measure_induct_rule [where f = size])
  case (less t)
  note u = underlying_size_less [of t] compiles_elems [OF less.prems(1)] supported.simps [of g t]
  have IH: "tyB g n E (fst (sizeExpr g ref e es))"
    if "size e < size t" "compiles e" "supported g e = None" "refType g n E ref = Some e" "callable g n E ref e"
      "below ref (varCounter es)" for ref e es E
    using less.IH [OF that(1-3)] that(4-6) by (rule typedExpr_D)
  show ?case unfolding typedExpr_def
  proof (intro allI impI)
    fix ref E and es :: gstate
    assume r: "refType g n E ref = Some t" "callable g n E ref t" "below ref (varCounter es)"
    note c = sizeExpr.simps [of g ref t es]
    have b: "fst (freshIdx es) \<notin> refVars ref" "fst (freshVar es) \<notin> refVars ref" "below ref (Suc (varCounter es))"
      using r(3) by (auto simp: below_fresh freshIdx_facts freshVar_facts intro: below_mono)
    note s = u c b r hasLen_def elemOf_def freshIdx_facts freshVar_facts
    show "tyB g n E (fst (sizeExpr g ref t es))"
    proof (cases "isTime t")
      case True
      then show ?thesis by (simp add: c)
    next
      case False
      show ?thesis
      proof (cases "underlying t")
        case (TBasic k)
        then show ?thesis using False by (cases k) (auto simp: s sizeBasic_def)
      next
        case (TMap k e)
        then have "typedExpr g n (sizeExpr g) k" "typedExpr g n (sizeExpr g) e"
          using less.prems False by (auto simp: u split: option.splits intro!: less.IH)
        then show ?thesis using size_map_typed [OF False TMap _ _ r(1)] by simp
      next
        case TStruct
        then obtain m w where t: "t = TNamed m w" "isTarget g m" using supported_struct less.prems(2) False by metis
        have "tyRecv g (refType g n E) (addrOf ref) m"
          using addrOf_typed [OF r(1,2) t(1) TStruct False t(2)] .
        then show ?thesis using c False TStruct t(1) by simp
      next
        case TInterface
        have "tyB g n E [STypeSwitch ref
              (map (\<lambda>(k, m). (m, [SAddS (IAdd (INum (uvarintLen (of_nat k))) (ISize (RecvPtr (RVar VV)) m))]))
                 (taggedMembers g t)) [SAddS (INum (uvarintLen 0))] (unionPanic t)]"
          using members_typed [OF assms less.prems(2) False TInterface] r(1) TInterface
            members_distinct(1) [OF assms(2)]
          by (intro switch_typed) (auto intro: vv_recv)
        then show ?thesis using False TInterface by (simp add: c)
      qed (use less.prems False in \<open>auto simp: s Let_def split_beta pointee_def nillable_def
        intro!: IH callable_deref [OF r(1) less.prems(1)] indexed split: option.split\<close>)
    qed
  qed
qed

subsection \<open>Marshal and Append\<close>

lemma unalias_underlying: "unalias t = TBasic k \<Longrightarrow> underlying t = TBasic k"
  by (induction t) auto

lemma assignable_basic: "assignable t (TBasic k) \<Longrightarrow> underlying t = TBasic k"
  using unalias_underlying [of t k] unalias_underlying [of "underlying t" k] by (auto simp: assignable_def)

lemma tyCopy_src: "tyCopy g ty q \<Longrightarrow> tySrc g ty q"
  by (cases q) (auto simp: tyCopy_def stringT_def has_def kindIn_def dest: assignable_basic split: option.splits)

lemma isBytes_iff: "isBytes e \<longleftrightarrow> e = TBasic KUint8" "isByteArray e \<longleftrightarrow> e = TBasic KUint8"
  by (cases e; simp add: isBytes_def isByteArray_def)+

text \<open>Store statements that type-check when their operands do.\<close>

locale typed_atoms = quiet_atoms +
  assumes ty_bool: "has (kindIn [KBool]) (refType g n E r) \<Longrightarrow> tyB g n E (aBool a r)"
    and ty_byte: "tyBy (refType g n E) x \<Longrightarrow> tyB g n E (aByte a x)"
    and ty_16: "tyW (refType g n E) w \<Longrightarrow> tyB g n E (a16 a w)"
    and ty_32: "tyW (refType g n E) w \<Longrightarrow> tyB g n E (a32 a w)"
    and ty_64: "tyW (refType g n E) w \<Longrightarrow> tyB g n E (a64 a w)"
    and ty_uv: "tyI g (refType g n E) i \<Longrightarrow> tyB g n E (aUv a i)"
    and ty_src: "tyCopy g (refType g n E) q \<Longrightarrow> tyB g n E (aSrc a q)"
    and ty_call: "tyRecv g (refType g n E) rc m \<Longrightarrow> tyB g n E (aCall a rc m)"
begin

lemmas ty_atoms = ty_bool ty_byte ty_16 ty_32 ty_64 ty_uv ty_src ty_call

lemma ty_append:
  assumes "plain x X"
  shows "tyB g n E x \<Longrightarrow> tyB g n E b \<Longrightarrow> tyB g n E (x @ b)"
  by (simp add: tyB_append declaresB_nil plain_decls [OF assms])

lemmas ty_then = ty_append [OF plain_uv ty_uv] ty_append [OF plain_byte ty_byte]

lemma basic_typed:
  assumes "refType g n E ref = Some t" "underlying t = TBasic k" "compiles t" "supportedBasic k"
  shows "tyB g n E (encBasic a ref k)"
proof -
  have str: "k \<in> {KString, KFloat32, KFloat64} \<Longrightarrow> assignable t (TBasic k)"
    using compiles_basic [OF assms(3,2)] by (simp add: assignable_def)
  show ?thesis using assms str
    by (cases k) (auto simp: supportedBasic_def encBasic_def kindIn_def integral_def intKinds_def tyCopy_def hasLen_def
        stringT_def intro!: ty_atoms ty_then)
qed

lemma enc_map_typed:
  assumes shape: "encShape a g ex" and t: "\<not> isTime t" "underlying t = TMap k e" and sup: "supported g k = None"
    and IH: "typedExpr g n ex k" "typedExpr g n ex e" and r: "refType g n E ref = Some t"
  shows "tyB g n E (fst (ex ref t es))"
proof -
  let ?kv = "fst (freshVar es)" and ?e1 = "snd (freshVar es)"
  let ?vv = "fst (freshVar ?e1)" and ?e2 = "snd (freshVar ?e1)"
  let ?kb = "ex (RVar ?kv) k ?e2" and ?E = "E(?kv \<mapsto> k, ?vv \<mapsto> e)"
  let ?vb = "ex (RVar ?vv) e (snd ?kb)"
  have m: "Suc (Suc (varCounter es)) \<le> varCounter (snd ?kb)"
    using encShape_D [OF shape, where ref = "RVar ?kv" and t = k and s = ?e2] by (simp add: freshVar_facts)
  have ne: "?kv \<noteq> ?vv" using freshVar_facts [of es] freshVar_facts [of ?e1] by (metis n_not_Suc_n)
  then have "tyB g n ?E (fst ?kb)" "tyB g n ?E (fst ?vb)"
    using m by (auto simp: freshVar_facts intro!: typedExpr_D [OF IH(1)] typedExpr_D [OF IH(2)])
  then have "tyB g n ?E (fst ?kb @ fst ?vb)"
    by (simp add: tyB_append declaresB_nil enc_decls [OF shape sup])
  then show ?thesis using encShape_D [OF shape, where ref = ref and t = t and s = es] t r
    by (auto simp: encMap_def Let_def hasLen_def intro!: ty_then)
qed

lemma enc_typed:
  assumes shape: "encShape a g ex" and wf: "wfGen g" "plainUnions g"
  shows "compiles t \<Longrightarrow> supported g t = None \<Longrightarrow> typedExpr g n ex t"
proof (induction t rule: measure_induct_rule [where f = size])
  case (less t)
  note u = underlying_size_less [of t] compiles_elems [OF less.prems(1)] supported.simps [of g t]
  have IH: "tyB g n E (fst (ex ref e es))"
    if "size e < size t" "compiles e" "supported g e = None" "refType g n E ref = Some e" "callable g n E ref e"
      "below ref (varCounter es)" for ref e es E
    using less.IH [OF that(1-3)] that(4-6) by (rule typedExpr_D)
  show ?case unfolding typedExpr_def
  proof (intro allI impI)
    fix ref E and es :: gstate
    assume r: "refType g n E ref = Some t" "callable g n E ref t" "below ref (varCounter es)"
    note c = encShape_D [OF shape, where ref = ref and t = t and s = es]
    have b: "fst (freshIdx es) \<notin> refVars ref" "fst (freshVar es) \<notin> refVars ref" "below ref (Suc (varCounter es))"
      using r(3) by (auto simp: below_fresh freshIdx_facts freshVar_facts intro: below_mono)
    note s = u b r hasLen_def elemOf_def freshIdx_facts freshVar_facts
    note intros = IH indexed ty_then ty_atoms
    show "tyB g n E (fst (ex ref t es))"
    proof (cases "isTime t")
      case True
      then show ?thesis using c r by (auto intro!: ty_atoms)
    next
      case False
      show ?thesis
      proof (cases "underlying t")
        case (TBasic k)
        then have "supportedBasic k" using less.prems(2) False by (simp add: u split: if_splits)
        then show ?thesis using c False TBasic basic_typed [OF r(1) TBasic less.prems(1)] by simp
      next
        case (TSlice e)
        have "fst (ex ref t es) = encSlice a g ref e ex es" using c False TSlice by simp
        then show ?thesis using less.prems False TSlice
          by (auto simp: encSlice_def s tyCopy_def isBytes_iff bytesT_def byteCount_def intro!: intros)
      next
        case (TArray k e)
        have "fst (ex ref t es) = encArray a g ref t k e ex es" using c False TArray by simp
        then show ?thesis using less.prems False TArray
          by (auto simp: encArray_def s tyCopy_def isBytes_iff intro!: intros)
      next
        case (TPointer e)
        have "tyB g n E (fst (ex (RDeref ref) e es))"
          using less.prems False TPointer r by (intro IH callable_deref [OF r(1)]) (auto simp: u pointee_def)
        then show ?thesis using c False TPointer r(1) by (auto simp: nillable_def intro!: ty_then ty_atoms)
      next
        case (TMap k e)
        then have "typedExpr g n ex k" "typedExpr g n ex e" "supported g k = None"
          using less.prems False by (auto simp: u split: option.splits intro!: less.IH)
        then show ?thesis using enc_map_typed [OF shape False TMap _ _ _ r(1)] by simp
      next
        case TStruct
        then obtain m w where t: "t = TNamed m w" "isTarget g m" using supported_struct less.prems(2) False by metis
        have "tyRecv g (refType g n E) (addrOf ref) m"
          using addrOf_typed [OF r(1,2) t(1) TStruct False t(2)] .
        then show ?thesis using c False TStruct t(1) by (auto intro!: ty_atoms)
      next
        case TInterface
        have "tyB g n E (encUnion a g ref t)" unfolding encUnion_def
          using members_typed [OF wf less.prems(2) False TInterface] r(1) TInterface
            members_distinct(1) [OF wf(2)]
          by (intro switch_typed) (auto intro!: ty_then ty_atoms vv_recv)
        then show ?thesis using c False TInterface by simp
      qed (use less.prems False in \<open>simp_all add: u\<close>)
    qed
  qed
qed

end

interpretation mart: typed_atoms marshalAtoms
  by unfold_locales (auto simp: marshalAtoms_def)

interpretation appt: typed_atoms appendAtoms
  by unfold_locales (auto simp: appendAtoms_def dest: tyCopy_src)

subsection \<open>Unmarshal\<close>

lemma guards_typed:
  "tyB g n E (guardN g' k @ b) = tyB g n E b" "tyB g n E (guardLen g' @ b) = tyB g n E b"
  "tyB g n E (emitVarint g' @ b) = tyB g n E b"
  by (simp_all add: guardN_def guardLen_def emitVarint_def tyG_def)

lemma assignable_refl [simp]: "assignable t t"
  by (simp add: assignable_def)

lemma unmarshalBasic_typed:
  assumes "refType g n E ref = Some t" "underlying t = TBasic k" "compiles t" "supportedBasic k"
  shows "tyB g n E (unmarshalBasic g' ref t k)"
proof -
  have str: "k \<in> {KString, KFloat32, KFloat64} \<Longrightarrow> assignable (TBasic k) t"
    using compiles_basic [OF assms(3,2)] by (simp add: assignable_def)
  show ?thesis using assms str
    by (cases k) (auto simp: supportedBasic_def unmarshalBasic_def guards_typed kindIn_def integral_def intKinds_def
        stringT_def tyG_def)
qed

lemma unmarshalMembers_typed:
  assumes r: "refType g n E ref = Some t"
  shows "below ref (varCounter es) \<Longrightarrow> (\<And>k m. (k, m) \<in> set ms \<Longrightarrow> implements g m t \<and> isTarget g m \<and> \<not> localName (snd m))
    \<Longrightarrow> list_all (\<lambda>(k, b). tyB g n E b) (fst (unmarshalMembers g ref ms es))"
proof (induction ms arbitrary: es)
  case (Cons p ms)
  obtain k m where p: "p = (k, m)" by (cases p)
  let ?v = "fst (freshIdx es)" and ?s = "snd (freshIdx es)"
  have b: "?v \<notin> refVars ref" "below ref (varCounter ?s)"
    using Cons.prems(1) by (auto simp: below_fresh freshIdx_facts intro: below_mono)
  have "list_all (\<lambda>(k, b). tyB g n E b) (fst (unmarshalMembers g ref ms ?s))"
    using Cons.prems(2) by (intro Cons.IH b(2)) auto
  moreover have "implements g m t" "isTarget g m" "\<not> localName (snd m)" using Cons.prems(2) [of k m] p by simp_all
  ultimately show ?case using r b(1)
    by (auto simp: p Let_def ptrT_def tyRecv_def isPtrTo_def isNamed_def split: prod.split)
qed simp

lemma unmarshalMembers_tags: "map fst (fst (unmarshalMembers g ref ms es)) = map fst ms"
  by (induction ms arbitrary: es) (auto simp: split_beta)

lemma unmarshal_map_typed:
  assumes t: "\<not> isTime t" "underlying t = TMap k e" and free: "\<not> captured t" "\<not> captured k" "\<not> captured e"
    and IH: "typedExpr g n (unmarshalExpr g) k" "typedExpr g n (unmarshalExpr g) e"
    and r: "refType g n E ref = Some t" "below ref (varCounter es)"
  shows "tyB g n E (fst (unmarshalExpr g ref t es))"
proof -
  let ?cnt = "fst (freshIdx es)" and ?s1 = "snd (freshIdx es)"
  let ?iv = "fst (freshIdx ?s1)" and ?s2 = "snd (freshIdx ?s1)"
  let ?kt = "fst (freshIdx ?s2)" and ?s3 = "snd (freshIdx ?s2)"
  let ?vt = "fst (freshIdx ?s3)" and ?s4 = "snd (freshIdx ?s3)"
  let ?kb = "unmarshalExpr g (RVar ?kt) k ?s4"
  let ?vb = "unmarshalExpr g (RVar ?vt) e (snd ?kb)"
  let ?E1 = "E(?cnt \<mapsto> uint64T, ?iv \<mapsto> uint64T)" let ?E = "?E1(?kt \<mapsto> k, ?vt \<mapsto> e)"
  let ?E2 = "declaresB (fst ?kb) ?E" let ?E3 = "declaresB (fst ?vb) ?E2"
  have v: "varNo ?cnt = Suc (varCounter es)" "varNo ?iv = Suc (varNo ?cnt)" "varNo ?kt = Suc (varNo ?iv)"
    "varNo ?vt = Suc (varNo ?kt)" "varCounter ?s4 = varNo ?vt"
    by (simp_all add: freshIdx_facts)
  have m: "varNo ?vt \<le> varCounter (snd ?kb)" using unmarshalExpr_mono [of ?s4 g "RVar ?kt" k] v(5) by simp
  have d: "fresher (varNo ?vt) (decls (fst ?kb))" "fresher (varNo ?vt) (decls (fst ?vb))"
    using unmarshalExpr_decls [of ?s4 g "RVar ?kt" k] unmarshalExpr_decls [of "snd ?kb" g "RVar ?vt" e] v(5) m
    by (auto intro: fresher_mono)
  have ne: "?cnt \<noteq> ?iv" "?kt \<noteq> ?vt" using v by (metis n_not_Suc_n)+
  have old: "?cnt \<notin> refVars ref" "?iv \<notin> refVars ref" "?kt \<notin> refVars ref" "?vt \<notin> refVars ref"
    using v by (simp_all add: below_fresh [OF r(2)])
  have ref: "refType g n ?E ref = Some t" using r(1) old by simp
  have bl: "below ref (varNo ?vt)" using r(2) v by (auto intro: below_mono)
  have var: "declaresB b E' x = E' x" if "fresher (varNo ?vt) (decls b)" "varNo x \<le> varNo ?vt" for b E' x
    using that by (intro declaresB_other) (auto simp: fresher_def)
  have E: "?E ?kt = Some k" "?E2 ?vt = Some e" "?E3 ?kt = Some k" "?E3 ?vt = Some e"
    using ne v var [OF d(1)] var [OF d(2)] by simp_all
  have "tyB g n ?E (fst ?kb)" "tyB g n ?E2 (fst ?vb)"
    using v m E by (auto intro!: typedExpr_D [OF IH(1)] typedExpr_D [OF IH(2)])
  moreover have "refType g n ?E3 ref = Some t"
    using ref bl d by (simp add: refType_declaresB)
  ultimately have "tyB g n ?E1 ([SU (SVar ?kt k), SU (SVar ?vt e)] @ fst ?kb @ fst ?vb @ [SU (SMapSet t ref ?kt ?vt)])"
    using t(2) free E by (simp add: tyB_append)
  then show ?thesis using t free r(1) old ne
    by (simp add: unmarshalExpr.simps [of g ref t es] Let_def split_beta guards_typed nillable_def uint64T_def integral_def kindIn_def intKinds_def)
qed

lemma unmarshal_typed:
  assumes wf: "wfGen g" "plainUnions g"
  shows "compiles t \<Longrightarrow> supported g t = None \<Longrightarrow> typedExpr g n (unmarshalExpr g) t"
proof (induction t rule: measure_induct_rule [where f = size])
  case (less t)
  note u = underlying_size_less [of t] compiles_elems [OF less.prems(1)] supported.simps [of g t]
  have IH: "tyB g n E (fst (unmarshalExpr g ref e es))"
    if "size e < size t" "compiles e" "supported g e = None" "refType g n E ref = Some e" "callable g n E ref e"
      "below ref (varCounter es)" for ref e es E
    using less.IH [OF that(1-3)] that(4-6) by (rule typedExpr_D)
  show ?case unfolding typedExpr_def
  proof (intro allI impI)
    fix ref E and es :: gstate
    assume r: "refType g n E ref = Some t" "callable g n E ref t" "below ref (varCounter es)"
    note c = unmarshalExpr.simps [of g ref t es]
    have b: "fst (freshIdx es) \<notin> refVars ref" "below ref (Suc (varCounter es))"
      "fst (freshIdx (es\<lparr>usedUnsafe := True\<rparr>)) \<notin> refVars ref"
      using r(3) by (auto simp: below_fresh freshIdx_facts intro: below_mono)
    note s = u c b r guards_typed elemOf_def freshIdx_facts nillable_def isBytes_iff byteCount_def tyG_def Let_def split_beta
    show "tyB g n E (fst (unmarshalExpr g ref t es))"
    proof (cases "isTime t")
      case True
      then show ?thesis using r by (simp add: c guards_typed)
    next
      case False
      show ?thesis
      proof (cases "underlying t")
        case (TBasic k)
        then have "supportedBasic k" using less.prems(2) False by (simp add: u split: if_splits)
        then show ?thesis using False TBasic unmarshalBasic_typed [OF r(1) TBasic less.prems(1)] by (simp add: c)
      next
        case (TSlice e)
        then have "assignable bytesT t" if "e = TBasic KUint8"
          using that by (cases "named t") (auto simp: assignable_def bytesT_def named_def)
        then show ?thesis using less.prems False TSlice
          by (auto simp: s bytesT_def intro!: IH indexed)
      next
        case (TMap k e)
        then have "typedExpr g n (unmarshalExpr g) k" "typedExpr g n (unmarshalExpr g) e"
          using less.prems False by (auto simp: u split: option.splits intro!: less.IH)
        then show ?thesis using unmarshal_map_typed [OF False TMap _ _ _ _ _ r(1,3)]
            less.prems(1) compiles_elems(4,5) [OF less.prems(1) TMap] by simp
      next
        case TStruct
        then obtain m w where t: "t = TNamed m w" "isTarget g m" using supported_struct less.prems(2) False by metis
        have "tyRecv g (refType g n E) (addrOf ref) m"
          using addrOf_typed [OF r(1,2) t(1) TStruct False t(2)] .
        then show ?thesis using c False TStruct t(1) by simp
      next
        case TInterface
        have "list_all (\<lambda>(k, b). tyB g n E b) (fst (unmarshalMembers g ref (taggedMembers g t) es))"
          using members_typed [OF wf less.prems(2) False TInterface] r by (intro unmarshalMembers_typed) auto
        moreover have "distinct (0 # map fst (fst (unmarshalMembers g ref (taggedMembers g t) es)))"
          using members_distinct(2) [OF wf(2)] by (simp add: unmarshalMembers_tags)
        ultimately show ?thesis using False TInterface r(1)
          by (simp add: c split_beta guards_typed nillable_def)
      next
        case (TPointer e)
        have "assignable (TPointer e) t"
          using TPointer by (cases "named t") (auto simp: assignable_def named_def)
        then show ?thesis using less.prems False TPointer
          by (auto simp: s pointee_def intro!: IH callable_deref [OF r(1)])
      qed (use less.prems False in \<open>auto simp: s intro!: IH indexed\<close>)
    qed
  qed
qed

subsection \<open>Methods and files\<close>

lemma field_type:
  assumes "wfGen g" "isTarget g n" "fieldsOf g n = Inr fs" "f \<in> set fs"
  shows "refType g n E (RField (fldName f)) = Some (fldTyp f)"
proof -
  obtain x where x: "x \<in> set (structs g n)" "\<not> skipped x" "fldName f = sfName x" "fldTyp f = sfType x"
    using fieldsLoop_Inr [of g n "structs g n" fs] assms(3,4) by (auto simp: fieldsOf_def)
  let ?vs = "map (\<lambda>x. (sfName x, sfType x)) (structs g n)"
  have "(x, (sfName x, sfType x)) \<in> set (zip (structs g n) ?vs)"
    using x(1) by (force simp: set_zip in_set_conv_nth)
  from map_of_field [OF wfGen_fields [OF assms(1,2)] _ this] x(2-4) show ?thesis
    by (simp add: skipped_def comp_def)
qed

lemma fields_typed:
  assumes "\<And>t. compiles t \<Longrightarrow> supported g t = None \<Longrightarrow> typedExpr g n ex t"
  shows "\<forall>f \<in> set fs. supported g (fldTyp f) = None \<and> compiles (fldTyp f)
      \<and> (\<forall>E. refType g n E (RField (fldName f)) = Some (fldTyp f)) \<Longrightarrow> tyB g n E (fst (emitFields ex fs es))"
  by (induction fs arbitrary: E es)
    (auto simp: Let_def split_beta tyB_append simp del: refType.simps intro!: typedExpr_D [OF assms])

text \<open>What the encoded structs and the unions must keep to.\<close>

definition compilable :: "generator \<Rightarrow> bool" where
  "compilable g \<longleftrightarrow> plainUnions g \<and> list_all (\<lambda>n. List.member (owned g) n \<or> methodsFree g n \<and>
     (case fieldsOf g n of Inl e \<Rightarrow> True | Inr fs \<Rightarrow> list_all (\<lambda>f. compiles (fldTyp f)) fs)) (targets g)"

lemma codec_typed:
  assumes wf: "wfGen g" "isTarget g n" "plainUnions g" and fs: "fieldsOf g n = Inr fs" "\<forall>f \<in> set fs. compiles (fldTyp f)"
  shows "tyCodec g n (fst (emitCodec g n fs s))"
proof -
  have f: "\<forall>f \<in> set fs. supported g (fldTyp f) = None \<and> compiles (fldTyp f)
      \<and> (\<forall>E. refType g n E (RField (fldName f)) = Some (fldTyp f))"
    using fields_supported [OF fs(1)] fs(2) field_type [OF wf(1,2) fs(1)] by blast
  note typed = size_typed [OF wf(1,3), where n = n] mart.enc_typed [OF marshal_shape wf(1,3), where n = n]
    appt.enc_typed [OF append_shape wf(1,3), where n = n] unmarshal_typed [OF wf(1,3), where n = n]
  have "tyB g n E (fst (emitFields (sizeExpr g) fs es))" "tyB g n E (fst (emitFields (marshalExpr g) fs es))"
    "tyB g n E (fst (emitFields (appendExpr g) fs es))" "tyB g n E (fst (emitFields (unmarshalExpr g) fs es))" for E es
    using fields_typed [OF typed(1) f] fields_typed [OF typed(2) f] fields_typed [OF typed(3) f]
      fields_typed [OF typed(4) f] by simp_all
  then show ?thesis
    by (simp add: emitCodec_def tyCodec_def tyMethod_def emitBlitSize_def emitBlitMarshal_def emitBlitAppend_def
        emitBlitUnmarshal_def emitSize_def emitMarshal_def emitAppend_def emitUnmarshal_def Let_def split_beta)
qed

lemma generateLoop_typed:
  assumes "wfGen g" "compilable g"
  shows "generateLoop g ns s = Inr (cs, s') \<Longrightarrow> set ns \<subseteq> set (targets g)
    \<Longrightarrow> list_all (\<lambda>(n, c). tyCodec g n c \<and> methodsFree g n) cs"
proof (induction ns arbitrary: s cs)
  case (Cons n ns)
  show ?case
  proof (cases "List.member (owned g) n")
    case False
    obtain fs cs1 where fs: "fieldsOf g n = Inr fs"
      and loop: "generateLoop g ns (snd (emitCodec g n fs s)) = Inr (cs1, s')"
      and cs: "cs = (n, fst (emitCodec g n fs s)) # cs1"
      using Cons.prems False by (auto simp: Let_def split_beta split: sum.splits)
    have n: "n \<in> set (targets g)" using Cons.prems(2) by simp
    then have "(\<forall>f \<in> set fs. compiles (fldTyp f)) \<and> methodsFree g n \<and> plainUnions g"
      using assms(2) False fs by (auto simp: compilable_def list_all_iff)
    then show ?thesis
      using codec_typed [OF assms(1) _ _ fs] Cons.IH [OF loop] Cons.prems(2) n by (simp add: cs isTarget_set)
  qed (use Cons in simp)
qed simp

lemma generate_tyFile:
  assumes "wfGen g" "distinct (targets g)" "compilable g" "generate g s = Inr gf"
  shows "tyFile g gf"
proof -
  obtain cs s' where "generateLoop g (targets g) s = Inr (cs, s')" "gfCodecs gf = cs"
    using assms(4) by (auto simp: generate_def split: sum.splits)
  then show ?thesis using generateLoop_typed [OF assms(1,3)] generate_names [OF assms(4)] assms(2)
    by (simp add: tyFile_def)
qed

end
