(* ===== verification/Imports.thy ===== *)
theory Imports
  imports Scope Package
begin

text \<open>
  The packages the emitted code names, against the imports of the generated file.  The package of
  the codec is always imported and always used (\<open>var _ = codec.UvarintSize\<close>); \<open>time\<close> and
  \<open>unsafe\<close> are imported when the flags that emission sets say so.
\<close>

subsection \<open>Mentioned packages\<close>

text \<open>The qualifiers in the text of a type (\<open>types.TypeString\<close>): a named type is printed with the
  package it comes from, a composite type with those of its parts.\<close>

fun typePkgs :: "gotype \<Rightarrow> string set" where
  "typePkgs (TNamed n u) = {fst n}"
| "typePkgs (TAlias n u) = {fst n}"
| "typePkgs (TSlice e) = typePkgs e"
| "typePkgs (TArray n e) = typePkgs e"
| "typePkgs (TPointer e) = typePkgs e"
| "typePkgs (TMap k e) = typePkgs k \<union> typePkgs e"
| "typePkgs t = {}"

definition timePkg :: string where "timePkg = ''time''"
definition unsafePkg :: string where "unsafePkg = ''unsafe''"

fun iePkgs :: "iexp \<Rightarrow> string set" where
  "iePkgs (ISizeofElem t r) = {unsafePkg}"
| "iePkgs (ISizeof t r) = {unsafePkg}"
| "iePkgs (IUvarintSize e) = iePkgs e"
| "iePkgs (IAdd a b) = iePkgs a \<union> iePkgs b"
| "iePkgs (IMul a b) = iePkgs a \<union> iePkgs b"
| "iePkgs e = {}"

definition srcPkgs :: "bsrc \<Rightarrow> string set" where
  "srcPkgs q = (case q of SrcMem t r e \<Rightarrow> insert unsafePkg (iePkgs e) | _ \<Rightarrow> {})"

definition dePkgs :: "dexp \<Rightarrow> string set" where
  "dePkgs d = (case d of DTime \<Rightarrow> {timePkg} | DByte t \<Rightarrow> typePkgs t | DU16 t \<Rightarrow> typePkgs t
     | DU32 t \<Rightarrow> typePkgs t | DU64 t \<Rightarrow> typePkgs t | _ \<Rightarrow> {})"

definition mPkgs :: "mstmt \<Rightarrow> string set" where
  "mPkgs m = (case m of SPutUvarint e \<Rightarrow> iePkgs e | SCopy q \<Rightarrow> srcPkgs q | _ \<Rightarrow> {})"

definition aPkgs :: "astmt \<Rightarrow> string set" where
  "aPkgs a = (case a of SAppUvarint e \<Rightarrow> iePkgs e | SApp q \<Rightarrow> srcPkgs q | _ \<Rightarrow> {})"

definition gPkgs :: "gstmt \<Rightarrow> string set" where
  "gPkgs x = (case x of SIncE e \<Rightarrow> iePkgs e | _ \<Rightarrow> {})"

definition uPkgs :: "ustmt \<Rightarrow> string set" where
  "uPkgs u = (case u of SAssign r d \<Rightarrow> dePkgs d | SReuseOrMake r t \<Rightarrow> typePkgs t
     | SReuseOrMakeMap r t v \<Rightarrow> typePkgs t | SNewIfNil r t \<Rightarrow> typePkgs t
     | SCopyMem t r e \<Rightarrow> insert unsafePkg (iePkgs e) | SLetInt v e \<Rightarrow> iePkgs e | SVar v t \<Rightarrow> typePkgs t
     | STypeAssert v r m \<Rightarrow> {fst m} | _ \<Rightarrow> {})"

fun pkgs :: "stmt \<Rightarrow> string set" and pkgsB :: "stmt list \<Rightarrow> string set" where
  "pkgs (SAddS e) = iePkgs e"
| "pkgs (SUse x) = {}"
| "pkgs (SM m) = mPkgs m"
| "pkgs (SA a) = aPkgs a"
| "pkgs (SG x) = gPkgs x"
| "pkgs (SU u) = uPkgs u"
| "pkgs (SForIdx iv r b) = pkgsB b"
| "pkgs (SForVal iv r b) = pkgsB b"
| "pkgs (SForN iv n b) = pkgsB b"
| "pkgs (SForMap kv vv r b) = pkgsB b"
| "pkgs (SForCnt iv cnt b) = pkgsB b"
| "pkgs (SIfNotNil r a b) = pkgsB a \<union> pkgsB b"
| "pkgs (SIfTrue r a b) = pkgsB a \<union> pkgsB b"
| "pkgs (SIfNonEmpty r a) = pkgsB a"
| "pkgs (SIfNN0 a b) = pkgsB a \<union> pkgsB b"
| "pkgs (SIfFlag a b) = pkgsB a \<union> pkgsB b"
| "pkgs (STypeSwitch r cs nl msg) = \<Union> (set (map (\<lambda>(m, b). insert (fst m) (pkgsB b)) cs)) \<union> pkgsB nl"
| "pkgs (SSwitchNN cs) = \<Union> (set (map (\<lambda>(k, b). pkgsB b) cs))"
| "pkgsB [] = {}"
| "pkgsB (x # xs) = pkgs x \<union> pkgsB xs"

definition methodPkgs :: "gomethod \<Rightarrow> string set" where
  "methodPkgs m = (case m of MBody b \<Rightarrow> pkgsB b | MBlit n f \<Rightarrow> {unsafePkg})"

definition codecPkgs :: "codec \<Rightarrow> string set" where
  "codecPkgs c = methodPkgs (cSize c) \<union> methodPkgs (cMarshal c) \<union> methodPkgs (cAppend c) \<union> methodPkgs (cUnmarshal c)"

definition filePkgs :: "genfile \<Rightarrow> string set" where
  "filePkgs gf = \<Union> (set (map (codecPkgs \<circ> snd) (gfCodecs gf)))"

definition imported :: "genfile \<Rightarrow> string set" where
  "imported gf = (if gfImportTime gf then {timePkg} else {}) \<union> (if gfImportUnsafe gf then {unsafePkg} else {})"

lemma pkgsB_append [simp]: "pkgsB (a @ b) = pkgsB a \<union> pkgsB b"
  by (induction a) auto

subsection \<open>Emission and the flags\<close>

text \<open>Types that only name the package itself and \<open>time.Time\<close>.\<close>

fun domestic :: "string \<Rightarrow> gotype \<Rightarrow> bool" where
  "domestic p (TNamed n u) = ((isTime (TNamed n u) \<or> fst n = p) \<and> domestic p u)"
| "domestic p (TAlias n u) = (fst n = p \<and> domestic p u)"
| "domestic p (TSlice e) = domestic p e"
| "domestic p (TArray n e) = domestic p e"
| "domestic p (TPointer e) = domestic p e"
| "domestic p (TMap k e) = (domestic p k \<and> domestic p e)"
| "domestic p t = True"

definition flagged :: "string \<Rightarrow> gstate \<Rightarrow> string set" where
  "flagged p s = insert p ((if usedTime s then {timePkg} else {}) \<union> (if usedUnsafe s then {unsafePkg} else {}))"

definition flagsUp :: "gstate \<Rightarrow> gstate \<Rightarrow> bool" where
  "flagsUp s s' \<longleftrightarrow> (usedTime s \<longrightarrow> usedTime s') \<and> (usedUnsafe s \<longrightarrow> usedUnsafe s')"

lemma flagsUp_refl [simp]: "flagsUp s s" by (simp add: flagsUp_def)
lemma flagsUp_trans [trans]: "flagsUp a b \<Longrightarrow> flagsUp b c \<Longrightarrow> flagsUp a c" by (simp add: flagsUp_def)
lemma flagged_mono: "flagsUp s s' \<Longrightarrow> flagged p s \<subseteq> flagged p s'" by (auto simp: flagsUp_def flagged_def)

lemma domestic_underlying: "domestic p t \<Longrightarrow> domestic p (underlying t)"
  by (induction t) auto

lemma domestic_elems:
  "domestic p t \<Longrightarrow> underlying t = TSlice e \<Longrightarrow> domestic p e"
  "domestic p t \<Longrightarrow> underlying t = TArray n e \<Longrightarrow> domestic p e"
  "domestic p t \<Longrightarrow> underlying t = TPointer e \<Longrightarrow> domestic p e"
  "domestic p t \<Longrightarrow> underlying t = TMap k e \<Longrightarrow> domestic p k"
  "domestic p t \<Longrightarrow> underlying t = TMap k e \<Longrightarrow> domestic p e"
  using domestic_underlying [of p t] by auto

text \<open>The members of every union come from the package itself.\<close>

definition homeUnions :: "generator \<Rightarrow> string \<Rightarrow> bool" where
  "homeUnions g p \<longleftrightarrow> (\<forall>(n, ms) \<in> set (unions g). \<forall>m \<in> set ms. fst m = p)"

lemma member_pkg:
  assumes "homeUnions g p" "(k, m) \<in> set (taggedMembers g t)"
  shows "fst m = p"
proof -
  obtain ms where ms: "unionMembersOf g t = Some ms" "(k, m) \<in> set (enumerate 1 ms)"
    using assms(2) by (cases "unionMembersOf g t") (auto simp: taggedMembers_def)
  then have "m \<in> set ms" by (auto simp: in_set_enumerate_eq)
  moreover obtain n where "map_of (unions g) n = Some ms" 
    using ms(1) by (auto simp: unionMembersOf_def split: gotype.splits)
  ultimately show ?thesis using assms(1) map_of_SomeD [of "unions g" n ms] by (force simp: homeUnions_def)
qed

definition flagsOK :: "string \<Rightarrow> gstate \<Rightarrow> block \<times> gstate \<Rightarrow> bool" where
  "flagsOK p s r \<longleftrightarrow> flagsUp s (snd r) \<and> pkgsB (fst r) \<subseteq> flagged p (snd r)"

lemma flagsOK_map:
  assumes "flagsOK p s r1" "flagsOK p (snd r1) r2"
  shows "flagsUp s (snd r2)" "pkgsB (fst r1) \<union> pkgsB (fst r2) \<subseteq> flagged p (snd r2)"
  using assms flagged_mono [of "snd r1" "snd r2" p] by (auto simp: flagsOK_def intro: flagsUp_trans)

lemma fresh_flags [simp]:
  "flagged p (snd (freshIdx s)) = flagged p s" "flagged p (snd (freshVar s)) = flagged p s"
  "flagsUp (snd (freshIdx s)) s' = flagsUp s s'" "flagsUp (snd (freshVar s)) s' = flagsUp s s'"
  "flagsUp s (snd (freshIdx s')) = flagsUp s s'"
  by (simp_all add: freshIdx_def freshVar_def flagged_def flagsUp_def Let_def)

lemma switch_pkgs:
  assumes "homeUnions g p" "\<And>k m. pkgsB (f k m) = {}" "pkgsB nl = {}"
  shows "pkgsB [STypeSwitch r (map (\<lambda>(k, m). (m, f k m)) (taggedMembers g t)) nl msg] \<subseteq> {p}"
  using assms member_pkg [OF assms(1)] by auto

text \<open>\<open>Size\<close>, \<open>Marshal\<close> and \<open>Append\<close> name \<open>unsafe\<close> only where they set its flag, and besides it only
  the members of unions.\<close>

lemma flagged_sets [simp]: "p \<in> flagged p s" "usedTime s \<Longrightarrow> timePkg \<in> flagged p s" "usedUnsafe s \<Longrightarrow> unsafePkg \<in> flagged p s"
  "flagsUp s (s\<lparr>usedTime := True\<rparr>)" "flagsUp s (s\<lparr>usedUnsafe := True\<rparr>)"
  by (simp_all add: flagged_def flagsUp_def)

lemma iePkgs_byteCount [simp]: "iePkgs (byteCount n e) = iePkgs e"
  by (simp add: byteCount_def)

lemma size_flags:
  assumes "homeUnions g p"
  shows "flagsOK p s (sizeExpr g ref t s)"
proof (induction t arbitrary: ref s rule: measure_induct_rule [where f = size])
  case (less t)
  note u = underlying_size_less [of t] sizeExpr.simps [of g ref t s]
  note defs = flagsOK_def Let_def split_beta iePkgs.simps
  show ?case
  proof (cases "underlying t")
    case (TBasic k)
    then show ?thesis by (cases k) (auto simp: u defs sizeBasic_def)
  next
    case (TSlice e)
    then have "size e < size t" by (simp add: u)
    from less.IH [OF this, where ref = "RIdx ref (fst (freshIdx s))" and s = "snd (freshIdx s)"]
      less.IH [OF this, where ref = "RVar (fst (freshVar s))" and s = "snd (freshVar s)"] show ?thesis
      using TSlice by (auto simp: u defs split: option.split)
  next
    case (TArray n e)
    then have "size e < size t" by (simp add: u)
    from less.IH [OF this, where ref = "RIdx ref (fst (freshIdx s))" and s = "snd (freshIdx s)"] show ?thesis
      using TArray by (auto simp: u defs split: option.split)
  next
    case (TPointer e)
    then show ?thesis using less.IH [of e s "RDeref ref"] by (auto simp: u defs)
  next
    case (TMap k e)
    let ?s = "snd (freshVar (snd (freshVar s)))"
    let ?k = "sizeExpr g (RVar (fst (freshVar s))) k ?s"
    have "flagsOK p ?s ?k" "flagsOK p (snd ?k) (sizeExpr g (RVar (fst (freshVar (snd (freshVar s))))) e (snd ?k))"
      using TMap by (auto simp: u intro!: less.IH)
    from flagsOK_map [OF this] show ?thesis using TMap by (auto simp: u defs)
  next
    case TInterface
    then show ?thesis using member_pkg [OF assms] by (auto simp: u defs)
  qed (auto simp: u defs split: gotype.split)
qed

lemma marshal_flags:
  assumes "homeUnions g p"
  shows "flagsOK p s (marshalExpr g ref t s)"
proof (induction t arbitrary: ref s rule: measure_induct_rule [where f = size])
  case (less t)
  note u = underlying_size_less [of t] marshalExpr.simps [of g ref t s]
  note defs = flagsOK_def Let_def split_beta mPkgs_def srcPkgs_def
  show ?case
  proof (cases "underlying t")
    case (TBasic k)
    then show ?thesis by (cases k) (auto simp: u defs marshalBasic_def)
  next
    case (TSlice e)
    then have "size e < size t" by (simp add: u)
    from less.IH [OF this, where ref = "RIdx ref (fst (freshIdx s))" and s = "snd (freshIdx s)"]
      less.IH [OF this, where ref = "RVar (fst (freshVar s))" and s = "snd (freshVar s)"] show ?thesis
      using TSlice by (auto simp: u defs split: option.split)
  next
    case (TArray n e)
    then have "size e < size t" by (simp add: u)
    from less.IH [OF this, where ref = "RIdx ref (fst (freshIdx s))" and s = "snd (freshIdx s)"] show ?thesis
      using TArray by (auto simp: u defs split: option.split)
  next
    case (TPointer e)
    then show ?thesis using less.IH [of e s "RDeref ref"] by (auto simp: u defs)
  next
    case (TMap k e)
    let ?s = "snd (freshVar (snd (freshVar s)))"
    let ?k = "marshalExpr g (RVar (fst (freshVar s))) k ?s"
    have "flagsOK p ?s ?k" "flagsOK p (snd ?k) (marshalExpr g (RVar (fst (freshVar (snd (freshVar s))))) e (snd ?k))"
      using TMap by (auto simp: u intro!: less.IH)
    from flagsOK_map [OF this] show ?thesis using TMap by (auto simp: u defs)
  next
    case TInterface
    then show ?thesis using member_pkg [OF assms] by (auto simp: u defs)
  qed (auto simp: u defs split: gotype.split)
qed

lemma append_flags:
  assumes "homeUnions g p"
  shows "flagsOK p s (appendExpr g ref t s)"
proof (induction t arbitrary: ref s rule: measure_induct_rule [where f = size])
  case (less t)
  note u = underlying_size_less [of t] appendExpr.simps [of g ref t s]
  note defs = flagsOK_def Let_def split_beta aPkgs_def srcPkgs_def
  show ?case
  proof (cases "underlying t")
    case (TBasic k)
    then show ?thesis by (cases k) (auto simp: u defs appendBasic_def)
  next
    case (TSlice e)
    then have "size e < size t" by (simp add: u)
    from less.IH [OF this, where ref = "RIdx ref (fst (freshIdx s))" and s = "snd (freshIdx s)"]
      less.IH [OF this, where ref = "RVar (fst (freshVar s))" and s = "snd (freshVar s)"] show ?thesis
      using TSlice by (auto simp: u defs split: option.split)
  next
    case (TArray n e)
    then have "size e < size t" by (simp add: u)
    from less.IH [OF this, where ref = "RIdx ref (fst (freshIdx s))" and s = "snd (freshIdx s)"] show ?thesis
      using TArray by (auto simp: u defs split: option.split)
  next
    case (TPointer e)
    then show ?thesis using less.IH [of e s "RDeref ref"] by (auto simp: u defs)
  next
    case (TMap k e)
    let ?s = "snd (freshVar (snd (freshVar s)))"
    let ?k = "appendExpr g (RVar (fst (freshVar s))) k ?s"
    have "flagsOK p ?s ?k" "flagsOK p (snd ?k) (appendExpr g (RVar (fst (freshVar (snd (freshVar s))))) e (snd ?k))"
      using TMap by (auto simp: u intro!: less.IH)
    from flagsOK_map [OF this] show ?thesis using TMap by (auto simp: u defs)
  next
    case TInterface
    then show ?thesis using member_pkg [OF assms] by (auto simp: u defs)
  qed (auto simp: u defs split: gotype.split)
qed

text \<open>\<open>Unmarshal\<close> also prints types; those of a domestic type are covered by the flags it sets.\<close>

lemma domestic_mem: "domestic p t \<Longrightarrow> memCopyable t \<Longrightarrow> typePkgs t \<subseteq> {p}"
proof (induction t)
  case (TArray n t)
  then show ?case by (simp add: memCopyable.simps [of "TArray n t"] split: if_splits)
qed (auto simp: memCopyable.simps isTime_def)

lemma domestic_blit: "domestic p t \<Longrightarrow> blitElem g t \<Longrightarrow> typePkgs t \<subseteq> {p}"
  by (auto simp: blitElem_def split: gotype.splits if_splits)

lemma typePkgs_flat: "domestic p t \<Longrightarrow> \<not> isTime t \<Longrightarrow> typePkgs (underlying t) = {} \<Longrightarrow> typePkgs t \<subseteq> flagged p s"
  by (cases t) auto

lemma underlying_literal: "underlying t \<noteq> TNamed n u" "underlying t \<noteq> TAlias n u"
  by (induction t) auto

lemma guards_pkgs [simp]: "pkgsB (guardN g n) = {}" "pkgsB (guardLen g) = {}" "pkgsB (emitVarint g) = {}"
  by (simp_all add: guardN_def guardLen_def emitVarint_def gPkgs_def)

lemma members_flags:
  "(\<And>k m. (k, m) \<in> set ms \<Longrightarrow> fst m = p) \<Longrightarrow>
     flagged p (snd (unmarshalMembers g ref ms s)) = flagged p s \<and> flagsUp s (snd (unmarshalMembers g ref ms s))
     \<and> (\<forall>(k, b) \<in> set (fst (unmarshalMembers g ref ms s)). pkgsB b \<subseteq> {p})"
proof (induction ms arbitrary: s)
  case (Cons x ms)
  obtain k m where x: "x = (k, m)" by (cases x)
  have "fst m = p" using Cons.prems [of k m] x by simp
  then show ?case using Cons.IH [of "snd (freshIdx s)"] Cons.prems x
    by (auto simp: Let_def split_beta uPkgs_def dePkgs_def)
qed simp

text \<open>The parts of a type print what the type prints, unless it has a name.\<close>

definition unmarshalFlags :: "generator \<Rightarrow> string \<Rightarrow> gotype \<Rightarrow> bool" where
  "unmarshalFlags g p t \<longleftrightarrow> (\<forall>ref s. flagsOK p s (unmarshalExpr g ref t s)
     \<and> typePkgs t \<subseteq> flagged p (snd (unmarshalExpr g ref t s)))"

lemma typePkgs_parts:
  assumes "domestic p t" "\<not> isTime t" "p \<in> X"
  shows "underlying t = TSlice e \<Longrightarrow> typePkgs e \<subseteq> X \<Longrightarrow> typePkgs t \<subseteq> X"
    and "underlying t = TArray n e \<Longrightarrow> typePkgs e \<subseteq> X \<Longrightarrow> typePkgs t \<subseteq> X"
    and "underlying t = TPointer e \<Longrightarrow> typePkgs e \<subseteq> X \<Longrightarrow> typePkgs t \<subseteq> X"
    and "underlying t = TMap k e \<Longrightarrow> typePkgs k \<subseteq> X \<Longrightarrow> typePkgs e \<subseteq> X \<Longrightarrow> typePkgs t \<subseteq> X"
  using assms by (cases t; auto)+

text \<open>The elements of a slice or array that is not decoded element by element.\<close>

lemma typePkgs_bulk:
  assumes "domestic p e" "isBytes e \<or> isByteArray e \<or> memCopyable e \<or> blitElem g e"
  shows "typePkgs e \<subseteq> flagged p s"
proof -
  have "isBytes e \<or> isByteArray e \<Longrightarrow> typePkgs e = {}" by (cases e) (simp_all add: isBytes_def isByteArray_def)
  then show ?thesis using assms domestic_mem [OF assms(1)] domestic_blit [OF assms(1), of g] by (auto simp: flagged_def)
qed

lemma unmarshal_flags:
  assumes "homeUnions g p"
  shows "domestic p t \<Longrightarrow> unmarshalFlags g p t"
proof (induction t rule: measure_induct_rule [where f = size])
  case (less t)
  note u = underlying_size_less [of t] domestic_elems [OF less.prems]
  note defs = flagsOK_def Let_def split_beta uPkgs_def dePkgs_def gPkgs_def mPkgs_def
  show ?case
    unfolding unmarshalFlags_def
  proof (intro allI)
    fix ref s
    note c = unmarshalExpr.simps [of g ref t s]
    show "flagsOK p s (unmarshalExpr g ref t s) \<and> typePkgs t \<subseteq> flagged p (snd (unmarshalExpr g ref t s))"
    proof (cases "isTime t")
      case True
      then have "typePkgs t = {timePkg}" by (auto simp: isTime_def timePkg_def split: gotype.splits)
      then show ?thesis using True by (simp add: c defs)
    next
      case False
      note flat = typePkgs_flat [OF less.prems False]
      show ?thesis
      proof (cases "underlying t")
        case (TBasic k)
        then show ?thesis using False flat by (cases k) (simp_all add: c defs unmarshalBasic_def)
      next
        case (TSlice e)
        then have "unmarshalFlags g p e" by (auto simp: u intro!: less.IH)
        then have e: "flagsOK p z (unmarshalExpr g r e z)" "typePkgs e \<subseteq> flagged p (snd (unmarshalExpr g r e z))" for r z
          by (simp_all add: unmarshalFlags_def)
        have "domestic p e" by (rule domestic_elems(1) [OF less.prems TSlice])
        note bulk = typePkgs_bulk [OF this, of g] and parts = typePkgs_parts(1) [OF less.prems False _ TSlice]
        show ?thesis using e [where r = "RIdx ref (fst (freshIdx s))" and z = "snd (freshIdx s)"] False TSlice
          by (simp add: c defs bulk parts)
      next
        case (TArray n e)
        then have "unmarshalFlags g p e" by (auto simp: u intro!: less.IH)
        then have e: "flagsOK p z (unmarshalExpr g r e z)" "typePkgs e \<subseteq> flagged p (snd (unmarshalExpr g r e z))" for r z
          by (simp_all add: unmarshalFlags_def)
        have "domestic p e" by (rule domestic_elems(2) [OF less.prems TArray])
        note bulk = typePkgs_bulk [OF this, of g] and parts = typePkgs_parts(2) [OF less.prems False _ TArray]
        show ?thesis using e [where r = "RIdx ref (fst (freshIdx s))" and z = "snd (freshIdx s)"] False TArray
          by (simp add: c defs bulk parts)
      next
        case (TPointer e)
        then have "unmarshalFlags g p e" by (auto simp: u intro!: less.IH)
        then have e: "flagsOK p z (unmarshalExpr g r e z)" "typePkgs e \<subseteq> flagged p (snd (unmarshalExpr g r e z))" for r z
          by (simp_all add: unmarshalFlags_def)
        show ?thesis using e [where r = "RDeref ref" and z = s] False TPointer typePkgs_parts(3) [OF less.prems False _ TPointer]
          by (simp add: c defs)
      next
        case (TMap k e)
        let ?s = "snd (freshIdx (snd (freshIdx (snd (freshIdx (snd (freshIdx s)))))))"
        let ?kt = "fst (freshIdx (snd (freshIdx (snd (freshIdx s)))))"
        let ?vt = "fst (freshIdx (snd (freshIdx (snd (freshIdx (snd (freshIdx s)))))))"
        let ?k = "unmarshalExpr g (RVar ?kt) k ?s"
        let ?v = "unmarshalExpr g (RVar ?vt) e (snd ?k)"
        have ke: "unmarshalFlags g p k" "unmarshalFlags g p e" using TMap by (auto simp: u intro!: less.IH)
        then have "flagsOK p ?s ?k" "flagsOK p (snd ?k) ?v" by (simp_all add: unmarshalFlags_def)
        note m = flagsOK_map [OF this]
        have "typePkgs k \<subseteq> flagged p (snd ?k)" "typePkgs e \<subseteq> flagged p (snd ?v)" "flagsUp (snd ?k) (snd ?v)"
          using ke by (simp_all add: unmarshalFlags_def flagsOK_def)
        then have "typePkgs k \<subseteq> flagged p (snd ?v)" "typePkgs e \<subseteq> flagged p (snd ?v)" using flagged_mono by blast+
        then show ?thesis using m False TMap typePkgs_parts(4) [OF less.prems False _ TMap] by (simp add: c defs)
      next
        case TInterface
        then show ?thesis using flat members_flags [of "taggedMembers g t" p g ref s] member_pkg [OF assms] False
          by (fastforce simp: c defs)
      next
        case TStruct
        then show ?thesis using False flat by (auto simp: c defs split: gotype.split)
      qed (use flat False in \<open>simp_all add: c defs underlying_literal\<close>)
    qed
  qed
qed

subsection \<open>The import of time is used\<close>

text \<open>\<open>Size\<close>, \<open>Marshal\<close> and \<open>Append\<close> set the flag for \<open>time\<close> without naming the package, but then
  \<open>Unmarshal\<close> names it.\<close>

lemma fixedSize_none: "fixedSize e = None \<Longrightarrow> \<not> memCopyable e \<and> \<not> isBytes e \<and> \<not> isByteArray e"
proof -
  have "fixedSize (TBasic KUint8) = Some 1"
    by (simp add: fixedSize.simps [of "TBasic KUint8"] isTime_def basicFixedSize_def)
  then have "isBytes e \<or> isByteArray e \<Longrightarrow> fixedSize e = Some 1"
    by (cases e) (simp_all add: isBytes_def isByteArray_def)
  then show "fixedSize e = None \<Longrightarrow> \<not> memCopyable e \<and> \<not> isBytes e \<and> \<not> isByteArray e"
    using memCopyable_fixedSize [of e] by auto
qed

lemma fresh_used [simp]: "usedTime (snd (freshIdx s)) = usedTime s" "usedTime (snd (freshVar s)) = usedTime s"
  by (simp_all add: freshIdx_def freshVar_def Let_def)

lemma members_used: "usedTime (snd (unmarshalMembers g ref ms s)) = usedTime s"
  by (induction g ref ms s rule: unmarshalMembers.induct) (auto simp: freshIdx_def Let_def split_beta)

text \<open>The types whose code \<open>Unmarshal\<close> puts inside the code of a type.\<close>

definition parts :: "generator \<Rightarrow> gotype \<Rightarrow> gotype list" where
  "parts g t = (if isTime t then [] else case underlying t of
     TSlice e \<Rightarrow> if looped g e then [e] else []
   | TArray n e \<Rightarrow> if isByteArray e \<or> (\<not> safe g \<and> n > 0 \<and> memCopyable e) \<or> (n > 0 \<and> blitElem g e) then [] else [e]
   | TPointer e \<Rightarrow> [e] | TMap k e \<Rightarrow> [k, e] | _ \<Rightarrow> [])"

lemma parts_size: "e \<in> set (parts g t) \<Longrightarrow> size e < size t"
  using underlying_size_less [of t] by (auto simp: parts_def split: gotype.splits if_splits)

lemma parts_pkgs:
  "e \<in> set (parts g t) \<Longrightarrow> \<forall>r z. q \<in> pkgsB (fst (unmarshalExpr g r e z)) \<Longrightarrow> q \<in> pkgsB (fst (unmarshalExpr g ref t s))"
  by (cases "underlying t")
    (auto simp: parts_def looped_def unmarshalExpr.simps [of g ref t s] Let_def split_beta split: if_splits)

text \<open>An emission function raises the flag for \<open>time\<close> itself or in the code of a part.\<close>

definition raised :: "(ref \<Rightarrow> gotype \<Rightarrow> gstate \<Rightarrow> block \<times> gstate) \<Rightarrow> gotype \<Rightarrow> bool" where
  "raised ex t \<longleftrightarrow> (\<exists>ref s. usedTime (snd (ex ref t s)) \<and> \<not> usedTime s)"

lemma raised_I: "usedTime (snd (ex ref t s)) \<Longrightarrow> usedTime s \<or> raised ex t"
  by (auto simp: raised_def)

definition raises :: "generator \<Rightarrow> (ref \<Rightarrow> gotype \<Rightarrow> gstate \<Rightarrow> block \<times> gstate) \<Rightarrow> bool" where
  "raises g ex \<longleftrightarrow> (\<forall>ref t s. usedTime (snd (ex ref t s)) \<longrightarrow> usedTime s \<or> isTime t \<or> list_ex (raised ex) (parts g t))"

lemma raises_I:
  assumes "\<And>ref t s. usedTime (snd (ex ref t s)) \<Longrightarrow> \<not> isTime t \<Longrightarrow> usedTime s \<or> list_ex (raised ex) (parts g t)"
  shows "raises g ex"
  using assms by (auto simp: raises_def)

lemma raises_emitters:
  "raises g (sizeExpr g)" "raises g (marshalExpr g)" "raises g (appendExpr g)" "raises g (unmarshalExpr g)"
proof -
  have size: "usedTime s \<or> list_ex (raised (sizeExpr g)) (parts g t)"
    if "usedTime (snd (sizeExpr g ref t s))" "\<not> isTime t" for ref t s
    using that by (cases "underlying t")
      (auto simp: parts_def looped_def sizeExpr.simps [of g ref t s] Let_def split_beta fixedSize_none
        dest!: raised_I split: if_splits option.splits gotype.splits)
  have marshal: "usedTime s \<or> list_ex (raised (marshalExpr g)) (parts g t)"
    if "usedTime (snd (marshalExpr g ref t s))" "\<not> isTime t" for ref t s
    using that by (cases "underlying t")
      (auto simp: parts_def looped_def marshalExpr.simps [of g ref t s] Let_def split_beta
        dest!: raised_I split: if_splits gotype.splits)
  have append: "usedTime s \<or> list_ex (raised (appendExpr g)) (parts g t)"
    if "usedTime (snd (appendExpr g ref t s))" "\<not> isTime t" for ref t s
    using that by (cases "underlying t")
      (auto simp: parts_def looped_def appendExpr.simps [of g ref t s] Let_def split_beta
        dest!: raised_I split: if_splits gotype.splits)
  have unmarshal: "usedTime s \<or> list_ex (raised (unmarshalExpr g)) (parts g t)"
    if "usedTime (snd (unmarshalExpr g ref t s))" "\<not> isTime t" for ref t s
    using that by (cases "underlying t")
      (auto simp: parts_def looped_def unmarshalExpr.simps [of g ref t s] Let_def split_beta members_used
        dest!: raised_I split: if_splits gotype.splits)
  show "raises g (sizeExpr g)" "raises g (marshalExpr g)" "raises g (appendExpr g)" "raises g (unmarshalExpr g)"
    by (rule raises_I, erule (1) size marshal append unmarshal)+
qed

lemma raised_named:
  assumes "raises g ex"
  shows "usedTime (snd (ex ref t s)) \<Longrightarrow> usedTime s \<or> timePkg \<in> pkgsB (fst (unmarshalExpr g ref' t s'))"
proof (induction t arbitrary: ref s ref' s' rule: measure_induct_rule [where f = size])
  case (less t)
  consider "usedTime s" | "isTime t" | e r z where "e \<in> set (parts g t)" "usedTime (snd (ex r e z))" "\<not> usedTime z"
    using assms less.prems unfolding raises_def raised_def list_ex_iff by blast
  then show ?case
  proof cases
    case 2
    then show ?thesis by (simp add: unmarshalExpr.simps [of g ref' t s'] uPkgs_def dePkgs_def)
  next
    case 3
    then show ?thesis using less.IH [OF parts_size [OF 3(1)] 3(2)] parts_pkgs [OF 3(1)] by blast
  qed simp
qed

subsection \<open>Methods and files\<close>

definition domesticFields :: "generator \<Rightarrow> bool" where
  "domesticFields g \<longleftrightarrow> list_all (\<lambda>n. List.member (owned g) n \<or>
     (case fieldsOf g n of Inl e \<Rightarrow> True | Inr fs \<Rightarrow> list_all (\<lambda>f. domestic (pkgName g) (fldTyp f)) fs)) (targets g)"

lemma fields_flags:
  assumes "\<And>t ref s. P t \<Longrightarrow> flagsOK p s (ex ref t s)"
  shows "\<forall>f \<in> set fs. P (fldTyp f) \<Longrightarrow> flagsOK p s (emitFields ex fs s)"
proof (induction fs arbitrary: s)
  case Nil
  then show ?case by (simp add: flagsOK_def)
next
  case (Cons f fs)
  let ?a = "ex (RField (fldName f)) (fldTyp f) s"
  have "flagsOK p s ?a" "flagsOK p (snd ?a) (emitFields ex fs (snd ?a))" using assms Cons by simp_all
  from flagsOK_map [OF this] show ?case by (simp add: flagsOK_def Let_def split_beta)
qed

lemma fields_raised:
  assumes "raises g ex"
  shows "usedTime (snd (emitFields ex fs s)) \<Longrightarrow>
    usedTime s \<or> timePkg \<in> pkgsB (fst (emitFields (unmarshalExpr g) fs s'))"
proof (induction fs arbitrary: s s')
  case (Cons f fs)
  have "usedTime (snd (ex (RField (fldName f)) (fldTyp f) s))
      \<or> timePkg \<in> pkgsB (fst (emitFields (unmarshalExpr g) fs z))" for z
    using Cons.IH Cons.prems by (simp add: Let_def split_beta)
  then show ?case using raised_named [OF assms] by (fastforce simp: Let_def split_beta)
qed simp

lemma codec_raised:
  "usedTime (snd (emitCodec g n fs s)) \<Longrightarrow> usedTime s \<or> timePkg \<in> codecPkgs (fst (emitCodec g n fs s))"
proof (cases "\<not> safe g \<and> blittable g n fs")
  case False
  let ?a = "emitFields (sizeExpr g) fs s" let ?b = "emitFields (marshalExpr g) fs (snd ?a)"
  let ?c = "emitFields (appendExpr g) fs (snd ?b)" let ?d = "emitFields (unmarshalExpr g) fs (snd ?c)"
  note raised = raises_emitters [THEN fields_raised, of g, where s' = "snd ?c" and fs = fs]
  have "usedTime s \<or> timePkg \<in> pkgsB (fst ?d)" if "usedTime (snd ?d)"
    using that raised(1) [of s] raised(2) [of "snd ?a"] raised(3) [of "snd ?b"] raised(4) [of "snd ?c"] by blast
  then show "usedTime (snd (emitCodec g n fs s)) \<Longrightarrow> usedTime s \<or> timePkg \<in> codecPkgs (fst (emitCodec g n fs s))"
    using False by (auto simp: emitCodec_def codecPkgs_def methodPkgs_def emitSize_def emitMarshal_def emitAppend_def
        emitUnmarshal_def Let_def split_beta)
qed (simp add: emitCodec_def)

lemma codec_flags:
  assumes "homeUnions g (pkgName g)" "\<forall>f \<in> set fs. domestic (pkgName g) (fldTyp f)"
  shows "flagsUp s (snd (emitCodec g n fs s))"
    and "codecPkgs (fst (emitCodec g n fs s)) \<subseteq> flagged (pkgName g) (snd (emitCodec g n fs s))"
proof -
  let ?p = "pkgName g"
  let ?a = "emitFields (sizeExpr g) fs s" let ?b = "emitFields (marshalExpr g) fs (snd ?a)"
  let ?c = "emitFields (appendExpr g) fs (snd ?b)" let ?d = "emitFields (unmarshalExpr g) fs (snd ?c)"
  have fl: "flagsOK ?p z (emitFields (sizeExpr g) fs z)" "flagsOK ?p z (emitFields (marshalExpr g) fs z)"
    "flagsOK ?p z (emitFields (appendExpr g) fs z)" for z
    using size_flags marshal_flags append_flags assms(1)
    by (auto intro!: fields_flags [where P = "\<lambda>t. True"])
  have "flagsOK ?p (snd ?c) ?d"
    using unmarshal_flags [OF assms(1)]
    by (intro fields_flags [where P = "domestic ?p", OF _ assms(2)]) (simp add: unmarshalFlags_def)
  then have m: "flagsUp s (snd ?a)" "flagsUp (snd ?a) (snd ?b)" "flagsUp (snd ?b) (snd ?c)" "flagsUp (snd ?c) (snd ?d)"
    and k: "pkgsB (fst ?a) \<subseteq> flagged ?p (snd ?a)" "pkgsB (fst ?b) \<subseteq> flagged ?p (snd ?b)"
      "pkgsB (fst ?c) \<subseteq> flagged ?p (snd ?c)" "pkgsB (fst ?d) \<subseteq> flagged ?p (snd ?d)"
    using fl by (simp_all add: flagsOK_def)
  have c: "flagged ?p (snd ?c) \<subseteq> flagged ?p (snd ?d)" using m(4) by (rule flagged_mono)
  have b: "flagged ?p (snd ?b) \<subseteq> flagged ?p (snd ?d)" using flagged_mono [OF m(3)] c by (rule subset_trans)
  have "flagged ?p (snd ?a) \<subseteq> flagged ?p (snd ?d)" using flagged_mono [OF m(2)] b by (rule subset_trans)
  then have all: "pkgsB (fst ?a) \<union> pkgsB (fst ?b) \<union> pkgsB (fst ?c) \<union> pkgsB (fst ?d) \<subseteq> flagged ?p (snd ?d)"
    using k b c by blast
  have "flagsUp s (snd ?d)" using m flagsUp_trans by blast
  then show "flagsUp s (snd (emitCodec g n fs s))"
    "codecPkgs (fst (emitCodec g n fs s)) \<subseteq> flagged ?p (snd (emitCodec g n fs s))"
    using all by (auto simp: emitCodec_def codecPkgs_def methodPkgs_def emitSize_def emitMarshal_def emitAppend_def
        emitUnmarshal_def emitBlitSize_def emitBlitMarshal_def emitBlitAppend_def emitBlitUnmarshal_def
        Let_def split_beta)
qed

lemma generateLoop_raised:
  "generateLoop g ns s = Inr (cs, s') \<Longrightarrow> usedTime s' \<Longrightarrow>
     usedTime s \<or> timePkg \<in> \<Union> (set (map (codecPkgs \<circ> snd) cs))"
proof (induction ns arbitrary: s cs)
  case (Cons n ns)
  show ?case
  proof (cases "List.member (owned g) n")
    case False
    obtain fs cs1 where loop: "generateLoop g ns (snd (emitCodec g n fs s)) = Inr (cs1, s')"
      and cs: "cs = (n, fst (emitCodec g n fs s)) # cs1"
      using Cons.prems(1) False by (auto simp: Let_def split_beta split: sum.splits)
    show ?thesis
      using Cons.IH [OF loop Cons.prems(2)] codec_raised [of g n fs s] by (auto simp: cs)
  qed (use Cons in simp)
qed simp

lemma generateLoop_flags:
  assumes "homeUnions g (pkgName g)" "domesticFields g"
  shows "generateLoop g ns s = Inr (cs, s') \<Longrightarrow> set ns \<subseteq> set (targets g) \<Longrightarrow>
    flagsUp s s' \<and> \<Union> (set (map (codecPkgs \<circ> snd) cs)) \<subseteq> flagged (pkgName g) s'"
proof (induction ns arbitrary: s cs)
  case (Cons n ns)
  show ?case
  proof (cases "List.member (owned g) n")
    case False
    obtain fs cs1 where fs: "fieldsOf g n = Inr fs"
      and loop: "generateLoop g ns (snd (emitCodec g n fs s)) = Inr (cs1, s')"
      and cs: "cs = (n, fst (emitCodec g n fs s)) # cs1"
      using Cons.prems(1) False by (auto simp: Let_def split_beta split: sum.splits)
    have "\<forall>f \<in> set fs. domestic (pkgName g) (fldTyp f)"
      using assms(2) False fs Cons.prems(2) by (auto simp: domesticFields_def list_all_iff)
    note c = codec_flags [OF assms(1) this, where s = s and n = n]
    have l: "flagsUp (snd (emitCodec g n fs s)) s'"
      "\<Union> (set (map (codecPkgs \<circ> snd) cs1)) \<subseteq> flagged (pkgName g) s'"
      using Cons.IH [OF loop] Cons.prems(2) by simp_all
    have "codecPkgs (fst (emitCodec g n fs s)) \<subseteq> flagged (pkgName g) s'"
      using c(2) flagged_mono [OF l(1)] by (rule subset_trans)
    then show ?thesis using flagsUp_trans [OF c(1) l(1)] l(2) by (simp add: cs)
  qed (use Cons in simp)
qed simp

lemma generate_imports:
  assumes "generate g emit0 = Inr gf"
  shows "gfImportTime gf \<Longrightarrow> timePkg \<in> filePkgs gf"
    and "homeUnions g (pkgName g) \<Longrightarrow> domesticFields g \<Longrightarrow> filePkgs gf \<subseteq> insert (pkgName g) (imported gf)"
proof -
  obtain cs s' where g: "generateLoop g (targets g) emit0 = Inr (cs, s')" "gfCodecs gf = cs"
      "gfImportTime gf = usedTime s'" "gfImportUnsafe gf = usedUnsafe s'"
    using assms by (auto simp: generate_def split: sum.splits)
  show "gfImportTime gf \<Longrightarrow> timePkg \<in> filePkgs gf"
    using generateLoop_raised [OF g(1)] by (simp add: filePkgs_def g emit0_def)
  show "homeUnions g (pkgName g) \<Longrightarrow> domesticFields g \<Longrightarrow> filePkgs gf \<subseteq> insert (pkgName g) (imported gf)"
    using generateLoop_flags [OF _ _ g(1)] by (simp add: filePkgs_def g imported_def flagged_def)
qed

end
