(* ===== verification/StaticProps.thy ===== *)
theory StaticProps
  imports RunProps Typing Imports GoText
begin

text \<open>
  What a run promises the Go compiler: the file it writes obeys the declaration rules, type-checks
  and imports what it names.
\<close>

lemma run_loaded:
  assumes "rFile (run w args) = Some (d, out, gf)" "parseFlags (tl args) defaultFlags = Inr f"
  obtains g where "load w d out (codecPkgPath w) (fSafe f) = Inr g" "generate g emit0 = Inr gf"
  using run_cases [OF assms(1)] assms(2) by auto

lemma load_inhabited:
  assumes "load w dir out path sf = Inr g" "checker w"
  shows "inhabited g" and "homeUnions g (pkgName g)"
proof -
  obtain fs tp where "loaded w dir out g fs tp" and t: "\<And>n. n \<in> set (targets g) \<Longrightarrow> fst n = pkgName g"
    and u: "\<And>u. u \<in> set (unions g) \<Longrightarrow> snd u \<noteq> [] \<and> (\<forall>m \<in> set (snd u). isTarget g m \<and> tpImplements tp m (fst u))"
    using load_facts [OF assms] by metis
  then show "inhabited g" "homeUnions g (pkgName g)"
    unfolding inhabited_def homeUnions_def isTarget_set by fastforce+
qed


text \<open>C13: every file a run writes obeys Go's declaration rules: in every method each temporary is
  declared before it is mentioned and within the block that declares it, none shadows another, each
  one (the \<open>v\<close> of a type switch included) is used.  In the text no two temporaries of the file have the
  same name, and none is named like a fixed local of the methods, a package or predeclared name they
  use, or a keyword.\<close>

theorem run_scopes:
  assumes "rFile (run w args) = Some (d, out, gf)" and "checker w"
  shows "okFile gf \<and> distinct (map varText (fileBinders gf))
    \<and> set (map varText (fileBinders gf)) \<inter> set fixedNames = {}"
proof -
  obtain f :: flags and g where "load w d out (codecPkgPath w) (fSafe f) = Inr g" "generate g emit0 = Inr gf"
    by (rule run_cases [OF assms(1)]) (blast intro: that)
  then have "okFile gf" using load_inhabited(1) assms(2) generate_okFile by metis
  then show ?thesis using temp_not_fixed by (auto simp: okFile_def)
qed

theorem run_scopes_witness:
  "\<exists>gf. rFile (run shapesWorld [''goserdegen'', ''-safe'']) = Some (''.'', ''goserde_gen.go'', gf) \<and> okFile gf"
  using shapes_run run_scopes [OF _ shapes_checker] by blast


lemma shapes_args:
  "parseFlags (tl [''goserdegen'', ''-safe'']) defaultFlags = Inr (defaultFlags\<lparr>fSafe := True\<rparr>)"
  "load shapesWorld ''.'' ''goserde_gen.go'' (codecPkgPath shapesWorld) True = Inr (shapesGen True)"
  "pkgName (shapesGen True) \<noteq> ''time''"
proof -
  show "parseFlags (tl [''goserdegen'', ''-safe'']) defaultFlags = Inr (defaultFlags\<lparr>fSafe := True\<rparr>)"
    by code_simp
  show "load shapesWorld ''.'' ''goserde_gen.go'' (codecPkgPath shapesWorld) True = Inr (shapesGen True)"
    using shapes_load [of True] by (simp add: codecPkgPath_def shapesWorld_def)
qed (simp add: shapesGen_def)

lemma shapes_compilable: "compilable (shapesGen True)" "domesticFields (shapesGen True)"
  by code_simp+


text \<open>C14: the imports of a written file are the packages it needs: \<open>time\<close> is imported only if the
  file names it, and when the encoded fields use no named type of another package but
  \<open>time.Time\<close>, every package the code names is imported.\<close>

theorem run_imports:
  assumes "rFile (run w args) = Some (d, out, gf)" and "checker w"
    and "parseFlags (tl args) defaultFlags = Inr f"
  shows "\<exists>g. load w d out (codecPkgPath w) (fSafe f) = Inr g
     \<and> (gfImportTime gf \<longrightarrow> timePkg \<in> filePkgs gf)
     \<and> (domesticFields g \<longrightarrow> filePkgs gf \<subseteq> insert (pkgName g) (imported gf))"
proof -
  obtain g where "load w d out (codecPkgPath w) (fSafe f) = Inr g" "generate g emit0 = Inr gf"
    by (rule run_loaded [OF assms(1,3)])
  then show ?thesis using load_inhabited(2) assms(2) generate_imports by metis
qed

theorem run_imports_witness:
  "\<exists>gf. rFile (run shapesWorld [''goserdegen'', ''-safe'']) = Some (''.'', ''goserde_gen.go'', gf)
     \<and> filePkgs gf \<subseteq> {pkgName (shapesGen True)} \<union> imported gf"
proof -
  obtain gf where gf: "rFile (run shapesWorld [''goserdegen'', ''-safe'']) = Some (''.'', ''goserde_gen.go'', gf)"
    using shapes_run by blast
  from run_imports [OF gf shapes_checker shapes_args(1)]
  have "filePkgs gf \<subseteq> {pkgName (shapesGen True)} \<union> imported gf"
    using shapes_args(2) shapes_compilable(2) by auto
  then show ?thesis using gf by blast
qed

end
