(* ===== verification/Findings.thy ===== *)
theory Findings
  imports Reencode CommandProps CodecProps Typing GoText
begin

text \<open>
  Inputs on which the program does something else than its comments or its README say, each
  evaluated on the model: the counts of empty elements that safe mode rejects, the errors that fast
  mode drops, an import that is missing, what fast mode reads behind a slice, packages for which the
  generated file does not compile, and directives that are read loosely.
\<close>

subsection \<open>A package of corner cases\<close>

definition pn :: "string \<Rightarrow> tname" where "pn s = (''p'', s)"

definition tDuration :: gotype where
  "tDuration = TNamed (''time'', ''Duration'') (TBasic KInt64)"

definition corner :: "(string \<times> sfield list) list" where
  "corner =
     [(''Bulk'', [fld ''Vs'' (TSlice (TBasic KUint16))]), (''Empty'', []),
      (''Holder'', [fld ''Es'' (TSlice (TNamed (pn ''Empty'') TStruct))]),
      (''Leaf'', [fld ''U'' (TNamed (pn ''Any'') TInterface)]),
      (''Outer'', [fld ''L'' (TNamed (pn ''Leaf'') TStruct), fld ''N'' (TBasic KUint8)]),
      (''Timer'', [fld ''Name'' (TBasic KString), fld ''D'' tDuration])]"

definition cornerGen :: "bool \<Rightarrow> generator" where
  "cornerGen sf = \<lparr>pkgName = ''p'', codecPkg = defaultCodecPkg, codecQual = ''codec'', safe = sf, pkg = ''p'',
     targets = map (\<lambda>(s, _). pn s) corner, owned = [], unions = [(pn ''Any'', [pn ''Empty''])],
     structs = (\<lambda>n. case map_of corner (snd n) of Some fs \<Rightarrow> fs | None \<Rightarrow> [])\<rparr>"

definition cornerCtx :: "bool \<Rightarrow> ctx" where
  "cornerCtx sf = \<lparr>cGen = cornerGen sf, cArch = amd64, cGrow = (\<lambda>n. n), cDepth = 4\<rparr>"

text \<open>The methods of the file that \<open>generate\<close> returns.\<close>

definition cornerMethods :: "bool \<Rightarrow> menv" where
  "cornerMethods sf = (case generate (cornerGen sf) emit0 of
     Inl e \<Rightarrow> noFuelEnv | Inr gf \<Rightarrow> methods (cornerCtx sf) (map_of (gfCodecs gf)) noFuelEnv 2)"

definition holder3 :: val where
  "holder3 = VStruct [(''Es'', VSlice Own [VStruct [], VStruct [], VStruct []] [])]"

definition outer0 :: "byte \<Rightarrow> val" where
  "outer0 b = VStruct [(''L'', VStruct [(''U'', VNilIface)]), (''N'', V8 b)]"

subsection \<open>What the generated code does\<close>

lemma empty_elements_rejected:
  "mMarshal (cornerMethods True) (pn ''Holder'') holder3 [0] = Ok ([3], 1)
   \<and> mUnmarshal (cornerMethods True) (pn ''Holder'') holder3 [3] [] 0 = Ok (holder3, 1, Some ErrShortBuffer)"
  by code_simp

lemma nested_error_dropped:
  "mUnmarshal (cornerMethods False) (pn ''Leaf'') (VStruct [(''U'', VNilIface)]) [7, 9] [] 0
     = Ok (VStruct [(''U'', VNilIface)], 1, Some ErrUnknownUnionTag)
   \<and> mUnmarshal (cornerMethods False) (pn ''Outer'') (outer0 0) [7, 9] [] 0 = Ok (outer0 9, 2, None)"
  by code_simp

lemma capacity_read:
  "mUnmarshal (cornerMethods False) (pn ''Bulk'') (VStruct [(''Vs'', VNilSlice)]) [1] [5, 0] 0
     = Ok (VStruct [(''Vs'', VSlice Own [V16 5] [])], 3, None)"
  by code_simp

lemma duration_not_imported:
  "case generate (cornerGen False) emit0 of Inl e \<Rightarrow> False
   | Inr gf \<Rightarrow> \<not> gfImportTime gf \<and> map_option cUnmarshal (map_of (gfCodecs gf) (pn ''Timer''))
       = Some (MBody (emitVarint (cornerGen False) @
           [SU (SAssign (RField ''Name'') DStrAlias), SG (SIncE IIntNN),
            SU (SAssign (RField ''D'') (DU64 tDuration)), SM (SIncI 8)]))"
  by code_simp

text \<open>The hand-written \<open>Record\<close> and the codec generated for the same struct on an empty blob.\<close>

definition record0 :: Record where
  "record0 = \<lparr>ID = 0, Score = 0, Active = False, Name = \<lparr>vorg = Own, vdat = []\<rparr>, Tags = NilS, Blob = NilS\<rparr>"

lemma record_empty_blob:
  "case Record_Unmarshal amd64 record0 (replicate 20 0) [] 0 of
     Ok (r, j, e) \<Rightarrow> Blob r = Sl (Input 20) [] [] \<and> j = 20 \<and> e = None | _ \<Rightarrow> False"
  by code_simp

lemma generated_empty_blob:
  "fst (unmarshalExpr (cornerGen False) (RField ''Blob'') (TSlice (TBasic KUint8)) emit0)
     = emitVarint (cornerGen False) @ [SIfNN0 [SU (SAssign (RField ''Blob'') (DNil (TSlice (TBasic KUint8))))]
         [SU (SAssign (RField ''Blob'') DBytesAlias), SG (SIncE IIntNN)]]"
  by code_simp

subsection \<open>What does not compile\<close>

text \<open>An unexported struct \<open>b\<close>: in the text of \<open>Unmarshal\<close>, \<open>new(b)\<close> names the parameter.\<close>

definition capturedGen :: generator where
  "capturedGen = \<lparr>pkgName = ''p'', codecPkg = defaultCodecPkg, codecQual = ''codec'', safe = False, pkg = ''p'',
     targets = [pn ''Node'', pn ''b''], owned = [], unions = [],
     structs = (\<lambda>n. if snd n = ''Node'' then [fld ''P'' (TPointer (TNamed (pn ''b'') TStruct))]
       else [fld ''X'' (TBasic KInt32)])\<rparr>"

lemma captured_name:
  "case generate capturedGen emit0 of Inl e \<Rightarrow> False
   | Inr gf \<Rightarrow> (case map_of (gfCodecs gf) (pn ''Node'') of None \<Rightarrow> False
       | Some c \<Rightarrow> \<not> tyCodec capturedGen (pn ''Node'') c \<and> take 11 (drop 2 (unmarshalText capturedGen (relativeTo id capturedGen) ''Node'' (cUnmarshal c)))
           = [''func (r *Node) Unmarshal(b []byte) (int, error) {'', ''i := 0'', ''var nn uint64'', ''var cc int'',
              ''_ = nn'', ''_ = cc'', ''if b[i] != 0 {'', ''i++'', ''if r.P == nil {'', ''r.P = new(b)'', ''}''])"
  by code_simp

text \<open>Fields of a defined string, float and pointer type; a field named like a method of the codec;
  a union that lists a member twice.\<close>

definition uncompiled :: "(string \<times> sfield list) list" where
  "uncompiled =
     [(''Degrees'', [fld ''T'' (TNamed (pn ''Celsius'') (TBasic KFloat64))]),
      (''Entry'', [fld ''K'' (TNamed (pn ''Key'') (TBasic KString))]),
      (''File'', [fld ''Size'' (TBasic KInt64)]),
      (''Link'', [fld ''To'' (TNamed (pn ''Ref'') (TPointer (TNamed (pn ''File'') TStruct)))]),
      (''Named'', [fld ''K'' (TBasic KString), fld ''T'' (TBasic KFloat64),
         fld ''To'' (TPointer (TNamed (pn ''File'') TStruct))])]"

definition uncompiledGen :: "bool \<Rightarrow> generator" where
  "uncompiledGen sf = \<lparr>pkgName = ''p'', codecPkg = defaultCodecPkg, codecQual = ''codec'', safe = sf, pkg = ''p'',
     targets = map (\<lambda>(s, _). pn s) uncompiled, owned = [], unions = [],
     structs = (\<lambda>n. case map_of uncompiled (snd n) of Some fs \<Rightarrow> fs | None \<Rightarrow> [])\<rparr>"

lemma defined_types_untyped:
  "\<forall>sf \<in> {True, False}. case generate (uncompiledGen sf) emit0 of Inl e \<Rightarrow> False
   | Inr gf \<Rightarrow> map (snd \<circ> fst) (filter (\<lambda>(n, c). \<not> tyCodec (uncompiledGen sf) n c) (gfCodecs gf))
       = (if sf then [''Degrees''] else []) @ [''Entry'', ''Link'']"
  by code_simp

lemma field_like_method:
  "case generate (uncompiledGen True) emit0 of Inl e \<Rightarrow> False
   | Inr gf \<Rightarrow> map_of (gfCodecs gf) (pn ''File'') \<noteq> None
       \<and> \<not> methodsFree (uncompiledGen True) (pn ''File'')"
  by code_simp

lemma repeated_member:
  "resolveUnion (shapesGen True) shapesPkg (''Geometry'', [''Circle'', ''Circle''])
     = Inr (nm ''Geometry'', [nm ''Circle'', nm ''Circle''])
   \<and> \<not> plainUnions ((shapesGen True)\<lparr>unions := [(nm ''Geometry'', [nm ''Circle'', nm ''Circle''])]\<rparr>)
   \<and> (let g = (shapesGen True)\<lparr>unions := [(nm ''Geometry'', [nm ''Circle'', nm ''Circle''])]\<rparr> in
      case fst (sizeExpr g (RField ''G'') (TNamed (nm ''Geometry'') TInterface) emit0) of
        [STypeSwitch r cs nl msg] \<Rightarrow> map fst cs = [nm ''Circle'', nm ''Circle''] | _ \<Rightarrow> False)"
  by code_simp

subsection \<open>What the loader accepts\<close>

text \<open>Names of files that ordinary builds leave out.\<close>

lemma out_not_built:
  "\<forall>out \<in> {''_gen.go'', ''.gen.go'', ''gen_windows.go''}. validateOut out = None"
  by code_simp

lemma directive_prefix:
  "unionMembers (Some [''//goserde:unionShape Circle Square'']) = Some [''Shape'', ''Circle'', ''Square'']"
  by code_simp

lemma marker_substring:
  "commentHasMarker (Some [''// Do not use goserde:generate on this type.''])"
  by code_simp

end
