(* ===== verification/Example.thy ===== *)
theory Example
  imports Shapes
begin

text \<open>
  The example package: the declarations of \<open>example/example.go\<close> and, method by method, the
  checked-in output \<open>example/goserde_gen.go\<close>.
\<close>

subsection \<open>The declarations\<close>

definition exn :: "string \<Rightarrow> tname" where
  "exn s = (''example'', s)"

definition User :: "sfield list" where
  "User = [fld ''ID'' (TBasic KUint64), fld ''Age'' (TBasic KUint16), fld ''Height'' (TBasic KFloat32),
     fld ''Verified'' (TBasic KBool), fld ''Name'' (TBasic KString), fld ''Nicks'' (TSlice (TBasic KString)),
     fld ''Scores'' (TSlice (TBasic KInt32)), fld ''Avatar'' (TSlice (TBasic KUint8))]"

definition Point :: "sfield list" where
  "Point = [fld ''X'' (TBasic KInt32), fld ''Y'' (TBasic KInt32), fld ''Z'' (TBasic KInt32)]"

subsection \<open>The checked-in codecs\<close>

definition Point_Size :: gomethod where "Point_Size = MBlit (exn ''Point'') False"
definition Point_Marshal :: gomethod where "Point_Marshal = MBlit (exn ''Point'') False"
definition Point_Append :: gomethod where "Point_Append = MBlit (exn ''Point'') False"
definition Point_Unmarshal :: gomethod where "Point_Unmarshal = MBlit (exn ''Point'') False"

definition User_Size :: gomethod where
  "User_Size = MBody
     [SAddS (INum 8), SAddS (INum 2), SAddS (INum 4), SAddS (INum 1),
      SAddS (IAdd (IUvarintSize (ILen (RField ''Name''))) (ILen (RField ''Name''))),
      SAddS (IUvarintSize (ILen (RField ''Nicks''))),
      SForVal (VE 1) (RField ''Nicks'')
        [SAddS (IAdd (IUvarintSize (ILen (RVar (VE 1)))) (ILen (RVar (VE 1))))],
      SAddS (IUvarintSize (ILen (RField ''Scores''))),
      SAddS (IMul (INum 4) (ILen (RField ''Scores''))),
      SAddS (IUvarintSize (ILen (RField ''Avatar''))),
      SAddS (ILen (RField ''Avatar''))]"

definition User_Marshal :: gomethod where
  "User_Marshal = MBody
     [SM (SPut64 (WConv (RField ''ID''))), SM (SIncI 8),
      SM (SPut16 (WConv (RField ''Age''))), SM (SIncI 2),
      SM (SPut32 (WF32bits (RField ''Height''))), SM (SIncI 4),
      SIfTrue (RField ''Verified'') [SM (SSetByte (BNum 1))] [SM (SSetByte (BNum 0))],
      SM (SIncI 1),
      SM (SPutUvarint (ILen (RField ''Name''))), SM (SCopy (SrcStr (RField ''Name''))),
      SM (SPutUvarint (ILen (RField ''Nicks''))),
      SForVal (VE 2) (RField ''Nicks'')
        [SM (SPutUvarint (ILen (RVar (VE 2)))), SM (SCopy (SrcStr (RVar (VE 2))))],
      SM (SPutUvarint (ILen (RField ''Scores''))),
      SIfNonEmpty (RField ''Scores'')
        [SM (SCopy (SrcMem (TBasic KInt32) (RField ''Scores'') (IMul (INum 4) (ILen (RField ''Scores'')))))],
      SM (SPutUvarint (ILen (RField ''Avatar''))), SM (SCopy (SrcBytes (RField ''Avatar'')))]"

definition User_Append :: gomethod where
  "User_Append = MBody
     [SA (SApp64 (WConv (RField ''ID''))),
      SA (SApp16 (WConv (RField ''Age''))),
      SA (SApp32 (WF32bits (RField ''Height''))),
      SIfTrue (RField ''Verified'') [SA (SAppByte (BNum 1))] [SA (SAppByte (BNum 0))],
      SA (SAppUvarint (ILen (RField ''Name''))), SA (SApp (SrcStr (RField ''Name''))),
      SA (SAppUvarint (ILen (RField ''Nicks''))),
      SForVal (VE 3) (RField ''Nicks'')
        [SA (SAppUvarint (ILen (RVar (VE 3)))), SA (SApp (SrcStr (RVar (VE 3))))],
      SA (SAppUvarint (ILen (RField ''Scores''))),
      SIfNonEmpty (RField ''Scores'')
        [SA (SApp (SrcMem (TBasic KInt32) (RField ''Scores'') (IMul (INum 4) (ILen (RField ''Scores'')))))],
      SA (SAppUvarint (ILen (RField ''Avatar''))), SA (SApp (SrcBytes (RField ''Avatar'')))]"

definition User_Unmarshal :: gomethod where
  "User_Unmarshal = MBody
     [SU (SAssign (RField ''ID'') (DU64 (TBasic KUint64))), SM (SIncI 8),
      SU (SAssign (RField ''Age'') (DU16 (TBasic KUint16))), SM (SIncI 2),
      SU (SAssign (RField ''Height'') DF32), SM (SIncI 4),
      SU (SAssign (RField ''Verified'') DBool), SM (SIncI 1),
      SG SUvarint, SG SIncCC,
      SU (SAssign (RField ''Name'') DStrAlias), SG (SIncE IIntNN),
      SG SUvarint, SG SIncCC,
      SIfNN0 [SU (SAssign (RField ''Nicks'') (DNil (TSlice (TBasic KString))))]
        [SU (SReuseOrMake (RField ''Nicks'') (TSlice (TBasic KString))),
         SForIdx (VJ 4) (RField ''Nicks'')
           [SG SUvarint, SG SIncCC,
            SU (SAssign (RIdx (RField ''Nicks'') (VJ 4)) DStrAlias), SG (SIncE IIntNN)]],
      SG SUvarint, SG SIncCC,
      SIfNN0 [SU (SAssign (RField ''Scores'') (DNil (TSlice (TBasic KInt32))))]
        [SU (SReuseOrMake (RField ''Scores'') (TSlice (TBasic KInt32))),
         SU (SCopyMem (TBasic KInt32) (RField ''Scores'') (IMul (INum 4) IIntNN)),
         SG (SIncE (IMul (INum 4) IIntNN))],
      SG SUvarint, SG SIncCC,
      SIfNN0 [SU (SAssign (RField ''Avatar'') (DNil (TSlice (TBasic KUint8))))]
        [SU (SAssign (RField ''Avatar'') DBytesAlias), SG (SIncE IIntNN)]]"

definition goserde_gen :: genfile where
  "goserde_gen = \<lparr>gfPackage = ''example'', gfCodecPkg = ''github.com/tochemey/goserde/codec'',
     gfImportTime = False, gfImportUnsafe = True,
     gfCodecs =
       [(exn ''Point'', \<lparr>cSize = Point_Size, cMarshal = Point_Marshal, cAppend = Point_Append,
           cUnmarshal = Point_Unmarshal\<rparr>),
        (exn ''User'', \<lparr>cSize = User_Size, cMarshal = User_Marshal, cAppend = User_Append,
           cUnmarshal = User_Unmarshal\<rparr>)]\<rparr>"

end
