(* ===== verification/SafeShapes.thy ===== *)
theory SafeShapes
  imports Shapes
begin

text \<open>
  The package \<open>test/data/safeshapes\<close>: the declarations of \<open>types.go\<close> and, method by method, the
  checked-in output \<open>goserde_gen.go\<close>, which was generated with \<open>-safe\<close>.
\<close>

subsection \<open>The declarations\<close>

definition sfn :: "string \<Rightarrow> tname" where "sfn s = (''safeshapes'', s)"
definition sfStruct :: "string \<Rightarrow> gotype" where "sfStruct s = TNamed (sfn s) TStruct"
definition tSignal :: gotype where "tSignal = TNamed (sfn ''Signal'') TInterface"

definition sfFixed :: "sfield list" where
  "sfFixed =
     [fld ''X'' (TBasic KInt32), fld ''Y'' (TBasic KInt32), fld ''Z'' (TBasic KInt32)]"

definition sfInner :: "sfield list" where
  "sfInner =
     [fld ''A'' (TBasic KUint16), fld ''B'' (TBasic KString)]"

definition sfArrays :: "sfield list" where
  "sfArrays =
     [fld ''Hash'' (TArray 16 (TBasic KUint8)), fld ''Quad'' (TArray 4 (TBasic KInt32)),
      fld ''Tags'' (TArray 2 (TBasic KString))]"

definition sfAll :: "sfield list" where
  "sfAll =
     [fld ''Flag'' (TBasic KBool), fld ''N8'' (TBasic KInt8), fld ''N16'' (TBasic KUint16),
      fld ''N32'' (TBasic KInt32), fld ''N64'' (TBasic KUint64), fld ''F32'' (TBasic KFloat32),
      fld ''F64'' (TBasic KFloat64), fld ''Name'' (TBasic KString),
      fld ''Blob'' (TSlice (TBasic KUint8)), fld ''Tags'' (TSlice (TBasic KString)),
      fld ''Nums'' (TSlice (TBasic KInt32)),
      fld ''Scores'' (TMap (TBasic KString) (TBasic KInt32)),
      fld ''Ptr'' (TPointer (TBasic KUint32)), fld ''Inner'' (sfStruct ''Inner''),
      fld ''Nested'' (TPointer (sfStruct ''Inner''))]"

definition sfPing :: "sfield list" where
  "sfPing =
     [fld ''Seq'' (TBasic KUint32)]"

definition sfPong :: "sfield list" where
  "sfPong =
     [fld ''Seq'' (TBasic KUint32)]"

definition sfFrame :: "sfield list" where
  "sfFrame =
     [fld ''ID'' (TBasic KUint16), fld ''Sig'' tSignal]"

definition sfDecls :: "(string \<times> sfield list) list" where
  "sfDecls = [(''All'', sfAll), (''Arrays'', sfArrays), (''Fixed'', sfFixed), (''Frame'', sfFrame),
     (''Inner'', sfInner), (''Ping'', sfPing), (''Pong'', sfPong)]"

subsection \<open>The checked-in codecs\<close>

definition sf_All_Size :: gomethod where
  "sf_All_Size = MBody
     [SAddS (INum 1), SAddS (INum 1), SAddS (INum 2), SAddS (INum 4), SAddS (INum 8),
      SAddS (INum 4), SAddS (INum 8),
      SAddS (IAdd (IUvarintSize (ILen (RField ''Name''))) (ILen (RField ''Name''))),
      SAddS (IUvarintSize (ILen (RField ''Blob''))), SAddS (ILen (RField ''Blob'')),
      SAddS (IUvarintSize (ILen (RField ''Tags''))),
      SForVal (VE 1) (RField ''Tags'')
        [SAddS (IAdd (IUvarintSize (ILen (RVar (VE 1)))) (ILen (RVar (VE 1))))],
      SAddS (IUvarintSize (ILen (RField ''Nums''))),
      SAddS (IMul (INum 4) (ILen (RField ''Nums''))),
      SAddS (IUvarintSize (ILen (RField ''Scores''))),
      SForMap (VE 2) (VE 3) (RField ''Scores'')
        [SUse (VE 2), SUse (VE 3),
         SAddS (IAdd (IUvarintSize (ILen (RVar (VE 2)))) (ILen (RVar (VE 2)))), SAddS (INum 4)],
      SAddS (INum 1), SIfNotNil (RField ''Ptr'') [SAddS (INum 4)] [],
      SAddS (ISize (RecvAddr (RField ''Inner'')) (sfn ''Inner'')), SAddS (INum 1),
      SIfNotNil (RField ''Nested'') [SAddS (ISize (RecvPtr (RField ''Nested'')) (sfn ''Inner''))] []]"

definition sf_All_Marshal :: gomethod where
  "sf_All_Marshal = MBody
     [SIfTrue (RField ''Flag'') [SM (SSetByte (BNum 1))] [SM (SSetByte (BNum 0))], SM (SIncI 1),
      SM (SSetByte (BConv (RField ''N8''))), SM (SIncI 1), SM (SPut16 (WConv (RField ''N16''))),
      SM (SIncI 2), SM (SPut32 (WConv (RField ''N32''))), SM (SIncI 4),
      SM (SPut64 (WConv (RField ''N64''))), SM (SIncI 8), SM (SPut32 (WF32bits (RField ''F32''))),
      SM (SIncI 4), SM (SPut64 (WF64bits (RField ''F64''))), SM (SIncI 8),
      SM (SPutUvarint (ILen (RField ''Name''))), SM (SCopy (SrcStr (RField ''Name''))),
      SM (SPutUvarint (ILen (RField ''Blob''))), SM (SCopy (SrcBytes (RField ''Blob''))),
      SM (SPutUvarint (ILen (RField ''Tags''))),
      SForVal (VE 4) (RField ''Tags'')
        [SM (SPutUvarint (ILen (RVar (VE 4)))), SM (SCopy (SrcStr (RVar (VE 4))))],
      SM (SPutUvarint (ILen (RField ''Nums''))),
      SForVal (VE 5) (RField ''Nums'') [SM (SPut32 (WConv (RVar (VE 5)))), SM (SIncI 4)],
      SM (SPutUvarint (ILen (RField ''Scores''))),
      SForMap (VE 6) (VE 7) (RField ''Scores'')
        [SM (SPutUvarint (ILen (RVar (VE 6)))), SM (SCopy (SrcStr (RVar (VE 6)))),
         SM (SPut32 (WConv (RVar (VE 7)))), SM (SIncI 4)],
      SIfNotNil (RField ''Ptr'')
        [SM (SSetByte (BNum 1)), SM (SIncI 1), SM (SPut32 (WConv (RDeref (RField ''Ptr'')))), SM (SIncI 4)]
        [SM (SSetByte (BNum 0)), SM (SIncI 1)],
      SM (SMarshal (RecvAddr (RField ''Inner'')) (sfn ''Inner'')),
      SIfNotNil (RField ''Nested'')
        [SM (SSetByte (BNum 1)), SM (SIncI 1), SM (SMarshal (RecvPtr (RField ''Nested'')) (sfn ''Inner''))]
        [SM (SSetByte (BNum 0)), SM (SIncI 1)]]"

definition sf_All_Append :: gomethod where
  "sf_All_Append = MBody
     [SIfTrue (RField ''Flag'') [SA (SAppByte (BNum 1))] [SA (SAppByte (BNum 0))],
      SA (SAppByte (BConv (RField ''N8''))), SA (SApp16 (WConv (RField ''N16''))),
      SA (SApp32 (WConv (RField ''N32''))), SA (SApp64 (WConv (RField ''N64''))),
      SA (SApp32 (WF32bits (RField ''F32''))), SA (SApp64 (WF64bits (RField ''F64''))),
      SA (SAppUvarint (ILen (RField ''Name''))), SA (SApp (SrcStr (RField ''Name''))),
      SA (SAppUvarint (ILen (RField ''Blob''))), SA (SApp (SrcBytes (RField ''Blob''))),
      SA (SAppUvarint (ILen (RField ''Tags''))),
      SForVal (VE 8) (RField ''Tags'')
        [SA (SAppUvarint (ILen (RVar (VE 8)))), SA (SApp (SrcStr (RVar (VE 8))))],
      SA (SAppUvarint (ILen (RField ''Nums''))),
      SForVal (VE 9) (RField ''Nums'') [SA (SApp32 (WConv (RVar (VE 9))))],
      SA (SAppUvarint (ILen (RField ''Scores''))),
      SForMap (VE 10) (VE 11) (RField ''Scores'')
        [SA (SAppUvarint (ILen (RVar (VE 10)))), SA (SApp (SrcStr (RVar (VE 10)))),
         SA (SApp32 (WConv (RVar (VE 11))))],
      SIfNotNil (RField ''Ptr'')
        [SA (SAppByte (BNum 1)), SA (SApp32 (WConv (RDeref (RField ''Ptr''))))]
        [SA (SAppByte (BNum 0))],
      SA (SAppend (RecvAddr (RField ''Inner'')) (sfn ''Inner'')),
      SIfNotNil (RField ''Nested'')
        [SA (SAppByte (BNum 1)), SA (SAppend (RecvPtr (RField ''Nested'')) (sfn ''Inner''))]
        [SA (SAppByte (BNum 0))]]"

definition sf_All_Unmarshal :: gomethod where
  "sf_All_Unmarshal = MBody
     [SG (SGuardN 1), SU (SAssign (RField ''Flag'') DBool), SM (SIncI 1), SG (SGuardN 1),
      SU (SAssign (RField ''N8'') (DByte (TBasic KInt8))), SM (SIncI 1), SG (SGuardN 2),
      SU (SAssign (RField ''N16'') (DU16 (TBasic KUint16))), SM (SIncI 2), SG (SGuardN 4),
      SU (SAssign (RField ''N32'') (DU32 (TBasic KInt32))), SM (SIncI 4), SG (SGuardN 8),
      SU (SAssign (RField ''N64'') (DU64 (TBasic KUint64))), SM (SIncI 8), SG (SGuardN 4),
      SU (SAssign (RField ''F32'') DF32), SM (SIncI 4), SG (SGuardN 8),
      SU (SAssign (RField ''F64'') DF64), SM (SIncI 8), SG SUvarint, SG SGuardVarint, SG SIncCC,
      SG SGuardLen, SU (SAssign (RField ''Name'') DStrCopy), SG (SIncE IIntNN), SG SUvarint,
      SG SGuardVarint, SG SIncCC,
      SIfNN0
        [SU (SAssign (RField ''Blob'') (DNil (TSlice (TBasic KUint8))))]
        [SG SGuardLen, SU (SAssign (RField ''Blob'') (DBytesCopy (RField ''Blob''))), SG (SIncE IIntNN)],
      SG SUvarint, SG SGuardVarint, SG SIncCC,
      SIfNN0
        [SU (SAssign (RField ''Tags'') (DNil (TSlice (TBasic KString))))]
        [SG SGuardLen, SU (SReuseOrMake (RField ''Tags'') (TSlice (TBasic KString))),
         SForIdx (VJ 12) (RField ''Tags'')
           [SG SUvarint, SG SGuardVarint, SG SIncCC, SG SGuardLen,
            SU (SAssign (RIdx (RField ''Tags'') (VJ 12)) DStrCopy), SG (SIncE IIntNN)]],
      SG SUvarint, SG SGuardVarint, SG SIncCC,
      SIfNN0
        [SU (SAssign (RField ''Nums'') (DNil (TSlice (TBasic KInt32))))]
        [SG SGuardLen, SU (SReuseOrMake (RField ''Nums'') (TSlice (TBasic KInt32))),
         SForIdx (VJ 13) (RField ''Nums'')
           [SG (SGuardN 4), SU (SAssign (RIdx (RField ''Nums'') (VJ 13)) (DU32 (TBasic KInt32))),
            SM (SIncI 4)]], SG SUvarint, SG SGuardVarint, SG SIncCC,
      SIfNN0
        [SU (SAssign (RField ''Scores'') (DNil (TMap (TBasic KString) (TBasic KInt32))))]
        [SG SGuardLen, SU (SLetNN (VJ 14)),
         SU (SReuseOrMakeMap (RField ''Scores'') (TMap (TBasic KString) (TBasic KInt32)) (VJ 14)),
         SForCnt (VJ 15) (VJ 14)
           [SU (SVar (VJ 16) (TBasic KString)), SU (SVar (VJ 17) (TBasic KInt32)), SG SUvarint,
            SG SGuardVarint, SG SIncCC, SG SGuardLen, SU (SAssign (RVar (VJ 16)) DStrCopy),
            SG (SIncE IIntNN), SG (SGuardN 4), SU (SAssign (RVar (VJ 17)) (DU32 (TBasic KInt32))),
            SM (SIncI 4),
            SU (SMapSet (TMap (TBasic KString) (TBasic KInt32)) (RField ''Scores'') (VJ 16) (VJ 17))]],
      SG (SGuardN 1),
      SIfFlag
        [SM (SIncI 1), SU (SNewIfNil (RField ''Ptr'') (TBasic KUint32)), SG (SGuardN 4),
         SU (SAssign (RDeref (RField ''Ptr'')) (DU32 (TBasic KUint32))), SM (SIncI 4)]
        [SM (SIncI 1), SU (SAssign (RField ''Ptr'') (DNil (TPointer (TBasic KUint32))))],
      SU (SUnmarshalSafe (RecvAddr (RField ''Inner'')) (sfn ''Inner'')), SG (SGuardN 1),
      SIfFlag
        [SM (SIncI 1), SU (SNewIfNil (RField ''Nested'') (sfStruct ''Inner'')),
         SU (SUnmarshalSafe (RecvPtr (RField ''Nested'')) (sfn ''Inner''))]
        [SM (SIncI 1), SU (SAssign (RField ''Nested'') (DNil (TPointer (sfStruct ''Inner''))))]]"

definition sf_Arrays_Size :: gomethod where
  "sf_Arrays_Size = MBody
     [SAddS (INum 16), SAddS (INum 16),
      SForN (VJ 18) 2
        [SAddS
           (IAdd (IUvarintSize (ILen (RIdx (RField ''Tags'') (VJ 18)))) (ILen (RIdx (RField ''Tags'') (VJ 18))))]]"

definition sf_Arrays_Marshal :: gomethod where
  "sf_Arrays_Marshal = MBody
     [SM (SCopy (SrcArr (RField ''Hash''))),
      SForN (VJ 19) 4 [SM (SPut32 (WConv (RIdx (RField ''Quad'') (VJ 19)))), SM (SIncI 4)],
      SForN (VJ 20) 2
        [SM (SPutUvarint (ILen (RIdx (RField ''Tags'') (VJ 20)))),
         SM (SCopy (SrcStr (RIdx (RField ''Tags'') (VJ 20))))]]"

definition sf_Arrays_Append :: gomethod where
  "sf_Arrays_Append = MBody
     [SA (SApp (SrcArr (RField ''Hash''))),
      SForN (VJ 21) 4 [SA (SApp32 (WConv (RIdx (RField ''Quad'') (VJ 21))))],
      SForN (VJ 22) 2
        [SA (SAppUvarint (ILen (RIdx (RField ''Tags'') (VJ 22)))),
         SA (SApp (SrcStr (RIdx (RField ''Tags'') (VJ 22))))]]"

definition sf_Arrays_Unmarshal :: gomethod where
  "sf_Arrays_Unmarshal = MBody
     [SG (SGuardN 16), SU (SCopyArr (RField ''Hash'') 16), SM (SIncI 16),
      SForN (VJ 23) 4
        [SG (SGuardN 4), SU (SAssign (RIdx (RField ''Quad'') (VJ 23)) (DU32 (TBasic KInt32))), SM (SIncI 4)],
      SForN (VJ 24) 2
        [SG SUvarint, SG SGuardVarint, SG SIncCC, SG SGuardLen,
         SU (SAssign (RIdx (RField ''Tags'') (VJ 24)) DStrCopy), SG (SIncE IIntNN)]]"

definition sf_Fixed_Size :: gomethod where
  "sf_Fixed_Size = MBody
     [SAddS (INum 4), SAddS (INum 4), SAddS (INum 4)]"

definition sf_Fixed_Marshal :: gomethod where
  "sf_Fixed_Marshal = MBody
     [SM (SPut32 (WConv (RField ''X''))), SM (SIncI 4), SM (SPut32 (WConv (RField ''Y''))),
      SM (SIncI 4), SM (SPut32 (WConv (RField ''Z''))), SM (SIncI 4)]"

definition sf_Fixed_Append :: gomethod where
  "sf_Fixed_Append = MBody
     [SA (SApp32 (WConv (RField ''X''))), SA (SApp32 (WConv (RField ''Y''))),
      SA (SApp32 (WConv (RField ''Z'')))]"

definition sf_Fixed_Unmarshal :: gomethod where
  "sf_Fixed_Unmarshal = MBody
     [SG (SGuardN 4), SU (SAssign (RField ''X'') (DU32 (TBasic KInt32))), SM (SIncI 4),
      SG (SGuardN 4), SU (SAssign (RField ''Y'') (DU32 (TBasic KInt32))), SM (SIncI 4),
      SG (SGuardN 4), SU (SAssign (RField ''Z'') (DU32 (TBasic KInt32))), SM (SIncI 4)]"

definition sf_Frame_Size :: gomethod where
  "sf_Frame_Size = MBody
     [SAddS (INum 2),
      STypeSwitch (RField ''Sig'')
        [((sfn ''Ping''), [SAddS (IAdd (INum 1) (ISize (RecvPtr (RVar VV)) (sfn ''Ping'')))]),
         ((sfn ''Pong''), [SAddS (IAdd (INum 1) (ISize (RecvPtr (RVar VV)) (sfn ''Pong'')))])]
        [SAddS (INum 1)] ''goserde: value is not a registered member of union Signal'']"

definition sf_Frame_Marshal :: gomethod where
  "sf_Frame_Marshal = MBody
     [SM (SPut16 (WConv (RField ''ID''))), SM (SIncI 2),
      STypeSwitch (RField ''Sig'')
        [((sfn ''Ping''), [SM (SPutUvarint (INum 1)), SM (SMarshal (RecvPtr (RVar VV)) (sfn ''Ping''))]),
         ((sfn ''Pong''), [SM (SPutUvarint (INum 2)), SM (SMarshal (RecvPtr (RVar VV)) (sfn ''Pong''))])]
        [SM (SPutUvarint (INum 0))] ''goserde: value is not a registered member of union Signal'']"

definition sf_Frame_Append :: gomethod where
  "sf_Frame_Append = MBody
     [SA (SApp16 (WConv (RField ''ID''))),
      STypeSwitch (RField ''Sig'')
        [((sfn ''Ping''), [SA (SAppUvarint (INum 1)), SA (SAppend (RecvPtr (RVar VV)) (sfn ''Ping''))]),
         ((sfn ''Pong''), [SA (SAppUvarint (INum 2)), SA (SAppend (RecvPtr (RVar VV)) (sfn ''Pong''))])]
        [SA (SAppUvarint (INum 0))] ''goserde: value is not a registered member of union Signal'']"

definition sf_Frame_Unmarshal :: gomethod where
  "sf_Frame_Unmarshal = MBody
     [SG (SGuardN 2), SU (SAssign (RField ''ID'') (DU16 (TBasic KUint16))), SM (SIncI 2),
      SG SUvarint, SG SGuardVarint, SG SIncCC,
      SSwitchNN
        [(0, [SU (SAssign (RField ''Sig'') (DNil tSignal))]),
         (1, [SU (STypeAssert (VJ 25) (RField ''Sig'') (sfn ''Ping'')),
              SU (SNewIfNil (RVar (VJ 25)) (sfStruct ''Ping'')),
              SU (SUnmarshalSafe (RecvPtr (RVar (VJ 25))) (sfn ''Ping'')),
              SU (SAssign (RField ''Sig'') (DIface (VJ 25) (sfn ''Ping'')))]),
         (2, [SU (STypeAssert (VJ 26) (RField ''Sig'') (sfn ''Pong'')),
              SU (SNewIfNil (RVar (VJ 26)) (sfStruct ''Pong'')),
              SU (SUnmarshalSafe (RecvPtr (RVar (VJ 26))) (sfn ''Pong'')),
              SU (SAssign (RField ''Sig'') (DIface (VJ 26) (sfn ''Pong'')))])]]"

definition sf_Inner_Size :: gomethod where
  "sf_Inner_Size = MBody
     [SAddS (INum 2), SAddS (IAdd (IUvarintSize (ILen (RField ''B''))) (ILen (RField ''B'')))]"

definition sf_Inner_Marshal :: gomethod where
  "sf_Inner_Marshal = MBody
     [SM (SPut16 (WConv (RField ''A''))), SM (SIncI 2), SM (SPutUvarint (ILen (RField ''B''))),
      SM (SCopy (SrcStr (RField ''B'')))]"

definition sf_Inner_Append :: gomethod where
  "sf_Inner_Append = MBody
     [SA (SApp16 (WConv (RField ''A''))), SA (SAppUvarint (ILen (RField ''B''))),
      SA (SApp (SrcStr (RField ''B'')))]"

definition sf_Inner_Unmarshal :: gomethod where
  "sf_Inner_Unmarshal = MBody
     [SG (SGuardN 2), SU (SAssign (RField ''A'') (DU16 (TBasic KUint16))), SM (SIncI 2),
      SG SUvarint, SG SGuardVarint, SG SIncCC, SG SGuardLen, SU (SAssign (RField ''B'') DStrCopy),
      SG (SIncE IIntNN)]"

definition sf_Ping_Size :: gomethod where
  "sf_Ping_Size = MBody
     [SAddS (INum 4)]"

definition sf_Ping_Marshal :: gomethod where
  "sf_Ping_Marshal = MBody
     [SM (SPut32 (WConv (RField ''Seq''))), SM (SIncI 4)]"

definition sf_Ping_Append :: gomethod where
  "sf_Ping_Append = MBody
     [SA (SApp32 (WConv (RField ''Seq'')))]"

definition sf_Ping_Unmarshal :: gomethod where
  "sf_Ping_Unmarshal = MBody
     [SG (SGuardN 4), SU (SAssign (RField ''Seq'') (DU32 (TBasic KUint32))), SM (SIncI 4)]"

definition sf_Pong_Size :: gomethod where
  "sf_Pong_Size = MBody
     [SAddS (INum 4)]"

definition sf_Pong_Marshal :: gomethod where
  "sf_Pong_Marshal = MBody
     [SM (SPut32 (WConv (RField ''Seq''))), SM (SIncI 4)]"

definition sf_Pong_Append :: gomethod where
  "sf_Pong_Append = MBody
     [SA (SApp32 (WConv (RField ''Seq'')))]"

definition sf_Pong_Unmarshal :: gomethod where
  "sf_Pong_Unmarshal = MBody
     [SG (SGuardN 4), SU (SAssign (RField ''Seq'') (DU32 (TBasic KUint32))), SM (SIncI 4)]"

definition sf_goserde_gen :: genfile where
  "sf_goserde_gen = \<lparr>gfPackage = ''safeshapes'', gfCodecPkg = ''github.com/tochemey/goserde/codec'',
     gfImportTime = False, gfImportUnsafe = False,
     gfCodecs =
       [(sfn ''All'', \<lparr>cSize = sf_All_Size, cMarshal = sf_All_Marshal, cAppend = sf_All_Append,
            cUnmarshal = sf_All_Unmarshal\<rparr>),
        (sfn ''Arrays'', \<lparr>cSize = sf_Arrays_Size, cMarshal = sf_Arrays_Marshal, cAppend = sf_Arrays_Append,
            cUnmarshal = sf_Arrays_Unmarshal\<rparr>),
        (sfn ''Fixed'', \<lparr>cSize = sf_Fixed_Size, cMarshal = sf_Fixed_Marshal, cAppend = sf_Fixed_Append,
            cUnmarshal = sf_Fixed_Unmarshal\<rparr>),
        (sfn ''Frame'', \<lparr>cSize = sf_Frame_Size, cMarshal = sf_Frame_Marshal, cAppend = sf_Frame_Append,
            cUnmarshal = sf_Frame_Unmarshal\<rparr>),
        (sfn ''Inner'', \<lparr>cSize = sf_Inner_Size, cMarshal = sf_Inner_Marshal, cAppend = sf_Inner_Append,
            cUnmarshal = sf_Inner_Unmarshal\<rparr>),
        (sfn ''Ping'', \<lparr>cSize = sf_Ping_Size, cMarshal = sf_Ping_Marshal, cAppend = sf_Ping_Append,
            cUnmarshal = sf_Ping_Unmarshal\<rparr>),
        (sfn ''Pong'', \<lparr>cSize = sf_Pong_Size, cMarshal = sf_Pong_Marshal, cAppend = sf_Pong_Append,
            cUnmarshal = sf_Pong_Unmarshal\<rparr>)]\<rparr>"

end
