(* ===== verification/CheckedIn.thy ===== *)
theory CheckedIn
  imports Example SafeShapes CommandProps DecodeProps
begin

text \<open>
  The generated files that are checked into the repository are what the command writes today: the
  fast-mode codecs of the example package and the safe-mode codecs of \<open>test/data/safeshapes\<close>; and
  what \<open>load\<close> makes of \<open>test/data/shapes\<close>.
\<close>

subsection \<open>What the Go tools report of the two packages\<close>

text \<open>Declarations in source order; of the comments, the lines the loader looks for are kept.\<close>

definition markedType :: "string \<Rightarrow> godecl" where
  "markedType s = TypeDecl (Some [''//goserde:generate'']) [\<lparr>tsDoc = None, tsName = s, tsInterface = False\<rparr>]"

definition exampleAst :: astfile where
  "exampleAst = \<lparr>afName = ''example'', afDecls = [markedType ''User'', markedType ''Point'']\<rparr>"

definition safeAst :: astfile where
  "safeAst = \<lparr>afName = ''safeshapes'', afDecls =
     [markedType ''Fixed'', markedType ''Inner'', markedType ''Arrays'', markedType ''All'',
      markedType ''Ping'', OtherDecl, markedType ''Pong'', OtherDecl,
      TypeDecl (Some [''//goserde:union Ping Pong'']) [\<lparr>tsDoc = None, tsName = ''Signal'', tsInterface = True\<rparr>],
      markedType ''Frame'']\<rparr>"

definition structTable :: "(string \<times> sfield list) list \<Rightarrow> tname \<Rightarrow> sfield list" where
  "structTable ds n = (case map_of ds (snd n) of Some fs \<Rightarrow> fs | None \<Rightarrow> [])"

definition examplePkg :: tpkg where
  "examplePkg = \<lparr>tpScope = [(''Point'', TNamed (exn ''Point'') TStruct), (''User'', TNamed (exn ''User'') TStruct)],
     tpMethods = (\<lambda>_. []), tpStructs = structTable [(''Point'', Point), (''User'', User)],
     tpImplements = (\<lambda>_ _. False)\<rparr>"

definition safePkg :: tpkg where
  "safePkg = \<lparr>tpScope = map (\<lambda>(s, _). (s, sfStruct s)) sfDecls @ [(''Signal'', tSignal)],
     tpMethods = (\<lambda>n. if snd n \<in> {''Ping'', ''Pong''} then [''isSignal''] else []), tpStructs = structTable sfDecls,
     tpImplements = (\<lambda>m i. snd m \<in> {''Ping'', ''Pong''})\<rparr>"

text \<open>\<open>d\<close> holds one source file, \<open>src\<close>, and possibly others that are not read: the output of an
  earlier run, tests, files in other languages.\<close>

definition sees :: "world \<Rightarrow> string \<Rightarrow> string \<Rightarrow> astfile \<Rightarrow> tpkg \<Rightarrow> bool" where
  "sees w d src f p \<longleftrightarrow>
     (case ReadDir w d of Inl err \<Rightarrow> False
      | Inr es \<Rightarrow> map deName (filter (\<lambda>e. \<not> ignored ''goserde_gen.go'' e) es) = [src])
     \<and> ParseFile w d src = Inr f \<and> TypeCheck w (afName f) [f] = Inr p
     \<and> (\<forall>us. length us \<le> 1 \<longrightarrow> rangeOrder w us = us)
     \<and> codecPkgPath w = defaultCodecPkg \<and> WriteFile w d ''goserde_gen.go'' = None"

subsection \<open>The generators that load makes of them\<close>

definition exampleGen :: generator where
  "exampleGen = \<lparr>pkgName = ''example'', codecPkg = defaultCodecPkg, codecQual = ''codec'', safe = False,
     pkg = ''example'', targets = [exn ''Point'', exn ''User''], owned = [], unions = [],
     structs = structTable [(''Point'', Point), (''User'', User)]\<rparr>"

definition safeGen :: generator where
  "safeGen = \<lparr>pkgName = ''safeshapes'', codecPkg = defaultCodecPkg, codecQual = ''codec'', safe = True,
     pkg = ''safeshapes'', targets = map (\<lambda>(s, _). sfn s) sfDecls, owned = [],
     unions = [(sfn ''Signal'', [sfn ''Ping'', sfn ''Pong''])], structs = structTable sfDecls\<rparr>"

lemma example_generate: "generate exampleGen emit0 = Inr goserde_gen"
  by code_simp

lemma safe_generate: "generate safeGen emit0 = Inr sf_goserde_gen"
  by code_simp

subsection \<open>Loading\<close>

text \<open>What the files of a package amount to, and what \<open>load\<close> makes of a directory with one source.\<close>

definition parsedOf :: "astfile \<Rightarrow> parsed" where
  "parsedOf f = \<lparr>psFiles = [f], psMarked = collectMarked f [], psUnions = collectUnions f [], psName = afName f\<rparr>"

lemma parse_one:
  assumes "map deName (filter (\<lambda>e. \<not> ignored out e) es) = names" and "\<forall>n \<in> set names. ParseFile w d n = Inr (F n)"
  shows "parseEntries w d out es p = Inr (fold (\<lambda>n p. \<lparr>psFiles = psFiles p @ [F n], psMarked = collectMarked (F n) (psMarked p),
       psUnions = collectUnions (F n) (psUnions p), psName = (if psName p = [] then afName (F n) else psName p)\<rparr>) names p)"
  using assms by (induction es arbitrary: p names) auto

lemma load_sees:
  assumes "sees w d src f p" and "length (collectUnions f []) \<le> 1"
    and "collectTargets (collectMarked f []) (tpScope p) = Inr ns" and "ns \<noteq> []"
    and "resolveUnions (newGenerator (parsedOf f) p defaultCodecPkg sf ns) p (collectUnions f []) = Inr g"
    and "detectOwned p g = Inr g'"
  shows "load w d ''goserde_gen.go'' (codecPkgPath w) sf = Inr g'"
proof -
  obtain es where es: "ReadDir w d = Inr es" "map deName (filter (\<lambda>e. \<not> ignored ''goserde_gen.go'' e) es) = [src]"
    using assms(1) by (auto simp: sees_def split: sum.splits)
  have "parseEntries w d ''goserde_gen.go'' es noFiles = Inr (parsedOf f)"
    using parse_one [OF es(2), of w d "\<lambda>_. f"] assms(1) by (simp add: sees_def noFiles_def parsedOf_def)
  then show ?thesis using assms es(1) by (simp add: load_def sees_def) (simp add: parsedOf_def)
qed

lemma codec_qualifier: "codecQualOf defaultCodecPkg = ''codec''"
  by code_simp

lemma example_load:
  assumes "sees w d ''example.go'' exampleAst examplePkg"
  shows "load w d ''goserde_gen.go'' (codecPkgPath w) False = Inr exampleGen"
proof (rule load_sees [OF assms])
  have us: "collectUnions exampleAst [] = []" by code_simp
  have n: "newGenerator (parsedOf exampleAst) examplePkg defaultCodecPkg False [exn ''Point'', exn ''User''] = exampleGen"
    by (simp add: newGenerator_def parsedOf_def exampleAst_def examplePkg_def exampleGen_def codec_qualifier exn_def)
  show "collectTargets (collectMarked exampleAst []) (tpScope examplePkg) = Inr [exn ''Point'', exn ''User'']" by code_simp
  show "resolveUnions (newGenerator (parsedOf exampleAst) examplePkg defaultCodecPkg False [exn ''Point'', exn ''User''])
       examplePkg (collectUnions exampleAst []) = Inr exampleGen"
    unfolding n us by (simp add: resolveUnions_def exampleGen_def)
  have "ownedLoop examplePkg (targets exampleGen) = Inr []" by code_simp
  then show "detectOwned examplePkg exampleGen = Inr exampleGen" by (simp add: detectOwned_def exampleGen_def)
qed (code_simp | simp)+

lemma safe_load:
  assumes "sees w d ''types.go'' safeAst safePkg"
  shows "load w d ''goserde_gen.go'' (codecPkgPath w) True = Inr safeGen"
proof (rule load_sees [OF assms])
  let ?ns = "map (\<lambda>(s, _). sfn s) sfDecls"
  have us: "collectUnions safeAst [] = [(''Signal'', [''Ping'', ''Pong''])]" by code_simp
  have "sort_key snd ?ns = ?ns" by code_simp
  then have n: "newGenerator (parsedOf safeAst) safePkg defaultCodecPkg True ?ns = safeGen\<lparr>unions := []\<rparr>"
    by (simp add: newGenerator_def parsedOf_def safeAst_def safePkg_def safeGen_def codec_qualifier)
  show "collectTargets (collectMarked safeAst []) (tpScope safePkg) = Inr ?ns" by code_simp
  have "resolveLoop (safeGen\<lparr>unions := []\<rparr>) safePkg [(''Signal'', [''Ping'', ''Pong''])] []
      = Inr [(sfn ''Signal'', [sfn ''Ping'', sfn ''Pong''])]" by code_simp
  then show "resolveUnions (newGenerator (parsedOf safeAst) safePkg defaultCodecPkg True ?ns) safePkg
      (collectUnions safeAst []) = Inr safeGen"
    unfolding n us by (simp add: resolveUnions_def safeGen_def)
  have "ownedLoop safePkg (targets safeGen) = Inr []" by code_simp
  then show "detectOwned safePkg safeGen = Inr safeGen" by (simp add: detectOwned_def safeGen_def)
qed (code_simp | simp)+

lemma shapes_load_sees:
  assumes "sees w d ''types.go'' shapesFile shapesPkg"
  shows "load w d ''goserde_gen.go'' (codecPkgPath w) False = Inr (shapesGen False)"
proof (rule load_sees [OF assms])
  let ?ns = "map (\<lambda>(s, _). nm s) shapesDecls"
  have us: "collectUnions shapesFile [] = [(''Geometry'', [''Circle'', ''Square''])]"
    and ms: "collectMarked shapesFile [] = shapesMarked" by code_simp+
  have n: "newGenerator (parsedOf shapesFile) shapesPkg defaultCodecPkg False ?ns = (shapesGen False)\<lparr>unions := []\<rparr>"
    using shapes_targets(2)
    by (simp add: newGenerator_def parsedOf_def shapesFile_def shapesPkg_def shapesGen_def codec_qualifier)
      (simp add: defaultCodecPkg_def)
  show "collectTargets (collectMarked shapesFile []) (tpScope shapesPkg) = Inr ?ns" unfolding ms by (rule shapes_targets(1))
  have "resolveLoop ((shapesGen False)\<lparr>unions := []\<rparr>) shapesPkg [(''Geometry'', [''Circle'', ''Square''])] []
      = Inr [(nm ''Geometry'', [nm ''Circle'', nm ''Square''])]" by code_simp
  then show "resolveUnions (newGenerator (parsedOf shapesFile) shapesPkg defaultCodecPkg False ?ns) shapesPkg
      (collectUnions shapesFile []) = Inr (shapesGen False)"
    unfolding n us by (simp add: resolveUnions_def shapesGen_def)
  have "ownedLoop shapesPkg (targets (shapesGen False)) = Inr []" by code_simp
  then show "detectOwned shapesPkg (shapesGen False) = Inr (shapesGen False)"
    by (simp add: detectOwned_def shapesGen_def)
qed (code_simp | simp)+

subsection \<open>The command\<close>

lemma flags_read:
  "parseFlags [''-dir'', d, ''-out'', ''goserde_gen.go''] defaultFlags
     = Inr \<lparr>fDir = d, fOut = ''goserde_gen.go'', fSafe = False, fVersion = False\<rparr>"
  "parseFlags [''-dir'', d, ''-out'', ''goserde_gen.go'', ''-safe''] defaultFlags
     = Inr \<lparr>fDir = d, fOut = ''goserde_gen.go'', fSafe = True, fVersion = False\<rparr>"
  by (simp_all add: splitFlag_def setBool_def defaultFlags_def)

lemma run_writes:
  assumes "parseFlags args defaultFlags = Inr \<lparr>fDir = d, fOut = ''goserde_gen.go'', fSafe = sf, fVersion = False\<rparr>"
    and "load w d ''goserde_gen.go'' (codecPkgPath w) sf = Inr g" and "generate g emit0 = Inr gf"
    and "owned g = []" and "WriteFile w d ''goserde_gen.go'' = None"
  shows "main w (cmd # args) = (\<lparr>rErr = None, rOut = [Wrote d ''goserde_gen.go'' (length (targets g))],
    rFile = Some (d, ''goserde_gen.go'', gf)\<rparr>, 0)"
proof -
  have "validateOut ''goserde_gen.go'' = None" by code_simp
  then show ?thesis using assms by (simp add: main_def run_def Let_def ownedNames_def)
qed

subsection \<open>What the command writes\<close>

text \<open>Run as their \<open>go:generate\<close> lines say, the command writes the codecs of the two checked-in files,
  statement by statement; \<open>TextProps\<close> compares the text.\<close>

theorem checked_in_files:
  "(sees w d ''example.go'' exampleAst examplePkg \<longrightarrow>
      main w [cmd, ''-dir'', d, ''-out'', ''goserde_gen.go'']
      = (\<lparr>rErr = None, rOut = [Wrote d ''goserde_gen.go'' 2], rFile = Some (d, ''goserde_gen.go'', goserde_gen)\<rparr>, 0))
   \<and> (sees w d ''types.go'' safeAst safePkg \<longrightarrow>
      main w [cmd, ''-dir'', d, ''-out'', ''goserde_gen.go'', ''-safe'']
      = (\<lparr>rErr = None, rOut = [Wrote d ''goserde_gen.go'' 7], rFile = Some (d, ''goserde_gen.go'', sf_goserde_gen)\<rparr>, 0))"
proof (intro conjI impI)
  assume w: "sees w d ''example.go'' exampleAst examplePkg"
  have "main w (cmd # [''-dir'', d, ''-out'', ''goserde_gen.go''])
      = (\<lparr>rErr = None, rOut = [Wrote d ''goserde_gen.go'' (length (targets exampleGen))],
         rFile = Some (d, ''goserde_gen.go'', goserde_gen)\<rparr>, 0)"
    using w by (intro run_writes [OF flags_read(1) example_load [OF w] example_generate]) (simp_all add: exampleGen_def sees_def)
  then show "main w [cmd, ''-dir'', d, ''-out'', ''goserde_gen.go'']
      = (\<lparr>rErr = None, rOut = [Wrote d ''goserde_gen.go'' 2], rFile = Some (d, ''goserde_gen.go'', goserde_gen)\<rparr>, 0)"
    by (simp add: exampleGen_def)
next
  assume w: "sees w d ''types.go'' safeAst safePkg"
  have "main w (cmd # [''-dir'', d, ''-out'', ''goserde_gen.go'', ''-safe''])
      = (\<lparr>rErr = None, rOut = [Wrote d ''goserde_gen.go'' (length (targets safeGen))],
         rFile = Some (d, ''goserde_gen.go'', sf_goserde_gen)\<rparr>, 0)"
    using w by (intro run_writes [OF flags_read(2) safe_load [OF w] safe_generate]) (simp_all add: safeGen_def sees_def)
  then show "main w [cmd, ''-dir'', d, ''-out'', ''goserde_gen.go'', ''-safe'']
      = (\<lparr>rErr = None, rOut = [Wrote d ''goserde_gen.go'' 7], rFile = Some (d, ''goserde_gen.go'', sf_goserde_gen)\<rparr>, 0)"
    by (simp add: safeGen_def sfDecls_def)
qed

text \<open>A world with both packages in it.\<close>

definition repoWorld :: world where
  "repoWorld = \<lparr>
     ReadDir = (\<lambda>d. Inr (map (\<lambda>n. \<lparr>deName = n, deIsDir = False\<rparr>)
       (if d = ''example'' then [''example.go'', ''goserde_gen.go''] else [''goserde_gen.go'', ''types.go'']))),
     ParseFile = (\<lambda>d n. Inr (if n = ''example.go'' then exampleAst else safeAst)),
     TypeCheck = (\<lambda>pk fs. Inr (if pk = ''example'' then examplePkg else safePkg)),
     BuildInfo = Some ''github.com/tochemey/goserde'', WriteFile = (\<lambda>d n. None), rangeOrder = (\<lambda>us. us)\<rparr>"

end
