(* ===== verification/TextProps.thy ===== *)
theory TextProps
  imports GoText FileText CheckedIn
begin

text \<open>
  The text of the files a run writes, and that it is, line by line, the text of the generated files
  in the repository.
\<close>

subsection \<open>The text of a run\<close>

text \<open>What \<open>run\<close> passes to \<open>os.WriteFile\<close>; the generator is the one \<open>load\<close> returned to it.\<close>

definition written :: "(string \<Rightarrow> string) \<Rightarrow> world \<Rightarrow> string list \<Rightarrow> string list option" where
  "written nameOf w args =
     (case (rFile (run w args), parseFlags (tl args) defaultFlags) of
        (Some (d, out, gf), Inr f) \<Rightarrow>
          (case load w d out (codecPkgPath w) (fSafe f) of Inl e \<Rightarrow> None | Inr g \<Rightarrow> Some (fileText nameOf g gf))
      | _ \<Rightarrow> None)"

lemma sameText_append: "sameText a b \<Longrightarrow> sameText c d \<Longrightarrow> sameText (a @ c) (b @ d)"
  by (simp add: sameText_def dense_def)

subsection \<open>The example and safeshapes packages\<close>

lemma example_text_written: "sameText (fileText nameOf exampleGen goserde_gen) example_text"
  by code_simp

lemma safe_head: "sameText (headText safeGen sf_goserde_gen) sf_head_text"
  by code_simp

lemma safe_codecs:
  "list_all2 (\<lambda>(n, c) ls. sameText (codecText safeGen (relativeTo nameOf safeGen) n c) ls)
     (gfCodecs sf_goserde_gen)
     [sf_All_text, sf_Arrays_text, sf_Fixed_text, sf_Frame_text, sf_Inner_text, sf_Ping_text, sf_Pong_text]"
  by code_simp

lemma sameText_concat:
  "list_all2 (\<lambda>x ls. sameText (f x) ls) xs lss \<Longrightarrow> sameText (concat (map f xs)) (concat lss)"
  by (induction rule: list_all2_induct) (simp_all add: sameText_append sameText_def [of "[]"])

lemma safe_text_written: "sameText (fileText nameOf safeGen sf_goserde_gen) safeshapes_text"
  using sameText_append [OF safe_head sameText_concat [OF safe_codecs [unfolded split_def], of nameOf]]
  by (simp add: fileText_def safeshapes_text_def split_def)

subsection \<open>The shapes package\<close>

text \<open>The codecs of this package are compared one by one, each from the state the one before it leaves.\<close>

definition emitsAs :: "generator \<Rightarrow> (string \<Rightarrow> string) \<Rightarrow> tname \<Rightarrow> gstate \<Rightarrow> string list \<Rightarrow> gstate \<Rightarrow> bool" where
  "emitsAs g Q n s ls s' \<longleftrightarrow>
     (case fieldsOf g n of Inl e \<Rightarrow> False
      | Inr fs \<Rightarrow> (case emitCodec g n fs s of (c, s1) \<Rightarrow> sameText (codecText g Q n c) ls \<and> s1 = s'))"

definition emitsAll :: "generator \<Rightarrow> (string \<Rightarrow> string) \<Rightarrow> tname list \<Rightarrow> gstate \<Rightarrow> string list \<Rightarrow> gstate \<Rightarrow> bool" where
  "emitsAll g Q ns s ls s' \<longleftrightarrow>
     (\<exists>cs. generateLoop g ns s = Inr (cs, s') \<and> sameText (concat (map (\<lambda>(n, c). codecText g Q n c) cs)) ls)"

lemma emitsAll_Nil: "emitsAll g Q [] s [] s"
  by (simp add: emitsAll_def sameText_def)

lemma emitsAll_Cons:
  assumes "owned g = []" "emitsAs g Q n s a s1" "emitsAll g Q ns s1 b s2"
  shows "emitsAll g Q (n # ns) s (a @ b) s2"
  using assms by (auto simp: emitsAll_def emitsAs_def intro: sameText_append split: sum.splits prod.splits)

definition emitAt :: "nat \<Rightarrow> bool \<Rightarrow> gstate" where
  "emitAt k t = \<lparr>varCounter = k, usedTime = t, usedUnsafe = True\<rparr>"

text \<open>A type checker's answer for the name of package \<open>time\<close>.\<close>

definition withTime :: "(string \<Rightarrow> string) \<Rightarrow> string \<Rightarrow> string" where
  "withTime nameOf p = (if p = ''time'' then ''time'' else nameOf p)"

abbreviation shEmits :: "(string \<Rightarrow> string) \<Rightarrow> string \<Rightarrow> gstate \<Rightarrow> string list \<Rightarrow> gstate \<Rightarrow> bool" where
  "shEmits nameOf n \<equiv> emitsAs (shapesGen False) (relativeTo (withTime nameOf) (shapesGen False)) (nm n)"

lemma shapes_codecs1:
  "shEmits nameOf ''Circle'' emit0 sh_Circle_text (emitAt 0 False)"
  "shEmits nameOf ''CollectionHeavy'' (emitAt 0 False) sh_CollectionHeavy_text (emitAt 14 False)"
  "shEmits nameOf ''Drawing'' (emitAt 14 False) sh_Drawing_text (emitAt 22 False)"
  by code_simp+

lemma shapes_codecs2:
  "shEmits nameOf ''FixedArrays'' (emitAt 22 False) sh_FixedArrays_text (emitAt 22 False)"
  "shEmits nameOf ''FlatMixed'' (emitAt 22 False) sh_FlatMixed_text (emitAt 22 False)"
  "shEmits nameOf ''Inner'' (emitAt 22 False) sh_Inner_text (emitAt 22 False)"
  "shEmits nameOf ''MixedArrays'' (emitAt 22 False) sh_MixedArrays_text (emitAt 27 False)"
  "shEmits nameOf ''NamedFixed'' (emitAt 27 False) sh_NamedFixed_text (emitAt 27 False)"
  "shEmits nameOf ''NamedScalars'' (emitAt 27 False) sh_NamedScalars_text (emitAt 27 False)"
  by code_simp+

lemma shapes_codecs3:
  "shEmits nameOf ''Nested'' (emitAt 27 False) sh_Nested_text (emitAt 28 False)"
  "shEmits nameOf ''NumericBulk'' (emitAt 28 False) sh_NumericBulk_text (emitAt 31 False)"
  "shEmits nameOf ''SmallFixed'' (emitAt 31 False) sh_SmallFixed_text (emitAt 31 False)"
  "shEmits nameOf ''Square'' (emitAt 31 False) sh_Square_text (emitAt 31 False)"
  by code_simp+

lemma shapes_codecs4:
  "shEmits nameOf ''StringHeavy'' (emitAt 31 False) sh_StringHeavy_text (emitAt 35 False)"
  "shEmits nameOf ''Tagged'' (emitAt 35 False) sh_Tagged_text (emitAt 35 False)"
  "shEmits nameOf ''TimeStruct'' (emitAt 35 False) sh_TimeStruct_text (emitAt 38 True)"
  "shEmits nameOf ''WideItem'' (emitAt 38 True) sh_WideItem_text (emitAt 38 True)"
  "shEmits nameOf ''WideList'' (emitAt 38 True) sh_WideList_text (emitAt 42 True)"
  by code_simp+

lemmas shapes_codecs = shapes_codecs1 shapes_codecs2 shapes_codecs3 shapes_codecs4

lemma shapes_all:
  "emitsAll (shapesGen False) (relativeTo (withTime nameOf) (shapesGen False)) (targets (shapesGen False)) emit0
     (sh_Circle_text @ sh_CollectionHeavy_text @ sh_Drawing_text @ sh_FixedArrays_text @ sh_FlatMixed_text @ sh_Inner_text @ sh_MixedArrays_text @ sh_NamedFixed_text @ sh_NamedScalars_text @ sh_Nested_text @ sh_NumericBulk_text @ sh_SmallFixed_text @ sh_Square_text @ sh_StringHeavy_text @ sh_Tagged_text @ sh_TimeStruct_text @ sh_WideItem_text @ sh_WideList_text @ []) (emitAt 42 True)"
  unfolding shapesGen_def shapesDecls_def generator.simps list.map prod.case
  by (rule emitsAll_Cons emitsAll_Nil shapes_codecs [unfolded shapesGen_def shapesDecls_def generator.simps list.map prod.case] | simp)+


lemma withTime_id: "nameOf ''time'' = ''time'' \<Longrightarrow> withTime nameOf = nameOf"
  by (auto simp: withTime_def)

lemma shapes_head:
  "sameText (headText (shapesGen False) \<lparr>gfPackage = ''shapes'', gfCodecPkg = defaultCodecPkg,
     gfImportTime = True, gfImportUnsafe = True, gfCodecs = []\<rparr>) sh_head_text"
  by code_simp

lemma shapes_text_written:
  assumes "nameOf ''time'' = ''time''"
  shows "\<exists>gf. generate (shapesGen False) emit0 = Inr gf \<and> sameText (fileText nameOf (shapesGen False) gf) shapes_text"
proof -
  obtain cs where cs: "generateLoop (shapesGen False) (targets (shapesGen False)) emit0 = Inr (cs, emitAt 42 True)"
    and t: "sameText (concat (map (\<lambda>(n, c). codecText (shapesGen False) (relativeTo nameOf (shapesGen False)) n c) cs))
      (sh_Circle_text @ sh_CollectionHeavy_text @ sh_Drawing_text @ sh_FixedArrays_text @ sh_FlatMixed_text @ sh_Inner_text
       @ sh_MixedArrays_text @ sh_NamedFixed_text @ sh_NamedScalars_text @ sh_Nested_text @ sh_NumericBulk_text
       @ sh_SmallFixed_text @ sh_Square_text @ sh_StringHeavy_text @ sh_Tagged_text @ sh_TimeStruct_text @ sh_WideItem_text
       @ sh_WideList_text)"
    using shapes_all [of nameOf] by (auto simp: emitsAll_def withTime_id [of nameOf, OF assms])
  let ?gf = "\<lparr>gfPackage = ''shapes'', gfCodecPkg = defaultCodecPkg, gfImportTime = True, gfImportUnsafe = True, gfCodecs = cs\<rparr>"
  have "pkgName (shapesGen False) = ''shapes''" "codecPkg (shapesGen False) = defaultCodecPkg"
    by (simp_all add: shapesGen_def defaultCodecPkg_def)
  then have "generate (shapesGen False) emit0 = Inr ?gf"
    unfolding generate_def cs by (simp add: emitAt_def)
  moreover have "sameText (headText (shapesGen False) ?gf) sh_head_text"
    using shapes_head by (simp add: headText_def)
  from sameText_append [OF this t] have "sameText (fileText nameOf (shapesGen False) ?gf) shapes_text"
    by (simp add: fileText_def shapes_text_def)
  ultimately show ?thesis by blast
qed

subsection \<open>Property\<close>

lemma written_eq:
  assumes "rFile (run w args) = Some (d, out, gf)" "parseFlags (tl args) defaultFlags = Inr f"
    and "load w d out (codecPkgPath w) (fSafe f) = Inr g"
  shows "written nameOf w args = Some (fileText nameOf g gf)"
  using assms by (simp add: written_def)

lemma shapes_run_fast:
  assumes "generate (shapesGen False) emit0 = Inr gf"
  shows "rFile (run shapesWorld [''goserdegen'']) = Some (''.'', ''goserde_gen.go'', gf)"
proof -
  have "validateOut ''goserde_gen.go'' = None" by code_simp
  moreover have "codecPkgPath shapesWorld = defaultCodecPkg" "WriteFile shapesWorld d n = None" for d n
    by (simp_all add: codecPkgPath_def shapesWorld_def)
  ultimately show ?thesis using assms shapes_load [of False] by (simp add: run_def) (simp add: defaultFlags_def)
qed

text \<open>C15: run as their \<open>go:generate\<close> lines say, the command writes the generated files that are in the
  repository: \<open>example/goserde_gen.go\<close>, \<open>test/data/safeshapes/goserde_gen.go\<close> (with \<open>-safe\<close>) and
  \<open>test/data/shapes/goserde_gen.go\<close>.  The text agrees character by character except for blanks and
  empty lines, whether or not an earlier output is in the directory; the command reports the number
  of codecs and exits with status 0.\<close>

theorem checked_in_text:
  assumes "nameOf ''time'' = ''time''"
  shows "(sees w d ''example.go'' exampleAst examplePkg \<longrightarrow>
      main w [cmd, ''-dir'', d, ''-out'', ''goserde_gen.go'']
        = (\<lparr>rErr = None, rOut = [Wrote d ''goserde_gen.go'' 2], rFile = Some (d, ''goserde_gen.go'', goserde_gen)\<rparr>, 0)
      \<and> (\<exists>ls. written nameOf w [cmd, ''-dir'', d, ''-out'', ''goserde_gen.go''] = Some ls \<and> sameText ls example_text))
   \<and> (sees w d ''types.go'' safeAst safePkg \<longrightarrow>
      main w [cmd, ''-dir'', d, ''-out'', ''goserde_gen.go'', ''-safe'']
        = (\<lparr>rErr = None, rOut = [Wrote d ''goserde_gen.go'' 7], rFile = Some (d, ''goserde_gen.go'', sf_goserde_gen)\<rparr>, 0)
      \<and> (\<exists>ls. written nameOf w [cmd, ''-dir'', d, ''-out'', ''goserde_gen.go'', ''-safe''] = Some ls
             \<and> sameText ls safeshapes_text))
   \<and> (sees w d ''types.go'' shapesFile shapesPkg \<longrightarrow>
      snd (main w [cmd, ''-dir'', d, ''-out'', ''goserde_gen.go'']) = 0
      \<and> rOut (fst (main w [cmd, ''-dir'', d, ''-out'', ''goserde_gen.go''])) = [Wrote d ''goserde_gen.go'' 18]
      \<and> (\<exists>ls. written nameOf w [cmd, ''-dir'', d, ''-out'', ''goserde_gen.go''] = Some ls \<and> sameText ls shapes_text))
   \<and> (\<exists>ls. written nameOf shapesWorld [''goserdegen''] = Some ls \<and> sameText ls shapes_text)"
proof (intro conjI impI)
  assume w: "sees w d ''example.go'' exampleAst examplePkg"
  from checked_in_files w
  show m: "main w [cmd, ''-dir'', d, ''-out'', ''goserde_gen.go''] = (\<lparr>rErr = None, rOut = [Wrote d ''goserde_gen.go'' 2],
      rFile = Some (d, ''goserde_gen.go'', goserde_gen)\<rparr>, 0)" by blast
  then have "rFile (run w [cmd, ''-dir'', d, ''-out'', ''goserde_gen.go'']) = Some (d, ''goserde_gen.go'', goserde_gen)"
    by (simp add: main_def Let_def)
  from written_eq [OF this] flags_read(1) example_load [OF w] example_text_written
  show "\<exists>ls. written nameOf w [cmd, ''-dir'', d, ''-out'', ''goserde_gen.go''] = Some ls \<and> sameText ls example_text"
    by (metis flags.select_convs(3) list.sel(3))
next
  assume w: "sees w d ''types.go'' safeAst safePkg"
  from checked_in_files w
  show m: "main w [cmd, ''-dir'', d, ''-out'', ''goserde_gen.go'', ''-safe''] = (\<lparr>rErr = None,
      rOut = [Wrote d ''goserde_gen.go'' 7], rFile = Some (d, ''goserde_gen.go'', sf_goserde_gen)\<rparr>, 0)" by blast
  then have "rFile (run w [cmd, ''-dir'', d, ''-out'', ''goserde_gen.go'', ''-safe'']) = Some (d, ''goserde_gen.go'', sf_goserde_gen)"
    by (simp add: main_def Let_def)
  from written_eq [OF this] flags_read(2) safe_load [OF w] safe_text_written
  show "\<exists>ls. written nameOf w [cmd, ''-dir'', d, ''-out'', ''goserde_gen.go'', ''-safe''] = Some ls \<and> sameText ls safeshapes_text"
    by (metis flags.select_convs(3) list.sel(3))
next
  assume w: "sees w d ''types.go'' shapesFile shapesPkg"
  let ?args = "[cmd, ''-dir'', d, ''-out'', ''goserde_gen.go'']"
  obtain gf where g: "generate (shapesGen False) emit0 = Inr gf" "sameText (fileText nameOf (shapesGen False) gf) shapes_text"
    using shapes_text_written [of nameOf, OF assms] by blast
  have o: "owned (shapesGen False) = []" "length (targets (shapesGen False)) = 18"
    by (simp_all add: shapesGen_def shapesDecls_def)
  have m: "main w ?args = (\<lparr>rErr = None, rOut = [Wrote d ''goserde_gen.go'' (length (targets (shapesGen False)))],
      rFile = Some (d, ''goserde_gen.go'', gf)\<rparr>, 0)"
    using w by (intro run_writes [OF flags_read(1) shapes_load_sees [OF w] g(1) o(1)]) (simp add: sees_def)
  then show "snd (main w ?args) = 0" "rOut (fst (main w ?args)) = [Wrote d ''goserde_gen.go'' 18]"
    using o(2) by simp_all
  from m have "rFile (run w ?args) = Some (d, ''goserde_gen.go'', gf)" by (simp add: main_def Let_def)
  from written_eq [OF this] flags_read(1) shapes_load_sees [OF w] g(2)
  show "\<exists>ls. written nameOf w ?args = Some ls \<and> sameText ls shapes_text"
    by (metis flags.select_convs(3) list.sel(3))
next
  obtain gf where "generate (shapesGen False) emit0 = Inr gf" "sameText (fileText nameOf (shapesGen False) gf) shapes_text"
    using shapes_text_written [of nameOf, OF assms] by blast
  moreover have "parseFlags (tl [''goserdegen'']) defaultFlags = Inr defaultFlags" "\<not> fSafe defaultFlags"
    by (simp_all add: defaultFlags_def)
  moreover have "codecPkgPath shapesWorld = defaultCodecPkg" by (simp add: codecPkgPath_def shapesWorld_def)
  ultimately show "\<exists>ls. written nameOf shapesWorld [''goserdegen''] = Some ls \<and> sameText ls shapes_text"
    using written_eq [OF shapes_run_fast] shapes_load [of False] by metis
qed

theorem checked_in_text_witness:
  "\<exists>ls. written id repoWorld [''goserdegen'', ''-dir'', ''safeshapes'', ''-out'', ''goserde_gen.go'', ''-safe''] = Some ls
     \<and> sameText ls safeshapes_text"
proof -
  have "sees repoWorld ''safeshapes'' ''types.go'' safeAst safePkg"
    by (simp add: sees_def repoWorld_def exampleAst_def safeAst_def codecPkgPath_def defaultCodecPkg_def ignored_def HasSuffix_def)
  then show ?thesis
    using checked_in_text [of id repoWorld "''safeshapes''" "''goserdegen''"] by simp
qed

end
