(* ===== verification/BenchMus.thy ===== *)
theory BenchMus
  imports RecordCodec "HOL-Library.Finite_Map"
begin

text \<open>
  The mus codecs of \<open>benchcompare\<close>.  The mus library is not in the repository: its serializers and
  serializer constructors are the parameter \<open>muslib\<close>, what its documentation promises of them the
  hypothesis \<open>musOK\<close>.  The codecs pass strings, slices and maps on to the library, so these are
  modelled by their contents; a map is a finite map, and the order in
  which the library ranges over it is part of the parameter.
\<close>

subsection \<open>Serializers\<close>

text \<open>A \<open>mus.Serializer\<close>: \<open>Marshal\<close> writes to the front of a buffer and returns a count, \<open>Unmarshal\<close>
  and \<open>Skip\<close> read from the front and return a count and an error.\<close>

record 'a ser =
  sSize :: "'a \<Rightarrow> int"
  sMarshal :: "'a \<Rightarrow> bytes \<Rightarrow> (bytes \<times> int) outcome"
  sUnmarshal :: "bytes \<Rightarrow> ('a \<times> int \<times> string option) outcome"
  sSkip :: "bytes \<Rightarrow> (int \<times> string option) outcome"

text \<open>\<open>n += s.Marshal(v, b[n:])\<close> on the buffer and the count.\<close>

definition mput :: "'a ser \<Rightarrow> 'a \<Rightarrow> bytes \<times> int \<Rightarrow> (bytes \<times> int) outcome" where
  "mput s v = (\<lambda>(b, n). obind (sliceFrom b n) (\<lambda>t. obind (sMarshal s v t) (\<lambda>(t', k).
     Ok (take (nat n) b @ t', n + k))))"

text \<open>\<open>s.Unmarshal(b[n:])\<close>.\<close>

definition mget :: "'a ser \<Rightarrow> bytes \<Rightarrow> int \<Rightarrow> ('a \<times> int \<times> string option) outcome" where
  "mget s b n = obind (sliceFrom b n) (sUnmarshal s)"

subsection \<open>The structs\<close>

record benchRecord =
  brID :: u64
  brScore :: float64
  brActive :: bool
  brName :: bytes
  brTags :: "u32 list"
  brBlob :: bytes

record smallFixedT = smA :: u32 smB :: u32 smC :: float64 smD :: bool
record flatMixedT = fmID :: u64 fmRatio :: float64 fmName :: bytes fmData :: bytes
record innerT = inX :: u32 inY :: u32
record nestedT = neLabel :: bytes nePos :: innerT neOpt :: "innerT option" nePath :: "innerT list"
record collectionT = coCounts :: "(bytes, u64) fmap" coFloats :: "float64 list" coNames :: "bytes list"
record stringT = shTitle :: bytes shBody :: bytes shTags :: "bytes list"

subsection \<open>The library\<close>

text \<open>The packages \<open>unsafe\<close>, \<open>raw\<close> and \<open>varint\<close> give serializers, \<open>ord\<close> constructs them.\<close>

record muslib =
  unsafeUint64 :: "u64 ser"
  unsafeFloat64 :: "float64 ser"
  unsafeBool :: "bool ser"
  unsafeString :: "bytes ser"
  unsafeByteSlice :: "bytes ser"
  unsafeInt32 :: "u32 ser"
  unsafeInt64 :: "u64 ser"
  rawUint64 :: "u64 ser"
  rawFloat64 :: "float64 ser"
  rawUint32 :: "u32 ser"
  varintUint32 :: "u32 ser"
  NewSliceSer_uint32 :: "u32 ser \<Rightarrow> u32 list ser"
  NewSliceSer_float64 :: "float64 ser \<Rightarrow> float64 list ser"
  NewSliceSer_string :: "bytes ser \<Rightarrow> bytes list ser"
  NewSliceSer_Inner :: "innerT ser \<Rightarrow> innerT list ser"
  NewPtrSer_Inner :: "innerT ser \<Rightarrow> innerT option ser"
  NewMapSer :: "bytes ser \<Rightarrow> u64 ser \<Rightarrow> (bytes, u64) fmap ser"

subsection \<open>Record\<close>

definition tagsSer :: "muslib \<Rightarrow> u32 list ser" where
  "tagsSer L = NewSliceSer_uint32 L (varintUint32 L)"

definition musSize :: "muslib \<Rightarrow> benchRecord \<Rightarrow> int" where
  "musSize L r = sSize (unsafeUint64 L) (brID r) + sSize (unsafeFloat64 L) (brScore r)
     + sSize (unsafeBool L) (brActive r) + sSize (unsafeString L) (brName r)
     + sSize (tagsSer L) (brTags r) + sSize (unsafeByteSlice L) (brBlob r)"

definition musMarshal :: "muslib \<Rightarrow> benchRecord \<Rightarrow> bytes \<Rightarrow> (bytes \<times> int) outcome" where
  "musMarshal L r b =
     obind (sMarshal (unsafeUint64 L) (brID r) b) (\<lambda>s.
     obind (mput (unsafeFloat64 L) (brScore r) s) (\<lambda>s.
     obind (mput (unsafeBool L) (brActive r) s) (\<lambda>s.
     obind (mput (unsafeString L) (brName r) s) (\<lambda>s.
     obind (mput (tagsSer L) (brTags r) s) (\<lambda>s.
     mput (unsafeByteSlice L) (brBlob r) s)))))"

text \<open>The error returned is that of the last field.\<close>

definition musUnmarshal :: "muslib \<Rightarrow> bytes \<Rightarrow> (benchRecord \<times> int \<times> string option) outcome" where
  "musUnmarshal L b =
     obind (sUnmarshal (unsafeUint64 L) b) (\<lambda>(id, n, err).
     obind (mget (unsafeFloat64 L) b n) (\<lambda>(score, c, err). let n = n + c in
     obind (mget (unsafeBool L) b n) (\<lambda>(active, c, err). let n = n + c in
     obind (mget (unsafeString L) b n) (\<lambda>(name, c, err). let n = n + c in
     obind (mget (tagsSer L) b n) (\<lambda>(tags, c, err). let n = n + c in
     obind (mget (unsafeByteSlice L) b n) (\<lambda>(blob, c, err). let n = n + c in
       Ok (\<lparr>brID = id, brScore = score, brActive = active, brName = name, brTags = tags, brBlob = blob\<rparr>,
           n, err)))))))"

text \<open>The fixed-width variant; it keeps the error of the first field only.\<close>

definition tagsRawSer :: "muslib \<Rightarrow> u32 list ser" where
  "tagsRawSer L = NewSliceSer_uint32 L (rawUint32 L)"

definition musRawSize :: "muslib \<Rightarrow> benchRecord \<Rightarrow> int" where
  "musRawSize L r = sSize (rawUint64 L) (brID r) + sSize (rawFloat64 L) (brScore r)
     + sSize (unsafeBool L) (brActive r) + sSize (unsafeString L) (brName r)
     + sSize (tagsRawSer L) (brTags r) + sSize (unsafeByteSlice L) (brBlob r)"

definition musRawMarshal :: "muslib \<Rightarrow> benchRecord \<Rightarrow> bytes \<Rightarrow> (bytes \<times> int) outcome" where
  "musRawMarshal L r b =
     obind (sMarshal (rawUint64 L) (brID r) b) (\<lambda>s.
     obind (mput (rawFloat64 L) (brScore r) s) (\<lambda>s.
     obind (mput (unsafeBool L) (brActive r) s) (\<lambda>s.
     obind (mput (unsafeString L) (brName r) s) (\<lambda>s.
     obind (mput (tagsRawSer L) (brTags r) s) (\<lambda>s.
     mput (unsafeByteSlice L) (brBlob r) s)))))"

definition musRawUnmarshal :: "muslib \<Rightarrow> bytes \<Rightarrow> (benchRecord \<times> int \<times> string option) outcome" where
  "musRawUnmarshal L b =
     obind (sUnmarshal (rawUint64 L) b) (\<lambda>(id, n, err).
     obind (mget (rawFloat64 L) b n) (\<lambda>(score, c, _). let n = n + c in
     obind (mget (unsafeBool L) b n) (\<lambda>(active, c, _). let n = n + c in
     obind (mget (unsafeString L) b n) (\<lambda>(name, c, _). let n = n + c in
     obind (mget (tagsRawSer L) b n) (\<lambda>(tags, c, _). let n = n + c in
     obind (mget (unsafeByteSlice L) b n) (\<lambda>(blob, c, _). let n = n + c in
       Ok (\<lparr>brID = id, brScore = score, brActive = active, brName = name, brTags = tags, brBlob = blob\<rparr>,
           n, err)))))))"

subsection \<open>The shapes\<close>

definition musSmallFixedSize :: "muslib \<Rightarrow> smallFixedT \<Rightarrow> int" where
  "musSmallFixedSize L v = sSize (unsafeInt32 L) (smA v) + sSize (unsafeInt32 L) (smB v)
     + sSize (unsafeFloat64 L) (smC v) + sSize (unsafeBool L) (smD v)"

definition musSmallFixedMarshal :: "muslib \<Rightarrow> smallFixedT \<Rightarrow> bytes \<Rightarrow> (bytes \<times> int) outcome" where
  "musSmallFixedMarshal L v b =
     obind (sMarshal (unsafeInt32 L) (smA v) b) (\<lambda>s.
     obind (mput (unsafeInt32 L) (smB v) s) (\<lambda>s.
     obind (mput (unsafeFloat64 L) (smC v) s) (\<lambda>s.
     mput (unsafeBool L) (smD v) s)))"

definition musSmallFixedUnmarshal :: "muslib \<Rightarrow> bytes \<Rightarrow> (smallFixedT \<times> int \<times> string option) outcome" where
  "musSmallFixedUnmarshal L b =
     obind (sUnmarshal (unsafeInt32 L) b) (\<lambda>(x, n, err).
     obind (mget (unsafeInt32 L) b n) (\<lambda>(y, c, err). let n = n + c in
     obind (mget (unsafeFloat64 L) b n) (\<lambda>(z, c, err). let n = n + c in
     obind (mget (unsafeBool L) b n) (\<lambda>(d, c, err). let n = n + c in
       Ok (\<lparr>smA = x, smB = y, smC = z, smD = d\<rparr>, n, err)))))"

definition musFlatMixedSize :: "muslib \<Rightarrow> flatMixedT \<Rightarrow> int" where
  "musFlatMixedSize L v = sSize (unsafeUint64 L) (fmID v) + sSize (unsafeFloat64 L) (fmRatio v)
     + sSize (unsafeString L) (fmName v) + sSize (unsafeByteSlice L) (fmData v)"

definition musFlatMixedMarshal :: "muslib \<Rightarrow> flatMixedT \<Rightarrow> bytes \<Rightarrow> (bytes \<times> int) outcome" where
  "musFlatMixedMarshal L v b =
     obind (sMarshal (unsafeUint64 L) (fmID v) b) (\<lambda>s.
     obind (mput (unsafeFloat64 L) (fmRatio v) s) (\<lambda>s.
     obind (mput (unsafeString L) (fmName v) s) (\<lambda>s.
     mput (unsafeByteSlice L) (fmData v) s)))"

definition musFlatMixedUnmarshal :: "muslib \<Rightarrow> bytes \<Rightarrow> (flatMixedT \<times> int \<times> string option) outcome" where
  "musFlatMixedUnmarshal L b =
     obind (sUnmarshal (unsafeUint64 L) b) (\<lambda>(id, n, err).
     obind (mget (unsafeFloat64 L) b n) (\<lambda>(ratio, c, err). let n = n + c in
     obind (mget (unsafeString L) b n) (\<lambda>(name, c, err). let n = n + c in
     obind (mget (unsafeByteSlice L) b n) (\<lambda>(d, c, err). let n = n + c in
       Ok (\<lparr>fmID = id, fmRatio = ratio, fmName = name, fmData = d\<rparr>, n, err)))))"

text \<open>The methods of \<open>innerSer\<close>, which implements the interface for \<open>Inner\<close>.\<close>

definition innerSer_Marshal :: "muslib \<Rightarrow> innerT \<Rightarrow> bytes \<Rightarrow> (bytes \<times> int) outcome" where
  "innerSer_Marshal L v b =
     obind (sMarshal (unsafeInt32 L) (inX v) b) (mput (unsafeInt32 L) (inY v))"

definition innerSer_Unmarshal :: "muslib \<Rightarrow> bytes \<Rightarrow> (innerT \<times> int \<times> string option) outcome" where
  "innerSer_Unmarshal L b =
     obind (sUnmarshal (unsafeInt32 L) b) (\<lambda>(x, n, err).
     obind (mget (unsafeInt32 L) b n) (\<lambda>(y, c, err).
       Ok (\<lparr>inX = x, inY = y\<rparr>, n + c, err)))"

definition innerSer_Size :: "muslib \<Rightarrow> innerT \<Rightarrow> int" where
  "innerSer_Size L v = sSize (unsafeInt32 L) (inX v) + sSize (unsafeInt32 L) (inY v)"

definition innerSer_Skip :: "muslib \<Rightarrow> bytes \<Rightarrow> (int \<times> string option) outcome" where
  "innerSer_Skip L b =
     obind (sSkip (unsafeInt32 L) b) (\<lambda>(n, err).
       if err \<noteq> None then Ok (n, err)
       else obind (obind (sliceFrom b n) (sSkip (unsafeInt32 L))) (\<lambda>(c, err). Ok (n + c, err)))"

definition innerSer :: "muslib \<Rightarrow> innerT ser" where
  "innerSer L = \<lparr>sSize = innerSer_Size L, sMarshal = innerSer_Marshal L,
     sUnmarshal = innerSer_Unmarshal L, sSkip = innerSer_Skip L\<rparr>"

definition musInnerPtrSer :: "muslib \<Rightarrow> innerT option ser" where
  "musInnerPtrSer L = NewPtrSer_Inner L (innerSer L)"

definition musInnerSliceSer :: "muslib \<Rightarrow> innerT list ser" where
  "musInnerSliceSer L = NewSliceSer_Inner L (innerSer L)"

definition musNestedSize :: "muslib \<Rightarrow> nestedT \<Rightarrow> int" where
  "musNestedSize L v = sSize (unsafeString L) (neLabel v) + innerSer_Size L (nePos v)
     + sSize (musInnerPtrSer L) (neOpt v) + sSize (musInnerSliceSer L) (nePath v)"

definition musNestedMarshal :: "muslib \<Rightarrow> nestedT \<Rightarrow> bytes \<Rightarrow> (bytes \<times> int) outcome" where
  "musNestedMarshal L v b =
     obind (sMarshal (unsafeString L) (neLabel v) b) (\<lambda>s.
     obind (mput (innerSer L) (nePos v) s) (\<lambda>s.
     obind (mput (musInnerPtrSer L) (neOpt v) s) (\<lambda>s.
     mput (musInnerSliceSer L) (nePath v) s)))"

definition musNestedUnmarshal :: "muslib \<Rightarrow> bytes \<Rightarrow> (nestedT \<times> int \<times> string option) outcome" where
  "musNestedUnmarshal L b =
     obind (sUnmarshal (unsafeString L) b) (\<lambda>(label, n, err).
     obind (mget (innerSer L) b n) (\<lambda>(pos, c, err). let n = n + c in
     obind (mget (musInnerPtrSer L) b n) (\<lambda>(opt, c, err). let n = n + c in
     obind (mget (musInnerSliceSer L) b n) (\<lambda>(path, c, err). let n = n + c in
       Ok (\<lparr>neLabel = label, nePos = pos, neOpt = opt, nePath = path\<rparr>, n, err)))))"

definition musCountsSer :: "muslib \<Rightarrow> (bytes, u64) fmap ser" where
  "musCountsSer L = NewMapSer L (unsafeString L) (unsafeInt64 L)"

definition musFloatsSer :: "muslib \<Rightarrow> float64 list ser" where
  "musFloatsSer L = NewSliceSer_float64 L (unsafeFloat64 L)"

definition musNamesSer :: "muslib \<Rightarrow> bytes list ser" where
  "musNamesSer L = NewSliceSer_string L (unsafeString L)"

definition musCollectionSize :: "muslib \<Rightarrow> collectionT \<Rightarrow> int" where
  "musCollectionSize L v = sSize (musCountsSer L) (coCounts v) + sSize (musFloatsSer L) (coFloats v)
     + sSize (musNamesSer L) (coNames v)"

definition musCollectionMarshal :: "muslib \<Rightarrow> collectionT \<Rightarrow> bytes \<Rightarrow> (bytes \<times> int) outcome" where
  "musCollectionMarshal L v b =
     obind (sMarshal (musCountsSer L) (coCounts v) b) (\<lambda>s.
     obind (mput (musFloatsSer L) (coFloats v) s) (\<lambda>s.
     mput (musNamesSer L) (coNames v) s))"

definition musCollectionUnmarshal :: "muslib \<Rightarrow> bytes \<Rightarrow> (collectionT \<times> int \<times> string option) outcome" where
  "musCollectionUnmarshal L b =
     obind (sUnmarshal (musCountsSer L) b) (\<lambda>(counts, n, err).
     obind (mget (musFloatsSer L) b n) (\<lambda>(floats, c, err). let n = n + c in
     obind (mget (musNamesSer L) b n) (\<lambda>(names, c, err). let n = n + c in
       Ok (\<lparr>coCounts = counts, coFloats = floats, coNames = names\<rparr>, n, err))))"

definition musStringHeavySize :: "muslib \<Rightarrow> stringT \<Rightarrow> int" where
  "musStringHeavySize L v = sSize (unsafeString L) (shTitle v) + sSize (unsafeString L) (shBody v)
     + sSize (musNamesSer L) (shTags v)"

definition musStringHeavyMarshal :: "muslib \<Rightarrow> stringT \<Rightarrow> bytes \<Rightarrow> (bytes \<times> int) outcome" where
  "musStringHeavyMarshal L v b =
     obind (sMarshal (unsafeString L) (shTitle v) b) (\<lambda>s.
     obind (mput (unsafeString L) (shBody v) s) (\<lambda>s.
     mput (musNamesSer L) (shTags v) s))"

definition musStringHeavyUnmarshal :: "muslib \<Rightarrow> bytes \<Rightarrow> (stringT \<times> int \<times> string option) outcome" where
  "musStringHeavyUnmarshal L b =
     obind (sUnmarshal (unsafeString L) b) (\<lambda>(title, n, err).
     obind (mget (unsafeString L) b n) (\<lambda>(body, c, err). let n = n + c in
     obind (mget (musNamesSer L) b n) (\<lambda>(tags, c, err). let n = n + c in
       Ok (\<lparr>shTitle = title, shBody = body, shTags = tags\<rparr>, n, err))))"

subsection \<open>What the library promises\<close>

text \<open>The encoding a serializer produces, read off a buffer of zeros of the right size.\<close>

definition encOf :: "'a ser \<Rightarrow> 'a \<Rightarrow> bytes" where
  "encOf s v = (case sMarshal s v (replicate (nat (sSize s v)) 0) of Ok (b, k) \<Rightarrow> b | _ \<Rightarrow> [])"

text \<open>The contract of \<open>mus.Serializer\<close>: \<open>Size\<close> is the length of the encoding, \<open>Marshal\<close> writes it to
  the front of a large enough buffer, \<open>Unmarshal\<close> and \<open>Skip\<close> read it whatever follows.\<close>

definition codes :: "('a \<Rightarrow> bytes) \<Rightarrow> ('a \<Rightarrow> int) \<Rightarrow> ('a \<Rightarrow> bytes \<Rightarrow> (bytes \<times> int) outcome)
    \<Rightarrow> (bytes \<Rightarrow> ('a \<times> int \<times> string option) outcome) \<Rightarrow> bool" where
  "codes w sz ma un \<longleftrightarrow> (\<forall>v b r. sz v = int (length (w v))
     \<and> (length (w v) \<le> length b \<longrightarrow> ma v b = Ok (splice 0 (w v) b, int (length (w v))))
     \<and> un (w v @ r) = Ok (v, int (length (w v)), None))"

definition lawful :: "'a ser \<Rightarrow> bool" where
  "lawful s \<longleftrightarrow> codes (encOf s) (sSize s) (sMarshal s) (sUnmarshal s)
     \<and> (\<forall>v r. sSkip s (encOf s v @ r) = Ok (int (length (encOf s v)), None))"

definition musOK :: "muslib \<Rightarrow> bool" where
  "musOK L \<longleftrightarrow> lawful (unsafeUint64 L) \<and> lawful (unsafeFloat64 L) \<and> lawful (unsafeBool L)
     \<and> lawful (unsafeString L) \<and> lawful (unsafeByteSlice L) \<and> lawful (unsafeInt32 L) \<and> lawful (unsafeInt64 L)
     \<and> lawful (rawUint64 L) \<and> lawful (rawFloat64 L) \<and> lawful (rawUint32 L) \<and> lawful (varintUint32 L)
     \<and> (\<forall>s. lawful s \<longrightarrow> lawful (NewSliceSer_uint32 L s)) \<and> (\<forall>s. lawful s \<longrightarrow> lawful (NewSliceSer_float64 L s))
     \<and> (\<forall>s. lawful s \<longrightarrow> lawful (NewSliceSer_string L s)) \<and> (\<forall>s. lawful s \<longrightarrow> lawful (NewSliceSer_Inner L s))
     \<and> (\<forall>s. lawful s \<longrightarrow> lawful (NewPtrSer_Inner L s))
     \<and> (\<forall>s t. lawful s \<longrightarrow> lawful t \<longrightarrow> lawful (NewMapSer L s t))"

subsection \<open>Composition\<close>

text \<open>A buffer whose front holds what has been written, with the count.\<close>

definition wrote :: "bytes \<Rightarrow> bytes \<Rightarrow> bytes \<times> int" where
  "wrote w b = (splice 0 w b, int (length w))"

lemma codes_iff: "codes w sz ma un \<longleftrightarrow> (\<forall>v b r. sz v = int (length (w v))
     \<and> (length (w v) \<le> length b \<longrightarrow> ma v b = Ok (wrote (w v) b)) \<and> un (w v @ r) = Ok (v, int (length (w v)), None))"
  by (simp add: codes_def wrote_def)

lemma lawful_size: "lawful s \<Longrightarrow> sSize s v = int (length (encOf s v))"
  by (simp add: lawful_def codes_def)

lemma lawful_marshal:
  "lawful s \<Longrightarrow> length (encOf s v) \<le> length b \<Longrightarrow> sMarshal s v b = Ok (wrote (encOf s v) b)"
  by (simp add: lawful_def codes_def wrote_def)

lemma lawful_mput:
  assumes "lawful s" "length w + length (encOf s v) \<le> length b"
  shows "mput s v (wrote w b) = Ok (wrote (w @ encOf s v) b)"
proof -
  have "take (length w) (splice 0 w b) @ splice 0 (encOf s v) (drop (length w) (splice 0 w b)) = splice 0 (w @ encOf s v) b"
    using assms(2) splice_drop [of "length w" "splice 0 w b" "encOf s v"] splice_splice [of 0 w "encOf s v" b] by simp
  then show ?thesis
    using assms lawful_marshal [OF assms(1), of v "drop (length w) (splice 0 w b)"]
    by (simp add: mput_def wrote_def sliceFrom_def)
qed

lemma lawful_unmarshal: "lawful s \<Longrightarrow> sUnmarshal s (encOf s v @ r) = Ok (v, int (length (encOf s v)), None)"
  by (simp add: lawful_def codes_def)

lemma lawful_mget:
  "lawful s \<Longrightarrow> sliceFrom b n = Ok (encOf s v @ r) \<Longrightarrow> mget s b n = Ok (v, int (length (encOf s v)), None)"
  by (simp add: mget_def lawful_unmarshal)

lemma lawfulI:
  assumes "codes w (sSize s) (sMarshal s) (sUnmarshal s)" "\<And>v r. sSkip s (w v @ r) = Ok (int (length (w v)), None)"
  shows "lawful s" and "encOf s = w"
proof -
  have "encOf s v = w v" for v
    using assms(1) by (simp add: codes_def encOf_def splice_whole)
  then show "encOf s = w" by blast
  then show "lawful s" using assms by (simp add: lawful_def)
qed

lemmas lawful_laws = lawful_size lawful_marshal lawful_mput

lemma slice_after [simp]:
  "sliceFrom (w @ b) (int (length w)) = Ok b"
  "k \<le> length b \<Longrightarrow> sliceFrom (w @ b) (int (length w) + int k) = sliceFrom b (int k)"
  by (auto simp: sliceFrom_def nat_add_distrib)

text \<open>The serializers the codecs use are lawful, the one for \<open>Inner\<close> among them.\<close>

lemma lawful_innerSer:
  assumes "musOK L"
  shows "lawful (innerSer L)"
proof -
  have l: "lawful (unsafeInt32 L)" using assms by (simp add: musOK_def)
  then have k: "sSkip (unsafeInt32 L) (encOf (unsafeInt32 L) v @ r) = Ok (int (length (encOf (unsafeInt32 L) v)), None)" for v r
    by (simp add: lawful_def)
  let ?w = "\<lambda>v. encOf (unsafeInt32 L) (inX v) @ encOf (unsafeInt32 L) (inY v)"
  have "codes ?w (sSize (innerSer L)) (sMarshal (innerSer L)) (sUnmarshal (innerSer L))"
    using l by (simp add: codes_iff innerSer_def innerSer_Size_def innerSer_Marshal_def innerSer_Unmarshal_def
        lawful_laws lawful_unmarshal mget_def)
  moreover have "sSkip (innerSer L) (?w v @ r) = Ok (int (length (?w v)), None)" for v r
    using k by (simp add: innerSer_def innerSer_Skip_def)
  ultimately show ?thesis by (rule lawfulI)
qed

lemma musOK_sers:
  assumes "musOK L"
  shows "lawful (unsafeUint64 L)" "lawful (unsafeFloat64 L)" "lawful (unsafeBool L)" "lawful (unsafeString L)"
    "lawful (unsafeByteSlice L)" "lawful (unsafeInt32 L)" "lawful (rawUint64 L)" "lawful (rawFloat64 L)"
    "lawful (tagsSer L)" "lawful (tagsRawSer L)" "lawful (musInnerPtrSer L)" "lawful (musInnerSliceSer L)"
    "lawful (musCountsSer L)" "lawful (musFloatsSer L)" "lawful (musNamesSer L)"
  using assms lawful_innerSer [OF assms]
  by (simp_all add: musOK_def tagsSer_def tagsRawSer_def musInnerPtrSer_def musInnerSliceSer_def
      musCountsSer_def musFloatsSer_def musNamesSer_def)

lemmas mus_steps = codes_iff lawful_laws lawful_unmarshal mget_def sliceFrom_def nat_add_distrib Let_def

lemma codes_musRecord:
  assumes "musOK L"
  shows "\<exists>w. codes w (musSize L) (musMarshal L) (musUnmarshal L)"
    and "\<exists>w. codes w (musRawSize L) (musRawMarshal L) (musRawUnmarshal L)"
proof -
  note l = musOK_sers [OF assms]
  have "codes (\<lambda>r. encOf (unsafeUint64 L) (brID r) @ encOf (unsafeFloat64 L) (brScore r) @ encOf (unsafeBool L) (brActive r)
      @ encOf (unsafeString L) (brName r) @ encOf (tagsSer L) (brTags r) @ encOf (unsafeByteSlice L) (brBlob r))
      (musSize L) (musMarshal L) (musUnmarshal L)"
    using l by (simp add: mus_steps musSize_def musMarshal_def musUnmarshal_def)
  then show "\<exists>w. codes w (musSize L) (musMarshal L) (musUnmarshal L)" by blast
  have "codes (\<lambda>r. encOf (rawUint64 L) (brID r) @ encOf (rawFloat64 L) (brScore r) @ encOf (unsafeBool L) (brActive r)
      @ encOf (unsafeString L) (brName r) @ encOf (tagsRawSer L) (brTags r) @ encOf (unsafeByteSlice L) (brBlob r))
      (musRawSize L) (musRawMarshal L) (musRawUnmarshal L)"
    using l by (simp add: mus_steps musRawSize_def musRawMarshal_def musRawUnmarshal_def)
  then show "\<exists>w. codes w (musRawSize L) (musRawMarshal L) (musRawUnmarshal L)" by blast
qed

lemma codes_musShapes:
  assumes "musOK L"
  shows "\<exists>w. codes w (musSmallFixedSize L) (musSmallFixedMarshal L) (musSmallFixedUnmarshal L)"
    and "\<exists>w. codes w (musFlatMixedSize L) (musFlatMixedMarshal L) (musFlatMixedUnmarshal L)"
    and "\<exists>w. codes w (musNestedSize L) (musNestedMarshal L) (musNestedUnmarshal L)"
    and "\<exists>w. codes w (musCollectionSize L) (musCollectionMarshal L) (musCollectionUnmarshal L)"
    and "\<exists>w. codes w (musStringHeavySize L) (musStringHeavyMarshal L) (musStringHeavyUnmarshal L)"
proof -
  note l = musOK_sers [OF assms] lawful_innerSer [OF assms]
  have "codes (\<lambda>v. encOf (unsafeInt32 L) (smA v) @ encOf (unsafeInt32 L) (smB v) @ encOf (unsafeFloat64 L) (smC v)
      @ encOf (unsafeBool L) (smD v)) (musSmallFixedSize L) (musSmallFixedMarshal L) (musSmallFixedUnmarshal L)"
    using l by (simp add: mus_steps musSmallFixedSize_def musSmallFixedMarshal_def musSmallFixedUnmarshal_def)
  then show "\<exists>w. codes w (musSmallFixedSize L) (musSmallFixedMarshal L) (musSmallFixedUnmarshal L)" by blast
  have "codes (\<lambda>v. encOf (unsafeUint64 L) (fmID v) @ encOf (unsafeFloat64 L) (fmRatio v) @ encOf (unsafeString L) (fmName v)
      @ encOf (unsafeByteSlice L) (fmData v)) (musFlatMixedSize L) (musFlatMixedMarshal L) (musFlatMixedUnmarshal L)"
    using l by (simp add: mus_steps musFlatMixedSize_def musFlatMixedMarshal_def musFlatMixedUnmarshal_def)
  then show "\<exists>w. codes w (musFlatMixedSize L) (musFlatMixedMarshal L) (musFlatMixedUnmarshal L)" by blast
  have "innerSer_Size L x = int (length (encOf (innerSer L) x))" for x
    using lawful_size [OF l(16)] by (simp add: innerSer_def)
  then have "codes (\<lambda>v. encOf (unsafeString L) (neLabel v) @ encOf (innerSer L) (nePos v) @ encOf (musInnerPtrSer L) (neOpt v)
      @ encOf (musInnerSliceSer L) (nePath v)) (musNestedSize L) (musNestedMarshal L) (musNestedUnmarshal L)"
    using l by (simp add: mus_steps musNestedSize_def musNestedMarshal_def musNestedUnmarshal_def)
  then show "\<exists>w. codes w (musNestedSize L) (musNestedMarshal L) (musNestedUnmarshal L)" by blast
  have "codes (\<lambda>v. encOf (musCountsSer L) (coCounts v) @ encOf (musFloatsSer L) (coFloats v) @ encOf (musNamesSer L) (coNames v))
      (musCollectionSize L) (musCollectionMarshal L) (musCollectionUnmarshal L)"
    using l by (simp add: mus_steps musCollectionSize_def musCollectionMarshal_def musCollectionUnmarshal_def)
  then show "\<exists>w. codes w (musCollectionSize L) (musCollectionMarshal L) (musCollectionUnmarshal L)" by blast
  have "codes (\<lambda>v. encOf (unsafeString L) (shTitle v) @ encOf (unsafeString L) (shBody v) @ encOf (musNamesSer L) (shTags v))
      (musStringHeavySize L) (musStringHeavyMarshal L) (musStringHeavyUnmarshal L)"
    using l by (simp add: mus_steps musStringHeavySize_def musStringHeavyMarshal_def musStringHeavyUnmarshal_def)
  then show "\<exists>w. codes w (musStringHeavySize L) (musStringHeavyMarshal L) (musStringHeavyUnmarshal L)" by blast
qed

end
