(* ===== verification/BenchBenc.thy ===== *)
theory BenchBenc
  imports BenchMus
begin

text \<open>
  The benc codecs of \<open>benchcompare\<close>.  The functions of benc's package \<open>bstd\<close> are the parameter
  \<open>bstd\<close>, what they are documented to do the hypothesis \<open>bstdOK\<close>.
\<close>

subsection \<open>Writing and reading at a position\<close>

text \<open>A marshal function writes a value at a position of a buffer and returns the position behind it;
  an unmarshal function returns the position behind the value, the value and an error.\<close>

type_synonym 'a bmar = "int \<Rightarrow> bytes \<Rightarrow> 'a \<Rightarrow> (bytes \<times> int) outcome"
type_synonym 'a bun = "int \<Rightarrow> bytes \<Rightarrow> (int \<times> 'a \<times> string option) outcome"

definition bput :: "'a bmar \<Rightarrow> 'a \<Rightarrow> bytes \<times> int \<Rightarrow> (bytes \<times> int) outcome" where
  "bput ma v s = ma (snd s) (fst s) v"

definition bget :: "'a bun \<Rightarrow> int \<times> bytes \<Rightarrow> ((int \<times> bytes) \<times> 'a \<times> string option) outcome" where
  "bget un s = obind (un (fst s) (snd s)) (\<lambda>(n, v, err). Ok ((n, snd s), v, err))"

subsection \<open>The library\<close>

record bstd =
  SizeUint64 :: int
  MarshalUint64 :: "u64 bmar"
  UnmarshalUint64 :: "u64 bun"
  SizeFloat64 :: int
  MarshalFloat64 :: "float64 bmar"
  UnmarshalFloat64 :: "float64 bun"
  SizeBool :: int
  MarshalBool :: "bool bmar"
  UnmarshalBool :: "bool bun"
  SizeInt32 :: int
  MarshalInt32 :: "u32 bmar"
  UnmarshalInt32 :: "u32 bun"
  SizeInt64 :: int
  MarshalInt64 :: "u64 bmar"
  UnmarshalInt64 :: "u64 bun"
  MarshalUint32 :: "u32 bmar"
  UnmarshalUint32 :: "u32 bun"
  SizeString :: "bytes \<Rightarrow> int"
  MarshalString :: "bytes bmar"
  UnmarshalUnsafeString :: "bytes bun"
  SizeBytes :: "bytes \<Rightarrow> int"
  MarshalBytes :: "bytes bmar"
  UnmarshalBytesCropped :: "bytes bun"
  SizeFixedSlice_uint32 :: "u32 list \<Rightarrow> int \<Rightarrow> int"
  MarshalSlice_uint32 :: "int \<Rightarrow> bytes \<Rightarrow> u32 list \<Rightarrow> u32 bmar \<Rightarrow> (bytes \<times> int) outcome"
  UnmarshalSlice_uint32 :: "int \<Rightarrow> bytes \<Rightarrow> u32 bun \<Rightarrow> (int \<times> u32 list \<times> string option) outcome"
  SizeFixedSlice_float64 :: "float64 list \<Rightarrow> int \<Rightarrow> int"
  MarshalSlice_float64 :: "int \<Rightarrow> bytes \<Rightarrow> float64 list \<Rightarrow> float64 bmar \<Rightarrow> (bytes \<times> int) outcome"
  UnmarshalSlice_float64 :: "int \<Rightarrow> bytes \<Rightarrow> float64 bun \<Rightarrow> (int \<times> float64 list \<times> string option) outcome"
  SizeFixedSlice_Inner :: "innerT list \<Rightarrow> int \<Rightarrow> int"
  MarshalSlice_Inner :: "int \<Rightarrow> bytes \<Rightarrow> innerT list \<Rightarrow> innerT bmar \<Rightarrow> (bytes \<times> int) outcome"
  UnmarshalSlice_Inner :: "int \<Rightarrow> bytes \<Rightarrow> innerT bun \<Rightarrow> (int \<times> innerT list \<times> string option) outcome"
  SizeSlice_string :: "bytes list \<Rightarrow> (bytes \<Rightarrow> int) \<Rightarrow> int"
  MarshalSlice_string :: "int \<Rightarrow> bytes \<Rightarrow> bytes list \<Rightarrow> bytes bmar \<Rightarrow> (bytes \<times> int) outcome"
  UnmarshalSlice_string :: "int \<Rightarrow> bytes \<Rightarrow> bytes bun \<Rightarrow> (int \<times> bytes list \<times> string option) outcome"
  SizeMap :: "(bytes, u64) fmap \<Rightarrow> (bytes \<Rightarrow> int) \<Rightarrow> int \<Rightarrow> int"
  MarshalMap :: "int \<Rightarrow> bytes \<Rightarrow> (bytes, u64) fmap \<Rightarrow> bytes bmar \<Rightarrow> u64 bmar \<Rightarrow> (bytes \<times> int) outcome"
  UnmarshalMap :: "int \<Rightarrow> bytes \<Rightarrow> bytes bun \<Rightarrow> u64 bun \<Rightarrow> (int \<times> (bytes, u64) fmap \<times> string option) outcome"

subsection \<open>Record\<close>

definition bencSize :: "bstd \<Rightarrow> benchRecord \<Rightarrow> int" where
  "bencSize L r = SizeUint64 L + SizeFloat64 L + SizeBool L + SizeString L (brName r)
     + SizeFixedSlice_uint32 L (brTags r) 4 + SizeBytes L (brBlob r)"

definition bencMarshal :: "bstd \<Rightarrow> benchRecord \<Rightarrow> bytes \<Rightarrow> (bytes \<times> int) outcome" where
  "bencMarshal L r b =
     obind (bput (MarshalUint64 L) (brID r) (b, 0)) (\<lambda>s.
     obind (bput (MarshalFloat64 L) (brScore r) s) (\<lambda>s.
     obind (bput (MarshalBool L) (brActive r) s) (\<lambda>s.
     obind (bput (MarshalString L) (brName r) s) (\<lambda>s.
     obind (bput (\<lambda>n b v. MarshalSlice_uint32 L n b v (MarshalUint32 L)) (brTags r) s) (\<lambda>s.
     bput (MarshalBytes L) (brBlob r) s)))))"

definition record_zero :: benchRecord where
  "record_zero = \<lparr>brID = 0, brScore = 0, brActive = False, brName = [], brTags = [], brBlob = []\<rparr>"

text \<open>Each error returns at once, with the fields read so far.\<close>

definition bencUnmarshal :: "bstd \<Rightarrow> bytes \<Rightarrow> (benchRecord \<times> string option) outcome" where
  "bencUnmarshal L b = (let r = record_zero in
     obind (bget (UnmarshalUint64 L) (0, b)) (\<lambda>(s, id, err). if err \<noteq> None then Ok (r, err) else let r = r\<lparr>brID := id\<rparr> in
     obind (bget (UnmarshalFloat64 L) s) (\<lambda>(s, sc, err). if err \<noteq> None then Ok (r, err) else let r = r\<lparr>brScore := sc\<rparr> in
     obind (bget (UnmarshalBool L) s) (\<lambda>(s, ac, err). if err \<noteq> None then Ok (r, err) else let r = r\<lparr>brActive := ac\<rparr> in
     obind (bget (UnmarshalUnsafeString L) s) (\<lambda>(s, nm, err). if err \<noteq> None then Ok (r, err) else let r = r\<lparr>brName := nm\<rparr> in
     obind (bget (\<lambda>n b. UnmarshalSlice_uint32 L n b (UnmarshalUint32 L)) s) (\<lambda>(s, tags, err).
       if err \<noteq> None then Ok (r, err) else let r = r\<lparr>brTags := tags\<rparr> in
     obind (bget (UnmarshalBytesCropped L) s) (\<lambda>(s, blob, err). if err \<noteq> None then Ok (r, err) else
       Ok (r\<lparr>brBlob := blob\<rparr>, err))))))))"

subsection \<open>The shapes\<close>

definition bencSmallFixedSize :: "bstd \<Rightarrow> smallFixedT \<Rightarrow> int" where
  "bencSmallFixedSize L v = SizeInt32 L + SizeInt32 L + SizeFloat64 L + SizeBool L"

definition bencSmallFixedMarshal :: "bstd \<Rightarrow> smallFixedT \<Rightarrow> bytes \<Rightarrow> (bytes \<times> int) outcome" where
  "bencSmallFixedMarshal L v b =
     obind (bput (MarshalInt32 L) (smA v) (b, 0)) (\<lambda>s.
     obind (bput (MarshalInt32 L) (smB v) s) (\<lambda>s.
     obind (bput (MarshalFloat64 L) (smC v) s) (\<lambda>s.
     bput (MarshalBool L) (smD v) s)))"

definition smallFixed_zero :: smallFixedT where
  "smallFixed_zero = \<lparr>smA = 0, smB = 0, smC = 0, smD = False\<rparr>"

definition bencSmallFixedUnmarshal :: "bstd \<Rightarrow> bytes \<Rightarrow> (smallFixedT \<times> string option) outcome" where
  "bencSmallFixedUnmarshal L b = (let v = smallFixed_zero in
     obind (bget (UnmarshalInt32 L) (0, b)) (\<lambda>(s, a, err). if err \<noteq> None then Ok (v, err) else let v = v\<lparr>smA := a\<rparr> in
     obind (bget (UnmarshalInt32 L) s) (\<lambda>(s, x, err). let v = v\<lparr>smB := x\<rparr> in if err \<noteq> None then Ok (v, err) else
     obind (bget (UnmarshalFloat64 L) s) (\<lambda>(s, x, err). let v = v\<lparr>smC := x\<rparr> in if err \<noteq> None then Ok (v, err) else
     obind (bget (UnmarshalBool L) s) (\<lambda>(s, x, err). Ok (v\<lparr>smD := x\<rparr>, err))))))"

definition bencFlatMixedSize :: "bstd \<Rightarrow> flatMixedT \<Rightarrow> int" where
  "bencFlatMixedSize L v = SizeUint64 L + SizeFloat64 L + SizeString L (fmName v) + SizeBytes L (fmData v)"

definition bencFlatMixedMarshal :: "bstd \<Rightarrow> flatMixedT \<Rightarrow> bytes \<Rightarrow> (bytes \<times> int) outcome" where
  "bencFlatMixedMarshal L v b =
     obind (bput (MarshalUint64 L) (fmID v) (b, 0)) (\<lambda>s.
     obind (bput (MarshalFloat64 L) (fmRatio v) s) (\<lambda>s.
     obind (bput (MarshalString L) (fmName v) s) (\<lambda>s.
     bput (MarshalBytes L) (fmData v) s)))"

definition flatMixed_zero :: flatMixedT where
  "flatMixed_zero = \<lparr>fmID = 0, fmRatio = 0, fmName = [], fmData = []\<rparr>"

definition bencFlatMixedUnmarshal :: "bstd \<Rightarrow> bytes \<Rightarrow> (flatMixedT \<times> string option) outcome" where
  "bencFlatMixedUnmarshal L b = (let v = flatMixed_zero in
     obind (bget (UnmarshalUint64 L) (0, b)) (\<lambda>(s, id, err). if err \<noteq> None then Ok (v, err) else let v = v\<lparr>fmID := id\<rparr> in
     obind (bget (UnmarshalFloat64 L) s) (\<lambda>(s, x, err). let v = v\<lparr>fmRatio := x\<rparr> in if err \<noteq> None then Ok (v, err) else
     obind (bget (UnmarshalUnsafeString L) s) (\<lambda>(s, x, err). let v = v\<lparr>fmName := x\<rparr> in if err \<noteq> None then Ok (v, err) else
     obind (bget (UnmarshalBytesCropped L) s) (\<lambda>(s, x, err). Ok (v\<lparr>fmData := x\<rparr>, err))))))"

definition bencInnerSize :: "bstd \<Rightarrow> int" where
  "bencInnerSize L = SizeInt32 L + SizeInt32 L"

definition bencInnerMarshal :: "bstd \<Rightarrow> innerT bmar" where
  "bencInnerMarshal L n b v =
     obind (bput (MarshalInt32 L) (inX v) (b, n)) (bput (MarshalInt32 L) (inY v))"

definition inner_zero :: innerT where
  "inner_zero = \<lparr>inX = 0, inY = 0\<rparr>"

definition bencInnerUnmarshal :: "bstd \<Rightarrow> innerT bun" where
  "bencInnerUnmarshal L n b = (let v = inner_zero in
     obind (bget (UnmarshalInt32 L) (n, b)) (\<lambda>(s, x, err). if err \<noteq> None then Ok (fst s, v, err) else let v = v\<lparr>inX := x\<rparr> in
     obind (bget (UnmarshalInt32 L) s) (\<lambda>(s, y, err). Ok (fst s, v\<lparr>inY := y\<rparr>, err))))"

definition bencNestedSize :: "bstd \<Rightarrow> nestedT \<Rightarrow> int" where
  "bencNestedSize L v =
     (let s = SizeString L (neLabel v) + bencInnerSize L;
          s = s + SizeBool L;
          s = (if neOpt v \<noteq> None then s + bencInnerSize L else s)
      in s + SizeFixedSlice_Inner L (nePath v) (bencInnerSize L))"

definition bencNestedMarshal :: "bstd \<Rightarrow> nestedT \<Rightarrow> bytes \<Rightarrow> (bytes \<times> int) outcome" where
  "bencNestedMarshal L v b =
     obind (bput (MarshalString L) (neLabel v) (b, 0)) (\<lambda>s.
     obind (bput (bencInnerMarshal L) (nePos v) s) (\<lambda>s.
     obind (bput (MarshalBool L) (neOpt v \<noteq> None) s) (\<lambda>s.
     obind (case neOpt v of Some x \<Rightarrow> bput (bencInnerMarshal L) x s | None \<Rightarrow> Ok s) (\<lambda>s.
     bput (\<lambda>n b v. MarshalSlice_Inner L n b v (bencInnerMarshal L)) (nePath v) s))))"

definition nested_zero :: nestedT where
  "nested_zero = \<lparr>neLabel = [], nePos = inner_zero, neOpt = None, nePath = []\<rparr>"

definition bencNestedUnmarshal :: "bstd \<Rightarrow> bytes \<Rightarrow> (nestedT \<times> string option) outcome" where
  "bencNestedUnmarshal L b = (let v = nested_zero in
     obind (bget (UnmarshalUnsafeString L) (0, b)) (\<lambda>(s, label, err). if err \<noteq> None then Ok (v, err) else let v = v\<lparr>neLabel := label\<rparr> in
     obind (bget (bencInnerUnmarshal L) s) (\<lambda>(s, x, err). let v = v\<lparr>nePos := x\<rparr> in if err \<noteq> None then Ok (v, err) else
     obind (bget (UnmarshalBool L) s) (\<lambda>(s, present, err). if err \<noteq> None then Ok (v, err) else
     obind (if present then bget (bencInnerUnmarshal L) s else Ok (s, inner_zero, None)) (\<lambda>(s, x, err).
       if err \<noteq> None then Ok (v, err) else let v = (if present then v\<lparr>neOpt := Some x\<rparr> else v) in
     obind (bget (\<lambda>n b. UnmarshalSlice_Inner L n b (bencInnerUnmarshal L)) s) (\<lambda>(s, path, err).
       Ok (v\<lparr>nePath := path\<rparr>, err)))))))"

definition bencCollectionSize :: "bstd \<Rightarrow> collectionT \<Rightarrow> int" where
  "bencCollectionSize L v = SizeMap L (coCounts v) (SizeString L) (SizeInt64 L)
     + SizeFixedSlice_float64 L (coFloats v) (SizeFloat64 L) + SizeSlice_string L (coNames v) (SizeString L)"

definition bencCollectionMarshal :: "bstd \<Rightarrow> collectionT \<Rightarrow> bytes \<Rightarrow> (bytes \<times> int) outcome" where
  "bencCollectionMarshal L v b =
     obind (bput (\<lambda>n b v. MarshalMap L n b v (MarshalString L) (MarshalInt64 L)) (coCounts v) (b, 0)) (\<lambda>s.
     obind (bput (\<lambda>n b v. MarshalSlice_float64 L n b v (MarshalFloat64 L)) (coFloats v) s) (\<lambda>s.
     bput (\<lambda>n b v. MarshalSlice_string L n b v (MarshalString L)) (coNames v) s))"

definition collection_zero :: collectionT where
  "collection_zero = \<lparr>coCounts = fmempty, coFloats = [], coNames = []\<rparr>"

definition bencCollectionUnmarshal :: "bstd \<Rightarrow> bytes \<Rightarrow> (collectionT \<times> string option) outcome" where
  "bencCollectionUnmarshal L b = (let v = collection_zero in
     obind (bget (\<lambda>n b. UnmarshalMap L n b (UnmarshalUnsafeString L) (UnmarshalInt64 L)) (0, b)) (\<lambda>(s, counts, err).
       if err \<noteq> None then Ok (v, err) else let v = v\<lparr>coCounts := counts\<rparr> in
     obind (bget (\<lambda>n b. UnmarshalSlice_float64 L n b (UnmarshalFloat64 L)) s) (\<lambda>(s, x, err).
       let v = v\<lparr>coFloats := x\<rparr> in if err \<noteq> None then Ok (v, err) else
     obind (bget (\<lambda>n b. UnmarshalSlice_string L n b (UnmarshalUnsafeString L)) s) (\<lambda>(s, x, err).
       Ok (v\<lparr>coNames := x\<rparr>, err)))))"

definition bencStringHeavySize :: "bstd \<Rightarrow> stringT \<Rightarrow> int" where
  "bencStringHeavySize L v = SizeString L (shTitle v) + SizeString L (shBody v)
     + SizeSlice_string L (shTags v) (SizeString L)"

definition bencStringHeavyMarshal :: "bstd \<Rightarrow> stringT \<Rightarrow> bytes \<Rightarrow> (bytes \<times> int) outcome" where
  "bencStringHeavyMarshal L v b =
     obind (bput (MarshalString L) (shTitle v) (b, 0)) (\<lambda>s.
     obind (bput (MarshalString L) (shBody v) s) (\<lambda>s.
     bput (\<lambda>n b v. MarshalSlice_string L n b v (MarshalString L)) (shTags v) s))"

definition stringHeavy_zero :: stringT where
  "stringHeavy_zero = \<lparr>shTitle = [], shBody = [], shTags = []\<rparr>"

definition bencStringHeavyUnmarshal :: "bstd \<Rightarrow> bytes \<Rightarrow> (stringT \<times> string option) outcome" where
  "bencStringHeavyUnmarshal L b = (let v = stringHeavy_zero in
     obind (bget (UnmarshalUnsafeString L) (0, b)) (\<lambda>(s, title, err). if err \<noteq> None then Ok (v, err) else let v = v\<lparr>shTitle := title\<rparr> in
     obind (bget (UnmarshalUnsafeString L) s) (\<lambda>(s, x, err). let v = v\<lparr>shBody := x\<rparr> in if err \<noteq> None then Ok (v, err) else
     obind (bget (\<lambda>n b. UnmarshalSlice_string L n b (UnmarshalUnsafeString L)) s) (\<lambda>(s, x, err).
       Ok (v\<lparr>shTags := x\<rparr>, err)))))"

subsection \<open>What the library promises\<close>

definition bcodes :: "('a \<Rightarrow> bytes) \<Rightarrow> ('a \<Rightarrow> int) \<Rightarrow> 'a bmar \<Rightarrow> 'a bun \<Rightarrow> bool" where
  "bcodes w sz ma un \<longleftrightarrow> (\<forall>v p b r. sz v = int (length (w v))
     \<and> (length p + length (w v) \<le> length b \<longrightarrow>
          ma (int (length p)) (splice 0 p b) v = Ok (splice 0 (p @ w v) b, int (length (p @ w v))))
     \<and> un (int (length p)) (p @ w v @ r) = Ok (int (length (p @ w v)), v, None))"

definition bencOf :: "('a \<Rightarrow> int) \<Rightarrow> 'a bmar \<Rightarrow> 'a \<Rightarrow> bytes" where
  "bencOf sz ma v = (case ma 0 (replicate (nat (sz v)) 0) v of Ok (b, k) \<Rightarrow> b | _ \<Rightarrow> [])"

definition lawfulB :: "('a \<Rightarrow> int) \<Rightarrow> 'a bmar \<Rightarrow> 'a bun \<Rightarrow> bool" where
  "lawfulB sz ma un \<longleftrightarrow> bcodes (bencOf sz ma) sz ma un"

definition bstdOK :: "bstd \<Rightarrow> bool" where
  "bstdOK L \<longleftrightarrow>
     lawfulB (\<lambda>_. SizeUint64 L) (MarshalUint64 L) (UnmarshalUint64 L)
     \<and> lawfulB (\<lambda>_. SizeFloat64 L) (MarshalFloat64 L) (UnmarshalFloat64 L)
     \<and> lawfulB (\<lambda>_. SizeBool L) (MarshalBool L) (UnmarshalBool L)
     \<and> lawfulB (\<lambda>_. SizeInt32 L) (MarshalInt32 L) (UnmarshalInt32 L)
     \<and> lawfulB (\<lambda>_. SizeInt64 L) (MarshalInt64 L) (UnmarshalInt64 L)
     \<and> lawfulB (\<lambda>_. 4) (MarshalUint32 L) (UnmarshalUint32 L)
     \<and> lawfulB (SizeString L) (MarshalString L) (UnmarshalUnsafeString L)
     \<and> lawfulB (SizeBytes L) (MarshalBytes L) (UnmarshalBytesCropped L)
     \<and> (\<forall>k ma un. lawfulB (\<lambda>_. k) ma un \<longrightarrow> lawfulB (\<lambda>v. SizeFixedSlice_uint32 L v k)
          (\<lambda>n b v. MarshalSlice_uint32 L n b v ma) (\<lambda>n b. UnmarshalSlice_uint32 L n b un))
     \<and> (\<forall>k ma un. lawfulB (\<lambda>_. k) ma un \<longrightarrow> lawfulB (\<lambda>v. SizeFixedSlice_float64 L v k)
          (\<lambda>n b v. MarshalSlice_float64 L n b v ma) (\<lambda>n b. UnmarshalSlice_float64 L n b un))
     \<and> (\<forall>k ma un. lawfulB (\<lambda>_. k) ma un \<longrightarrow> lawfulB (\<lambda>v. SizeFixedSlice_Inner L v k)
          (\<lambda>n b v. MarshalSlice_Inner L n b v ma) (\<lambda>n b. UnmarshalSlice_Inner L n b un))
     \<and> (\<forall>sz ma un. lawfulB sz ma un \<longrightarrow> lawfulB (\<lambda>v. SizeSlice_string L v sz)
          (\<lambda>n b v. MarshalSlice_string L n b v ma) (\<lambda>n b. UnmarshalSlice_string L n b un))
     \<and> (\<forall>sz ma un k vma vun. lawfulB sz ma un \<longrightarrow> lawfulB (\<lambda>_. k) vma vun \<longrightarrow>
          lawfulB (\<lambda>m. SizeMap L m sz k) (\<lambda>n b m. MarshalMap L n b m ma vma) (\<lambda>n b. UnmarshalMap L n b un vun))"

subsection \<open>Composition\<close>

text \<open>A position behind what has been read, with the buffer.\<close>

definition seen :: "bytes \<Rightarrow> bytes \<Rightarrow> int \<times> bytes" where
  "seen p r = (int (length p), p @ r)"

lemma starts: "bput ma v (b, 0) = bput ma v (wrote [] b)" "bget un (0, b) = bget un (seen [] b)"
  by (simp_all add: wrote_def seen_def)

lemma lawfulB_eqs:
  assumes "lawfulB sz ma un"
  shows "int (length (bencOf sz ma v)) = sz v"
    and "length p + length (bencOf sz ma v) \<le> length b \<Longrightarrow> bput ma v (wrote p b) = Ok (wrote (p @ bencOf sz ma v) b)"
    and "bget un (seen p (bencOf sz ma v @ r)) = Ok (seen (p @ bencOf sz ma v) r, v, None)"
  using assms by (simp_all add: lawfulB_def bcodes_def bput_def bget_def wrote_def seen_def)

lemma lawfulBI:
  assumes "\<And>v. sz v = int (length (w v))"
    and "\<And>v p b. length p + length (w v) \<le> length b \<Longrightarrow> bput ma v (wrote p b) = Ok (wrote (p @ w v) b)"
    and "\<And>v p r. bget un (seen p (w v @ r)) = Ok (seen (p @ w v) r, v, None)"
  shows "lawfulB sz ma un" and "bencOf sz ma = w"
proof -
  have un: "un (int (length p)) (p @ w v @ r) = Ok (int (length (p @ w v)), v, None)" for v p r
    using assms(3) [of p v r] by (cases "un (int (length p)) (p @ w v @ r)") (auto simp: bget_def seen_def)
  then have c: "bcodes w sz ma un" using assms(1,2) by (simp add: bcodes_def bput_def wrote_def)
  have "bencOf sz ma v = w v" for v
    using assms(1) [of v] assms(2) [of "[]" v "replicate (length (w v)) 0"]
    by (simp add: bencOf_def bput_def wrote_def splice_whole)
  then show "bencOf sz ma = w" by blast
  then show "lawfulB sz ma un" using c by (simp add: lawfulB_def)
qed

lemma lawful_bencInner:
  assumes "bstdOK L"
  shows "lawfulB (\<lambda>_. bencInnerSize L) (bencInnerMarshal L) (bencInnerUnmarshal L)"
proof -
  have l: "lawfulB (\<lambda>_. SizeInt32 L) (MarshalInt32 L) (UnmarshalInt32 L)" using assms by (simp add: bstdOK_def)
  let ?e = "bencOf (\<lambda>_. SizeInt32 L) (MarshalInt32 L)"
  show ?thesis
  proof (rule lawfulBI)
    fix v :: innerT and p b r :: bytes
    show "bencInnerSize L = int (length (?e (inX v) @ ?e (inY v)))"
      by (simp add: bencInnerSize_def lawfulB_eqs(1) [OF l])
    show "bput (bencInnerMarshal L) v (wrote p b) = Ok (wrote (p @ ?e (inX v) @ ?e (inY v)) b)"
      if "length p + length (?e (inX v) @ ?e (inY v)) \<le> length b"
    proof -
      have "bput (bencInnerMarshal L) v s = obind (bput (MarshalInt32 L) (inX v) s) (bput (MarshalInt32 L) (inY v))" for s
        by (simp add: bput_def [of "bencInnerMarshal L"] bencInnerMarshal_def)
      then show ?thesis using that by (simp add: lawfulB_eqs [OF l])
    qed
    have "bencInnerUnmarshal L (fst (seen p (?e (inX v) @ ?e (inY v) @ r))) (snd (seen p (?e (inX v) @ ?e (inY v) @ r)))
        = Ok (fst (seen (p @ ?e (inX v) @ ?e (inY v)) r), v, None)"
      by (simp add: bencInnerUnmarshal_def lawfulB_eqs [OF l] inner_zero_def Let_def)
    then show "bget (bencInnerUnmarshal L) (seen p ((?e (inX v) @ ?e (inY v)) @ r))
        = Ok (seen (p @ ?e (inX v) @ ?e (inY v)) r, v, None)"
      by (simp add: bget_def) (simp add: seen_def)
  qed
qed

lemma bstdOK_fns:
  assumes "bstdOK L"
  shows "lawfulB (\<lambda>_. SizeUint64 L) (MarshalUint64 L) (UnmarshalUint64 L)"
    "lawfulB (\<lambda>_. SizeFloat64 L) (MarshalFloat64 L) (UnmarshalFloat64 L)"
    "lawfulB (\<lambda>_. SizeBool L) (MarshalBool L) (UnmarshalBool L)"
    "lawfulB (\<lambda>_. SizeInt32 L) (MarshalInt32 L) (UnmarshalInt32 L)"
    "lawfulB (SizeString L) (MarshalString L) (UnmarshalUnsafeString L)"
    "lawfulB (SizeBytes L) (MarshalBytes L) (UnmarshalBytesCropped L)"
    "lawfulB (\<lambda>v. SizeFixedSlice_uint32 L v 4) (\<lambda>n b v. MarshalSlice_uint32 L n b v (MarshalUint32 L))
       (\<lambda>n b. UnmarshalSlice_uint32 L n b (UnmarshalUint32 L))"
    "lawfulB (\<lambda>v. SizeFixedSlice_float64 L v (SizeFloat64 L)) (\<lambda>n b v. MarshalSlice_float64 L n b v (MarshalFloat64 L))
       (\<lambda>n b. UnmarshalSlice_float64 L n b (UnmarshalFloat64 L))"
    "lawfulB (\<lambda>v. SizeFixedSlice_Inner L v (bencInnerSize L)) (\<lambda>n b v. MarshalSlice_Inner L n b v (bencInnerMarshal L))
       (\<lambda>n b. UnmarshalSlice_Inner L n b (bencInnerUnmarshal L))"
    "lawfulB (\<lambda>v. SizeSlice_string L v (SizeString L)) (\<lambda>n b v. MarshalSlice_string L n b v (MarshalString L))
       (\<lambda>n b. UnmarshalSlice_string L n b (UnmarshalUnsafeString L))"
    "lawfulB (\<lambda>m. SizeMap L m (SizeString L) (SizeInt64 L)) (\<lambda>n b m. MarshalMap L n b m (MarshalString L) (MarshalInt64 L))
       (\<lambda>n b. UnmarshalMap L n b (UnmarshalUnsafeString L) (UnmarshalInt64 L))"
    "lawfulB (\<lambda>_. bencInnerSize L) (bencInnerMarshal L) (bencInnerUnmarshal L)"
  using assms lawful_bencInner [OF assms] by (simp_all add: bstdOK_def)

text \<open>A codec whose decoder reports no count.\<close>

definition restores :: "('a \<Rightarrow> bytes) \<Rightarrow> ('a \<Rightarrow> int) \<Rightarrow> ('a \<Rightarrow> bytes \<Rightarrow> (bytes \<times> int) outcome)
    \<Rightarrow> (bytes \<Rightarrow> ('a \<times> string option) outcome) \<Rightarrow> bool" where
  "restores w sz ma un \<longleftrightarrow> (\<forall>v b r. sz v = int (length (w v))
     \<and> (length (w v) \<le> length b \<longrightarrow> ma v b = Ok (splice 0 (w v) b, int (length (w v))))
     \<and> un (w v @ r) = Ok (v, None))"

lemma restores_iff: "restores w sz ma un \<longleftrightarrow> (\<forall>v b r. sz v = int (length (w v))
     \<and> (length (w v) \<le> length b \<longrightarrow> ma v b = Ok (wrote (w v) b)) \<and> un (w v @ r) = Ok (v, None))"
  by (simp add: restores_def wrote_def)

text \<open>The encodings of the library's types.\<close>

definition eString :: "bstd \<Rightarrow> bytes \<Rightarrow> bytes" where
  "eString L = bencOf (SizeString L) (MarshalString L)"

definition eBytes :: "bstd \<Rightarrow> bytes \<Rightarrow> bytes" where
  "eBytes L = bencOf (SizeBytes L) (MarshalBytes L)"

definition eFix :: "int \<Rightarrow> 'a bmar \<Rightarrow> 'a \<Rightarrow> bytes" where
  "eFix k ma = bencOf (\<lambda>_. k) ma"

definition eNames :: "bstd \<Rightarrow> bytes list \<Rightarrow> bytes" where
  "eNames L = bencOf (\<lambda>v. SizeSlice_string L v (SizeString L)) (\<lambda>n b v. MarshalSlice_string L n b v (MarshalString L))"

lemmas enc_names = eString_def [symmetric] eBytes_def [symmetric] eFix_def [symmetric] eNames_def [symmetric]

lemma restores_bencRecord:
  assumes "bstdOK L"
  shows "\<exists>w. restores w (bencSize L) (bencMarshal L) (bencUnmarshal L)"
proof -
  note f = bstdOK_fns [OF assms]
  note l = f [THEN lawfulB_eqs(1), unfolded enc_names] f [THEN lawfulB_eqs(2), unfolded enc_names] f [THEN lawfulB_eqs(3), unfolded enc_names]
  have "restores (\<lambda>r. eFix (SizeUint64 L) (MarshalUint64 L) (brID r) @ eFix (SizeFloat64 L) (MarshalFloat64 L) (brScore r)
    @ eFix (SizeBool L) (MarshalBool L) (brActive r) @ eString L (brName r)
    @ bencOf (\<lambda>v. SizeFixedSlice_uint32 L v 4) (\<lambda>n b v. MarshalSlice_uint32 L n b v (MarshalUint32 L)) (brTags r)
    @ eBytes L (brBlob r)) (bencSize L) (bencMarshal L) (bencUnmarshal L)"
    unfolding restores_iff by (simp add: bencSize_def bencMarshal_def bencUnmarshal_def record_zero_def starts l Let_def)
  then show ?thesis by blast
qed

lemma restores_bencShapes:
  assumes "bstdOK L"
  shows "\<exists>w. restores w (bencSmallFixedSize L) (bencSmallFixedMarshal L) (bencSmallFixedUnmarshal L)"
    and "\<exists>w. restores w (bencFlatMixedSize L) (bencFlatMixedMarshal L) (bencFlatMixedUnmarshal L)"
    and "\<exists>w. restores w (bencNestedSize L) (bencNestedMarshal L) (bencNestedUnmarshal L)"
    and "\<exists>w. restores w (bencCollectionSize L) (bencCollectionMarshal L) (bencCollectionUnmarshal L)"
    and "\<exists>w. restores w (bencStringHeavySize L) (bencStringHeavyMarshal L) (bencStringHeavyUnmarshal L)"
proof -
  note f = bstdOK_fns [OF assms]
  note l = f [THEN lawfulB_eqs(1), unfolded enc_names] f [THEN lawfulB_eqs(2), unfolded enc_names] f [THEN lawfulB_eqs(3), unfolded enc_names]
  let ?b = "eFix (SizeBool L) (MarshalBool L)" and ?i = "eFix (SizeInt32 L) (MarshalInt32 L)"
    and ?f = "eFix (SizeFloat64 L) (MarshalFloat64 L)" and ?in = "eFix (bencInnerSize L) (bencInnerMarshal L)"
  have "restores (\<lambda>v. ?i (smA v) @ ?i (smB v) @ ?f (smC v) @ ?b (smD v))
      (bencSmallFixedSize L) (bencSmallFixedMarshal L) (bencSmallFixedUnmarshal L)"
    unfolding restores_iff
    by (simp add: bencSmallFixedSize_def bencSmallFixedMarshal_def bencSmallFixedUnmarshal_def smallFixed_zero_def starts l Let_def)
  then show "\<exists>w. restores w (bencSmallFixedSize L) (bencSmallFixedMarshal L) (bencSmallFixedUnmarshal L)" by blast
  have "restores (\<lambda>v. eFix (SizeUint64 L) (MarshalUint64 L) (fmID v) @ ?f (fmRatio v) @ eString L (fmName v) @ eBytes L (fmData v))
      (bencFlatMixedSize L) (bencFlatMixedMarshal L) (bencFlatMixedUnmarshal L)"
    unfolding restores_iff
    by (simp add: bencFlatMixedSize_def bencFlatMixedMarshal_def bencFlatMixedUnmarshal_def flatMixed_zero_def starts l Let_def)
  then show "\<exists>w. restores w (bencFlatMixedSize L) (bencFlatMixedMarshal L) (bencFlatMixedUnmarshal L)" by blast
  let ?p = "bencOf (\<lambda>v. SizeFixedSlice_Inner L v (bencInnerSize L)) (\<lambda>n b v. MarshalSlice_Inner L n b v (bencInnerMarshal L))"
  have "restores (\<lambda>v. eString L (neLabel v) @ ?in (nePos v) @ ?b (neOpt v \<noteq> None)
      @ (case neOpt v of Some x \<Rightarrow> ?in x | None \<Rightarrow> []) @ ?p (nePath v))
      (bencNestedSize L) (bencNestedMarshal L) (bencNestedUnmarshal L)"
    unfolding restores_iff
  proof (intro allI)
    fix v :: nestedT and b r :: bytes
    obtain n pos opt path where v: "v = \<lparr>neLabel = n, nePos = pos, neOpt = opt, nePath = path\<rparr>" by (cases v)
    show "bencNestedSize L v = int (length (eString L (neLabel v) @ ?in (nePos v) @ ?b (neOpt v \<noteq> None)
            @ (case neOpt v of Some x \<Rightarrow> ?in x | None \<Rightarrow> []) @ ?p (nePath v)))
        \<and> (length (eString L (neLabel v) @ ?in (nePos v) @ ?b (neOpt v \<noteq> None)
            @ (case neOpt v of Some x \<Rightarrow> ?in x | None \<Rightarrow> []) @ ?p (nePath v)) \<le> length b \<longrightarrow>
          bencNestedMarshal L v b = Ok (wrote (eString L (neLabel v) @ ?in (nePos v) @ ?b (neOpt v \<noteq> None)
            @ (case neOpt v of Some x \<Rightarrow> ?in x | None \<Rightarrow> []) @ ?p (nePath v)) b))
        \<and> bencNestedUnmarshal L ((eString L (neLabel v) @ ?in (nePos v) @ ?b (neOpt v \<noteq> None)
            @ (case neOpt v of Some x \<Rightarrow> ?in x | None \<Rightarrow> []) @ ?p (nePath v)) @ r) = Ok (v, None)"
      unfolding v by (cases opt)
        (simp_all add: bencNestedSize_def bencNestedMarshal_def bencNestedUnmarshal_def nested_zero_def starts l Let_def)
  qed
  then show "\<exists>w. restores w (bencNestedSize L) (bencNestedMarshal L) (bencNestedUnmarshal L)" by blast
  let ?c = "bencOf (\<lambda>m. SizeMap L m (SizeString L) (SizeInt64 L)) (\<lambda>n b m. MarshalMap L n b m (MarshalString L) (MarshalInt64 L))"
  let ?fs = "bencOf (\<lambda>v. SizeFixedSlice_float64 L v (SizeFloat64 L)) (\<lambda>n b v. MarshalSlice_float64 L n b v (MarshalFloat64 L))"
  have "restores (\<lambda>v. ?c (coCounts v) @ ?fs (coFloats v) @ eNames L (coNames v))
      (bencCollectionSize L) (bencCollectionMarshal L) (bencCollectionUnmarshal L)"
    unfolding restores_iff
    by (simp add: bencCollectionSize_def bencCollectionMarshal_def bencCollectionUnmarshal_def collection_zero_def starts l Let_def)
  then show "\<exists>w. restores w (bencCollectionSize L) (bencCollectionMarshal L) (bencCollectionUnmarshal L)" by blast
  have "restores (\<lambda>v. eString L (shTitle v) @ eString L (shBody v) @ eNames L (shTags v))
      (bencStringHeavySize L) (bencStringHeavyMarshal L) (bencStringHeavyUnmarshal L)"
    unfolding restores_iff
    by (simp add: bencStringHeavySize_def bencStringHeavyMarshal_def bencStringHeavyUnmarshal_def stringHeavy_zero_def starts l Let_def)
  then show "\<exists>w. restores w (bencStringHeavySize L) (bencStringHeavyMarshal L) (bencStringHeavyUnmarshal L)" by blast
qed

end
