(* ===== verification/BenchDemo.thy ===== *)
theory BenchDemo
  imports BenchBenc "HOL-Library.List_Lexorder"
begin

text \<open>
  Concrete functions in the place of the two libraries, with fixed-width little-endian numbers and
  lists whose elements are each announced by a byte 1 and closed by a byte 0: \<open>demoBstd\<close> and
  \<open>demoMus\<close> satisfy the hypotheses \<open>bstdOK\<close> and \<open>musOK\<close>.
\<close>

subsection \<open>Fixed-width values\<close>

definition fixMar :: "('a \<Rightarrow> bytes) \<Rightarrow> 'a bmar" where
  "fixMar w n b v = (if 0 \<le> n \<and> n + int (length (w v)) \<le> int (length b)
     then Ok (splice (nat n) (w v) b, n + int (length (w v))) else Panic PIndex)"

definition fixUn :: "nat \<Rightarrow> (bytes \<Rightarrow> 'a) \<Rightarrow> 'a bun" where
  "fixUn k f n b = (if 0 \<le> n \<and> n + int k \<le> int (length b)
     then Ok (n + int k, f (take k (drop (nat n) b)), None) else Panic PSlice)"

lemma fix_lawful:
  assumes "\<And>v. length (w v) = k" "\<And>v. f (w v) = v"
  shows "lawfulB (\<lambda>_. int k) (fixMar w) (fixUn k f)" "bencOf (\<lambda>_. int k) (fixMar w) = w"
proof -
  have m: "bput (fixMar w) v (wrote p b) = Ok (wrote (p @ w v) b)" if "length p + length (w v) \<le> length b" for v p b
    using that splice_splice [of 0 p "w v" b] by (simp add: bput_def wrote_def fixMar_def)
  have u: "bget (fixUn k f) (seen p (w v @ r)) = Ok (seen (p @ w v) r, v, None)" for p v r
    using assms by (simp add: bget_def seen_def fixUn_def)
  show "lawfulB (\<lambda>_. int k) (fixMar w) (fixUn k f)" "bencOf (\<lambda>_. int k) (fixMar w) = w"
    using lawfulBI [OF _ m u] assms(1) by simp_all
qed

subsection \<open>Lists\<close>

definition byteMar :: "byte bmar" where "byteMar = fixMar (\<lambda>c. [c])"
definition byteUn :: "byte bun" where "byteUn = fixUn 1 hd"

fun putList :: "'a bmar \<Rightarrow> 'a list \<Rightarrow> bytes \<times> int \<Rightarrow> (bytes \<times> int) outcome" where
  "putList ma [] s = bput byteMar 0 s"
| "putList ma (x # xs) s = obind (bput byteMar 1 s) (\<lambda>s. obind (bput ma x s) (putList ma xs))"

fun getList :: "'a bun \<Rightarrow> nat \<Rightarrow> int \<times> bytes \<Rightarrow> ((int \<times> bytes) \<times> 'a list \<times> string option) outcome" where
  "getList un 0 s = Panic PIndex"
| "getList un (Suc k) s = obind (bget byteUn s) (\<lambda>(s, c, err).
     if c = 0 then Ok (s, [], err)
     else obind (bget un s) (\<lambda>(s, x, err).
       if err \<noteq> None then Ok (s, [], err)
       else obind (getList un k s) (\<lambda>(s, xs, err). Ok (s, x # xs, err))))"

definition listSize :: "('a \<Rightarrow> int) \<Rightarrow> 'a list \<Rightarrow> int" where
  "listSize sz xs = (\<Sum>x \<leftarrow> xs. 1 + sz x) + 1"

definition listMar :: "'a bmar \<Rightarrow> 'a list bmar" where
  "listMar ma n b xs = putList ma xs (b, n)"

definition listUn :: "'a bun \<Rightarrow> 'a list bun" where
  "listUn un n b = obind (getList un (length b) (n, b)) (\<lambda>(s, xs, err). Ok (fst s, xs, err))"

definition listEnc :: "('a \<Rightarrow> bytes) \<Rightarrow> 'a list \<Rightarrow> bytes" where
  "listEnc w xs = concat (map (\<lambda>x. 1 # w x) xs) @ [0]"

lemma byte_eqs:
  "length p < length b \<Longrightarrow> bput byteMar c (wrote p b) = Ok (wrote (p @ [c]) b)"
  "bget byteUn (seen p (c # r)) = Ok (seen (p @ [c]) r, c, None)"
proof -
  have b: "lawfulB (\<lambda>_. 1) byteMar byteUn" "bencOf (\<lambda>_. 1) byteMar = (\<lambda>c. [c])"
    using fix_lawful [of "\<lambda>c. [c]" 1 hd] by (simp_all add: byteMar_def byteUn_def)
  show "length p < length b \<Longrightarrow> bput byteMar c (wrote p b) = Ok (wrote (p @ [c]) b)"
    "bget byteUn (seen p (c # r)) = Ok (seen (p @ [c]) r, c, None)"
    using lawfulB_eqs(2) [OF b(1), of p c b] lawfulB_eqs(3) [OF b(1), of p c r] by (simp_all add: b(2))
qed

lemma putList_wrote:
  assumes "lawfulB sz ma un"
  shows "length p + length (listEnc (bencOf sz ma) xs) \<le> length b \<Longrightarrow>
    putList ma xs (wrote p b) = Ok (wrote (p @ listEnc (bencOf sz ma) xs) b)"
  by (induction xs arbitrary: p) (simp_all add: listEnc_def byte_eqs lawfulB_eqs [OF assms])

lemma getList_seen:
  assumes "lawfulB sz ma un"
  shows "length xs < k \<Longrightarrow> getList un k (seen p (listEnc (bencOf sz ma) xs @ r))
    = Ok (seen (p @ listEnc (bencOf sz ma) xs) r, xs, None)"
proof (induction xs arbitrary: p k)
  case (Cons x xs)
  then show ?case by (cases k) (simp_all add: listEnc_def byte_eqs lawfulB_eqs [OF assms])
next
  case Nil
  then show ?case by (cases k) (simp_all add: listEnc_def byte_eqs)
qed

lemma length_listEnc: "length xs < length (listEnc w xs)"
  by (induction xs) (simp_all add: listEnc_def)

lemma list_lawful:
  assumes "lawfulB sz ma un"
  shows "lawfulB (listSize sz) (listMar ma) (listUn un)"
proof (rule lawfulBI)
  fix xs p b r
  show "listSize sz xs = int (length (listEnc (bencOf sz ma) xs))"
    by (induction xs) (simp_all add: listSize_def listEnc_def lawfulB_eqs(1) [OF assms])
  show "bput (listMar ma) xs (wrote p b) = Ok (wrote (p @ listEnc (bencOf sz ma) xs) b)"
    if "length p + length (listEnc (bencOf sz ma) xs) \<le> length b"
    using putList_wrote [OF assms that] by (simp add: bput_def listMar_def)
  show "bget (listUn un) (seen p (listEnc (bencOf sz ma) xs @ r)) = Ok (seen (p @ listEnc (bencOf sz ma) xs) r, xs, None)"
    using getList_seen [OF assms, of xs "length (snd (seen p (listEnc (bencOf sz ma) xs @ r)))" p r]
      length_listEnc [of xs "bencOf sz ma"]
    by (simp add: bget_def listUn_def) (simp add: seen_def)
qed

subsection \<open>Pairs and pointers\<close>

definition pairMar :: "'a bmar \<Rightarrow> 'b bmar \<Rightarrow> ('a \<times> 'b) bmar" where
  "pairMar ma mb n b xy = obind (bput ma (fst xy) (b, n)) (bput mb (snd xy))"

definition pairUn :: "'a bun \<Rightarrow> 'b bun \<Rightarrow> ('a \<times> 'b) bun" where
  "pairUn un um n b = obind (bget un (n, b)) (\<lambda>(s, x, _). obind (bget um s) (\<lambda>(s, y, err). Ok (fst s, (x, y), err)))"

lemma pair_lawful:
  assumes a: "lawfulB sa ma un" and b: "lawfulB sb mb um"
  shows "lawfulB (\<lambda>xy. sa (fst xy) + sb (snd xy)) (pairMar ma mb) (pairUn un um)"
proof (rule lawfulBI)
  fix xy p b r
  let ?w = "\<lambda>xy. bencOf sa ma (fst xy) @ bencOf sb mb (snd xy)"
  show "sa (fst xy) + sb (snd xy) = int (length (?w xy))" by (simp add: lawfulB_eqs(1) [OF a] lawfulB_eqs(1) [OF assms(2)])
  have "bput (pairMar ma mb) xy s = obind (bput ma (fst xy) s) (bput mb (snd xy))" for s
    by (simp add: bput_def [of "pairMar ma mb"] pairMar_def)
  then show "bput (pairMar ma mb) xy (wrote p b) = Ok (wrote (p @ ?w xy) b)" if "length p + length (?w xy) \<le> length b"
    using that by (simp add: lawfulB_eqs [OF a] lawfulB_eqs [OF assms(2)])
  show "bget (pairUn un um) (seen p (?w xy @ r)) = Ok (seen (p @ ?w xy) r, xy, None)"
    by (simp add: bget_def [of "pairUn un um"] pairUn_def lawfulB_eqs [OF a] lawfulB_eqs [OF assms(2)]) (simp add: seen_def)
qed

text \<open>A value of another type that is written as what \<open>f\<close> makes of it.\<close>

definition viaMar :: "('c \<Rightarrow> 'a) \<Rightarrow> 'a bmar \<Rightarrow> 'c bmar" where
  "viaMar f ma n b v = ma n b (f v)"

definition viaUn :: "('a \<Rightarrow> 'c) \<Rightarrow> 'a bun \<Rightarrow> 'c bun" where
  "viaUn h un n b = obind (un n b) (\<lambda>(n, x, err). Ok (n, h x, err))"

lemma via_lawful:
  assumes "lawfulB sz ma un" and "\<And>v. h (f v) = v"
  shows "lawfulB (\<lambda>v. sz (f v)) (viaMar f ma) (viaUn h un)"
proof -
  let ?e = "bencOf sz ma"
  note l = lawfulB_eqs [OF assms(1)]
  show ?thesis
  proof (rule lawfulBI)
    fix v p b r
    show "sz (f v) = int (length (?e (f v)))" by (simp add: l)
    show "bput (viaMar f ma) v (wrote p b) = Ok (wrote (p @ ?e (f v)) b)" if "length p + length (?e (f v)) \<le> length b"
      using l(2) [OF that] by (simp add: bput_def viaMar_def)
    show "bget (viaUn h un) (seen p (?e (f v) @ r)) = Ok (seen (p @ ?e (f v)) r, v, None)"
      using l(3) [of p "f v" r] assms(2)
      by (cases "un (fst (seen p (?e (f v) @ r))) (snd (seen p (?e (f v) @ r)))")
        (auto simp: bget_def viaUn_def seen_def split: option.splits)
  qed
qed

text \<open>A pointer is a list of at most one element.\<close>

definition ptrList :: "'a option \<Rightarrow> 'a list" where
  "ptrList v = (case v of None \<Rightarrow> [] | Some x \<Rightarrow> [x])"

definition listPtr :: "'a list \<Rightarrow> 'a option" where
  "listPtr xs = (case xs of [] \<Rightarrow> None | x # _ \<Rightarrow> Some x)"

lemma listPtr_ptrList: "listPtr (ptrList v) = v"
  by (cases v) (simp_all add: listPtr_def ptrList_def)

text \<open>A map is the list of its entries in the order of the keys.\<close>

lemma fmap_entries: "fmap_of_list (sorted_list_of_fmap m) = m"
  by (rule fmap_ext) (simp add: fmlookup_of_list)

lemma map_lawful:
  assumes "lawfulB sa ma un" "lawfulB sb mb um"
  shows "lawfulB (\<lambda>m. listSize (\<lambda>xy. sa (fst xy) + sb (snd xy)) (sorted_list_of_fmap m))
    (viaMar sorted_list_of_fmap (listMar (pairMar ma mb))) (viaUn fmap_of_list (listUn (pairUn un um)))"
  by (rule via_lawful [OF list_lawful [OF pair_lawful [OF assms]] fmap_entries])

subsection \<open>Serializers from functions with positions, and back\<close>

definition serOf :: "('a \<Rightarrow> int) \<Rightarrow> 'a bmar \<Rightarrow> 'a bun \<Rightarrow> 'a ser" where
  "serOf sz ma un = \<lparr>sSize = sz, sMarshal = (\<lambda>v b. ma 0 b v),
     sUnmarshal = (\<lambda>b. obind (un 0 b) (\<lambda>(n, v, err). Ok (v, n, err))),
     sSkip = (\<lambda>b. obind (un 0 b) (\<lambda>(n, v, err). Ok (n, err)))\<rparr>"

lemma serOf_lawful:
  assumes "lawfulB sz ma un"
  shows "lawful (serOf sz ma un)"
proof (rule lawfulI(1))
  have e: "sz v = int (length (bencOf sz ma v))
    \<and> (length (bencOf sz ma v) \<le> length b \<longrightarrow> ma 0 b v = Ok (splice 0 (bencOf sz ma v) b, int (length (bencOf sz ma v))))
    \<and> un 0 (bencOf sz ma v @ r) = Ok (int (length (bencOf sz ma v)), v, None)" for v b r
    using assms [unfolded lawfulB_def bcodes_def, THEN spec, of v, THEN spec, of "[]", THEN spec, of b, THEN spec, of r] by simp
  show "codes (bencOf sz ma) (sSize (serOf sz ma un)) (sMarshal (serOf sz ma un)) (sUnmarshal (serOf sz ma un))"
    using e by (simp add: codes_def serOf_def)
  show "sSkip (serOf sz ma un) (bencOf sz ma v @ r) = Ok (int (length (bencOf sz ma v)), None)" for v r
    by (simp add: serOf_def e)
qed

definition marOf :: "'a ser \<Rightarrow> 'a bmar" where
  "marOf s n b v = mput s v (b, n)"

definition unOf :: "'a ser \<Rightarrow> 'a bun" where
  "unOf s n b = obind (mget s b n) (\<lambda>(v, k, err). Ok (n + k, v, err))"

lemma marOf_lawful:
  assumes "lawful s"
  shows "lawfulB (sSize s) (marOf s) (unOf s)"
proof (rule lawfulBI)
  fix v p b r
  show "sSize s v = int (length (encOf s v))" by (rule lawful_size [OF assms])
  show "bput (marOf s) v (wrote p b) = Ok (wrote (p @ encOf s v) b)" if "length p + length (encOf s v) \<le> length b"
    using lawful_mput [OF assms that] by (simp add: bput_def marOf_def)
  show "bget (unOf s) (seen p (encOf s v @ r)) = Ok (seen (p @ encOf s v) r, v, None)"
    by (simp add: bget_def unOf_def seen_def mget_def lawful_unmarshal [OF assms])
qed

subsection \<open>The two libraries\<close>

definition wordMar :: "nat \<Rightarrow> 'a::len word bmar" where "wordMar k = fixMar (le_bytes k)"
definition wordUn :: "nat \<Rightarrow> 'a::len word bun" where "wordUn k = fixUn k word_of_le"
definition boolMar :: "bool bmar" where "boolMar = fixMar (\<lambda>x. [if x then 1 else 0])"
definition boolUn :: "bool bun" where "boolUn = fixUn 1 (\<lambda>b. hd b \<noteq> 0)"

lemma word_lawful:
  "LENGTH('a::len) \<le> 8 * k \<Longrightarrow> lawfulB (\<lambda>_. int k) (wordMar k :: 'a word bmar) (wordUn k)"
  unfolding wordMar_def wordUn_def by (rule fix_lawful) (simp_all add: word_of_le_bytes)

lemma bool_lawful: "lawfulB (\<lambda>_. 1) boolMar boolUn"
  using fix_lawful(1) [of "\<lambda>x. [if x then 1 else 0]" 1 "\<lambda>b. hd b \<noteq> 0"] by (simp add: boolMar_def boolUn_def)

lemma byte_lawful: "lawfulB (\<lambda>_. 1) byteMar byteUn"
  using fix_lawful(1) [of "\<lambda>c. [c]" 1 hd] by (simp add: byteMar_def byteUn_def)

definition demoBstd :: bstd where
  "demoBstd = \<lparr>SizeUint64 = 8, MarshalUint64 = wordMar 8, UnmarshalUint64 = wordUn 8,
     SizeFloat64 = 8, MarshalFloat64 = wordMar 8, UnmarshalFloat64 = wordUn 8,
     SizeBool = 1, MarshalBool = boolMar, UnmarshalBool = boolUn,
     SizeInt32 = 4, MarshalInt32 = wordMar 4, UnmarshalInt32 = wordUn 4,
     SizeInt64 = 8, MarshalInt64 = wordMar 8, UnmarshalInt64 = wordUn 8,
     MarshalUint32 = wordMar 4, UnmarshalUint32 = wordUn 4,
     SizeString = listSize (\<lambda>_. 1), MarshalString = listMar byteMar, UnmarshalUnsafeString = listUn byteUn,
     SizeBytes = listSize (\<lambda>_. 1), MarshalBytes = listMar byteMar, UnmarshalBytesCropped = listUn byteUn,
     SizeFixedSlice_uint32 = (\<lambda>v k. listSize (\<lambda>_. k) v), MarshalSlice_uint32 = (\<lambda>n b v ma. listMar ma n b v),
     UnmarshalSlice_uint32 = (\<lambda>n b un. listUn un n b),
     SizeFixedSlice_float64 = (\<lambda>v k. listSize (\<lambda>_. k) v), MarshalSlice_float64 = (\<lambda>n b v ma. listMar ma n b v),
     UnmarshalSlice_float64 = (\<lambda>n b un. listUn un n b),
     SizeFixedSlice_Inner = (\<lambda>v k. listSize (\<lambda>_. k) v), MarshalSlice_Inner = (\<lambda>n b v ma. listMar ma n b v),
     UnmarshalSlice_Inner = (\<lambda>n b un. listUn un n b),
     SizeSlice_string = (\<lambda>v sz. listSize sz v), MarshalSlice_string = (\<lambda>n b v ma. listMar ma n b v),
     UnmarshalSlice_string = (\<lambda>n b un. listUn un n b),
     SizeMap = (\<lambda>m sz k. listSize (\<lambda>xy. sz (fst xy) + k) (sorted_list_of_fmap m)),
     MarshalMap = (\<lambda>n b m ma mb. viaMar sorted_list_of_fmap (listMar (pairMar ma mb)) n b m),
     UnmarshalMap = (\<lambda>n b un um. viaUn fmap_of_list (listUn (pairUn un um)) n b)\<rparr>"

lemma demoBstd_OK: "bstdOK demoBstd"
  unfolding bstdOK_def demoBstd_def bstd.simps
  using word_lawful [where 'a = 64 and k = 8] word_lawful [where 'a = 32 and k = 4] bool_lawful
  by (intro conjI allI impI) (auto intro!: list_lawful byte_lawful dest: map_lawful)

definition listSer :: "'a ser \<Rightarrow> 'a list ser" where
  "listSer s = serOf (listSize (sSize s)) (listMar (marOf s)) (listUn (unOf s))"

definition ptrSer :: "'a ser \<Rightarrow> 'a option ser" where
  "ptrSer s = serOf (\<lambda>v. listSize (sSize s) (ptrList v)) (viaMar ptrList (listMar (marOf s)))
     (viaUn listPtr (listUn (unOf s)))"

definition mapSer :: "'a::linorder ser \<Rightarrow> 'b ser \<Rightarrow> ('a, 'b) fmap ser" where
  "mapSer s t = serOf (\<lambda>m. listSize (\<lambda>xy. sSize s (fst xy) + sSize t (snd xy)) (sorted_list_of_fmap m))
     (viaMar sorted_list_of_fmap (listMar (pairMar (marOf s) (marOf t))))
     (viaUn fmap_of_list (listUn (pairUn (unOf s) (unOf t))))"

definition word64 :: "u64 ser" where "word64 = serOf (\<lambda>_. 8) (wordMar 8) (wordUn 8)"
definition word32 :: "u32 ser" where "word32 = serOf (\<lambda>_. 4) (wordMar 4) (wordUn 4)"
definition bytesSer :: "bytes ser" where "bytesSer = serOf (listSize (\<lambda>_. 1)) (listMar byteMar) (listUn byteUn)"

definition demoMus :: muslib where
  "demoMus = \<lparr>unsafeUint64 = word64, unsafeFloat64 = word64, unsafeBool = serOf (\<lambda>_. 1) boolMar boolUn,
     unsafeString = bytesSer, unsafeByteSlice = bytesSer, unsafeInt32 = word32, unsafeInt64 = word64,
     rawUint64 = word64, rawFloat64 = word64, rawUint32 = word32, varintUint32 = word32,
     NewSliceSer_uint32 = listSer, NewSliceSer_float64 = listSer, NewSliceSer_string = listSer,
     NewSliceSer_Inner = listSer, NewPtrSer_Inner = ptrSer, NewMapSer = mapSer\<rparr>"

lemma demo_lawful:
  "lawful word64" "lawful word32" "lawful bytesSer" "lawful (serOf (\<lambda>_. 1) boolMar boolUn)"
  "lawful s \<Longrightarrow> lawful (listSer s)" "lawful s \<Longrightarrow> lawful (ptrSer s)"
  "lawful t \<Longrightarrow> lawful u \<Longrightarrow> lawful (mapSer t u)"
  unfolding word64_def word32_def bytesSer_def listSer_def ptrSer_def mapSer_def
  using word_lawful [where 'a = 64 and k = 8] word_lawful [where 'a = 32 and k = 4] bool_lawful byte_lawful
  by (auto intro!: serOf_lawful list_lawful via_lawful [OF list_lawful listPtr_ptrList] map_lawful marOf_lawful)

lemma demoMus_OK: "musOK demoMus"
  by (simp add: musOK_def demoMus_def demo_lawful)

end
