(* ===== verification/BenchProps.thy ===== *)
theory BenchProps
  imports BenchDemo
begin

text \<open>
  The goserde codec that \<open>benchcompare/record.go\<close> copies from \<open>codec.Record\<close>, and what the three
  competitors of the benchmark have in common.
\<close>

subsection \<open>The goserde copy\<close>

definition benchcompare_Size :: "Record \<Rightarrow> int outcome" where
  "benchcompare_Size r =
     (let s = 8 + 8 + 1;
          s = s + (UvarintSize (of_nat (length (vdat (Name r)))) + length (vdat (Name r)));
          s = s + (UvarintSize (of_nat (length (elems (Tags r)))) + 4 * length (elems (Tags r)));
          s = s + (UvarintSize (of_nat (length (elems (Blob r)))) + length (elems (Blob r)))
      in Ok (int s))"

definition benchcompare_Marshal :: "arch \<Rightarrow> Record \<Rightarrow> bytes \<Rightarrow> (bytes \<times> int) outcome" where
  "benchcompare_Marshal A r b =
     obind (onTail b 0 (putU64At (ID r))) (\<lambda>(b, _).
     obind (onTail b 8 (putU64At (F64bits (Score r)))) (\<lambda>(b, _).
     obind (if Active r then setByte b 16 1 else setByte b 16 0) (\<lambda>b. let i = 17 in
     obind (onTail b i (\<lambda>t. PutUvarint t (of_nat (length (vdat (Name r)))))) (\<lambda>(b, i).
     obind (onTail b i (goCopy (vdat (S2B (Name r))))) (\<lambda>(b, i).
     obind (onTail b i (\<lambda>t. PutUvarint t (of_nat (length (elems (Tags r)))))) (\<lambda>(b, i).
     obind (if 0 < length (elems (Tags r)) then onTail b i (goCopy (tagMem A (elems (Tags r))))
            else Ok (b, i)) (\<lambda>(b, i).
     obind (onTail b i (\<lambda>t. PutUvarint t (of_nat (length (elems (Blob r)))))) (\<lambda>(b, i).
     obind (onTail b i (goCopy (elems (Blob r)))) Ok))))))))"

definition benchcompare_Unmarshal ::
  "arch \<Rightarrow> Record \<Rightarrow> bytes \<Rightarrow> bytes \<Rightarrow> nat \<Rightarrow> (Record \<times> int \<times> cerr option) outcome" where
  "benchcompare_Unmarshal A r b spare base =
     obind (obind (sliceFrom b 0) U64) (\<lambda>x. let r = r\<lparr>ID := x\<rparr> in
     obind (obind (sliceFrom b 8) U64) (\<lambda>x. let r = r\<lparr>Score := Bitsf64 x\<rparr> in
     obind (if 16 < length b then Ok (b ! 16) else Panic PIndex) (\<lambda>x. let r = r\<lparr>Active := (x \<noteq> 0)\<rparr>; i = 17 in
     obind (sliceFrom b i) (\<lambda>t. let (n, c) = Uvarint t; i = i + c in
     obind (sliceRange b spare i (i + goInt A n)) (\<lambda>x.
       let r = r\<lparr>Name := B2S \<lparr>vorg = Input (base + nat i), vdat = x\<rparr>\<rparr>; i = i + goInt A n in
     obind (sliceFrom b i) (\<lambda>t. let (n, c) = Uvarint t; i = i + c in
     obind (decodeTags A (Tags r) n b spare i) (\<lambda>(x, i). let r = r\<lparr>Tags := x\<rparr> in
     obind (sliceFrom b i) (\<lambda>t. let (n, c) = Uvarint t; i = i + c in
     obind (sliceRange b spare i (i + goInt A n)) (\<lambda>x.
       let r = r\<lparr>Blob := Sl (Input (base + nat i)) x (drop (nat (i + goInt A n)) (b @ spare))\<rparr>; i = i + goInt A n in
       Ok (r, i, None))))))))))"

lemma benchcompare_Size_eq: "benchcompare_Size r = Record_Size r"
  by (simp add: benchcompare_Size_def Record_Size_def)

lemma obind_Ok [simp]: "obind m Ok = m"
  by (cases m) simp_all

lemma benchcompare_Marshal_eq: "benchcompare_Marshal A r b = Record_Marshal A r b"
  by (simp add: benchcompare_Marshal_def Record_Marshal_def Let_def if_distrib [of "setByte _ _", symmetric])

lemma benchcompare_Unmarshal_eq: "benchcompare_Unmarshal A r b spare base = Record_Unmarshal A r b spare base"
  unfolding benchcompare_Unmarshal_def Record_Unmarshal_def Let_def
  by (rule arg_cong [where f = "obind _"] | rule ext | simp add: split_beta)+

subsection \<open>Property\<close>

text \<open>C31: the codecs the benchmarks compare do the same work.  On serializers that keep the contract of
  the mus and benc libraries, each mus and benc codec, of \<open>Record\<close> and of the five shapes, announces
  the exact size of its encoding, writes it into any large enough buffer, and reads the value back
  without an error whatever bytes follow; the goserde codec of the benchmark is \<open>codec.Record\<close>'s.\<close>

theorem bench_codecs_restore:
  assumes "musOK L" and "bstdOK B"
  shows "(\<exists>w. codes w (musSize L) (musMarshal L) (musUnmarshal L))
    \<and> (\<exists>w. codes w (musRawSize L) (musRawMarshal L) (musRawUnmarshal L))
    \<and> (\<exists>w. codes w (musSmallFixedSize L) (musSmallFixedMarshal L) (musSmallFixedUnmarshal L))
    \<and> (\<exists>w. codes w (musFlatMixedSize L) (musFlatMixedMarshal L) (musFlatMixedUnmarshal L))
    \<and> (\<exists>w. codes w (musNestedSize L) (musNestedMarshal L) (musNestedUnmarshal L))
    \<and> (\<exists>w. codes w (musCollectionSize L) (musCollectionMarshal L) (musCollectionUnmarshal L))
    \<and> (\<exists>w. codes w (musStringHeavySize L) (musStringHeavyMarshal L) (musStringHeavyUnmarshal L))
    \<and> (\<exists>w. restores w (bencSize B) (bencMarshal B) (bencUnmarshal B))
    \<and> (\<exists>w. restores w (bencSmallFixedSize B) (bencSmallFixedMarshal B) (bencSmallFixedUnmarshal B))
    \<and> (\<exists>w. restores w (bencFlatMixedSize B) (bencFlatMixedMarshal B) (bencFlatMixedUnmarshal B))
    \<and> (\<exists>w. restores w (bencNestedSize B) (bencNestedMarshal B) (bencNestedUnmarshal B))
    \<and> (\<exists>w. restores w (bencCollectionSize B) (bencCollectionMarshal B) (bencCollectionUnmarshal B))
    \<and> (\<exists>w. restores w (bencStringHeavySize B) (bencStringHeavyMarshal B) (bencStringHeavyUnmarshal B))
    \<and> benchcompare_Size r = Record_Size r \<and> benchcompare_Marshal A r b = Record_Marshal A r b
    \<and> benchcompare_Unmarshal A r b sp base = Record_Unmarshal A r b sp base"
  using codes_musRecord [OF assms(1)] codes_musShapes [OF assms(1)]
    restores_bencRecord [OF assms(2)] restores_bencShapes [OF assms(2)]
    benchcompare_Size_eq benchcompare_Marshal_eq benchcompare_Unmarshal_eq
  by (intro conjI)

definition nested1 :: nestedT where
  "nested1 = \<lparr>neLabel = [104, 105], nePos = \<lparr>inX = 1, inY = 2\<rparr>, neOpt = Some \<lparr>inX = 3, inY = 4\<rparr>, nePath = []\<rparr>"

theorem bench_codecs_restore_witness:
  "(\<exists>w. musNestedSize demoMus nested1 = int (length w) \<and> musNestedUnmarshal demoMus (w @ [9]) = Ok (nested1, int (length w), None))
   \<and> (\<exists>w. bencNestedSize demoBstd nested1 = int (length w) \<and> bencNestedUnmarshal demoBstd (w @ [9]) = Ok (nested1, None))"
proof -
  have "\<exists>w. codes w (musNestedSize demoMus) (musNestedMarshal demoMus) (musNestedUnmarshal demoMus)"
    "\<exists>w. restores w (bencNestedSize demoBstd) (bencNestedMarshal demoBstd) (bencNestedUnmarshal demoBstd)"
    by (rule bench_codecs_restore [OF demoMus_OK demoBstd_OK, THEN conjunct2, THEN conjunct2, THEN conjunct2,
          THEN conjunct2, THEN conjunct1]
      bench_codecs_restore [OF demoMus_OK demoBstd_OK, THEN conjunct2, THEN conjunct2, THEN conjunct2, THEN conjunct2,
          THEN conjunct2, THEN conjunct2, THEN conjunct2, THEN conjunct2, THEN conjunct2, THEN conjunct2, THEN conjunct1])+
  then show ?thesis unfolding codes_def restores_def by blast
qed

end
