(* ===== verification/Spec2Isabelle.thy ===== *)
theory Spec2Isabelle
  imports CommandProps CodecProps Reencode RunProps StaticProps Findings TextProps BenchProps
begin

text \<open>
  Verification library for goserde: the runtime package \<open>codec\<close> and the code generator
  \<open>cmd/goserdegen\<close>, with the Go code the generator emits.

  \<^bold>\<open>The program.\<close>  \<open>goserdegen\<close> loads the Go package of a directory, collects the structs marked
  \<open>//goserde:generate\<close> and the unions declared by \<open>//goserde:union\<close>, and writes one file with the
  methods \<open>Size\<close>, \<open>Marshal\<close>, \<open>Append\<close> and \<open>Unmarshal\<close> of every struct.  In fast mode these copy
  memory and alias the input; in safe mode (\<open>-safe\<close>) they check every read and write a portable
  format.  The emitted code calls the primitives of \<open>codec\<close>, whose helpers \<open>Bytes\<close>, \<open>Into\<close> and
  \<open>From\<close> run any codec.

  \<^bold>\<open>The code and its model.\<close>
  \<^item> \<open>codec/primitives.go\<close>, \<open>float.go\<close>: \<open>Primitives\<close> (over \<open>Prelude\<close>): one definition per function,
    on byte lists; an index out of range is the outcome \<open>Panic\<close>; slices that \<open>append\<close> extends carry
    their spare capacity and origin; strings and byte slices that alias an input carry the
    position they view.
  \<^item> \<open>cmd/goserdegen/emit.go\<close>, the predicates on types: \<open>GoTypes\<close>.  \<open>gotype\<close> is \<open>go/types\<close> as far as
    the generator looks; \<open>generator\<close> is the struct of that name; \<open>supported\<close>, \<open>fieldsOf\<close>,
    \<open>blittable\<close>, \<open>memCopyable\<close>, \<open>fixedSize\<close> and their helpers are its functions.
  \<^item> \<open>emit.go\<close>, the emitter: \<open>GoIR\<close> has a constructor for every fragment \<open>emitf\<close> writes, \<open>Emit\<close> the
    functions \<open>sizeExpr\<close>, \<open>marshalExpr\<close>, \<open>appendExpr\<close>, \<open>unmarshalExpr\<close> branch by branch, the one-copy
    bodies of blittable structs and \<open>generate\<close>, with the name counter and the import flags passed on
    as state.  \<open>GoText\<close> prints the tree as \<open>emitf\<close>'s format strings do, with the heads of the methods
    and of the file, \<open>relativeTo\<close> and the text of types; \<open>dense\<close> forgets blanks and empty lines, the
    part of the layout that \<open>go/format\<close> settles.
  \<^item> The emitted Go code runs in \<open>GoSem\<close> (values, the memory image of fixed-width types, zero values)
    and \<open>GoExec\<close> (statements on a state with the receiver, the buffer, its capacity, the cursor and
    the temporaries).  \<open>methods\<close> ties the codecs of a file together; codecs written by hand are the
    parameter \<open>U\<close>.
  \<^item> \<open>codec/api.go\<close>: \<open>CodecApi\<close>; \<open>codec/record.go\<close>: \<open>RecordCodec\<close> (over \<open>Memory\<close>).
  \<^item> \<open>cmd/goserdegen/main.go\<close>: \<open>Loader\<close>, from the flags to \<open>main\<close>'s exit status.  The file system, the
    Go parser, the type checker, the build information and the order in which a range visits a map
    are the parameter \<open>world\<close>.
  \<^item> \<open>test/data/shapes\<close>, \<open>test/data/safeshapes\<close>, \<open>example\<close>: \<open>Shapes\<close>, \<open>SafeShapes\<close> and \<open>Example\<close> hold
    the declarations, the last two also the checked-in generated codecs as trees; \<open>shapesWorld\<close>
    (\<open>LoadProps\<close>) is the directory of the first.
  \<^item> \<open>benchcompare\<close>: \<open>BenchMus\<close> and \<open>BenchBenc\<close>, the codecs for the mus and benc libraries, which are the
    parameters \<open>muslib\<close> and \<open>bstd\<close>, maps being finite maps; \<open>BenchProps\<close>, the copy of the \<open>Record\<close> codec; \<open>BenchDemo\<close>,
    concrete functions in the place of the libraries.

  \<^bold>\<open>Specifications.\<close>  \<open>Wire\<close> defines the encoding \<open>wire\<close> of a value by its type, with \<open>wt\<close>, the values
  of a type.  \<open>Decoder\<close> defines \<open>dec\<close>, the decoder of a type as a function of the destination and
  the input; \<open>decAll\<close> is that of a package.  Locales: \<open>writer\<close> (\<open>Writer\<close>), what the three encoders
  share, and its extension \<open>encoder\<close>, interpreted for size, marshal and append; the locales of \<open>CodecApi\<close>, the comments on the
  interfaces \<open>Marshaler\<close> and \<open>Unmarshaler\<close> as laws, interpreted for \<open>Record\<close> and for every generated
  codec (\<open>RecordCodec\<close>, \<open>GenCodec\<close>).

  \<^bold>\<open>What is shown.\<close>
  \<^item> \<open>Primitives\<close>: round trips, bounds, truncation and overflow of the varints, \<open>Append\<close> against \<open>Put\<close>.
  \<^item> \<open>Layout\<close>, \<open>Views\<close>, \<open>Writer\<close>, \<open>EncContract\<close>, \<open>EncSize\<close>, \<open>Encoder\<close>, \<open>EncPut\<close>, \<open>Package\<close>: the emitted
    encoders compute \<open>wire\<close>, by induction on types, fields and call depth; \<open>EncodeProps\<close> states it, and
    that in safe mode they write the same bytes on every machine; \<open>CodecProps\<close> compares the hand-written
    codec of \<open>Record\<close> with the emitted one.
  \<^item> \<open>Refs\<close>, \<open>DecSim\<close>, \<open>DecLoops\<close>, \<open>DecCalls\<close>, \<open>DecShapes\<close>, \<open>DecRefine\<close>: the emitted decoders
    implement \<open>dec\<close>, in both modes and on any input: a simulation, statement by statement.
  \<^item> \<open>DecRead\<close>, \<open>RoundTrip\<close>, \<open>RtPackage\<close>: \<open>dec\<close> inverts \<open>wire\<close> up to \<open>eqv\<close> (origins and capacities of
    slices, skipped fields, nil for empty, times in UTC).  \<open>SafeDec\<close>, \<open>SafePackage\<close>: on any
    bytes a safe-mode \<open>dec\<close> returns, within bounds, with a value of the type.  \<open>DecodeProps\<close>,
    \<open>HostileProps\<close> and \<open>Reencode\<close> carry both over to the emitted code.
  \<^item> \<open>LoadFacts\<close>, \<open>UnionOrder\<close>, \<open>LoadProps\<close>, \<open>CommandProps\<close>, \<open>RunProps\<close>: what \<open>load\<close> accepts, that Go's
    map order does not matter, and what a run that writes a file has established of its codecs.
  \<^item> \<open>Scope\<close>, \<open>Typing\<close>, \<open>Imports\<close>: the rules of Go that a compiler checks, as executable predicates on
    the emitted code (\<open>okFile\<close>: declarations and uses of the temporaries; \<open>tyFile\<close>: static types and
    assignability, distinct cases of a switch, type names that no local hides, one codec for a
    struct and no method named like a field; \<open>filePkgs\<close>: the packages named), and that the emitter
    keeps them, by induction on types; \<open>StaticProps\<close> states it of the files a run writes, under
    conditions (\<open>compilable\<close>, \<open>domesticFields\<close>) that \<open>Findings\<close> shows to be needed.
    The locales \<open>quiet_atoms\<close> and \<open>typed_atoms\<close> do \<open>Marshal\<close> and \<open>Append\<close> at once.
  \<^item> \<open>CheckedIn\<close>, \<open>TextProps\<close>: the command writes the three generated files that are in the repository
    (\<open>FileText\<close> holds their lines) when run with the arguments of the
    \<open>go:generate\<close> lines: the text of the tree is theirs up to \<open>dense\<close>, which ties the constructors of \<open>GoIR\<close> to the format strings.  \<open>GoText\<close>: names in the text are distinct, and \<open>addrOf\<close>
    on strings is \<open>addrOf\<close> on the tree.
    \<open>Findings\<close>: inputs on which the program departs from its documentation.
  \<^item> \<open>BenchProps\<close>: the codecs that the benchmarks compare restore what they write, on libraries that
    keep their contracts (\<open>musOK\<close>, \<open>bstdOK\<close>).

  \<^bold>\<open>Bounds and fuel.\<close>  Lengths are bounded as Go bounds them (\<open>lenOK\<close>: an \<open>int\<close> holds them).  In
  \<open>methods c cs U k\<close> nested method calls go at most \<open>k\<close> deep, and deeper ones yield \<open>NoFuel\<close>.  The
  nesting \<open>sdepth v\<close> of the value is enough for encoding and for decoding what was encoded; on
  arbitrary input \<open>enough\<close>, one more than the length of the input times the by-value nesting
  \<open>cDepth\<close> of the package, is enough in safe mode (\<open>safe_terminates\<close>).  \<open>cDepth\<close> is also the depth to
  which zero values are built; \<open>zerosOK\<close> says that it suffices.

  \<^bold>\<open>Named hypotheses.\<close>  \<open>checker w\<close>: the type checker's scope has distinct names, resolves
  declared types to themselves, and admits only structs whose fields and methods have distinct names,
  the blank name apart.  \<open>wfGen\<close>: exported fields have distinct names, and the members of unions and
  the structs with codecs by hand are targets.
  \<open>ownedOK\<close>, \<open>ownedRT\<close>, \<open>ownedSafe\<close>: codecs written by hand keep the contract of generated ones.
  \<open>portable\<close>: times in the range of \<open>UnixNano\<close>, maps with keys that stay distinct, members at
  least one byte long where a count is checked against the input.

  \<^bold>\<open>Not modelled.\<close>  The indentation and spacing of the emitted text (\<open>go/format\<close>), the spellings
  \<open>byte\<close> and \<open>rune\<close> of \<open>uint8\<close> and \<open>int32\<close>, and the text of messages; the error branch of
  \<open>formatSource\<close>, which text that parses does not take; types with parameters (a marked generic struct
  is accepted by \<open>collectTargets\<close> and its codec does not compile); packages that redeclare predeclared
  names or the imports of the file; the code inside \<open>go/parser\<close>, \<open>go/types\<close> and \<open>flag\<close>.  Values are trees:
  two pointers to one object, or a destination that shares memory with itself, are not
  represented, and a destination after an error is only described as far as the theorems say.
  Types are finite terms, so \<open>type T []T\<close> has none.  In fast mode on bytes that no encoder wrote,
  the product of a hostile count and an element size does not wrap in the model, and the specification
  is silent where Go would read outside the buffer.  The benchmarks themselves (timing loops and
  tests) are not modelled.
\<close>

end
